(* ===== verification/Go_Prelude.thy ===== *)
theory Go_Prelude
  imports "HOL-Library.Word" "HOL-Library.Monad_Syntax"
begin

text \<open>
  What the component theories share: the machine integers of Go, the byte order
  conversions of the standard library package \<^verbatim>\<open>encoding/binary\<close>, slicing, and the
  generic facts on lists, words and options that the component proofs rewrite with.

  Conventions of the whole development:
  \<^item> an unsigned Go integer of \<open>n\<close> bits is \<open>n word\<close>, so \<open>+\<close>, \<open>-\<close> and \<open>*\<close> wrap around;
  \<^item> a Go \<^verbatim>\<open>int\<close> used as a length, an offset or a count is a \<open>nat\<close> or an \<open>int\<close>: it is
    64 bits wide on every platform the server is built for and the values stay far below
    \<open>2 ^ 63\<close>;
  \<^item> a slice is a list; \<open>nil\<close> and the empty slice are the same list, as \<^verbatim>\<open>len\<close>,
    \<^verbatim>\<open>append\<close> and \<^verbatim>\<open>range\<close> do not tell them apart;
  \<^item> an operation that can panic (an index out of range, a nil dereference, an explicit
    \<^verbatim>\<open>panic\<close>) has type \<open>'a option\<close>, and \<open>None\<close> is the panic;
  \<^item> an operation that returns a Go \<^verbatim>\<open>error\<close> has a sum type, \<open>Inl\<close> the error.
\<close>

unbundle bit_operations_syntax

section \<open>Types\<close>

type_synonym u8 = "8 word"
type_synonym u16 = "16 word"
type_synonym u32 = "32 word"
type_synonym u64 = "64 word"
type_synonym i16 = "16 word"
type_synonym i32 = "32 word"
type_synonym i64 = "64 word"
type_synonym bytes = "u8 list"

named_theorems codec_defs \<open>definitions of encoder and decoder operations\<close>
named_theorems word_nat \<open>the natural number a word operation denotes\<close>

section \<open>Byte order\<close>

text \<open>
  \<^verbatim>\<open>binary.LittleEndian.PutUintN\<close> writes the low byte first; \<^verbatim>\<open>binary.LittleEndian.UintN\<close>
  is the bitwise or of the bytes, each shifted to its place. The big endian variants go
  through the same bytes in the reverse order.
\<close>

primrec put_le :: "nat \<Rightarrow> 'a::len word \<Rightarrow> bytes" where
  "put_le 0 w = []"
| "put_le (Suc n) w = ucast w # put_le n (drop_bit 8 w)"

primrec get_le :: "bytes \<Rightarrow> 'a::len word" where
  "get_le [] = 0"
| "get_le (b # bs) = ucast b OR push_bit 8 (get_le bs)"

definition put_be :: "nat \<Rightarrow> 'a::len word \<Rightarrow> bytes" where
  "put_be n w = rev (put_le n w)"

definition get_be :: "bytes \<Rightarrow> 'a::len word" where
  "get_be bs = get_le (rev bs)"

text \<open>The slice expression \<^verbatim>\<open>xs[i:j]\<close>.\<close>

definition subslice :: "nat \<Rightarrow> nat \<Rightarrow> 'a list \<Rightarrow> 'a list" where
  "subslice i j xs = take (j - i) (drop i xs)"

section \<open>Byte order lemmas\<close>

lemma length_put_le [simp]: "length (put_le n w) = n"
  by (induction n arbitrary: w) auto

lemma length_put_be [simp]: "length (put_be n w) = n"
  by (simp add: put_be_def)

lemma get_le_put_le: "get_le (put_le n w) = take_bit (8 * n) w"
proof (induction n arbitrary: w)
  case 0
  show ?case by simp
next
  case (Suc n)
  have "ucast (ucast w :: u8) OR push_bit 8 (take_bit (8 * n) (drop_bit 8 w)) =
        take_bit (8 * Suc n) w"
    by (rule bit_word_eqI)
       (auto simp: bit_simps)
  with Suc.IH show ?case by simp
qed

lemma get_le_put_le_full [simp]:
  "LENGTH('a) \<le> 8 * n \<Longrightarrow> get_le (put_le n (w :: 'a::len word)) = w"
  by (simp add: get_le_put_le take_bit_word_eq_self)

lemma get_be_put_be_full [simp]:
  "LENGTH('a) \<le> 8 * n \<Longrightarrow> get_be (put_be n (w :: 'a::len word)) = w"
  by (simp add: get_be_def put_be_def)

section \<open>Words as natural numbers\<close>

lemma unat_drop_bit_div [word_nat]: "unat (drop_bit n w) = unat w div 2 ^ n"
  for w :: "'a::len word"
  by (subst unat_drop_bit_eq) (rule drop_bit_eq_div)

section \<open>Slices\<close>

lemma length_subslice [simp]: "j \<le> length xs \<Longrightarrow> length (subslice i j xs) = j - i"
  by (simp add: subslice_def)

lemma subslice_append_mid [simp]: "subslice (length xs) (length xs + length ys) (xs @ ys @ zs) = ys"
  by (simp add: subslice_def)

lemma subslice_same [simp]: "subslice i i xs = []"
  by (simp add: subslice_def)

section \<open>Bits\<close>

lemma bit_int_127: "bit (127 :: int) n \<longleftrightarrow> n < 7"
  using bit_mask_iff[where 'a=int, of 7 n] by (simp add: mask_eq_exp_minus_1)

lemma bit_int_128: "bit (128 :: int) n \<longleftrightarrow> n = 7"
  using bit_exp_iff[where 'a=int, of 7 n] by simp

lemma disjoint_low:
  fixes x y :: "'a::len word"
  assumes "take_bit s x = x"
  shows "x + push_bit s y = x OR push_bit s y"
proof -
  have "take_bit s x AND push_bit s y = 0"
    by (rule bit_word_eqI) (auto simp: bit_simps)
  then show ?thesis using assms by (simp add: disjunctive_add_eq_or)
qed

lemma take_bit_eq_self_unat: "take_bit n x = x \<longleftrightarrow> unat x < 2 ^ n" for x :: "'a::len word"
proof -
  have "take_bit n x = x \<longleftrightarrow> unat (drop_bit n x) = 0"
    by (simp add: take_bit_eq_self_iff_drop_bit_eq_0 unsigned_eq_0_iff)
  also have "\<dots> \<longleftrightarrow> unat x < 2 ^ n"
    by (simp add: unat_drop_bit_div div_eq_0_iff)
  finally show ?thesis .
qed

lemma drop_Cons_nth: "drop i xs = y # ys \<Longrightarrow> i < length xs \<and> xs ! i = y \<and> drop (i + 1) xs = ys"
proof -
  assume eq: "drop i xs = y # ys"
  then have "i < length xs" by (metis drop_all list.distinct(1) not_le)
  with eq show ?thesis using Cons_nth_drop_Suc [of i xs] by simp
qed

lemma ucast_up_down: "ucast (ucast (v :: u32) :: u64) = v"
  by (rule bit_word_eqI) (simp add: bit_simps)

lemma bit_signed_drop_all:
  fixes v :: "'a::len word"
  assumes "Suc k = LENGTH('a)"
  shows "bit (signed_drop_bit k v) n \<longleftrightarrow> n < LENGTH('a) \<and> bit v k"
proof -
  have k: "LENGTH('a) - 1 = k" using assms by linarith
  have "LENGTH('a) - k \<le> n \<or> n = 0" using assms by linarith
  moreover have "LENGTH('a) - k \<noteq> 0" using assms by linarith
  ultimately show ?thesis
    by (elim disjE) (simp_all only: bit_signed_drop_bit_iff k if_True if_False, auto dest: bit_imp_le_length)
qed

lemma bit_push_one: "bit (push_bit 1 (v :: 'a::len word)) n \<longleftrightarrow> n < LENGTH('a) \<and> 0 < n \<and> bit v (n - 1)"
  by (simp only: bit_push_bit_iff possible_bit_word) auto

lemma ucast_and_one: "ucast ((ucast (w :: u32) :: u64) AND 1) = w AND 1"
  by (rule bit_word_eqI) (simp only: bit_ucast_iff bit_and_iff bit_1_iff, auto)

end
