(* ===== verification/Codec.thy ===== *)
theory Codec
  imports Go_Prelude
begin

text \<open>
  The byte codec of \<^verbatim>\<open>server/libs/codec/simple_codec.go\<close> and
  \<^verbatim>\<open>server/libs/codec/varint_codec.go\<close>: an append-only encoder and a cursor decoder that
  counts its failures instead of raising them.

  The reference count an encoder carries is \<^verbatim>\<open>server/libs/pool/reference_count.go\<close>. The
  protobuf messages are generated code: \<open>PBCodec\<close> is the interface the codec calls them
  through, and every operation that needs one takes it as an argument. The laws of the codec
  are in \<open>Codec_Laws\<close>.
\<close>

section \<open>Reference counts\<close>

text \<open>\<^verbatim>\<open>AddInt32\<close> wraps at 32 bits; the test on its result is signed.\<close>

type_synonym ReferenceCount = i32

definition ReferenceCount_Reset :: "ReferenceCount \<Rightarrow> ReferenceCount" where
  "ReferenceCount_Reset r = 1"

definition AddReferenceCount :: "ReferenceCount \<Rightarrow> ReferenceCount" where
  "AddReferenceCount r = r + 1"

text \<open>The flag says that the object is still referenced.\<close>

definition SubReferenceCount :: "ReferenceCount \<Rightarrow> bool \<times> ReferenceCount" where
  "SubReferenceCount r = (let r = r - 1 in (0 <s r, r))"

definition GetReferenceCount :: "ReferenceCount \<Rightarrow> i32" where
  "GetReferenceCount r = r"

section \<open>Encoder\<close>

record SimpleEncoder =
  enc_buf :: bytes
  enc_refs :: ReferenceCount

text \<open>\<^verbatim>\<open>e.buf = append(e.buf, bs...)\<close>\<close>

definition append_buf :: "bytes \<Rightarrow> SimpleEncoder \<Rightarrow> SimpleEncoder" where
  "append_buf bs e = e\<lparr>enc_buf := enc_buf e @ bs\<rparr>"

definition WriteBool :: "bool \<Rightarrow> SimpleEncoder \<Rightarrow> SimpleEncoder" where
  "WriteBool v e = (if v then append_buf [1] e else append_buf [0] e)"

definition WriteU8 :: "u8 \<Rightarrow> SimpleEncoder \<Rightarrow> SimpleEncoder" where
  "WriteU8 v e = append_buf [v] e"

definition WriteU16 :: "u16 \<Rightarrow> SimpleEncoder \<Rightarrow> SimpleEncoder" where
  "WriteU16 v e = append_buf (put_le 2 v) e"

definition WriteU32 :: "u32 \<Rightarrow> SimpleEncoder \<Rightarrow> SimpleEncoder" where
  "WriteU32 v e = append_buf (put_le 4 v) e"

definition WriteU64 :: "u64 \<Rightarrow> SimpleEncoder \<Rightarrow> SimpleEncoder" where
  "WriteU64 v e = append_buf (put_le 8 v) e"

definition WriteU16Slice :: "u16 list \<Rightarrow> SimpleEncoder \<Rightarrow> SimpleEncoder" where
  "WriteU16Slice vs e =
     fold (\<lambda>v e. append_buf (put_le 2 v) e) vs (WriteU32 (of_nat (length vs)) e)"

definition WriteU32Slice :: "u32 list \<Rightarrow> SimpleEncoder \<Rightarrow> SimpleEncoder" where
  "WriteU32Slice vs e =
     fold (\<lambda>v e. append_buf (put_le 4 v) e) vs (WriteU32 (of_nat (length vs)) e)"

text \<open>Panics unless the address has 16 bytes.\<close>

definition WriteIPv6 :: "bytes \<Rightarrow> SimpleEncoder \<Rightarrow> SimpleEncoder option" where
  "WriteIPv6 v e = (if length v \<noteq> 16 then None else Some (append_buf v e))"

text \<open>A longer string is cut to 255 bytes.\<close>

definition WriteString255 :: "bytes \<Rightarrow> SimpleEncoder \<Rightarrow> SimpleEncoder" where
  "WriteString255 v e =
     (let l = (if length v > 255 then 255 else length v)
      in append_buf (take l v) (append_buf [of_nat l] e))"

definition WriteRawString :: "bytes \<Rightarrow> SimpleEncoder \<Rightarrow> SimpleEncoder" where
  "WriteRawString v e = append_buf v e"

definition WriteBytes :: "bytes \<Rightarrow> SimpleEncoder \<Rightarrow> SimpleEncoder" where
  "WriteBytes v e = append_buf v (WriteU32 (of_nat (length v)) e)"

definition Encoder_Reset :: "SimpleEncoder \<Rightarrow> SimpleEncoder" where
  "Encoder_Reset e = e\<lparr>enc_buf := []\<rparr>"

definition Encoder_Bytes :: "SimpleEncoder \<Rightarrow> bytes" where
  "Encoder_Bytes e = enc_buf e"

definition RefOfString :: "SimpleEncoder \<Rightarrow> bytes" where
  "RefOfString e = enc_buf e"

definition Encoder_String :: "SimpleEncoder \<Rightarrow> bytes" where
  "Encoder_String e = enc_buf e"

text \<open>
  The encoder the pool hands out keeps its buffer and starts with one reference. A release
  gives the encoder back to the pool (the flag) when the last reference is gone.
\<close>

definition AcquireSimpleEncoder :: "SimpleEncoder \<Rightarrow> SimpleEncoder" where
  "AcquireSimpleEncoder pooled = pooled\<lparr>enc_refs := ReferenceCount_Reset (enc_refs pooled)\<rparr>"

definition ReleaseSimpleEncoder :: "SimpleEncoder \<Rightarrow> bool \<times> SimpleEncoder" where
  "ReleaseSimpleEncoder encoder =
     (let (used, r) = SubReferenceCount (enc_refs encoder); encoder = encoder\<lparr>enc_refs := r\<rparr> in
      if used then (False, encoder) else (True, Encoder_Reset encoder))"

definition PseudoCloneSimpleEncoder :: "SimpleEncoder \<Rightarrow> SimpleEncoder" where
  "PseudoCloneSimpleEncoder encoder = encoder\<lparr>enc_refs := AddReferenceCount (enc_refs encoder)\<rparr>"

text \<open>
  A message type: \<open>MarshalTo\<close> returns the buffer it was given with the message written into
  it and the number of bytes written, \<open>Unmarshal\<close> the message filled from the bytes; both may
  fail.
\<close>

record 'm PBCodec =
  pb_Size :: "'m \<Rightarrow> nat"
  pb_MarshalTo :: "'m \<Rightarrow> bytes \<Rightarrow> (bytes \<times> nat) option"
  pb_Unmarshal :: "'m \<Rightarrow> bytes \<Rightarrow> 'm option"

text \<open>
  The message is marshalled behind four reserved bytes, which then take its length. A failing
  \<open>MarshalTo\<close> panics, as does a length past the end of the buffer.
\<close>

definition WritePB :: "'m PBCodec \<Rightarrow> 'm \<Rightarrow> SimpleEncoder \<Rightarrow> SimpleEncoder option" where
  "WritePB pb v e =
     (let offset = length (enc_buf e);
          buf = enc_buf e @ replicate (pb_Size pb v + 16) 0 in
      case pb_MarshalTo pb v (drop (offset + 4) buf) of
        None \<Rightarrow> None
      | Some (body, n) \<Rightarrow>
          let buf = take offset buf @ put_le 4 (of_nat n :: u32) @ body in
          if offset + 4 + n > length buf then None
          else Some (e\<lparr>enc_buf := take (offset + 4 + n) buf\<rparr>))"

section \<open>Variable length integers: writing\<close>

function encodeVarint :: "u64 \<Rightarrow> SimpleEncoder \<Rightarrow> SimpleEncoder" where
  "encodeVarint x e =
     (if x \<ge> 128
      then encodeVarint (drop_bit 7 x) (append_buf [ucast (x AND 0x7f OR 0x80)] e)
      else append_buf [ucast x] e)"
  by pat_completeness auto
termination
proof (relation "measure (\<lambda>(x, e). unat x)")
  fix x :: u64 and e :: SimpleEncoder
  assume "128 \<le> x"
  then have "128 \<le> unat x" by (simp add: word_le_nat_alt)
  then have "unat x div 128 < unat x" by simp
  then show "((drop_bit 7 x, append_buf [ucast (x AND 0x7f OR 0x80)] e), x, e)
     \<in> measure (\<lambda>(x, e). unat x)"
    by (simp add: unat_drop_bit_div)
qed simp

declare encodeVarint.simps [simp del]

text \<open>\<^verbatim>\<open>(v << 1) ^ uint32(int32(v) >> 31)\<close>: the sign moves to the low bit.\<close>

definition WriteZigzagU32 :: "u32 \<Rightarrow> SimpleEncoder \<Rightarrow> SimpleEncoder" where
  "WriteZigzagU32 v e = encodeVarint (ucast (push_bit 1 v XOR signed_drop_bit 31 v)) e"

definition WriteZigzagU64 :: "u64 \<Rightarrow> SimpleEncoder \<Rightarrow> SimpleEncoder" where
  "WriteZigzagU64 v e = encodeVarint (push_bit 1 v XOR signed_drop_bit 63 v) e"

definition WriteVarintU32 :: "u32 \<Rightarrow> SimpleEncoder \<Rightarrow> SimpleEncoder" where
  "WriteVarintU32 v e = encodeVarint (ucast v) e"

definition WriteVarintU64 :: "u64 \<Rightarrow> SimpleEncoder \<Rightarrow> SimpleEncoder" where
  "WriteVarintU64 v e = encodeVarint v e"

definition WriteBytesWithVarintLen :: "bytes \<Rightarrow> SimpleEncoder \<Rightarrow> SimpleEncoder" where
  "WriteBytesWithVarintLen v e = append_buf v (WriteVarintU32 (of_nat (length v)) e)"

section \<open>Decoder\<close>

text \<open>
  \<open>dec_spare\<close> holds the bytes of the backing array past the slice's length, up to its
  capacity. Only an operation that slices without a length check can see them.
\<close>

record SimpleDecoder =
  dec_buf :: bytes
  dec_spare :: bytes
  dec_offset :: nat
  dec_err :: nat

definition Decoder_Init :: "bytes \<Rightarrow> bytes \<Rightarrow> SimpleDecoder \<Rightarrow> SimpleDecoder" where
  "Decoder_Init buf spare d = d\<lparr>dec_buf := buf, dec_spare := spare, dec_offset := 0, dec_err := 0\<rparr>"

definition advance :: "nat \<Rightarrow> SimpleDecoder \<Rightarrow> SimpleDecoder" where
  "advance n d = d\<lparr>dec_offset := dec_offset d + n\<rparr>"

definition count_err :: "SimpleDecoder \<Rightarrow> SimpleDecoder" where
  "count_err d = d\<lparr>dec_err := dec_err d + 1\<rparr>"

definition overrun :: "SimpleDecoder \<Rightarrow> bool" where
  "overrun d \<longleftrightarrow> dec_offset d > length (dec_buf d)"

text \<open>\<^verbatim>\<open>d.buf[d.offset-n : d.offset]\<close>, the bytes the cursor has just passed\<close>

definition passed :: "nat \<Rightarrow> SimpleDecoder \<Rightarrow> bytes" where
  "passed n d = subslice (dec_offset d - n) (dec_offset d) (dec_buf d)"

definition ReadU8 :: "SimpleDecoder \<Rightarrow> u8 \<times> SimpleDecoder" where
  "ReadU8 d = (let d = advance 1 d in
     if overrun d then (0, count_err d) else (dec_buf d ! (dec_offset d - 1), d))"

definition ReadBool :: "SimpleDecoder \<Rightarrow> bool \<times> SimpleDecoder" where
  "ReadBool d = (let d = advance 1 d in
     if overrun d then (False, count_err d) else (dec_buf d ! (dec_offset d - 1) = 1, d))"

definition ReadU16 :: "SimpleDecoder \<Rightarrow> u16 \<times> SimpleDecoder" where
  "ReadU16 d = (let d = advance 2 d in
     if overrun d then (0, count_err d) else (get_le (passed 2 d), d))"

definition ReadU32 :: "SimpleDecoder \<Rightarrow> u32 \<times> SimpleDecoder" where
  "ReadU32 d = (let d = advance 4 d in
     if overrun d then (0, count_err d) else (get_le (passed 4 d), d))"

definition ReadU64 :: "SimpleDecoder \<Rightarrow> u64 \<times> SimpleDecoder" where
  "ReadU64 d = (let d = advance 8 d in
     if overrun d then (0, count_err d) else (get_le (passed 8 d), d))"

text \<open>The loop \<^verbatim>\<open>for i := l; i > 0; i-- { ret = append(ret, Uint(buf[offset-w*i:offset-w*i+w])) }\<close>\<close>

primrec read_words :: "nat \<Rightarrow> nat \<Rightarrow> SimpleDecoder \<Rightarrow> 'a::len word list" where
  "read_words w 0 d = []"
| "read_words w (Suc i) d =
     get_le (subslice (dec_offset d - w * Suc i) (dec_offset d - w * Suc i + w) (dec_buf d))
       # read_words w i d"

definition ReadU16Slice :: "SimpleDecoder \<Rightarrow> u16 list \<times> SimpleDecoder" where
  "ReadU16Slice d = (let (n, d) = ReadU32 d; l = unat n in
     if l = 0 then ([], d)
     else let d = advance (l * 2) d in
       if overrun d then ([], count_err d) else (read_words 2 l d, d))"

definition ReadU32Slice :: "SimpleDecoder \<Rightarrow> u32 list \<times> SimpleDecoder" where
  "ReadU32Slice d = (let (n, d) = ReadU32 d; l = unat n in
     if l = 0 then ([], d)
     else let d = advance (l * 4) d in
       if overrun d then ([], count_err d) else (read_words 4 l d, d))"

text \<open>The result is the content of the caller's buffer \<open>v\<close> after the call.\<close>

definition ReadIPv6 :: "bytes \<Rightarrow> SimpleDecoder \<Rightarrow> (bytes \<times> SimpleDecoder) option" where
  "ReadIPv6 v d = (if length v \<noteq> 16 then None
     else let d = advance 16 d in
       if overrun d then Some (v, count_err d) else Some (passed 16 d, d))"

definition ReadIPv4 :: "bytes \<Rightarrow> SimpleDecoder \<Rightarrow> (bytes \<times> SimpleDecoder) option" where
  "ReadIPv4 v d = (if length v \<noteq> 4 then None
     else let d = advance 4 d in
       if overrun d then Some (v, count_err d) else Some (passed 4 d, d))"

definition ReadString255 :: "SimpleDecoder \<Rightarrow> bytes \<times> SimpleDecoder" where
  "ReadString255 d = (let (b, d) = ReadU8 d; l = unat b; d = advance l d in
     if overrun d then ([], count_err d) else (passed l d, d))"

definition ReadBytes :: "SimpleDecoder \<Rightarrow> bytes \<times> SimpleDecoder" where
  "ReadBytes d = (let (n, d) = ReadU32 d; l = unat n; d = advance l d in
     if overrun d then ([], count_err d) else (passed l d, d))"

definition Decoder_Offset :: "SimpleDecoder \<Rightarrow> nat" where
  "Decoder_Offset d = dec_offset d"

definition Failed :: "SimpleDecoder \<Rightarrow> bool" where
  "Failed d \<longleftrightarrow> dec_err d \<noteq> 0"

definition IsEnd :: "SimpleDecoder \<Rightarrow> bool" where
  "IsEnd d \<longleftrightarrow> dec_offset d \<ge> length (dec_buf d)"

definition Decoder_Bytes :: "SimpleDecoder \<Rightarrow> bytes" where
  "Decoder_Bytes d = dec_buf d"

section \<open>Variable length integers: reading\<close>

datatype varint_error = ErrUnexpectedEOF | ErrIntegerOverflow

text \<open>
  The loop of \<^verbatim>\<open>decodeVarintSlow\<close>: the value read so far with the new cursor, or with the
  error that stopped it.
\<close>

function slow_loop :: "bytes \<Rightarrow> nat \<Rightarrow> nat \<Rightarrow> u64 \<Rightarrow> u64 \<times> (varint_error + nat)" where
  "slow_loop buf i shift x =
     (if shift < 64
      then if i \<ge> length buf then (x, Inl ErrUnexpectedEOF)
        else let b = buf ! i; x = x OR push_bit shift (ucast b AND 0x7F) in
          if b < 0x80 then (x, Inr (i + 1)) else slow_loop buf (i + 1) (shift + 7) x
      else (x, Inl ErrIntegerOverflow))"
  by pat_completeness auto
termination by (relation "measure (\<lambda>(buf, i, shift, x). 64 - shift)") auto

declare slow_loop.simps [simp del]

definition decodeVarintSlow :: "SimpleDecoder \<Rightarrow> (u64 \<times> varint_error option) \<times> SimpleDecoder" where
  "decodeVarintSlow d =
     (case slow_loop (dec_buf d) (dec_offset d) 0 0 of
        (x, Inl er) \<Rightarrow> ((x, Some er), count_err d)
      | (x, Inr i) \<Rightarrow> ((x, None), d\<lparr>dec_offset := i\<rparr>))"

text \<open>
  The unrolled second to tenth byte of \<^verbatim>\<open>DecodeVarint\<close>: the byte is added whole, and its
  continuation bit is taken back before the next byte. \<open>None\<close> is the fall through after
  the tenth byte.
\<close>

function fast_loop :: "bytes \<Rightarrow> nat \<Rightarrow> nat \<Rightarrow> u64 \<Rightarrow> (u64 \<times> nat) option" where
  "fast_loop buf i shift x =
     (if shift < 64
      then let b = (ucast (buf ! i) :: u64); x = x + push_bit shift b in
        if b AND 0x80 = 0 then Some (x, i + 1)
        else fast_loop buf (i + 1) (shift + 7) (x - push_bit shift 0x80)
      else None)"
  by pat_completeness auto
termination by (relation "measure (\<lambda>(buf, i, shift, x). 64 - shift)") auto

declare fast_loop.simps [simp del]

definition DecodeVarint :: "SimpleDecoder \<Rightarrow> u64 \<times> SimpleDecoder" where
  "DecodeVarint d =
     (let i = dec_offset d; buf = dec_buf d in
      if i \<ge> length buf then (0, count_err d)
      else if buf ! i < 0x80 then (ucast (buf ! i), advance 1 d)
      else if length buf - i < 10 then
        (let ((v, _), d) = decodeVarintSlow d in (v, d))
      else (case fast_loop buf (i + 1) 7 (ucast (buf ! i) - 0x80) of
          Some (x, i) \<Rightarrow> (x, d\<lparr>dec_offset := i\<rparr>)
        | None \<Rightarrow> (0, count_err d)))"

definition ReadZigzagU32 :: "SimpleDecoder \<Rightarrow> u32 \<times> SimpleDecoder" where
  "ReadZigzagU32 d = (let (x, d) = DecodeVarint d in
     (drop_bit 1 (ucast x) XOR signed_drop_bit 31 (push_bit 31 (ucast (x AND 1))), d))"

definition ReadZigzagU64 :: "SimpleDecoder \<Rightarrow> u64 \<times> SimpleDecoder" where
  "ReadZigzagU64 d = (let (x, d) = DecodeVarint d in
     (drop_bit 1 x XOR signed_drop_bit 63 (push_bit 63 (x AND 1)), d))"

definition ReadVarintU32 :: "SimpleDecoder \<Rightarrow> u32 \<times> SimpleDecoder" where
  "ReadVarintU32 d = (let (x, d) = DecodeVarint d in (ucast x, d))"

definition ReadVarintU64 :: "SimpleDecoder \<Rightarrow> u64 \<times> SimpleDecoder" where
  "ReadVarintU64 d = DecodeVarint d"

definition ReadBytesWithVarintLen :: "SimpleDecoder \<Rightarrow> bytes \<times> SimpleDecoder" where
  "ReadBytesWithVarintLen d = (let (n, d) = ReadVarintU32 d; l = unat n; d = advance l d in
     if overrun d then ([], count_err d) else (passed l d, d))"

section \<open>Protobuf messages: reading\<close>

datatype pb_error = PB_OutOfBuf | PB_Unmarshal

definition ReadPB :: "'m PBCodec \<Rightarrow> 'm \<Rightarrow> SimpleDecoder \<Rightarrow> (pb_error option \<times> 'm) \<times> SimpleDecoder" where
  "ReadPB pb m d = (let d = advance 4 d in
     if overrun d then ((Some PB_OutOfBuf, m), count_err d)
     else let n = unat (get_le (passed 4 d) :: u32); d = advance n d in
       if overrun d then ((Some PB_OutOfBuf, m), count_err d)
       else case pb_Unmarshal pb m (passed n d) of
           None \<Rightarrow> ((Some PB_Unmarshal, m), count_err d)
         | Some m \<Rightarrow> ((None, m), d))"

definition Decoder_String :: "SimpleDecoder \<Rightarrow> bytes" where
  "Decoder_String d = dec_buf d"

end
