(* ===== verification/Codec_Laws.thy ===== *)
theory Codec_Laws
  imports Codec
begin

text \<open>
  The laws of the codec.

  The locale \<open>field_codec\<close> is the contract the message types build on: what a write
  appends, the matching read consumes and returns. Every pair of operations of the codec
  interprets it, and lists and pairs of codecs are codecs again. The locale
  \<open>cursor_read\<close> is what a read promises on arbitrary input: it keeps the buffer, never takes
  back an error or a byte, and without a new error it has stayed within the buffer, so that
  one \<open>Failed\<close> at the end of a message covers every read before it.
\<close>

section \<open>Variable length integers\<close>

lemma byte_bit_beyond: "bit (b :: u8) n \<Longrightarrow> n < 7 \<or> n = 7"
  using bit_imp_le_length[of b n] by auto

lemma cont_bit_clear: "(ucast b :: u64) AND 0x80 = 0 \<longleftrightarrow> \<not> bit b 7" for b :: u8
proof
  assume "(ucast b :: u64) AND 0x80 = 0"
  then have "\<not> bit ((ucast b :: u64) AND 0x80) 7" by (simp only: bit_0_eq bot_apply) simp
  then show "\<not> bit b 7" by (simp add: bit_simps bit_int_128)
next
  assume "\<not> bit b 7"
  then show "(ucast b :: u64) AND 0x80 = 0"
    by (intro bit_word_eqI) (auto simp: bit_simps bit_int_128)
qed

lemma bit7_byte: "b < 0x80 \<longleftrightarrow> \<not> bit b 7" for b :: u8
proof -
  have "b < 0x80 \<longleftrightarrow> unat b div 2 ^ 7 = 0"
    by (simp add: word_less_nat_alt div_eq_0_iff)
  also have "\<dots> \<longleftrightarrow> \<not> odd (unat b div 2 ^ 7)"
  proof -
    have "unat b < 256" using unsigned_less[of b, where 'a=nat] by simp
    then have "unat b div 2 ^ 7 < 2" by simp
    then show ?thesis by auto
  qed
  also have "odd (unat b div 2 ^ 7) \<longleftrightarrow> bit b 7"
    using bit_unsigned_iff[where 'a=nat, of b 7] by (simp add: bit_iff_odd)
  finally show ?thesis .
qed

lemma low7_last: "\<not> bit b 7 \<Longrightarrow> (ucast b :: u64) AND 0x7F = ucast b" for b :: u8
  by (rule bit_word_eqI) (auto simp: bit_simps bit_int_127 dest: byte_bit_beyond)

lemma low7_more: "bit b 7 \<Longrightarrow> ((ucast b :: u64) AND 0x7F) + 0x80 = ucast b" for b :: u8
proof -
  assume b: "bit b 7"
  have "((ucast b :: u64) AND 0x7F) AND 0x80 = 0"
    by (rule bit_word_eqI) (auto simp: bit_simps bit_int_127 bit_int_128)
  then have "((ucast b :: u64) AND 0x7F) + 0x80 = (ucast b AND 0x7F) OR 0x80"
    by (rule disjunctive_add_eq_or)
  also have "\<dots> = ucast b"
    by (rule bit_word_eqI) (use b in \<open>auto simp: bit_simps bit_int_127 bit_int_128 dest: byte_bit_beyond\<close>)
  finally show ?thesis .
qed

lemma varint_last_byte:
  fixes b :: u8 and x :: u64
  assumes "take_bit s x = x" "\<not> bit b 7"
  shows "x + push_bit s (ucast b) = x OR push_bit s (ucast b AND 0x7F)"
  unfolding low7_last [OF assms(2)] by (rule disjoint_low) (rule assms)

lemma varint_more_byte:
  fixes b :: u8 and x :: u64
  assumes "take_bit s x = x" "bit b 7"
  shows "x + push_bit s (ucast b) - push_bit s 0x80 = x OR push_bit s (ucast b AND 0x7F)"
  unfolding disjoint_low [OF assms(1), symmetric]
  by (subst low7_more [OF assms(2), symmetric]) (simp only: push_bit_add add_diff_cancel_right' flip: add.assoc)

lemma take_bit_varint_step:
  fixes b :: u8 and x :: u64
  assumes "take_bit s x = x"
  shows "take_bit (s + 7) (x OR push_bit s (ucast b AND 0x7F)) = x OR push_bit s (ucast b AND 0x7F)"
proof -
  have "take_bit (s + 7) (take_bit s x OR push_bit s (ucast b AND 0x7F)) =
        take_bit s x OR push_bit s (ucast b AND 0x7F)"
    by (rule bit_word_eqI) (auto simp: bit_simps bit_int_127)
  then show ?thesis using assms by simp
qed


lemma slow_loop_step:
  assumes "shift < 64" "i < length buf"
  shows "slow_loop buf i shift x =
    (let x' = x OR push_bit shift (ucast (buf ! i) AND 0x7F) in
     if bit (buf ! i) 7 then slow_loop buf (i + 1) (shift + 7) x' else (x', Inr (i + 1)))"
  using assms by (subst slow_loop.simps) (simp only: Let_def bit7_byte if_True if_False not_le if_not_P, simp)

lemma fast_loop_step:
  assumes "shift < 64" "take_bit shift x = x"
  shows "fast_loop buf i shift x =
    (let x' = x OR push_bit shift (ucast (buf ! i) AND 0x7F) in
     if bit (buf ! i) 7 then fast_loop buf (i + 1) (shift + 7) x' else Some (x', i + 1))"
proof (cases "bit (buf ! i) 7")
  case True
  then show ?thesis
    using assms(1) varint_more_byte [OF assms(2) True]
    by (subst fast_loop.simps) (simp only: Let_def cont_bit_clear if_True if_False not_True_eq_False)
next
  case False
  then show ?thesis
    using assms(1) varint_last_byte [OF assms(2) False]
    by (subst fast_loop.simps) (simp only: Let_def cont_bit_clear if_True if_False not_False_eq_True)
qed

lemma fast_loop_slow_loop:
  assumes "take_bit shift x = x" "shift = 7 * k" "i + (10 - k) \<le> length buf"
  shows "(case fast_loop buf i shift x of
      Some (y, j) \<Rightarrow> slow_loop buf i shift x = (y, Inr j)
    | None \<Rightarrow> snd (slow_loop buf i shift x) = Inl ErrIntegerOverflow)"
  using assms
proof (induction "10 - k" arbitrary: i k shift x)
  case 0
  then have "\<not> shift < 64" by simp
  then show ?case by (subst fast_loop.simps, subst slow_loop.simps) simp
next
  case (Suc n)
  let ?x = "x OR push_bit shift (ucast (buf ! i) AND 0x7F)"
  have lt: "shift < 64" "i < length buf" using Suc.hyps(2) Suc.prems by auto
  have "n = 10 - (k + 1)" "shift + 7 = 7 * (k + 1)" "i + 1 + (10 - (k + 1)) \<le> length buf"
    using Suc.hyps(2) Suc.prems by auto
  from Suc.hyps(1) [OF this(1) take_bit_varint_step [OF Suc.prems(1)] this(2,3), of "buf ! i"]
  show ?case
    unfolding fast_loop_step [OF lt(1) Suc.prems(1)] slow_loop_step [OF lt]
    by (simp only: Let_def split: if_split option.split) simp
qed

text \<open>The bytes of a variable length integer, seven bits each, low bits first.\<close>

function varint_bytes :: "u64 \<Rightarrow> bytes" where
  "varint_bytes x =
     (if x \<ge> 128 then ucast (x AND 0x7f OR 0x80) # varint_bytes (drop_bit 7 x) else [ucast x])"
  by pat_completeness auto
termination
proof (relation "measure unat")
  fix x :: u64
  assume "128 \<le> x"
  then have "128 \<le> unat x" by (simp add: word_le_nat_alt)
  then have "unat x div 128 < unat x" by simp
  then show "(drop_bit 7 x, x) \<in> measure unat" by (simp add: unat_drop_bit_div)
qed simp

declare varint_bytes.simps [simp del]

lemma encodeVarint_eq: "encodeVarint x e = append_buf (varint_bytes x) e"
proof (induction x e rule: encodeVarint.induct)
  case (1 x e)
  then show ?case
    by (subst encodeVarint.simps, subst varint_bytes.simps) (simp add: append_buf_def)
qed

lemma ucast_byte_low:
  fixes x :: u64 assumes "x < 128"
  shows "\<not> bit (ucast x :: u8) 7" "ucast (ucast x :: u8) AND 0x7F = x"
proof -
  have "take_bit 7 x = x" using assms by (simp add: take_bit_eq_self_unat word_less_nat_alt)
  moreover have "\<not> bit (ucast (take_bit 7 x) :: u8) 7" by (simp add: bit_simps)
  moreover have "ucast (ucast (take_bit 7 x) :: u8) AND 0x7F = take_bit 7 x"
    by (rule bit_word_eqI) (auto simp: bit_simps bit_int_127)
  ultimately show "\<not> bit (ucast x :: u8) 7" "ucast (ucast x :: u8) AND 0x7F = x" by simp_all
qed

lemma ucast_byte_cont:
  fixes x :: u64
  shows "bit (ucast (x AND 0x7f OR 0x80) :: u8) 7"
    "ucast (ucast (x AND 0x7f OR 0x80) :: u8) AND 0x7F = take_bit 7 x"
  by (auto intro!: bit_word_eqI simp: bit_simps bit_int_127 bit_int_128)

lemma slow_loop_varint_bytes:
  assumes "take_bit (64 - shift) x = x" "shift < 64" "drop i buf = varint_bytes x @ rest"
  shows "slow_loop buf i shift acc = (acc OR push_bit shift x, Inr (i + length (varint_bytes x)))"
  using assms
proof (induction x arbitrary: i shift acc rule: varint_bytes.induct)
  case (1 x)
  show ?case
  proof (cases "128 \<le> x")
    case False
    then have vb: "varint_bytes x = [ucast x]" by (subst varint_bytes.simps) simp
    with "1.prems"(3) have "i < length buf" "buf ! i = ucast x"
      using drop_Cons_nth [of i buf "ucast x" rest] by auto
    then show ?thesis
      using ucast_byte_low [of x] False by (simp add: slow_loop_step [OF "1.prems"(2)] vb not_le)
  next
    case True
    let ?b = "ucast (x AND 0x7f OR 0x80) :: u8" and ?y = "drop_bit 7 x"
    have vb: "varint_bytes x = ?b # varint_bytes ?y"
      using True by (subst varint_bytes.simps) simp
    with "1.prems"(3) have i: "i < length buf" "buf ! i = ?b" "drop (i + 1) buf = varint_bytes ?y @ rest"
      using drop_Cons_nth [of i buf ?b "varint_bytes ?y @ rest"] by auto
    have "128 \<le> unat x" "unat x < 2 ^ (64 - shift)"
      using True "1.prems"(1) by (simp_all add: word_le_nat_alt take_bit_eq_self_unat)
    then have "(2::nat) ^ 7 < 2 ^ (64 - shift)" by simp
    then have lt: "shift + 7 < 64" by (simp only: power_strict_increasing_iff)
    have "take_bit (64 - (shift + 7)) ?y = ?y"
    proof -
      have "take_bit (64 - (shift + 7)) (drop_bit 7 x) = drop_bit 7 (take_bit (64 - shift) x)"
        using lt by (intro bit_word_eqI) (auto simp: bit_simps)
      with "1.prems"(1) show ?thesis by simp
    qed
    from "1.IH" [OF True this lt i(3), of "acc OR push_bit shift (take_bit 7 x)"]
    have "slow_loop buf i shift acc =
        ((acc OR push_bit shift (take_bit 7 x)) OR push_bit (shift + 7) ?y,
          Inr (i + length (varint_bytes x)))"
      using ucast_byte_cont [of x]
      by (simp add: slow_loop_step [OF "1.prems"(2) i(1)] i(2) vb)
    moreover have "(acc OR push_bit shift (take_bit 7 x)) OR push_bit (shift + 7) ?y = acc OR push_bit shift x"
    proof -
      have "take_bit 7 x OR push_bit 7 ?y = x"
        by (rule bit_word_eqI) (auto simp: bit_simps, metis add_diff_inverse_nat)
      then have "push_bit shift (take_bit 7 x) OR push_bit (shift + 7) ?y = push_bit shift x"
        by (metis push_bit_or push_bit_push_bit)
      then show ?thesis by (simp add: or.assoc)
    qed
    ultimately show ?thesis by simp
  qed
qed

section \<open>Decoder positions\<close>

text \<open>The cursor stands in front of the bytes \<open>bs\<close>.\<close>

definition at :: "SimpleDecoder \<Rightarrow> bytes \<Rightarrow> bool" where
  "at d bs \<longleftrightarrow> drop (dec_offset d) (dec_buf d) = bs \<and> dec_offset d \<le> length (dec_buf d)"

lemma at_advance: "at d (bs @ rest) \<Longrightarrow> at (advance (length bs) d) rest"
  by (auto simp: at_def advance_def) (metis append_eq_conv_conj drop_drop add.commute,
     metis (no_types) le_add1 length_append length_drop ordered_cancel_comm_monoid_diff_class.le_diff_conv2 add.commute)

lemma at_not_overrun: "at d (bs @ rest) \<Longrightarrow> \<not> overrun (advance (length bs) d)"
  using at_advance [of d bs rest] by (simp add: at_def overrun_def)

lemma at_passed: "at d (bs @ rest) \<Longrightarrow> passed (length bs) (advance (length bs) d) = bs"
  by (simp add: at_def passed_def advance_def subslice_def)

lemma advance_simps [simp]:
  "advance 0 d = d" "advance m (advance n d) = advance (n + m) d"
  "dec_buf (advance n d) = dec_buf d" "dec_err (advance n d) = dec_err d"
  "dec_offset (advance n d) = dec_offset d + n"
  by (simp_all add: advance_def)

lemma advance_set_offset: "d\<lparr>dec_offset := dec_offset d + n\<rparr> = advance n d"
  by (simp add: advance_def)

lemma DecodeVarint_slow:
  "(case slow_loop (dec_buf d) (dec_offset d) 0 0 of
      (x, Inr i) \<Rightarrow> DecodeVarint d = (x, d\<lparr>dec_offset := i\<rparr>)
    | (x, Inl er) \<Rightarrow> snd (DecodeVarint d) = count_err d)"
proof -
  let ?i = "dec_offset d" and ?buf = "dec_buf d"
  let ?b = "?buf ! ?i"
  consider "?i \<ge> length ?buf" | "?i < length ?buf" "\<not> bit ?b 7"
    | "?i < length ?buf" "bit ?b 7" "length ?buf - ?i < 10"
    | "?i < length ?buf" "bit ?b 7" "?i + 10 \<le> length ?buf" by linarith
  then show ?thesis
  proof cases
    case 1
    then show ?thesis by (subst slow_loop.simps) (simp add: DecodeVarint_def)
  next
    case 2
    then show ?thesis
      by (simp add: slow_loop_step low7_last DecodeVarint_def bit7_byte advance_def Let_def)
  next
    case 3
    then show ?thesis
      by (simp add: DecodeVarint_def bit7_byte decodeVarintSlow_def split: prod.split sum.split)
  next
    case 4
    let ?x = "(ucast ?b :: u64) AND 0x7F"
    have x: "ucast ?b - 0x80 = ?x" using low7_more [OF 4(2)] by (simp add: diff_eq_eq)
    have "take_bit 7 ?x = ?x" by (rule bit_word_eqI) (auto simp: bit_simps bit_int_127)
    from fast_loop_slow_loop [OF this, of 1 "?i + 1" ?buf] 4
    have "case fast_loop ?buf (?i + 1) 7 ?x of
        Some (y, j) \<Rightarrow> slow_loop ?buf (?i + 1) 7 ?x = (y, Inr j)
      | None \<Rightarrow> snd (slow_loop ?buf (?i + 1) 7 ?x) = Inl ErrIntegerOverflow" by simp
    moreover have "slow_loop ?buf ?i 0 0 = slow_loop ?buf (?i + 1) 7 ?x"
      using 4 by (simp add: slow_loop_step)
    moreover have n: "\<not> length ?buf - ?i < 10" using 4(3) by simp
    ultimately show ?thesis
      using 4 n by (auto simp: DecodeVarint_def bit7_byte x Let_def split: prod.splits sum.splits option.splits)
  qed
qed

lemma DecodeVarint_bytes:
  assumes "at d (varint_bytes x @ rest)"
  shows "DecodeVarint d = (x, advance (length (varint_bytes x)) d)"
proof -
  from assms have "slow_loop (dec_buf d) (dec_offset d) 0 0 = (x, Inr (dec_offset d + length (varint_bytes x)))"
    using slow_loop_varint_bytes [of 0 x "dec_offset d" "dec_buf d" rest 0]
    by (simp add: at_def take_bit_word_eq_self)
  with DecodeVarint_slow [of d] show ?thesis by (simp add: advance_def)
qed

primrec read_times :: "nat \<Rightarrow> (SimpleDecoder \<Rightarrow> 'v \<times> SimpleDecoder) \<Rightarrow> SimpleDecoder \<Rightarrow> 'v list \<times> SimpleDecoder" where
  "read_times 0 rd d = ([], d)"
| "read_times (Suc n) rd d = (let (v, d) = rd d; (vs, d) = read_times n rd d in (v # vs, d))"

lemma append_buf_append [simp]: "append_buf ys (append_buf xs e) = append_buf (xs @ ys) e"
  by (simp add: append_buf_def)

lemma append_buf_Nil [simp]: "append_buf [] e = e"
  by (simp add: append_buf_def)

lemma enc_buf_append_buf [simp]: "enc_buf (append_buf bs e) = enc_buf e @ bs"
  by (simp add: append_buf_def)

locale field_codec =
  fixes wr :: "'v \<Rightarrow> SimpleEncoder \<Rightarrow> SimpleEncoder"
    and rd :: "SimpleDecoder \<Rightarrow> 'v \<times> SimpleDecoder"
    and wire :: "'v \<Rightarrow> bytes"
    and ok :: "'v \<Rightarrow> bool"
  assumes wr_wire: "wr v e = append_buf (wire v) e"
    and rd_wire: "ok v \<Longrightarrow> at d (wire v @ rest) \<Longrightarrow> rd d = (v, advance (length (wire v)) d)"
begin

lemma wr_list: "fold wr vs e = append_buf (concat (map wire vs)) e"
  by (induction vs arbitrary: e) (simp_all add: wr_wire)

lemma rd_list:
  "list_all ok vs \<Longrightarrow> at d (concat (map wire vs) @ rest) \<Longrightarrow>
   read_times (length vs) rd d = (vs, advance (length (concat (map wire vs))) d)"
proof (induction vs arbitrary: d)
  case (Cons v vs)
  then have "at d (wire v @ concat (map wire vs) @ rest)" by simp
  from rd_wire [OF _ this] at_advance [OF this] Cons show ?case by simp
qed simp

text \<open>A fresh decoder over what was written returns the value and stops at its end.\<close>

lemma round_trip:
  assumes "ok v" "enc_buf e = []"
  shows "rd (Decoder_Init (enc_buf (wr v e)) sp d) =
    (v, advance (length (wire v)) (Decoder_Init (enc_buf (wr v e)) sp d))"
proof -
  have "at (Decoder_Init (enc_buf (wr v e)) sp d) (wire v @ [])"
    using assms(2) by (simp add: at_def Decoder_Init_def wr_wire)
  from rd_wire [OF assms(1) this] show ?thesis .
qed

end

locale codec_pair = a: field_codec wa ra wirea oka + b: field_codec wb rb wireb okb
  for wa :: "'a \<Rightarrow> SimpleEncoder \<Rightarrow> SimpleEncoder" and ra wirea oka
    and wb :: "'b \<Rightarrow> SimpleEncoder \<Rightarrow> SimpleEncoder" and rb wireb okb
begin

sublocale both: field_codec "\<lambda>(x, y) e. wb y (wa x e)"
  "\<lambda>d. let (x, d) = ra d; (y, d) = rb d in ((x, y), d)"
  "\<lambda>(x, y). wirea x @ wireb y" "\<lambda>(x, y). oka x \<and> okb y"
proof
  fix v :: "'a \<times> 'b" and e
  show "(case v of (x, y) \<Rightarrow> \<lambda>e. wb y (wa x e)) e = append_buf (case v of (x, y) \<Rightarrow> wirea x @ wireb y) e"
    by (simp add: a.wr_wire b.wr_wire split: prod.split)
next
  fix v :: "'a \<times> 'b" and d rest
  obtain x y where v: "v = (x, y)" by (cases v)
  assume "case v of (x, y) \<Rightarrow> oka x \<and> okb y" "at d ((case v of (x, y) \<Rightarrow> wirea x @ wireb y) @ rest)"
  then have ok: "oka x" "okb y" and d: "at d (wirea x @ wireb y @ rest)" by (simp_all add: v)
  from a.rd_wire [OF ok(1) d] b.rd_wire [OF ok(2) at_advance [OF d]]
  show "(let (x, d) = ra d; (y, d) = rb d in ((x, y), d)) =
     (v, advance (length (case v of (x, y) \<Rightarrow> wirea x @ wireb y)) d)"
    by (simp add: v)
qed

end

interpretation c_u8: field_codec WriteU8 ReadU8 "\<lambda>v. [v]" "\<lambda>_. True"
proof
  fix v d rest
  assume d: "at d ([v] @ rest)"
  have "dec_buf d ! dec_offset d = v" using d by (auto simp: at_def dest: drop_Cons_nth)
  then show "ReadU8 d = (v, advance (length [v]) d)"
    using at_not_overrun [OF d] by (simp add: ReadU8_def Let_def)
qed (simp add: WriteU8_def)

interpretation c_bool: field_codec WriteBool ReadBool "\<lambda>v. [of_bool v]" "\<lambda>_. True"
proof
  fix v d rest
  assume d: "at d ([of_bool v] @ rest)"
  have "dec_buf d ! dec_offset d = of_bool v" using d by (auto simp: at_def dest: drop_Cons_nth)
  then show "ReadBool d = (v, advance (length [of_bool v :: u8]) d)"
    using at_not_overrun [OF d] by (simp add: ReadBool_def Let_def)
qed (simp add: WriteBool_def)

lemma read_fixed:
  fixes v :: "'a::len word"
  assumes "at d (put_le n v @ rest)" "LENGTH('a) \<le> 8 * n"
  shows "\<not> overrun (advance n d)" "get_le (passed n (advance n d)) = v"
  using at_not_overrun [OF assms(1)] at_passed [OF assms(1)] assms(2) by simp_all

interpretation c_u16: field_codec WriteU16 ReadU16 "put_le 2" "\<lambda>_. True"
  by unfold_locales (simp_all add: WriteU16_def ReadU16_def read_fixed)

interpretation c_u32: field_codec WriteU32 ReadU32 "put_le 4" "\<lambda>_. True"
  by unfold_locales (simp_all add: WriteU32_def ReadU32_def read_fixed)

interpretation c_u64: field_codec WriteU64 ReadU64 "put_le 8" "\<lambda>_. True"
  by unfold_locales (simp_all add: WriteU64_def ReadU64_def read_fixed)

text \<open>A length field followed by that many bytes.\<close>

lemma read_counted:
  assumes "at d (pre @ body @ rest)"
  shows "\<not> overrun (advance (length pre + length body) d)"
    "passed (length body) (advance (length pre + length body) d) = body"
  using at_not_overrun [of d "pre @ body" rest] at_passed [OF at_advance [OF assms]] assms by simp_all

interpretation c_string255: field_codec WriteString255 ReadString255
  "\<lambda>v. of_nat (min 255 (length v)) # take 255 v" "\<lambda>v. length v \<le> 255"
proof
  fix v e
  show "WriteString255 v e = append_buf (of_nat (min 255 (length v)) # take 255 v) e"
    by (auto simp: WriteString255_def Let_def min_def)
next
  fix v :: bytes and d rest
  assume ok: "length v \<le> 255" and d: "at d ((of_nat (min 255 (length v)) # take 255 v) @ rest)"
  let ?l = "of_nat (length v) :: u8"
  have l: "unat ?l = length v" using ok by (simp add: unat_of_nat)
  from ok d have d: "at d ([?l] @ v @ rest)" by simp
  from c_u8.rd_wire [OF TrueI d] read_counted [OF d] ok l
  show "ReadString255 d = (v, advance (length (of_nat (min 255 (length v)) # take 255 v)) d)"
    by (simp add: ReadString255_def)
qed

interpretation c_bytes: field_codec WriteBytes ReadBytes
  "\<lambda>v. put_le 4 (of_nat (length v) :: u32) @ v" "\<lambda>v. length v < 2 ^ 32"
proof
  fix v e
  show "WriteBytes v e = append_buf (put_le 4 (of_nat (length v) :: u32) @ v) e"
    by (simp add: WriteBytes_def WriteU32_def)
next
  fix v :: bytes and d rest
  let ?l = "of_nat (length v) :: u32"
  assume ok: "length v < 2 ^ 32" and "at d ((put_le 4 ?l @ v) @ rest)"
  then have d: "at d (put_le 4 ?l @ v @ rest)" by simp
  have l: "unat ?l = length v" using ok by (simp add: unat_of_nat)
  from c_u32.rd_wire [OF TrueI d] read_counted [OF d] l
  show "ReadBytes d = (v, advance (length (put_le 4 ?l @ v)) d)"
    by (simp add: ReadBytes_def)
qed

lemma fold_append_words:
  "fold (\<lambda>v e. append_buf (put_le n v) e) vs e = append_buf (concat (map (put_le n) vs)) e"
  by (induction vs arbitrary: e) simp_all

lemma length_concat_words: "length (concat (map (put_le n) vs)) = n * length vs"
  by (induction vs) simp_all

lemma read_words_drop:
  fixes vs :: "'a::len word list"
  assumes "take (w * length vs) (drop (dec_offset d - w * length vs) (dec_buf d)) = concat (map (put_le w) vs)"
    and "w * length vs \<le> dec_offset d" "LENGTH('a) \<le> 8 * w"
  shows "read_words w (length vs) d = vs"
  using assms
proof (induction vs)
  case (Cons v vs)
  let ?o = "dec_offset d - w * Suc (length vs)"
  have w: "take (w + w * length vs) (drop ?o (dec_buf d)) = put_le w v @ concat (map (put_le w) vs)"
    using Cons.prems(1) by simp
  from arg_cong [OF w, of "take w"] have 1: "take w (drop ?o (dec_buf d)) = put_le w v"
    by simp
  from w have "drop w (take (w + w * length vs) (drop ?o (dec_buf d))) = concat (map (put_le w) vs)"
    by simp
  then have 2: "take (w * length vs) (drop (dec_offset d - w * length vs) (dec_buf d)) = concat (map (put_le w) vs)"
    using Cons.prems(2) by (simp add: drop_take)
  from Cons.IH [OF 2] Cons.prems 1 show ?case
    by (simp add: subslice_def)
qed simp

lemma read_words_slice:
  fixes vs :: "'a::len word list"
  assumes "at d (pre @ concat (map (put_le w) vs) @ rest)" "LENGTH('a) \<le> 8 * w"
  shows "\<not> overrun (advance (length pre + w * length vs) d)"
    "read_words w (length vs) (advance (length pre + w * length vs) d) = vs"
proof -
  let ?c = "concat (map (put_le w) vs)"
  have l: "length ?c = w * length vs" by (rule length_concat_words)
  show "\<not> overrun (advance (length pre + w * length vs) d)"
    using read_counted(1) [OF assms(1)] by (simp add: l)
  have "passed (w * length vs) (advance (length pre + w * length vs) d) = ?c"
    using read_counted(2) [OF assms(1)] by (simp add: l)
  then show "read_words w (length vs) (advance (length pre + w * length vs) d) = vs"
    by (intro read_words_drop) (simp_all add: passed_def subslice_def assms(2))
qed

interpretation c_u16slice: field_codec WriteU16Slice ReadU16Slice
  "\<lambda>vs. put_le 4 (of_nat (length vs) :: u32) @ concat (map (put_le 2) vs)" "\<lambda>vs. length vs < 2 ^ 32"
proof
  fix vs e
  show "WriteU16Slice vs e = append_buf (put_le 4 (of_nat (length vs) :: u32) @ concat (map (put_le 2) vs)) e"
    by (simp add: WriteU16Slice_def WriteU32_def fold_append_words)
next
  fix vs :: "u16 list" and d rest
  let ?l = "of_nat (length vs) :: u32"
  assume ok: "length vs < 2 ^ 32" and "at d ((put_le 4 ?l @ concat (map (put_le 2) vs)) @ rest)"
  then have d: "at d (put_le 4 ?l @ concat (map (put_le 2) vs) @ rest)" by simp
  have l: "unat ?l = length vs" using ok by (simp add: unat_of_nat)
  from c_u32.rd_wire [OF TrueI d] read_words_slice [OF d] l
  show "ReadU16Slice d = (vs, advance (length (put_le 4 ?l @ concat (map (put_le 2) vs))) d)"
    by (simp add: ReadU16Slice_def Let_def length_concat_words mult.commute)
qed

interpretation c_u32slice: field_codec WriteU32Slice ReadU32Slice
  "\<lambda>vs. put_le 4 (of_nat (length vs) :: u32) @ concat (map (put_le 4) vs)" "\<lambda>vs. length vs < 2 ^ 32"
proof
  fix vs e
  show "WriteU32Slice vs e = append_buf (put_le 4 (of_nat (length vs) :: u32) @ concat (map (put_le 4) vs)) e"
    by (simp add: WriteU32Slice_def WriteU32_def fold_append_words)
next
  fix vs :: "u32 list" and d rest
  let ?l = "of_nat (length vs) :: u32"
  assume ok: "length vs < 2 ^ 32" and "at d ((put_le 4 ?l @ concat (map (put_le 4) vs)) @ rest)"
  then have d: "at d (put_le 4 ?l @ concat (map (put_le 4) vs) @ rest)" by simp
  have l: "unat ?l = length vs" using ok by (simp add: unat_of_nat)
  from c_u32.rd_wire [OF TrueI d] read_words_slice [OF d] l
  show "ReadU32Slice d = (vs, advance (length (put_le 4 ?l @ concat (map (put_le 4) vs))) d)"
    by (simp add: ReadU32Slice_def Let_def length_concat_words mult.commute)
qed

interpretation c_varint64: field_codec WriteVarintU64 ReadVarintU64 varint_bytes "\<lambda>_. True"
  by unfold_locales (simp_all add: WriteVarintU64_def encodeVarint_eq ReadVarintU64_def DecodeVarint_bytes)

interpretation c_varint32: field_codec WriteVarintU32 ReadVarintU32 "\<lambda>v. varint_bytes (ucast v)" "\<lambda>_. True"
  by unfold_locales (simp_all add: WriteVarintU32_def encodeVarint_eq ReadVarintU32_def DecodeVarint_bytes ucast_up_down)

interpretation c_vbytes: field_codec WriteBytesWithVarintLen ReadBytesWithVarintLen
  "\<lambda>v. varint_bytes (ucast (of_nat (length v) :: u32)) @ v" "\<lambda>v. length v < 2 ^ 32"
proof
  fix v e
  show "WriteBytesWithVarintLen v e = append_buf (varint_bytes (ucast (of_nat (length v) :: u32)) @ v) e"
    by (simp add: WriteBytesWithVarintLen_def c_varint32.wr_wire)
next
  fix v :: bytes and d rest
  let ?l = "of_nat (length v) :: u32"
  assume ok: "length v < 2 ^ 32" and "at d ((varint_bytes (ucast ?l) @ v) @ rest)"
  then have d: "at d (varint_bytes (ucast ?l) @ v @ rest)" by simp
  have l: "unat ?l = length v" using ok by (simp add: unat_of_nat)
  from c_varint32.rd_wire [OF TrueI d] read_counted [OF d] l
  show "ReadBytesWithVarintLen d = (v, advance (length (varint_bytes (ucast ?l) @ v)) d)"
    by (simp add: ReadBytesWithVarintLen_def Let_def)
qed

text \<open>Zigzag: the sign bit is spread over the word on both ways and cancels.\<close>

definition zigzag :: "'a::len word \<Rightarrow> 'a word" where
  "zigzag v = push_bit 1 v XOR signed_drop_bit (LENGTH('a) - 1) v"

lemma bit_zigzag:
  fixes v :: "'a::len word"
  assumes "Suc k = LENGTH('a)"
  shows "bit (zigzag v) n \<longleftrightarrow> n < LENGTH('a) \<and> ((0 < n \<and> bit v (n - 1)) \<noteq> bit v k)"
proof -
  have k: "LENGTH('a) - 1 = k" using assms by linarith
  show ?thesis
    by (auto simp only: zigzag_def k bit_xor_iff bit_signed_drop_all [OF assms] bit_push_one)
qed

lemma zigzag_inverse:
  fixes v :: "'a::len word"
  assumes k: "Suc k = LENGTH('a)" "0 < k"
  shows "drop_bit 1 (zigzag v) XOR signed_drop_bit k (push_bit k (zigzag v AND 1)) = v"
proof (rule bit_word_eqI)
  fix n
  assume n: "n < LENGTH('a)"
  have "bit (push_bit k (zigzag v AND 1)) k = bit v k"
    using k by (simp only: bit_push_bit_iff bit_and_iff bit_zigzag [OF k(1)] possible_bit_word) (auto simp: bit_1_iff)
  moreover have "bit (drop_bit 1 (zigzag v)) n \<longleftrightarrow> Suc n < LENGTH('a) \<and> (bit v n \<noteq> bit v k)"
    by (simp only: bit_drop_bit_eq bit_zigzag [OF k(1)] o_def) simp
  moreover have "Suc n < LENGTH('a) \<or> n = k" using n k by linarith
  ultimately show "bit (drop_bit 1 (zigzag v) XOR signed_drop_bit k (push_bit k (zigzag v AND 1))) n = bit v n"
    using n by (auto simp only: bit_xor_iff bit_signed_drop_all [OF k(1)])
qed

lemma zigzag_inverse64: "drop_bit 1 (zigzag v) XOR signed_drop_bit 63 (push_bit 63 (zigzag v AND 1)) = (v :: u64)"
  by (rule zigzag_inverse) simp_all

lemma zigzag_inverse32: "drop_bit 1 (zigzag v) XOR signed_drop_bit 31 (push_bit 31 (zigzag v AND 1)) = (v :: u32)"
  by (rule zigzag_inverse) simp_all

interpretation c_zigzag64: field_codec WriteZigzagU64 ReadZigzagU64 "\<lambda>v. varint_bytes (zigzag v)" "\<lambda>_. True"
proof
  fix v e
  show "WriteZigzagU64 v e = append_buf (varint_bytes (zigzag v)) e"
    by (simp only: WriteZigzagU64_def encodeVarint_eq zigzag_def) simp
next
  fix v d rest
  assume "at d (varint_bytes (zigzag v) @ rest)"
  from DecodeVarint_bytes [OF this]
  show "ReadZigzagU64 d = (v, advance (length (varint_bytes (zigzag v))) d)"
    by (simp only: ReadZigzagU64_def Let_def prod.case zigzag_inverse64)
qed

interpretation c_zigzag32: field_codec WriteZigzagU32 ReadZigzagU32 "\<lambda>v. varint_bytes (ucast (zigzag v))" "\<lambda>_. True"
proof
  fix v e
  show "WriteZigzagU32 v e = append_buf (varint_bytes (ucast (zigzag v))) e"
    by (simp only: WriteZigzagU32_def encodeVarint_eq zigzag_def) simp
next
  fix v :: u32 and d rest
  assume "at d (varint_bytes (ucast (zigzag v)) @ rest)"
  from DecodeVarint_bytes [OF this]
  show "ReadZigzagU32 d = (v, advance (length (varint_bytes (ucast (zigzag v)))) d)"
    by (simp only: ReadZigzagU32_def Let_def prod.case ucast_up_down ucast_and_one zigzag_inverse32)
qed

section \<open>Reads on arbitrary input\<close>

locale cursor_read =
  fixes rd :: "SimpleDecoder \<Rightarrow> 'v \<times> SimpleDecoder"
  assumes keeps_buf: "dec_buf (snd (rd d)) = dec_buf d"
    and err_mono: "dec_err d \<le> dec_err (snd (rd d))"
    and offset_mono: "dec_offset d \<le> dec_offset (snd (rd d))"
    and in_bounds: "dec_err (snd (rd d)) = dec_err d \<Longrightarrow> \<not> overrun (snd (rd d))"
begin

lemma unfailed: "\<not> Failed (snd (rd d)) \<Longrightarrow> \<not> Failed d \<and> \<not> overrun (snd (rd d))"
  using err_mono [of d] in_bounds [of d] by (simp add: Failed_def)

lemma times_mono:
  "dec_buf (snd (read_times n rd d)) = dec_buf d \<and> dec_err d \<le> dec_err (snd (read_times n rd d)) \<and>
   dec_offset d \<le> dec_offset (snd (read_times n rd d))"
proof (induction n arbitrary: d)
  case (Suc n)
  have "dec_buf (snd (rd d)) = dec_buf d" "dec_err d \<le> dec_err (snd (rd d))"
    "dec_offset d \<le> dec_offset (snd (rd d))"
    by (rule keeps_buf err_mono offset_mono)+
  with Suc [of "snd (rd d)"] show ?case by (auto simp: split_beta)
qed simp

end

text \<open>Two reads in a row are a read again.\<close>

locale cursor_read_pair = a: cursor_read ra + b: cursor_read rb
  for ra :: "SimpleDecoder \<Rightarrow> 'a \<times> SimpleDecoder" and rb :: "SimpleDecoder \<Rightarrow> 'b \<times> SimpleDecoder"
begin

sublocale both: cursor_read "\<lambda>d. let (x, d) = ra d; (y, d) = rb d in ((x, y), d)"
proof
  fix d
  let ?d = "snd (ra d)"
  have eq: "snd (let (x, d) = ra d; (y, d) = rb d in ((x, y), d)) = snd (rb ?d)"
    by (simp add: split_beta)
  show "dec_buf (snd (let (x, d) = ra d; (y, d) = rb d in ((x, y), d))) = dec_buf d"
    unfolding eq by (simp add: a.keeps_buf b.keeps_buf)
  show "dec_err d \<le> dec_err (snd (let (x, d) = ra d; (y, d) = rb d in ((x, y), d)))"
    unfolding eq using a.err_mono b.err_mono le_trans by blast
  show "dec_offset d \<le> dec_offset (snd (let (x, d) = ra d; (y, d) = rb d in ((x, y), d)))"
    unfolding eq using a.offset_mono b.offset_mono le_trans by blast
  show "\<not> overrun (snd (let (x, d) = ra d; (y, d) = rb d in ((x, y), d)))"
    if "dec_err (snd (let (x, d) = ra d; (y, d) = rb d in ((x, y), d))) = dec_err d"
    using that a.err_mono [of d] b.err_mono [of ?d] b.in_bounds [of ?d] unfolding eq by simp
qed

end

lemma count_err_simps [simp]:
  "dec_buf (count_err d) = dec_buf d" "dec_err (count_err d) = Suc (dec_err d)"
  "dec_offset (count_err d) = dec_offset d"
  by (simp_all add: count_err_def)

interpretation r_u8: cursor_read ReadU8
  by unfold_locales (auto simp: ReadU8_def Let_def split: if_splits)

interpretation r_bool: cursor_read ReadBool
  by unfold_locales (auto simp: ReadBool_def Let_def split: if_splits)

interpretation r_u16: cursor_read ReadU16
  by unfold_locales (auto simp: ReadU16_def Let_def split: if_splits)

interpretation r_u32: cursor_read ReadU32
  by unfold_locales (auto simp: ReadU32_def Let_def split: if_splits)

interpretation r_u64: cursor_read ReadU64
  by unfold_locales (auto simp: ReadU64_def Let_def split: if_splits)

text \<open>A counted field: a read of the length, then a jump over what it counts.\<close>

lemma counted_read:
  assumes "cursor_read rd"
    and "\<And>d. snd (f d) = (let d' = advance (g (fst (rd d))) (snd (rd d)) in
           if overrun d' then count_err d' else d')"
  shows "cursor_read f"
proof -
  show ?thesis
  proof
    fix d
    let ?d = "snd (rd d)" and ?n = "g (fst (rd d))"
    show "dec_buf (snd (f d)) = dec_buf d" "dec_err d \<le> dec_err (snd (f d))"
      "dec_offset d \<le> dec_offset (snd (f d))"
      using cursor_read.keeps_buf [OF assms(1), of d] cursor_read.err_mono [OF assms(1), of d]
        cursor_read.offset_mono [OF assms(1), of d] by (auto simp: assms(2) Let_def)
    assume "dec_err (snd (f d)) = dec_err d"
    then show "\<not> overrun (snd (f d))"
      using cursor_read.err_mono [OF assms(1), of d] by (auto simp: assms(2) Let_def split: if_splits)
  qed
qed

interpretation r_string255: cursor_read ReadString255
  by (rule counted_read [OF r_u8.cursor_read_axioms, where g = unat])
    (simp add: ReadString255_def Let_def split_beta)

interpretation r_bytes: cursor_read ReadBytes
  by (rule counted_read [OF r_u32.cursor_read_axioms, where g = unat])
    (simp add: ReadBytes_def Let_def split_beta)

interpretation r_u16slice: cursor_read ReadU16Slice
proof
  fix d
  note r = r_u32.keeps_buf [of d] r_u32.err_mono [of d] r_u32.offset_mono [of d] r_u32.in_bounds [of d]
  show "dec_buf (snd (ReadU16Slice d)) = dec_buf d" "dec_err d \<le> dec_err (snd (ReadU16Slice d))"
    "dec_offset d \<le> dec_offset (snd (ReadU16Slice d))"
    using r by (auto simp: ReadU16Slice_def Let_def split_beta)
  show "\<not> overrun (snd (ReadU16Slice d))" if "dec_err (snd (ReadU16Slice d)) = dec_err d"
    using r that by (auto simp: ReadU16Slice_def Let_def split_beta split: if_splits)
qed

interpretation r_u32slice: cursor_read ReadU32Slice
proof
  fix d
  note r = r_u32.keeps_buf [of d] r_u32.err_mono [of d] r_u32.offset_mono [of d] r_u32.in_bounds [of d]
  show "dec_buf (snd (ReadU32Slice d)) = dec_buf d" "dec_err d \<le> dec_err (snd (ReadU32Slice d))"
    "dec_offset d \<le> dec_offset (snd (ReadU32Slice d))"
    using r by (auto simp: ReadU32Slice_def Let_def split_beta)
  show "\<not> overrun (snd (ReadU32Slice d))" if "dec_err (snd (ReadU32Slice d)) = dec_err d"
    using r that by (auto simp: ReadU32Slice_def Let_def split_beta split: if_splits)
qed

lemma slow_loop_bounds: "slow_loop buf i shift x = (y, Inr j) \<Longrightarrow> i < j \<and> j \<le> length buf"
proof (induction buf i shift x rule: slow_loop.induct)
  case (1 buf i shift x)
  show ?case
    using "1.prems" "1.IH" [OF _ _ refl refl]
    by (subst (asm) slow_loop.simps) (fastforce simp: Let_def split: if_splits)
qed

interpretation r_varint: cursor_read DecodeVarint
proof
  fix d
  have "(\<exists>x j. DecodeVarint d = (x, d\<lparr>dec_offset := j\<rparr>) \<and> dec_offset d < j \<and> j \<le> length (dec_buf d))
      \<or> snd (DecodeVarint d) = count_err d"
    using DecodeVarint_slow [of d] slow_loop_bounds [of "dec_buf d" "dec_offset d" 0 0]
    by (auto split: prod.splits sum.splits)
  then show "dec_buf (snd (DecodeVarint d)) = dec_buf d" "dec_err d \<le> dec_err (snd (DecodeVarint d))"
    "dec_offset d \<le> dec_offset (snd (DecodeVarint d))"
    "dec_err (snd (DecodeVarint d)) = dec_err d \<Longrightarrow> \<not> overrun (snd (DecodeVarint d))"
    by (auto simp: overrun_def)
qed

lemma mapped_read:
  assumes "cursor_read rd" "\<And>d. snd (f d) = snd (rd d)"
  shows "cursor_read f"
  using assms(1) unfolding cursor_read_def assms(2) .

interpretation r_varint32: cursor_read ReadVarintU32
  by (rule mapped_read [OF r_varint.cursor_read_axioms]) (simp add: ReadVarintU32_def split_beta)

interpretation r_varint64: cursor_read ReadVarintU64
  by (rule mapped_read [OF r_varint.cursor_read_axioms]) (simp add: ReadVarintU64_def)

interpretation r_zigzag32: cursor_read ReadZigzagU32
  by (rule mapped_read [OF r_varint.cursor_read_axioms]) (simp add: ReadZigzagU32_def split_beta)

interpretation r_zigzag64: cursor_read ReadZigzagU64
  by (rule mapped_read [OF r_varint.cursor_read_axioms]) (simp add: ReadZigzagU64_def split_beta)

interpretation r_vbytes: cursor_read ReadBytesWithVarintLen
  by (rule counted_read [OF r_varint32.cursor_read_axioms, where g = unat])
    (simp add: ReadBytesWithVarintLen_def Let_def split_beta)

section \<open>Protobuf messages\<close>

text \<open>
  What the generated code documents of a message \<open>v\<close>: given room for \<open>Size\<close> bytes,
  \<open>MarshalTo\<close> writes the same bytes \<open>w\<close>, at most \<open>Size\<close> of them, at the front of the buffer
  and leaves the rest of it alone.
\<close>

definition marshals_to :: "'m PBCodec \<Rightarrow> 'm \<Rightarrow> bytes \<Rightarrow> bool" where
  "marshals_to pb v w \<longleftrightarrow> length w \<le> pb_Size pb v \<and>
     (\<forall>buf. pb_Size pb v \<le> length buf \<longrightarrow>
        pb_MarshalTo pb v buf = Some (w @ drop (length w) buf, length w))"

lemma WritePB_wire:
  assumes "marshals_to pb v w"
  shows "WritePB pb v e = Some (append_buf (put_le 4 (of_nat (length w) :: u32) @ w) e)"
  using assms by (simp add: WritePB_def marshals_to_def Let_def append_buf_def)

lemma ReadPB_wire:
  assumes "at d ((put_le 4 (of_nat (length w) :: u32) @ w) @ rest)"
    "length w < 2 ^ 32" "pb_Unmarshal pb m w = Some v"
  shows "ReadPB pb m d = ((None, v), advance (4 + length w) d)"
proof -
  let ?l = "of_nat (length w) :: u32"
  have d: "at d (put_le 4 ?l @ w @ rest)" using assms(1) by simp
  have l: "unat ?l = length w" using assms(2) by (simp add: unat_of_nat)
  from read_fixed [OF d] read_counted [OF d] l assms(3)
  show ?thesis by (simp add: ReadPB_def Let_def)
qed

end
