(* ===== verification/Codec_Messages.thy ===== *)
theory Codec_Messages
  imports Codec_Laws
begin

text \<open>
  Whole messages over the codec: a message is a list of typed fields, written one after the
  other and read back by its list of shapes. The locale \<open>local_read\<close> extends
  \<open>cursor_read\<close> with locality, from which truncated messages are rejected. The theory ends
  with the properties of the codec.
\<close>

section \<open>Messages: any sequence of fields\<close>

text \<open>
  A field with its type, and the shape a reader knows in advance. Writing a list of fields and
  reading the list of their shapes is what every message of the program does.
\<close>

datatype field =
    F_U8 u8 | F_Bool bool | F_U16 u16 | F_U32 u32 | F_U64 u64
  | F_String255 bytes | F_Bytes bytes | F_U16Slice "u16 list" | F_U32Slice "u32 list"
  | F_VarintU32 u32 | F_VarintU64 u64 | F_ZigzagU32 u32 | F_ZigzagU64 u64 | F_VarintBytes bytes

datatype shape =
    S_U8 | S_Bool | S_U16 | S_U32 | S_U64 | S_String255 | S_Bytes | S_U16Slice | S_U32Slice
  | S_VarintU32 | S_VarintU64 | S_ZigzagU32 | S_ZigzagU64 | S_VarintBytes

fun shape_of :: "field \<Rightarrow> shape" where
  "shape_of (F_U8 _) = S_U8"
| "shape_of (F_Bool _) = S_Bool"
| "shape_of (F_U16 _) = S_U16"
| "shape_of (F_U32 _) = S_U32"
| "shape_of (F_U64 _) = S_U64"
| "shape_of (F_String255 _) = S_String255"
| "shape_of (F_Bytes _) = S_Bytes"
| "shape_of (F_U16Slice _) = S_U16Slice"
| "shape_of (F_U32Slice _) = S_U32Slice"
| "shape_of (F_VarintU32 _) = S_VarintU32"
| "shape_of (F_VarintU64 _) = S_VarintU64"
| "shape_of (F_ZigzagU32 _) = S_ZigzagU32"
| "shape_of (F_ZigzagU64 _) = S_ZigzagU64"
| "shape_of (F_VarintBytes _) = S_VarintBytes"

text \<open>The lengths the wire format can carry.\<close>

fun field_ok :: "field \<Rightarrow> bool" where
  "field_ok (F_String255 v) \<longleftrightarrow> length v \<le> 255"
| "field_ok (F_Bytes v) \<longleftrightarrow> length v < 2 ^ 32"
| "field_ok (F_U16Slice v) \<longleftrightarrow> length v < 2 ^ 32"
| "field_ok (F_U32Slice v) \<longleftrightarrow> length v < 2 ^ 32"
| "field_ok (F_VarintBytes v) \<longleftrightarrow> length v < 2 ^ 32"
| "field_ok _ \<longleftrightarrow> True"

fun write_field :: "field \<Rightarrow> SimpleEncoder \<Rightarrow> SimpleEncoder" where
  "write_field (F_U8 v) = WriteU8 v"
| "write_field (F_Bool v) = WriteBool v"
| "write_field (F_U16 v) = WriteU16 v"
| "write_field (F_U32 v) = WriteU32 v"
| "write_field (F_U64 v) = WriteU64 v"
| "write_field (F_String255 v) = WriteString255 v"
| "write_field (F_Bytes v) = WriteBytes v"
| "write_field (F_U16Slice v) = WriteU16Slice v"
| "write_field (F_U32Slice v) = WriteU32Slice v"
| "write_field (F_VarintU32 v) = WriteVarintU32 v"
| "write_field (F_VarintU64 v) = WriteVarintU64 v"
| "write_field (F_ZigzagU32 v) = WriteZigzagU32 v"
| "write_field (F_ZigzagU64 v) = WriteZigzagU64 v"
| "write_field (F_VarintBytes v) = WriteBytesWithVarintLen v"

fun read_field :: "shape \<Rightarrow> SimpleDecoder \<Rightarrow> field \<times> SimpleDecoder" where
  "read_field S_U8 d = map_prod F_U8 id (ReadU8 d)"
| "read_field S_Bool d = map_prod F_Bool id (ReadBool d)"
| "read_field S_U16 d = map_prod F_U16 id (ReadU16 d)"
| "read_field S_U32 d = map_prod F_U32 id (ReadU32 d)"
| "read_field S_U64 d = map_prod F_U64 id (ReadU64 d)"
| "read_field S_String255 d = map_prod F_String255 id (ReadString255 d)"
| "read_field S_Bytes d = map_prod F_Bytes id (ReadBytes d)"
| "read_field S_U16Slice d = map_prod F_U16Slice id (ReadU16Slice d)"
| "read_field S_U32Slice d = map_prod F_U32Slice id (ReadU32Slice d)"
| "read_field S_VarintU32 d = map_prod F_VarintU32 id (ReadVarintU32 d)"
| "read_field S_VarintU64 d = map_prod F_VarintU64 id (ReadVarintU64 d)"
| "read_field S_ZigzagU32 d = map_prod F_ZigzagU32 id (ReadZigzagU32 d)"
| "read_field S_ZigzagU64 d = map_prod F_ZigzagU64 id (ReadZigzagU64 d)"
| "read_field S_VarintBytes d = map_prod F_VarintBytes id (ReadBytesWithVarintLen d)"

primrec read_fields :: "shape list \<Rightarrow> SimpleDecoder \<Rightarrow> field list \<times> SimpleDecoder" where
  "read_fields [] d = ([], d)"
| "read_fields (s # ss) d = (let (v, d) = read_field s d; (vs, d) = read_fields ss d in (v # vs, d))"

fun field_bytes :: "field \<Rightarrow> bytes" where
  "field_bytes (F_U8 v) = [v]"
| "field_bytes (F_Bool v) = [of_bool v]"
| "field_bytes (F_U16 v) = put_le 2 v"
| "field_bytes (F_U32 v) = put_le 4 v"
| "field_bytes (F_U64 v) = put_le 8 v"
| "field_bytes (F_String255 v) = of_nat (min 255 (length v)) # take 255 v"
| "field_bytes (F_Bytes v) = put_le 4 (of_nat (length v) :: u32) @ v"
| "field_bytes (F_U16Slice vs) = put_le 4 (of_nat (length vs) :: u32) @ concat (map (put_le 2) vs)"
| "field_bytes (F_U32Slice vs) = put_le 4 (of_nat (length vs) :: u32) @ concat (map (put_le 4) vs)"
| "field_bytes (F_VarintU32 v) = varint_bytes (ucast v)"
| "field_bytes (F_VarintU64 v) = varint_bytes v"
| "field_bytes (F_ZigzagU32 v) = varint_bytes (ucast (zigzag v))"
| "field_bytes (F_ZigzagU64 v) = varint_bytes (zigzag v)"
| "field_bytes (F_VarintBytes v) = varint_bytes (ucast (of_nat (length v) :: u32)) @ v"

lemmas wr_wires = c_u8.wr_wire c_bool.wr_wire c_u16.wr_wire c_u32.wr_wire c_u64.wr_wire c_string255.wr_wire
  c_bytes.wr_wire c_u16slice.wr_wire c_u32slice.wr_wire c_varint32.wr_wire c_varint64.wr_wire c_zigzag32.wr_wire
  c_zigzag64.wr_wire c_vbytes.wr_wire

lemmas rd_wires = c_u8.rd_wire [OF TrueI] c_bool.rd_wire [OF TrueI] c_u16.rd_wire [OF TrueI] c_u32.rd_wire [OF TrueI]
  c_u64.rd_wire [OF TrueI] c_string255.rd_wire c_bytes.rd_wire c_u16slice.rd_wire c_u32slice.rd_wire
  c_varint32.rd_wire [OF TrueI] c_varint64.rd_wire [OF TrueI] c_zigzag32.rd_wire [OF TrueI]
  c_zigzag64.rd_wire [OF TrueI] c_vbytes.rd_wire

lemma write_field_bytes: "write_field f e = append_buf (field_bytes f) e"
  by (cases f) (simp_all only: write_field.simps field_bytes.simps wr_wires)

lemma read_field_bytes:
  assumes "field_ok f" "at d (field_bytes f @ rest)"
  shows "read_field (shape_of f) d = (f, advance (length (field_bytes f)) d)"
  using assms
  by (cases f) (simp_all only: field_bytes.simps field_ok.simps shape_of.simps read_field.simps rd_wires map_prod_simp id_apply)

text \<open>The fields of a message form a codec, so lists of them do.\<close>

lemma read_fields_bytes:
  "list_all field_ok fs \<Longrightarrow> at d (concat (map field_bytes fs) @ rest) \<Longrightarrow>
   read_fields (map shape_of fs) d = (fs, advance (length (concat (map field_bytes fs))) d)"
proof (induction fs arbitrary: d)
  case (Cons f fs)
  then have d: "at d (field_bytes f @ concat (map field_bytes fs) @ rest)" and ok: "field_ok f" by simp_all
  from read_field_bytes [OF ok d] at_advance [OF d] Cons show ?case by simp
qed simp

lemma write_fields_bytes: "fold write_field fs e = append_buf (concat (map field_bytes fs)) e"
  by (induction fs arbitrary: e) (simp_all add: write_field_bytes)

lemma at_Init: "at (Decoder_Init bs sp d) bs"
  by (simp add: at_def Decoder_Init_def)

text \<open>Reads on arbitrary input, by shape.\<close>

lemma mapped_cursor: "cursor_read rd \<Longrightarrow> cursor_read (\<lambda>d. map_prod f id (rd d))"
  by (rule mapped_read) simp_all

lemma read_field_fun:
  "read_field S_U8 = (\<lambda>d. map_prod F_U8 id (ReadU8 d))"
  "read_field S_Bool = (\<lambda>d. map_prod F_Bool id (ReadBool d))"
  "read_field S_U16 = (\<lambda>d. map_prod F_U16 id (ReadU16 d))"
  "read_field S_U32 = (\<lambda>d. map_prod F_U32 id (ReadU32 d))"
  "read_field S_U64 = (\<lambda>d. map_prod F_U64 id (ReadU64 d))"
  "read_field S_String255 = (\<lambda>d. map_prod F_String255 id (ReadString255 d))"
  "read_field S_Bytes = (\<lambda>d. map_prod F_Bytes id (ReadBytes d))"
  "read_field S_U16Slice = (\<lambda>d. map_prod F_U16Slice id (ReadU16Slice d))"
  "read_field S_U32Slice = (\<lambda>d. map_prod F_U32Slice id (ReadU32Slice d))"
  "read_field S_VarintU32 = (\<lambda>d. map_prod F_VarintU32 id (ReadVarintU32 d))"
  "read_field S_VarintU64 = (\<lambda>d. map_prod F_VarintU64 id (ReadVarintU64 d))"
  "read_field S_ZigzagU32 = (\<lambda>d. map_prod F_ZigzagU32 id (ReadZigzagU32 d))"
  "read_field S_ZigzagU64 = (\<lambda>d. map_prod F_ZigzagU64 id (ReadZigzagU64 d))"
  "read_field S_VarintBytes = (\<lambda>d. map_prod F_VarintBytes id (ReadBytesWithVarintLen d))"
  by (rule ext, simp)+

lemma read_field_cursor: "cursor_read (read_field s)"
  by (cases s) (simp_all only: read_field_fun mapped_cursor r_u8.cursor_read_axioms r_bool.cursor_read_axioms
      r_u16.cursor_read_axioms r_u32.cursor_read_axioms r_u64.cursor_read_axioms r_string255.cursor_read_axioms
      r_bytes.cursor_read_axioms r_u16slice.cursor_read_axioms r_u32slice.cursor_read_axioms
      r_varint32.cursor_read_axioms r_varint64.cursor_read_axioms r_zigzag32.cursor_read_axioms
      r_zigzag64.cursor_read_axioms r_vbytes.cursor_read_axioms)

lemma read_fields_unfailed:
  "\<not> Failed (snd (read_fields ss d)) \<Longrightarrow> \<not> Failed d \<and> dec_buf (snd (read_fields ss d)) = dec_buf d \<and>
   (ss \<noteq> [] \<longrightarrow> \<not> overrun (snd (read_fields ss d)))"
proof (induction ss arbitrary: d)
  case (Cons s ss)
  let ?d = "snd (read_field s d)"
  have eq: "snd (read_fields (s # ss) d) = snd (read_fields ss ?d)" by (simp add: split_beta)
  have tl: "\<not> Failed ?d \<and> dec_buf (snd (read_fields ss ?d)) = dec_buf ?d \<and>
      (ss \<noteq> [] \<longrightarrow> \<not> overrun (snd (read_fields ss ?d)))"
    using Cons by (simp only: eq)
  moreover have "\<not> Failed d \<and> \<not> overrun ?d"
    using cursor_read.unfailed [OF read_field_cursor] tl by blast
  moreover have "dec_buf ?d = dec_buf d" by (rule cursor_read.keeps_buf [OF read_field_cursor])
  ultimately show ?case unfolding eq by (cases "ss = []") simp_all
qed simp

lemma length_varint_bytes_le: "unat x < 2 ^ (7 * Suc k) \<Longrightarrow> length (varint_bytes x) \<le> Suc k"
proof (induction k arbitrary: x)
  case 0
  then have "\<not> 128 \<le> x" by (simp add: word_le_nat_alt)
  then show ?case by (subst varint_bytes.simps) simp
next
  case (Suc k)
  show ?case
  proof (cases "128 \<le> x")
    case True
    have "unat (drop_bit 7 x) < 2 ^ (7 * Suc k)"
      using Suc.prems by (simp add: unat_drop_bit_div power_add less_mult_imp_div_less mult.commute)
    from Suc.IH [OF this] True show ?thesis by (subst varint_bytes.simps) simp
  next
    case False
    then show ?thesis by (subst varint_bytes.simps) simp
  qed
qed

lemma length_varint_bytes: "length (varint_bytes x) \<le> 10" "length (varint_bytes (ucast (y :: u32))) \<le> 5"
proof -
  have "unat x < 2 ^ 64" using unsigned_less [of x, where 'a = nat] by simp
  then have "unat x < 2 ^ (7 * Suc 9)" by simp
  from length_varint_bytes_le [OF this] show "length (varint_bytes x) \<le> 10" by simp
  have y: "unat y < 2 ^ 32" using unsigned_less [of y, where 'a = nat] by simp
  then have "unat (ucast y :: u64) = unat y"
    by (subst unsigned_ucast_eq) (rule take_bit_nat_eq_self, simp)
  with y have "unat (ucast y :: u64) < 2 ^ (7 * Suc 4)" by simp
  from length_varint_bytes_le [OF this] show "length (varint_bytes (ucast y)) \<le> 5" by simp
qed


section \<open>Truncated messages\<close>

text \<open>
  A read that succeeds does not look past what it consumes: with more bytes behind the buffer
  it returns the same value at the same position.
\<close>

definition with_tail :: "bytes \<Rightarrow> SimpleDecoder \<Rightarrow> SimpleDecoder" where
  "with_tail post d = d\<lparr>dec_buf := dec_buf d @ post\<rparr>"

lemma with_tail_simps [simp]:
  "dec_buf (with_tail post d) = dec_buf d @ post" "dec_offset (with_tail post d) = dec_offset d"
  "dec_err (with_tail post d) = dec_err d" "advance n (with_tail post d) = with_tail post (advance n d)"
  "with_tail [] d = d"
  by (simp_all add: with_tail_def advance_def)

locale local_read = cursor_read +
  assumes rd_tail: "dec_err (snd (rd d)) = dec_err d \<Longrightarrow>
    rd (with_tail post d) = (fst (rd d), with_tail post (snd (rd d)))"

lemma passed_tail: "\<not> overrun d \<Longrightarrow> passed n (with_tail post d) = passed n d"
  by (simp add: passed_def subslice_def overrun_def)

lemma overrun_tail: "\<not> overrun d \<Longrightarrow> \<not> overrun (with_tail post d)"
  by (simp add: overrun_def)

interpretation l_u8: local_read ReadU8
  by unfold_locales
    (auto simp: ReadU8_def Let_def overrun_tail overrun_def nth_append split: if_splits)

interpretation l_bool: local_read ReadBool
  by unfold_locales
    (auto simp: ReadBool_def Let_def overrun_tail overrun_def nth_append split: if_splits)

interpretation l_u16: local_read ReadU16
  by unfold_locales (auto simp: ReadU16_def Let_def overrun_tail passed_tail split: if_splits)

interpretation l_u32: local_read ReadU32
  by unfold_locales (auto simp: ReadU32_def Let_def overrun_tail passed_tail split: if_splits)

interpretation l_u64: local_read ReadU64
  by unfold_locales (auto simp: ReadU64_def Let_def overrun_tail passed_tail split: if_splits)

lemma tail_chain:
  assumes "local_read rd" "dec_err (snd (rd d)) = dec_err d"
  shows "rd (with_tail post d) = (fst (rd d), with_tail post (snd (rd d)))"
  using assms by (rule local_read.rd_tail)

lemma counted_local:
  assumes rd: "local_read rd" and c: "cursor_read f"
    and f: "\<And>d. f d = (let (n, d) = rd d; l = g n; d = advance l d in if overrun d then ([], count_err d) else (h l d, d))"
    and h: "\<And>l d post. \<not> overrun d \<Longrightarrow> h l (with_tail post d) = h l d"
  shows "local_read f"
proof (rule local_read.intro [OF c], rule local_read_axioms.intro)
  fix d post
  assume e: "dec_err (snd (f d)) = dec_err d"
  let ?n = "g (fst (rd d))" and ?d = "snd (rd d)"
  have mono: "dec_err d \<le> dec_err ?d" by (rule cursor_read.err_mono [OF local_read.axioms(1) [OF rd]])
  have o: "\<not> overrun (advance ?n ?d)" "dec_err ?d = dec_err d"
    using e mono by (auto simp: f Let_def split_beta split: if_splits)
  from tail_chain [OF rd o(2), of post] o(1) show "f (with_tail post d) = (fst (f d), with_tail post (snd (f d)))"
    by (simp add: f Let_def split_beta overrun_tail h)
qed

interpretation l_string255: local_read ReadString255
  by (rule counted_local [OF l_u8.local_read_axioms r_string255.cursor_read_axioms, where g = unat and h = passed])
    (simp_all add: ReadString255_def passed_tail)

interpretation l_bytes: local_read ReadBytes
  by (rule counted_local [OF l_u32.local_read_axioms r_bytes.cursor_read_axioms, where g = unat and h = passed])
    (simp_all add: ReadBytes_def passed_tail)

lemma read_words_tail: "\<not> overrun d \<Longrightarrow> w * n \<le> dec_offset d \<Longrightarrow> read_words w n (with_tail post d) = read_words w n d"
proof (induction n)
  case (Suc n)
  have "dec_offset d - w * Suc n + w \<le> length (dec_buf d)" using Suc.prems by (simp add: overrun_def)
  then have "subslice (dec_offset d - w * Suc n) (dec_offset d - w * Suc n + w) (dec_buf d @ post)
      = subslice (dec_offset d - w * Suc n) (dec_offset d - w * Suc n + w) (dec_buf d)"
    by (simp add: subslice_def)
  with Suc show ?case by simp
qed simp

lemma slice_local:
  fixes f :: "SimpleDecoder \<Rightarrow> 'a::len word list \<times> SimpleDecoder"
  assumes c: "cursor_read f"
    and f: "\<And>d. f d = (let (n, d) = ReadU32 d; l = unat n in if l = 0 then ([], d)
       else let d = advance (l * w) d in if overrun d then ([], count_err d) else (read_words w l d, d))"
  shows "local_read f"
proof (rule local_read.intro [OF c], rule local_read_axioms.intro)
  fix d post
  assume e: "dec_err (snd (f d)) = dec_err d"
  let ?n = "unat (fst (ReadU32 d))" and ?d = "snd (ReadU32 d)"
  have mono: "dec_err d \<le> dec_err ?d" by (rule r_u32.err_mono)
  have o: "?n \<noteq> 0 \<Longrightarrow> \<not> overrun (advance (?n * w) ?d)" "dec_err ?d = dec_err d"
    using e mono by (auto simp: f Let_def split_beta split: if_splits)
  have "?n \<noteq> 0 \<Longrightarrow> read_words w ?n (with_tail post (advance (?n * w) ?d)) = (read_words w ?n (advance (?n * w) ?d) :: 'a word list)"
    using o(1) by (intro read_words_tail) (simp_all add: mult.commute)
  with l_u32.rd_tail [OF o(2), of post] o(1) show "f (with_tail post d) = (fst (f d), with_tail post (snd (f d)))"
    by (simp add: f Let_def split_beta overrun_tail)
qed

interpretation l_u16slice: local_read ReadU16Slice
  by (rule slice_local [OF r_u16slice.cursor_read_axioms, where w = 2]) (simp add: ReadU16Slice_def)

interpretation l_u32slice: local_read ReadU32Slice
  by (rule slice_local [OF r_u32slice.cursor_read_axioms, where w = 4]) (simp add: ReadU32Slice_def)

lemma slow_loop_tail: "slow_loop buf i shift x = (y, Inr j) \<Longrightarrow> slow_loop (buf @ post) i shift x = (y, Inr j)"
proof (induction buf i shift x rule: slow_loop.induct)
  case (1 buf i shift x)
  have c: "shift < 64" "i < length buf"
    using "1.prems" by (auto simp: slow_loop.simps [of buf i shift x] split: if_splits)
  then have s: "slow_loop bs i shift x = (if bs ! i < 0x80 then (x OR push_bit shift (ucast (bs ! i) AND 0x7F), Inr (i + 1))
      else slow_loop bs (i + 1) (shift + 7) (x OR push_bit shift (ucast (bs ! i) AND 0x7F)))"
    if "length buf \<le> length bs" for bs
    using that by (subst slow_loop.simps) (simp add: Let_def)
  have n: "(buf @ post) ! i = buf ! i" using c by (simp add: nth_append)
  show ?case
    using "1.prems" "1.IH" [OF c(1) _ refl refl] c unfolding s [OF order.refl] s [of "buf @ post", simplified] n
    by (auto split: if_splits)
qed

interpretation l_varint: local_read DecodeVarint
proof
  fix d post
  assume e: "dec_err (snd (DecodeVarint d)) = dec_err d"
  obtain x r where s: "slow_loop (dec_buf d) (dec_offset d) 0 0 = (x, r)" by fastforce
  with e DecodeVarint_slow [of d] obtain j where j: "r = Inr j" by (cases r) auto
  with s have "DecodeVarint d = (x, d\<lparr>dec_offset := j\<rparr>)" using DecodeVarint_slow [of d] by simp
  moreover have "DecodeVarint (with_tail post d) = (x, (with_tail post d)\<lparr>dec_offset := j\<rparr>)"
    using DecodeVarint_slow [of "with_tail post d"] slow_loop_tail [OF s [unfolded j], of post] by simp
  ultimately show "DecodeVarint (with_tail post d) = (fst (DecodeVarint d), with_tail post (snd (DecodeVarint d)))"
    by (simp add: with_tail_def)
qed

lemma mapped_local:
  assumes rd: "local_read rd" and f: "\<And>d. f d = (let (x, d) = rd d in (g x, d))"
  shows "local_read f"
proof -
  have c: "cursor_read f"
    by (rule mapped_read [OF local_read.axioms(1) [OF rd]]) (simp add: f split_beta)
  show ?thesis
  proof (rule local_read.intro [OF c], rule local_read_axioms.intro)
    fix d post
    assume "dec_err (snd (f d)) = dec_err d"
    then have "dec_err (snd (rd d)) = dec_err d" by (simp add: f split_beta)
    from tail_chain [OF rd this, of post]
    show "f (with_tail post d) = (fst (f d), with_tail post (snd (f d)))" by (simp add: f split_beta)
  qed
qed

interpretation l_varint32: local_read ReadVarintU32
  by (rule mapped_local [OF l_varint.local_read_axioms]) (simp add: ReadVarintU32_def)

interpretation l_varint64: local_read ReadVarintU64
  by (rule mapped_local [OF l_varint.local_read_axioms, where g = id]) (simp add: ReadVarintU64_def)

interpretation l_zigzag32: local_read ReadZigzagU32
  by (rule mapped_local [OF l_varint.local_read_axioms]) (simp only: ReadZigzagU32_def)

interpretation l_zigzag64: local_read ReadZigzagU64
  by (rule mapped_local [OF l_varint.local_read_axioms]) (simp only: ReadZigzagU64_def)

interpretation l_vbytes: local_read ReadBytesWithVarintLen
  by (rule counted_local [OF l_varint32.local_read_axioms r_vbytes.cursor_read_axioms, where g = unat and h = passed])
    (simp_all add: ReadBytesWithVarintLen_def passed_tail)

lemma mapped_prod_local: "local_read rd \<Longrightarrow> local_read (\<lambda>d. map_prod f id (rd d))"
  by (rule mapped_local [where g = f]) (simp_all add: split_beta map_prod_def)

lemma read_field_local: "local_read (read_field s)"
  by (cases s) (simp_all only: read_field_fun mapped_prod_local l_u8.local_read_axioms l_bool.local_read_axioms
      l_u16.local_read_axioms l_u32.local_read_axioms l_u64.local_read_axioms l_string255.local_read_axioms
      l_bytes.local_read_axioms l_u16slice.local_read_axioms l_u32slice.local_read_axioms
      l_varint32.local_read_axioms l_varint64.local_read_axioms l_zigzag32.local_read_axioms
      l_zigzag64.local_read_axioms l_vbytes.local_read_axioms)

lemma read_fields_tail:
  "\<not> Failed (snd (read_fields ss d)) \<Longrightarrow>
   read_fields ss (with_tail post d) = (fst (read_fields ss d), with_tail post (snd (read_fields ss d)))"
proof (induction ss arbitrary: d)
  case (Cons s ss)
  let ?d = "snd (read_field s d)"
  have f: "\<not> Failed (snd (read_fields ss ?d))" using Cons.prems by (simp add: split_beta)
  then have "\<not> Failed ?d" using read_fields_unfailed by blast
  then have "dec_err ?d = dec_err d"
    using cursor_read.err_mono [OF read_field_cursor, of d s] by (simp add: Failed_def)
  from tail_chain [OF read_field_local this, of post] Cons.IH [OF f] show ?case by (simp add: split_beta)
qed simp


section \<open>Reference counted encoders\<close>

primrec release_times :: "nat \<Rightarrow> SimpleEncoder \<Rightarrow> bool list \<times> SimpleEncoder" where
  "release_times 0 e = ([], e)"
| "release_times (Suc n) e = (let (r, e) = ReleaseSimpleEncoder e; (rs, e) = release_times n e in (r # rs, e))"

lemma refs_pos: "m < 2 ^ 31 \<Longrightarrow> (0 :: i32) <s of_nat m \<longleftrightarrow> 0 < m"
proof -
  assume "m < 2 ^ 31"
  then have "sint (of_nat m :: i32) = int m"
    by (simp add: signed_of_nat signed_take_bit_int_eq_self)
  then show ?thesis by (simp add: word_sless_alt)
qed

lemma Release_refs:
  assumes "enc_refs e = of_nat (Suc m)" "m < 2 ^ 31"
  shows "ReleaseSimpleEncoder e = (m = 0, e\<lparr>enc_refs := of_nat m, enc_buf := if m = 0 then [] else enc_buf e\<rparr>)"
  using refs_pos [OF assms(2)]
  by (auto simp: ReleaseSimpleEncoder_def SubReferenceCount_def assms(1) Encoder_Reset_def Let_def)

lemma release_times_refs:
  "enc_refs e = of_nat (Suc n) \<Longrightarrow> n < 2 ^ 31 \<Longrightarrow>
   fst (release_times (Suc n) e) = replicate n False @ [True] \<and> enc_buf (snd (release_times (Suc n) e)) = []"
proof (induction n arbitrary: e)
  case 0
  then show ?case using Release_refs [of e 0] by simp
next
  case (Suc n)
  let ?e = "e\<lparr>enc_refs := of_nat (Suc n), enc_buf := enc_buf e\<rparr>"
  have r: "ReleaseSimpleEncoder e = (False, ?e)" using Release_refs [of e "Suc n"] Suc.prems by simp
  have "fst (release_times (Suc n) ?e) = replicate n False @ [True] \<and> enc_buf (snd (release_times (Suc n) ?e)) = []"
    using Suc.prems by (intro Suc.IH) simp_all
  then show ?case by (subst (1 2) release_times.simps) (simp add: r split_beta del: release_times.simps)
qed

lemma clones_refs: "enc_refs ((PseudoCloneSimpleEncoder ^^ n) e) = enc_refs e + of_nat n"
  by (induction n) (simp_all add: PseudoCloneSimpleEncoder_def AddReferenceCount_def)

section \<open>Properties\<close>

text \<open>C1: A message of any fields within the length limits of the format, written to an empty
  encoder, is read back field by field; the decoder is then at the end of the bytes and has
  counted no failure.\<close>

theorem message_round_trip:
  assumes "list_all field_ok fs"
  shows "let (vs, d') = read_fields (map shape_of fs)
           (Decoder_Init (Encoder_Bytes (fold write_field fs (Encoder_Reset e))) spare d)
         in vs = fs \<and> IsEnd d' \<and> \<not> Failed d'"
proof -
  let ?bs = "concat (map field_bytes fs)"
  have "Encoder_Bytes (fold write_field fs (Encoder_Reset e)) = ?bs"
    by (simp add: Encoder_Bytes_def write_fields_bytes Encoder_Reset_def)
  moreover have "at (Decoder_Init ?bs spare d) (?bs @ [])" using at_Init by simp
  ultimately show ?thesis
    using read_fields_bytes [OF assms, of "Decoder_Init ?bs spare d" "[]"]
    by (simp add: IsEnd_def Failed_def Decoder_Init_def)
qed

theorem message_round_trip_witness:
  "let fs = [F_U8 7, F_Bool True, F_U16 513, F_String255 [1, 2, 3], F_U32Slice [4, 5], F_VarintU32 300,
       F_ZigzagU64 (- 2), F_VarintBytes [9]];
       (vs, d') = read_fields (map shape_of fs)
         (Decoder_Init (Encoder_Bytes (fold write_field fs (Encoder_Reset \<lparr>enc_buf = [], enc_refs = 1\<rparr>))) []
           \<lparr>dec_buf = [], dec_spare = [], dec_offset = 0, dec_err = 0\<rparr>)
   in list_all field_ok fs \<and> vs = fs \<and> IsEnd d' \<and> \<not> Failed d'"
  using message_round_trip [of "[F_U8 7, F_Bool True, F_U16 513, F_String255 [1, 2, 3], F_U32Slice [4, 5], F_VarintU32 300,
      F_ZigzagU64 (- 2), F_VarintBytes [9]]" "\<lparr>enc_buf = [], enc_refs = 1\<rparr>" "[]"
      "\<lparr>dec_buf = [], dec_spare = [], dec_offset = 0, dec_err = 0\<rparr>"]
  unfolding Let_def by simp

text \<open>C17: Whatever bytes a decoder is given and whatever fields it is asked for, if it has counted
  no failure at the end then every read stayed within the buffer, and it had none before: one
  test of \<open>Failed\<close> after a message covers all of its fields.\<close>

theorem unfailed_in_bounds:
  assumes "\<not> Failed (snd (read_fields ss d))" "ss \<noteq> []"
  shows "\<not> Failed d \<and> dec_offset (snd (read_fields ss d)) \<le> length (dec_buf d)"
  using read_fields_unfailed [OF assms(1)] assms(2) by (auto simp: overrun_def not_less)

theorem unfailed_in_bounds_witness:
  "let d = \<lparr>dec_buf = [1, 0, 2, 65, 66], dec_spare = [], dec_offset = 0, dec_err = 0\<rparr>; ss = [S_U16, S_String255]
   in \<not> Failed (snd (read_fields ss d)) \<and> dec_offset (snd (read_fields ss d)) \<le> length (dec_buf d)"
proof -
  let ?d = "\<lparr>dec_buf = [1, 0, 2, 65, 66], dec_spare = [], dec_offset = 0, dec_err = 0\<rparr>" and ?ss = "[S_U16, S_String255]"
  have "\<not> Failed (snd (read_fields ?ss ?d))" by code_simp
  with unfailed_in_bounds [OF this] show ?thesis by (simp add: Let_def)
qed

text \<open>C16: A message cut off anywhere before its end is detected: reading the fields from a proper
  prefix of its bytes counts a failure.\<close>

theorem truncated_message_fails:
  assumes "list_all field_ok fs" "Encoder_Bytes (fold write_field fs (Encoder_Reset e)) = bs @ post" "post \<noteq> []"
  shows "Failed (snd (read_fields (map shape_of fs) (Decoder_Init bs spare d)))"
proof (rule ccontr)
  let ?d = "Decoder_Init bs spare d" and ?ss = "map shape_of fs"
  assume ok: "\<not> Failed (snd (read_fields ?ss ?d))"
  have bytes: "concat (map field_bytes fs) = bs @ post"
    using assms(2) by (simp add: Encoder_Bytes_def write_fields_bytes Encoder_Reset_def)
  then have ne: "?ss \<noteq> []" using assms(3) by auto
  have full: "with_tail post ?d = Decoder_Init (bs @ post) spare d"
    by (simp add: with_tail_def Decoder_Init_def)
  have "at (with_tail post ?d) (concat (map field_bytes fs) @ [])"
    unfolding full bytes using at_Init by simp
  from read_fields_bytes [OF assms(1) this] read_fields_tail [OF ok, of post]
  have "with_tail post (snd (read_fields ?ss ?d)) = advance (length (bs @ post)) (with_tail post ?d)"
    by (simp only: bytes prod.inject)
  from arg_cong [OF this, of dec_offset] have "dec_offset (snd (read_fields ?ss ?d)) = length (bs @ post)"
    by (simp add: Decoder_Init_def)
  with read_fields_unfailed [OF ok] ne assms(3) show False by (auto simp: Decoder_Init_def overrun_def)
qed

theorem truncated_message_fails_witness:
  "let fs = [F_U32 5, F_String255 [65, 66]]; bs = [5, 0, 0, 0, 2, 65] in
   list_all field_ok fs \<and>
   Failed (snd (read_fields (map shape_of fs) (Decoder_Init bs [] \<lparr>dec_buf = [], dec_spare = [], dec_offset = 0, dec_err = 0\<rparr>)))"
proof -
  let ?fs = "[F_U32 5, F_String255 [65, 66]]" and ?e = "\<lparr>enc_buf = [], enc_refs = 1\<rparr>"
  have "Encoder_Bytes (fold write_field ?fs (Encoder_Reset ?e)) = [5, 0, 0, 0, 2, 65] @ [66]" by code_simp
  from truncated_message_fails [OF _ this, of "[]" "\<lparr>dec_buf = [], dec_spare = [], dec_offset = 0, dec_err = 0\<rparr>"]
  show ?thesis by (simp add: Let_def)
qed

text \<open>C18: The unrolled decoder of variable length integers agrees with the byte by byte loop on every
  input: the same value and position when the loop finds an end, and a counted failure that
  leaves the position alone when it does not.\<close>

theorem DecodeVarint_equals_loop:
  "case slow_loop (dec_buf d) (dec_offset d) 0 0 of
     (x, Inr i) \<Rightarrow> DecodeVarint d = (x, d\<lparr>dec_offset := i\<rparr>)
   | (x, Inl er) \<Rightarrow> snd (DecodeVarint d) = count_err d"
  by (rule DecodeVarint_slow)

text \<open>A variable length integer takes at most ten bytes, five for a 32 bit value.\<close>

theorem varint_size:
  "length (enc_buf (WriteVarintU64 v e)) \<le> length (enc_buf e) + 10 \<and>
   length (enc_buf (WriteVarintU32 w e)) \<le> length (enc_buf e) + 5"
  using length_varint_bytes(1) [of v] length_varint_bytes(2) [of w]
  by (simp add: c_varint64.wr_wire c_varint32.wr_wire)

text \<open>A protobuf message written after anything else is found at its place and unmarshalled to
  the same message, provided the generated code marshals it to the bytes it unmarshals from.\<close>

theorem pb_round_trip:
  assumes "marshals_to pb v w" "pb_Unmarshal pb m w = Some v" "length w < 2 ^ 32"
  shows "\<exists>e'. WritePB pb v e = Some e' \<and>
    ReadPB pb m ((Decoder_Init (Encoder_Bytes e') spare d)\<lparr>dec_offset := length (enc_buf e)\<rparr>) =
      ((None, v), (Decoder_Init (Encoder_Bytes e') spare d)\<lparr>dec_offset := length (Encoder_Bytes e')\<rparr>)"
proof -
  let ?e = "append_buf (put_le 4 (of_nat (length w) :: u32) @ w) e"
  let ?d = "(Decoder_Init (Encoder_Bytes ?e) spare d)\<lparr>dec_offset := length (enc_buf e)\<rparr>"
  have "at ?d ((put_le 4 (of_nat (length w) :: u32) @ w) @ [])"
    by (simp add: at_def Decoder_Init_def Encoder_Bytes_def)
  from ReadPB_wire [OF this assms(3,2)] have "ReadPB pb m ?d = ((None, v), advance (4 + length w) ?d)" .
  with WritePB_wire [OF assms(1), of e] show ?thesis
    by (simp add: advance_def Encoder_Bytes_def add.commute add.left_commute)
qed

theorem pb_round_trip_witness:
  "let pb = \<lparr>pb_Size = (\<lambda>v :: u8. 1), pb_MarshalTo = (\<lambda>v buf. case buf of [] \<Rightarrow> None | _ # r \<Rightarrow> Some (v # r, 1)),
        pb_Unmarshal = (\<lambda>m w. case w of [v] \<Rightarrow> Some v | _ \<Rightarrow> None)\<rparr>;
       d = \<lparr>dec_buf = [], dec_spare = [], dec_offset = 0, dec_err = 0\<rparr>
   in \<exists>e'. WritePB pb 42 \<lparr>enc_buf = [9], enc_refs = 1\<rparr> = Some e' \<and>
     ReadPB pb 0 ((Decoder_Init (Encoder_Bytes e') [] d)\<lparr>dec_offset := 1\<rparr>) =
       ((None, 42), (Decoder_Init (Encoder_Bytes e') [] d)\<lparr>dec_offset := length (Encoder_Bytes e')\<rparr>)"
proof -
  let ?pb = "\<lparr>pb_Size = (\<lambda>v :: u8. 1), pb_MarshalTo = (\<lambda>v buf. case buf of [] \<Rightarrow> None | _ # r \<Rightarrow> Some (v # r, 1)),
        pb_Unmarshal = (\<lambda>m w. case w of [v] \<Rightarrow> Some v | _ \<Rightarrow> None)\<rparr>"
  have "marshals_to ?pb 42 [42]" by (auto simp: marshals_to_def split: list.split)
  from pb_round_trip [OF this, of 0 "\<lparr>enc_buf = [9], enc_refs = 1\<rparr>" "[]"
      "\<lparr>dec_buf = [], dec_spare = [], dec_offset = 0, dec_err = 0\<rparr>"]
  show ?thesis by (simp add: Let_def)
qed

text \<open>An encoder taken from the pool and cloned \<open>n\<close> times goes back to the pool with the last of
  its \<open>n + 1\<close> releases, not before, and goes back empty.\<close>

theorem encoder_released_once:
  assumes "n < 2 ^ 31"
  shows "let (rs, e') = release_times (Suc n) ((PseudoCloneSimpleEncoder ^^ n) (AcquireSimpleEncoder e))
         in rs = replicate n False @ [True] \<and> Encoder_Bytes e' = []"
  using release_times_refs [OF _ assms, of "(PseudoCloneSimpleEncoder ^^ n) (AcquireSimpleEncoder e)"]
  by (simp add: split_beta clones_refs AcquireSimpleEncoder_def ReferenceCount_Reset_def Encoder_Bytes_def
      del: release_times.simps)

theorem encoder_released_once_witness:
  "let (rs, e') = release_times 3 ((PseudoCloneSimpleEncoder ^^ 2) (AcquireSimpleEncoder \<lparr>enc_buf = [1], enc_refs = 0\<rparr>))
   in rs = [False, False, True] \<and> Encoder_Bytes e' = []"
proof -
  have "(2 :: nat) < 2 ^ 31" by simp
  from encoder_released_once [OF this, of "\<lparr>enc_buf = [1], enc_refs = 0\<rparr>"]
  show ?thesis by (simp add: numeral_3_eq_3 numeral_2_eq_2)
qed

text \<open>A string is stored up to its first 255 bytes: reading gives that prefix for every string.\<close>

theorem string255_prefix:
  "fst (ReadString255 (Decoder_Init (Encoder_Bytes (WriteString255 v (Encoder_Reset e))) spare d)) = take 255 v"
proof -
  have cut: "WriteString255 v e' = WriteString255 (take 255 v) e'" for e'
    by (simp add: c_string255.wr_wire min_def)
  show ?thesis
    unfolding cut [of "Encoder_Reset e"] Encoder_Bytes_def
    by (subst c_string255.round_trip) (simp_all add: Encoder_Reset_def)
qed

end
