(* ===== verification/Prefix_Varint.thy ===== *)
theory Prefix_Varint
  imports Codec_Laws
begin

text \<open>
  The prefix coded integers of \<^verbatim>\<open>server/libs/codec/prefix_varint_codec.go\<close>: the number of
  trailing zeros of the first byte gives the length, so that a value is read with one load
  and two shifts. The zero counts are looked up with de Bruijn multiplications; they are
  proved to be the positions of the lowest and of the highest bit, and the read to return
  what was written.
\<close>

section \<open>Counting zeros\<close>

definition de_Bruijn_lookup_trailing :: "nat list" where
  "de_Bruijn_lookup_trailing = [0, 1, 28, 2, 29, 14, 24, 3, 30, 22, 20, 15, 25, 17, 4, 8, 31, 27, 13,
     23, 21, 19, 16, 7, 26, 12, 18, 6, 11, 5, 10, 9]"

definition de_Bruijn_lookup_leading :: "nat list" where
  "de_Bruijn_lookup_leading = [31, 22, 30, 21, 18, 10, 29, 2, 20, 17, 15, 13, 9, 6, 28, 1, 23, 19, 11,
     3, 16, 14, 7, 24, 12, 4, 8, 25, 5, 26, 27, 0]"

definition count_trailing_zeros_32 :: "u32 \<Rightarrow> nat" where
  "count_trailing_zeros_32 x =
     de_Bruijn_lookup_trailing ! unat (drop_bit 27 (((x AND - x) * 0x077cb531) AND 0xffffffff))"

definition count_leading_zeros_32 :: "u32 \<Rightarrow> nat" where
  "count_leading_zeros_32 x =
     (let x = x OR drop_bit 1 x;
          x = x OR drop_bit 2 x;
          x = x OR drop_bit 4 x;
          x = x OR drop_bit 8 x;
          x = x OR drop_bit 16 x
      in de_Bruijn_lookup_leading ! unat (drop_bit 27 ((x * 0x07c4acdd) AND 0xffffffff)))"

definition count_leading_zeros_64 :: "u64 \<Rightarrow> nat" where
  "count_leading_zeros_64 x =
     (if drop_bit 32 x = 0 then 32 + count_leading_zeros_32 (ucast (x AND 0xffffffff))
      else count_leading_zeros_32 (ucast (drop_bit 32 x)))"

section \<open>Writing and reading\<close>

text \<open>The loop \<^verbatim>\<open>for n := 0; n < bytes; n++ { append(uint8(x&0xff)); x >>= 8 }\<close>\<close>

primrec prefix_loop :: "nat \<Rightarrow> u64 \<Rightarrow> SimpleEncoder \<Rightarrow> SimpleEncoder" where
  "prefix_loop 0 x e = e"
| "prefix_loop (Suc n) x e = prefix_loop n (drop_bit 8 x) (append_buf [ucast (x AND 0xff)] e)"

definition WritePrefixU64 :: "u64 \<Rightarrow> SimpleEncoder \<Rightarrow> SimpleEncoder" where
  "WritePrefixU64 x e =
     (let bits = 64 - count_leading_zeros_64 (x OR 1);
          bytes = 1 + (bits - 1) div 7 in
      if bits > 56 then prefix_loop 8 x (append_buf [0] e)
      else prefix_loop bytes (push_bit (bytes - 1) (2 * x + 1)) e)"

primrec or_bytes :: "bytes \<Rightarrow> nat \<Rightarrow> u64 \<Rightarrow> u64" where
  "or_bytes [] i r = r"
| "or_bytes (b # bs) i r = or_bytes bs (i + 1) (r OR push_bit (8 * i) (ucast b))"

definition bytesToUint64 :: "bytes \<Rightarrow> u64" where
  "bytesToUint64 b = or_bytes b 0 0"

text \<open>
  There is no test against the length of the buffer: the first byte panics past it, and the
  slice expressions reach up to the capacity and panic only past that.
\<close>

definition ReadPrefixU64 :: "SimpleDecoder \<Rightarrow> (u64 \<times> SimpleDecoder) option" where
  "ReadPrefixU64 d =
     (if dec_offset d \<ge> length (dec_buf d) then None
      else let len = 1 + count_trailing_zeros_32 (ucast (dec_buf d ! dec_offset d) OR 0x100);
               i = dec_offset d; full = dec_buf d @ dec_spare d; d = advance len d in
        if len < 9 then
          let unused = 64 - 8 * len in
          if length (dec_buf d) - i > 7 then
            Some (drop_bit (unused + len) (push_bit unused (get_le (subslice i (i + 8) (dec_buf d)))), d)
          else if dec_offset d > length full then None
          else Some (drop_bit (unused + len) (push_bit unused
                 (bytesToUint64 (subslice i (dec_offset d) full))), d)
        else if dec_offset d > length full then None
        else Some (get_le (subslice (dec_offset d - len + 1) (dec_offset d) full), d))"

section \<open>The zero counts are right\<close>

text \<open>\<open>k\<close> is the lowest set bit; \<open>h\<close> the highest.\<close>

definition lowest_bit :: "'a::len word \<Rightarrow> nat \<Rightarrow> bool" where
  "lowest_bit x k \<longleftrightarrow> bit x k \<and> (\<forall>n<k. \<not> bit x n)"

definition highest_bit :: "'a::len word \<Rightarrow> nat \<Rightarrow> bool" where
  "highest_bit x h \<longleftrightarrow> bit x h \<and> (\<forall>n>h. \<not> bit x n)"

lemma isolate_lowest:
  fixes x :: "'a::len word"
  assumes "lowest_bit x k"
  shows "x AND - x = push_bit k 1"
proof -
  let ?c = "x AND NOT (push_bit k 1)"
  have k: "k < LENGTH('a)" "bit x k" using assms by (auto simp: lowest_bit_def dest: bit_imp_le_length)
  have "?c AND push_bit k 1 = 0"
    by (rule bit_word_eqI) (auto simp: bit_and_iff bit_not_iff bit_0_eq)
  then have "?c + push_bit k 1 = ?c OR push_bit k 1" by (rule disjunctive_add_eq_or)
  also have "\<dots> = x"
    by (rule bit_word_eqI) (use k in \<open>auto simp: bit_and_iff bit_or_iff bit_not_iff bit_push_bit_iff bit_1_iff bit_exp_iff\<close>)
  finally have x: "x = ?c + push_bit k 1" by simp
  have "?c AND mask k = 0"
    by (rule bit_word_eqI) (use assms in \<open>auto simp: lowest_bit_def bit_and_iff bit_mask_iff bit_0_eq\<close>)
  then have "?c + mask k = ?c OR mask k" by (rule disjunctive_add_eq_or)
  moreover have "x - 1 = ?c + mask k"
    using arg_cong [OF x, of "\<lambda>y. y - 1"] by (simp add: mask_eq_exp_minus_1 push_bit_eq_mult add_diff_eq)
  ultimately have "- x = NOT (?c OR mask k)" by (simp add: minus_eq_not_minus_1)
  then show ?thesis
    by (simp only:) (rule bit_word_eqI, use k in \<open>auto simp: bit_and_iff bit_or_iff bit_not_iff bit_push_bit_iff bit_1_iff bit_exp_iff bit_mask_iff\<close>)
qed

lemma trailing_table:
  "list_all (\<lambda>k. de_Bruijn_lookup_trailing ! unat (drop_bit 27 ((push_bit k 1 * 0x077cb531) AND (0xffffffff :: u32))) = k)
    [0..<32]"
  by code_simp

lemma leading_table:
  "list_all (\<lambda>h. de_Bruijn_lookup_leading ! unat (drop_bit 27 ((mask (Suc h) * 0x07c4acdd) AND (0xffffffff :: u32))) = 31 - h)
    [0..<32]"
  by code_simp

lemma count_trailing_zeros_32_lowest:
  assumes "lowest_bit x k"
  shows "count_trailing_zeros_32 x = k"
proof -
  have "k < 32" using assms by (auto simp: lowest_bit_def dest: bit_imp_le_length)
  then show ?thesis
    using trailing_table by (simp add: count_trailing_zeros_32_def isolate_lowest [OF assms] list_all_iff)
qed

lemma smear_step:
  fixes x y :: "'a::len word"
  assumes "\<And>n. bit y n \<longleftrightarrow> (\<exists>j<k. bit x (n + j))" "m = k + k"
  shows "bit (y OR drop_bit k y) n \<longleftrightarrow> (\<exists>j<m. bit x (n + j))"
proof -
  have "(\<exists>j<k + k. bit x (n + j)) \<longleftrightarrow> (\<exists>j<k. bit x (n + j)) \<or> (\<exists>j<k. bit x (n + (k + j)))"
  proof -
    have "j < k \<or> (\<exists>i<k. j = k + i)" if "j < k + k" for j
      using that by (cases "j < k") (auto intro: exI [of _ "j - k"])
    then show ?thesis by (metis nat_add_left_cancel_less trans_less_add1)
  qed
  then show ?thesis by (simp add: bit_or_iff bit_drop_bit_eq assms add.commute add.left_commute)
qed

definition smear :: "u32 \<Rightarrow> u32" where
  "smear x = (let x = x OR drop_bit 1 x; x = x OR drop_bit 2 x; x = x OR drop_bit 4 x;
     x = x OR drop_bit 8 x in x OR drop_bit 16 x)"

lemma bit_smear: "bit (smear x) n \<longleftrightarrow> (\<exists>j<32. bit x (n + j))"
proof -
  define x1 where "x1 = x OR drop_bit 1 x"
  define x2 where "x2 = x1 OR drop_bit 2 x1"
  define x4 where "x4 = x2 OR drop_bit 4 x2"
  define x8 where "x8 = x4 OR drop_bit 8 x4"
  have s1: "bit x1 n \<longleftrightarrow> (\<exists>j<2. bit x (n + j))" for n
    unfolding x1_def by (rule smear_step) simp_all
  have s2: "bit x2 n \<longleftrightarrow> (\<exists>j<4. bit x (n + j))" for n
    unfolding x2_def by (rule smear_step [OF s1]) simp
  have s4: "bit x4 n \<longleftrightarrow> (\<exists>j<8. bit x (n + j))" for n
    unfolding x4_def by (rule smear_step [OF s2]) simp
  have s8: "bit x8 n \<longleftrightarrow> (\<exists>j<16. bit x (n + j))" for n
    unfolding x8_def by (rule smear_step [OF s4]) simp
  have "smear x = x8 OR drop_bit 16 x8"
    by (simp only: smear_def x1_def x2_def x4_def x8_def Let_def)
  then show ?thesis using smear_step [OF s8, of 32 n] by simp
qed

lemma smear_mask: "highest_bit x h \<Longrightarrow> smear x = mask (Suc h)"
proof (rule bit_word_eqI)
  fix n
  assume h: "highest_bit x h" and "n < LENGTH(32)"
  have "h < 32" using h by (auto simp: highest_bit_def dest: bit_imp_le_length)
  have "(\<exists>j<32. bit x (n + j)) \<longleftrightarrow> n \<le> h"
  proof
    assume "\<exists>j<32. bit x (n + j)"
    then obtain j where "bit x (n + j)" by blast
    with h have "\<not> h < n + j" unfolding highest_bit_def by blast
    then show "n \<le> h" by linarith
  next
    assume "n \<le> h"
    then show "\<exists>j<32. bit x (n + j)"
      using h \<open>h < 32\<close> by (intro exI [of _ "h - n"]) (auto simp: highest_bit_def)
  qed
  then show "bit (smear x) n = bit (mask (Suc h) :: u32) n"
    using \<open>n < LENGTH(32)\<close> by (simp add: bit_smear bit_mask_iff less_Suc_eq_le)
qed

lemma count_leading_zeros_32_highest:
  assumes "highest_bit x h"
  shows "count_leading_zeros_32 x = 31 - h"
proof -
  have "h < 32" using assms by (auto simp: highest_bit_def dest: bit_imp_le_length)
  then have "de_Bruijn_lookup_leading ! unat (drop_bit 27 ((mask (Suc h) * 0x07c4acdd) AND (0xffffffff :: u32))) = 31 - h"
    using leading_table by (simp only: list_all_iff set_upt atLeastLessThan_iff le0 simp_thms Ball_def)
  moreover have "count_leading_zeros_32 x =
      de_Bruijn_lookup_leading ! unat (drop_bit 27 ((smear x * 0x07c4acdd) AND 0xffffffff))"
    by (simp only: count_leading_zeros_32_def smear_def Let_def)
  ultimately show ?thesis by (simp only: smear_mask [OF assms])
qed

lemma bit_low_half: "bit (ucast (x AND 0xffffffff) :: u32) n \<longleftrightarrow> n < 32 \<and> bit (x :: u64) n"
proof -
  have "(0xffffffff :: u64) = mask 32" by (simp add: mask_eq_exp_minus_1)
  then show ?thesis by (simp only: bit_ucast_iff bit_and_iff bit_mask_iff) auto
qed

lemma bit_high_half: "bit (ucast (drop_bit 32 x) :: u32) n \<longleftrightarrow> n < 32 \<and> bit (x :: u64) (32 + n)"
  by (simp only: bit_ucast_iff bit_drop_bit_eq o_def) auto

lemma count_leading_zeros_64_highest:
  assumes "highest_bit x h"
  shows "count_leading_zeros_64 x = 63 - h"
proof -
  have h: "h < 64" "bit x h" and above: "\<And>n. h < n \<Longrightarrow> \<not> bit x n"
    using assms by (auto simp: highest_bit_def dest: bit_imp_le_length)
  show ?thesis
  proof (cases "h < 32")
    case True
    have "bit (drop_bit 32 x) n \<longleftrightarrow> bit (0 :: u64) n" for n
      using above [of "32 + n"] True by (simp add: bit_drop_bit_eq)
    then have "drop_bit 32 x = 0" by (intro bit_word_eqI) blast
    moreover have "highest_bit (ucast (x AND 0xffffffff) :: u32) h"
      unfolding highest_bit_def bit_low_half using h True above by blast
    ultimately have "count_leading_zeros_64 x = 32 + (31 - h)"
      by (simp only: count_leading_zeros_64_def simp_thms if_True count_leading_zeros_32_highest)
    with True show ?thesis by linarith
  next
    case False
    then have hi: "32 + (h - 32) = h" "h - 32 < 32" using h by linarith+
    have "bit (drop_bit 32 x) (h - 32)" using h hi by (simp add: bit_drop_bit_eq)
    then have "drop_bit 32 x \<noteq> 0" using bit_0_eq [where 'a = u64] by (metis bot_apply bot_bool_def)
    moreover have "highest_bit (ucast (drop_bit 32 x) :: u32) (h - 32)"
      unfolding highest_bit_def bit_high_half using h hi above
      by (intro conjI allI impI notI) (auto simp: hi)
    ultimately have "count_leading_zeros_64 x = 31 - (h - 32)"
      by (simp only: count_leading_zeros_64_def if_False count_leading_zeros_32_highest)
    with False h show ?thesis by linarith
  qed
qed

lemma highest_bit_exists:
  fixes x :: "'a::len word"
  assumes "bit x m"
  obtains h where "highest_bit x h"
proof -
  have fin: "finite {n. bit x n}"
    by (rule finite_subset [of _ "{..<LENGTH('a)}"]) (auto dest: bit_imp_le_length)
  have "Max {n. bit x n} \<in> {n. bit x n}" using assms by (intro Max_in [OF fin]) blast
  then have "bit x (Max {n. bit x n})" by (rule CollectD)
  moreover have "\<not> bit x n" if "n > Max {n. bit x n}" for n
  proof
    assume "bit x n"
    then have "n \<le> Max {n. bit x n}" using Max_ge [OF fin] by blast
    with that show False by linarith
  qed
  ultimately have "highest_bit x (Max {n. bit x n})" unfolding highest_bit_def by blast
  then show ?thesis by (rule that)
qed

section \<open>Round trip\<close>

definition prefix_len :: "u64 \<Rightarrow> nat" where
  "prefix_len x = 1 + (63 - count_leading_zeros_64 (x OR 1)) div 7"

definition prefix_bytes :: "u64 \<Rightarrow> bytes" where
  "prefix_bytes x = (if prefix_len x > 8 then 0 # put_le 8 x
     else put_le (prefix_len x) (push_bit (prefix_len x - 1) (2 * x + 1)))"

lemma prefix_highest:
  obtains h where "h < 64" "\<forall>n>h. \<not> bit x n" "count_leading_zeros_64 (x OR 1) = 63 - h"
proof -
  obtain h where h: "highest_bit (x OR 1) h"
    by (rule highest_bit_exists [of "x OR 1" 0]) (simp add: bit_or_iff)
  then have "h < 64" "\<forall>n>h. \<not> bit x n"
    by (auto simp: highest_bit_def bit_or_iff dest: bit_imp_le_length)
  with count_leading_zeros_64_highest [OF h] show ?thesis by (intro that)
qed

lemma prefix_len_bound: "7 * prefix_len x \<le> n \<Longrightarrow> \<not> bit x n"
proof -
  assume n: "7 * prefix_len x \<le> n"
  obtain h where h: "h < 64" "\<forall>n>h. \<not> bit x n" "count_leading_zeros_64 (x OR 1) = 63 - h"
    by (rule prefix_highest [of x])
  have "prefix_len x = 1 + h div 7" using h by (simp add: prefix_len_def)
  with n have "h < n" by linarith
  then show ?thesis using h(2) by blast
qed

lemma prefix_loop_eq: "prefix_loop n x e = append_buf (put_le n x) e"
proof -
  have "(ucast (y AND 0xff) :: u8) = ucast y" for y :: u64
  proof -
    have "(0xff :: u64) = mask 8" by (simp add: mask_eq_exp_minus_1)
    then show ?thesis by (intro bit_word_eqI) (simp only: bit_ucast_iff bit_and_iff bit_mask_iff, auto)
  qed
  then show ?thesis by (induction n arbitrary: x e) simp_all
qed

lemma WritePrefixU64_bytes: "WritePrefixU64 x e = append_buf (prefix_bytes x) e"
proof -
  obtain h where h: "h < 64" "\<forall>n>h. \<not> bit x n" "count_leading_zeros_64 (x OR 1) = 63 - h"
    by (rule prefix_highest [of x])
  have bits: "64 - count_leading_zeros_64 (x OR 1) = h + 1" and len: "prefix_len x = 1 + h div 7"
    using h by (simp_all add: prefix_len_def)
  have "56 < h + 1 \<longleftrightarrow> 8 < 1 + h div 7" by linarith
  then show ?thesis
    unfolding WritePrefixU64_def Let_def bits prefix_bytes_def len prefix_loop_eq by simp
qed

lemma or_bytes_eq: "or_bytes bs i r = r OR push_bit (8 * i) (get_le bs)"
  by (induction bs arbitrary: i r)
    (simp_all add: push_bit_or or.assoc add.commute)

lemma bytesToUint64_eq: "bytesToUint64 bs = get_le bs"
  by (simp add: bytesToUint64_def or_bytes_eq)

lemma get_le_append: "(get_le (xs @ ys) :: 'a::len word) = get_le xs OR push_bit (8 * length xs) (get_le ys)"
  by (induction xs) (simp_all add: push_bit_or or.assoc add.commute)

text \<open>The tagged value: a one below the value, zeros below the one.\<close>

lemma bit_tagged:
  fixes x :: u64
  assumes "0 < l"
  shows "bit (push_bit (l - 1) (2 * x + 1)) n \<longleftrightarrow> n < 64 \<and> (n = l - 1 \<or> l \<le> n \<and> bit x (n - l))"
proof -
  have "2 * x + 1 = push_bit 1 x OR 1"
  proof -
    have "push_bit 1 x AND 1 = 0"
      by (rule bit_word_eqI) (simp only: bit_and_iff bit_push_bit_iff bit_1_iff, simp)
    from disjunctive_add_eq_or [OF this] show ?thesis by (simp add: push_bit_eq_mult mult.commute)
  qed
  then show ?thesis using assms
    by (simp only: bit_push_bit_iff bit_or_iff bit_1_iff possible_bit_word) auto
qed

lemma untag:
  fixes x w :: u64
  assumes l: "0 < l" "l \<le> 8" and x: "\<And>n. 7 * l \<le> n \<Longrightarrow> \<not> bit x n"
    and w: "\<And>n. n < 8 * l \<Longrightarrow> bit w n = bit (push_bit (l - 1) (2 * x + 1)) n"
  shows "drop_bit (64 - 8 * l + l) (push_bit (64 - 8 * l) w) = x"
proof (rule bit_word_eqI)
  fix n
  assume "n < LENGTH(64)"
  have "bit (drop_bit (64 - 8 * l + l) (push_bit (64 - 8 * l) w)) n \<longleftrightarrow> n + 64 - 8 * l + l < 64 \<and> bit w (n + l)"
    using l by (simp only: bit_drop_bit_eq o_def bit_push_bit_iff possible_bit_word) (auto simp: add.commute)
  also have "\<dots> \<longleftrightarrow> n < 7 * l \<and> bit w (n + l)" using l by auto
  also have "\<dots> \<longleftrightarrow> n < 7 * l \<and> bit x n" using l w [of "n + l"] by (auto simp only: bit_tagged) auto
  also have "\<dots> \<longleftrightarrow> bit x n" using x [of n] by (cases "n < 7 * l") auto
  finally show "bit (drop_bit (64 - 8 * l + l) (push_bit (64 - 8 * l) w)) n = bit x n" .
qed

lemma bit_get_le_prefix:
  "n < 8 * length xs \<Longrightarrow> bit (get_le (xs @ ys) :: u64) n = bit (get_le xs :: u64) n"
  by (simp add: get_le_append bit_or_iff bit_push_bit_iff)

lemma get_le_take_prefix:
  assumes "length xs \<le> k" "n < 8 * length xs"
  shows "bit (get_le (take k (xs @ ys)) :: u64) n = bit (get_le xs :: u64) n"
  using assms bit_get_le_prefix by simp

lemma ctz_tagged:
  assumes "0 < l" "l \<le> 8"
  shows "count_trailing_zeros_32 (ucast (ucast (push_bit (l - 1) (2 * x + 1) :: u64) :: u8) OR 0x100) = l - 1"
proof (rule count_trailing_zeros_32_lowest)
  have 256: "bit (0x100 :: u32) n \<longleftrightarrow> n = 8" for n
    using bit_exp_iff [where 'a = u32, of 8 n] by auto
  show "lowest_bit (ucast (ucast (push_bit (l - 1) (2 * x + 1) :: u64) :: u8) OR 0x100 :: u32) (l - 1)"
    unfolding lowest_bit_def bit_or_iff bit_ucast_iff bit_tagged [OF assms(1)] 256 using assms by auto
qed

lemma ctz_zero: "count_trailing_zeros_32 0x100 = 8"
  by code_simp

lemma ReadPrefixU64_bytes:
  assumes d: "at d (prefix_bytes x @ rest)"
  shows "ReadPrefixU64 d = Some (x, advance (length (prefix_bytes x)) d)"
proof (cases "prefix_len x > 8")
  case True
  then have pb: "prefix_bytes x = 0 # put_le 8 x" by (simp add: prefix_bytes_def)
  with d have a: "dec_offset d < length (dec_buf d)" "dec_buf d ! dec_offset d = 0"
    by (auto simp: at_def dest: drop_Cons_nth)
  have d': "at d (([0] @ put_le 8 x) @ rest)" using d by (simp add: pb)
  have "passed 8 (advance 9 d) = put_le 8 x" "\<not> overrun (advance 9 d)"
    using read_counted [of d "[0]" "put_le 8 x" rest] d' by simp_all
  then have "get_le (subslice (Suc (dec_offset d)) (dec_offset d + 9) (dec_buf d @ dec_spare d)) = x"
    "dec_offset d + 9 \<le> length (dec_buf d)"
    by (simp_all add: passed_def subslice_def overrun_def)
  with a show ?thesis by (simp add: ReadPrefixU64_def Let_def ctz_zero pb)
next
  case False
  define l where "l = prefix_len x"
  define y where "y = push_bit (l - 1) (2 * x + 1)"
  have l: "0 < l" "l \<le> 8" using False by (simp_all add: l_def prefix_len_def)
  have pb: "prefix_bytes x = put_le l y" using False by (simp add: prefix_bytes_def l_def y_def)
  have lxs: "length (put_le l y) = l" by simp
  have dr: "drop (dec_offset d) (dec_buf d) = put_le l y @ rest" and o: "dec_offset d \<le> length (dec_buf d)"
    using d by (simp_all add: at_def pb)
  obtain ys where "put_le l y = ucast y # ys" using l by (cases l) auto
  with dr have a: "dec_offset d < length (dec_buf d)" "dec_buf d ! dec_offset d = ucast y"
    by (auto dest: drop_Cons_nth)
  have len: "1 + count_trailing_zeros_32 (ucast (dec_buf d ! dec_offset d) OR 0x100) = l"
    using ctz_tagged [OF l, of x] l by (simp add: a y_def)
  have fits: "dec_offset d + l \<le> length (dec_buf d)"
    using arg_cong [OF dr, of length] o by simp
  have get: "bit (get_le (put_le l y) :: u64) n = bit y n" if "n < 8 * l" for n
    using that by (simp add: get_le_put_le bit_take_bit_iff)
  have x: "7 * l \<le> n \<Longrightarrow> \<not> bit x n" for n using prefix_len_bound [of x n] by (simp add: l_def)
  have wide: "bit (get_le (subslice (dec_offset d) (dec_offset d + 8) (dec_buf d)) :: u64) n = bit y n"
    if "n < 8 * l" for n
    using that l get get_le_take_prefix [of "put_le l y" 8 n rest] by (simp add: subslice_def dr)
  have narrow: "subslice (dec_offset d) (dec_offset d + l) (dec_buf d @ dec_spare d) = put_le l y"
    using dr fits by (simp add: subslice_def)
  have 1: "drop_bit (64 - 8 * l + l) (push_bit (64 - 8 * l)
      (get_le (subslice (dec_offset d) (dec_offset d + 8) (dec_buf d)))) = x"
    by (rule untag [OF l x]) (simp_all only: wide y_def [symmetric])
  have 2: "drop_bit (64 - 8 * l + l) (push_bit (64 - 8 * l)
      (bytesToUint64 (subslice (dec_offset d) (dec_offset d + l) (dec_buf d @ dec_spare d)))) = x"
    unfolding narrow bytesToUint64_eq by (rule untag [OF l x]) (simp_all only: get y_def [symmetric])
  show ?thesis
    unfolding ReadPrefixU64_def Let_def len using a l fits 1 2 by (simp add: pb)
qed

section \<open>Properties\<close>

text \<open>C28: A prefix coded integer is read back, whatever bytes follow it, and the decoder stands behind
  it.\<close>

theorem prefix_round_trip:
  "let bs = Encoder_Bytes (WritePrefixU64 x (Encoder_Reset e)); d' = Decoder_Init (bs @ rest) spare d
   in ReadPrefixU64 d' = Some (x, advance (length bs) d')"
proof -
  have b: "Encoder_Bytes (WritePrefixU64 x (Encoder_Reset e)) = prefix_bytes x"
    by (simp add: Encoder_Bytes_def WritePrefixU64_bytes Encoder_Reset_def)
  have "at (Decoder_Init (prefix_bytes x @ rest) spare d) (prefix_bytes x @ rest)"
    by (simp add: at_def Decoder_Init_def)
  from ReadPrefixU64_bytes [OF this] show ?thesis unfolding b Let_def .
qed

text \<open>The de Bruijn lookups count zeros: \<open>63 - count_leading_zeros_64 x\<close> is the highest set bit of
  \<open>x\<close>, and \<open>count_trailing_zeros_32 y\<close> the lowest one of \<open>y\<close>.\<close>

theorem zero_counts:
  assumes "x \<noteq> 0" "y \<noteq> 0"
  shows "highest_bit x (63 - count_leading_zeros_64 x) \<and> lowest_bit y (count_trailing_zeros_32 y)"
proof
  obtain m where "bit x m" using assms(1) by (metis bit_0_eq bit_word_eqI bot_apply bot_bool_def)
  then obtain h where h: "highest_bit x h" by (rule highest_bit_exists)
  moreover have "h < 64" using h by (auto simp: highest_bit_def dest: bit_imp_le_length)
  ultimately show "highest_bit x (63 - count_leading_zeros_64 x)"
    using count_leading_zeros_64_highest [OF h] by simp
  obtain n where "bit y n" using assms(2) by (metis bit_0_eq bit_word_eqI bot_apply bot_bool_def)
  then have "lowest_bit y (LEAST n. bit y n)" unfolding lowest_bit_def by (blast intro: LeastI dest: not_less_Least)
  then show "lowest_bit y (count_trailing_zeros_32 y)" using count_trailing_zeros_32_lowest by simp
qed

theorem zero_counts_witness:
  "highest_bit (0x500 :: u64) (63 - count_leading_zeros_64 0x500) \<and> lowest_bit (0x500 :: u32) (count_trailing_zeros_32 0x500)"
  using zero_counts [of "0x500" "0x500"] by simp

text \<open>The read has no bounds check of its own: a two byte value cut after its first byte is
  completed with whatever lies behind the buffer in the backing array, the position passes
  the end and no failure is counted; without such bytes the read panics.\<close>

theorem prefix_read_unchecked:
  "(let d = \<lparr>dec_buf = [2], dec_spare = [1], dec_offset = 0, dec_err = 0\<rparr>
    in ReadPrefixU64 d = Some (64, advance 2 d) \<and> overrun (advance 2 d) \<and> \<not> Failed (advance 2 d)) \<and>
   ReadPrefixU64 \<lparr>dec_buf = [2], dec_spare = [], dec_offset = 0, dec_err = 0\<rparr> = None"
  by code_simp

end
