(* ===== verification/Ckdb.thy ===== *)
theory Ckdb
  imports Go_Prelude
begin

text \<open>
  The ClickHouse layer of \<^verbatim>\<open>server/libs/ckdb\<close>: the row writer \<open>Block\<close>, the column
  descriptions with their default codecs and indexes, and the SQL text of the tables
  (\<^verbatim>\<open>ckdb.go\<close>, \<^verbatim>\<open>table.go\<close>).

  A block writes one row into a batch of the ClickHouse driver. The driver is not part of the
  program: \<^verbatim>\<open>Batch.Column(i).Append(v)\<close> is the argument \<open>app\<close> of every write, a state
  transformer of the batch that may return an error. A write that fails leaves the row
  partly written, so every operation returns the block as well as the error.
\<close>

section \<open>Values and blocks\<close>

text \<open>
  What is handed to the driver, by the Go type of the slice element. A \<^verbatim>\<open>float64\<close> is its
  64 bits. Nullable writes take a pointer, whose target is optional.
\<close>

type_synonym float64 = u64

datatype ck_value =
    CkUInt8 u8 | CkUInt8Nullable "u8 option"
  | CkUInt16 u16 | CkUInt16Nullable "u16 option"
  | CkUInt32 u32 | CkUInt32Nullable "u32 option"
  | CkUInt64 u64 | CkUInt64Nullable "u64 option"
  | CkInt8 u8 | CkInt8Nullable "u8 option"
  | CkInt16 i16 | CkInt16Nullable "i16 option"
  | CkInt32 i32 | CkInt32Nullable "i32 option"
  | CkInt64 i64 | CkInt64Nullable "i64 option"
  | CkFloat64 float64 | CkFloat64Nullable "float64 option"
  | CkString bytes | CkIP bytes | CkArray ck_value
  | CkArrayString "bytes list" | CkArrayInt64 "i64 list" | CkArrayUInt64 "u64 list"
  | CkArrayFloat64 "float64 list" | CkTime int

type_synonym ('e, 'b) column_append = "nat \<Rightarrow> ck_value \<Rightarrow> 'b \<Rightarrow> 'e option \<times> 'b"

record 'b Block =
  Batch :: 'b
  index :: nat

definition ResetIndex :: "'b Block \<Rightarrow> 'b Block" where
  "ResetIndex b = b\<lparr>index := 0\<rparr>"

text \<open>The common body of the writes: the index moves only past a successful append.\<close>

definition block_append :: "('e, 'b) column_append \<Rightarrow> ck_value \<Rightarrow> 'b Block \<Rightarrow> 'e option \<times> 'b Block" where
  "block_append app v b =
     (case app (index b) v (Batch b) of
        (Some er, batch) \<Rightarrow> (Some er, b\<lparr>Batch := batch\<rparr>)
      | (None, batch) \<Rightarrow> (None, b\<lparr>Batch := batch, index := index b + 1\<rparr>))"

definition Bool2UInt8 :: "bool \<Rightarrow> u8" where
  "Bool2UInt8 b = (if b then 1 else 0)"

definition IpFromUint32 :: "u32 \<Rightarrow> bytes" where
  "IpFromUint32 ipInt = put_be 4 ipInt"


definition Block_WriteBool :: "('e, 'b) column_append \<Rightarrow> bool \<Rightarrow> 'b Block \<Rightarrow> 'e option \<times> 'b Block" where
  "Block_WriteBool app v = block_append app (CkUInt8 (Bool2UInt8 v))"

definition Block_WriteUInt8 :: "('e, 'b) column_append \<Rightarrow> u8 \<Rightarrow> 'b Block \<Rightarrow> 'e option \<times> 'b Block" where
  "Block_WriteUInt8 app v = block_append app (CkUInt8 v)"

definition Block_WriteUInt8Nullable :: "('e, 'b) column_append \<Rightarrow> u8 option \<Rightarrow> 'b Block \<Rightarrow> 'e option \<times> 'b Block" where
  "Block_WriteUInt8Nullable app v = block_append app (CkUInt8Nullable v)"

definition Block_WriteUInt16 :: "('e, 'b) column_append \<Rightarrow> u16 \<Rightarrow> 'b Block \<Rightarrow> 'e option \<times> 'b Block" where
  "Block_WriteUInt16 app v = block_append app (CkUInt16 v)"

definition Block_WriteUInt16Nullable :: "('e, 'b) column_append \<Rightarrow> u16 option \<Rightarrow> 'b Block \<Rightarrow> 'e option \<times> 'b Block" where
  "Block_WriteUInt16Nullable app v = block_append app (CkUInt16Nullable v)"

definition Block_WriteUInt32 :: "('e, 'b) column_append \<Rightarrow> u32 \<Rightarrow> 'b Block \<Rightarrow> 'e option \<times> 'b Block" where
  "Block_WriteUInt32 app v = block_append app (CkUInt32 v)"

definition Block_WriteUInt32Nullable :: "('e, 'b) column_append \<Rightarrow> u32 option \<Rightarrow> 'b Block \<Rightarrow> 'e option \<times> 'b Block" where
  "Block_WriteUInt32Nullable app v = block_append app (CkUInt32Nullable v)"

definition Block_WriteUInt64 :: "('e, 'b) column_append \<Rightarrow> u64 \<Rightarrow> 'b Block \<Rightarrow> 'e option \<times> 'b Block" where
  "Block_WriteUInt64 app v = block_append app (CkUInt64 v)"

definition Block_WriteUInt64Nullable :: "('e, 'b) column_append \<Rightarrow> u64 option \<Rightarrow> 'b Block \<Rightarrow> 'e option \<times> 'b Block" where
  "Block_WriteUInt64Nullable app v = block_append app (CkUInt64Nullable v)"

definition Block_WriteInt8 :: "('e, 'b) column_append \<Rightarrow> u8 \<Rightarrow> 'b Block \<Rightarrow> 'e option \<times> 'b Block" where
  "Block_WriteInt8 app v = block_append app (CkInt8 v)"

definition Block_WriteInt8Nullable :: "('e, 'b) column_append \<Rightarrow> u8 option \<Rightarrow> 'b Block \<Rightarrow> 'e option \<times> 'b Block" where
  "Block_WriteInt8Nullable app v = block_append app (CkInt8Nullable v)"

definition Block_WriteInt16 :: "('e, 'b) column_append \<Rightarrow> i16 \<Rightarrow> 'b Block \<Rightarrow> 'e option \<times> 'b Block" where
  "Block_WriteInt16 app v = block_append app (CkInt16 v)"

definition Block_WriteInt16Nullable :: "('e, 'b) column_append \<Rightarrow> i16 option \<Rightarrow> 'b Block \<Rightarrow> 'e option \<times> 'b Block" where
  "Block_WriteInt16Nullable app v = block_append app (CkInt16Nullable v)"

definition Block_WriteInt32 :: "('e, 'b) column_append \<Rightarrow> i32 \<Rightarrow> 'b Block \<Rightarrow> 'e option \<times> 'b Block" where
  "Block_WriteInt32 app v = block_append app (CkInt32 v)"

definition Block_WriteInt32Nullable :: "('e, 'b) column_append \<Rightarrow> i32 option \<Rightarrow> 'b Block \<Rightarrow> 'e option \<times> 'b Block" where
  "Block_WriteInt32Nullable app v = block_append app (CkInt32Nullable v)"

definition Block_WriteInt64 :: "('e, 'b) column_append \<Rightarrow> i64 \<Rightarrow> 'b Block \<Rightarrow> 'e option \<times> 'b Block" where
  "Block_WriteInt64 app v = block_append app (CkInt64 v)"

definition Block_WriteInt64Nullable :: "('e, 'b) column_append \<Rightarrow> i64 option \<Rightarrow> 'b Block \<Rightarrow> 'e option \<times> 'b Block" where
  "Block_WriteInt64Nullable app v = block_append app (CkInt64Nullable v)"

definition Block_WriteFloat64 :: "('e, 'b) column_append \<Rightarrow> float64 \<Rightarrow> 'b Block \<Rightarrow> 'e option \<times> 'b Block" where
  "Block_WriteFloat64 app v = block_append app (CkFloat64 v)"

definition Block_WriteFloat64Nullable :: "('e, 'b) column_append \<Rightarrow> float64 option \<Rightarrow> 'b Block \<Rightarrow> 'e option \<times> 'b Block" where
  "Block_WriteFloat64Nullable app v = block_append app (CkFloat64Nullable v)"

definition Block_WriteString :: "('e, 'b) column_append \<Rightarrow> bytes \<Rightarrow> 'b Block \<Rightarrow> 'e option \<times> 'b Block" where
  "Block_WriteString app v = block_append app (CkString v)"

definition Block_WriteIPv4 :: "('e, 'b) column_append \<Rightarrow> u32 \<Rightarrow> 'b Block \<Rightarrow> 'e option \<times> 'b Block" where
  "Block_WriteIPv4 app v = block_append app (CkIP (IpFromUint32 v))"

definition Block_WriteIPv6 :: "('e, 'b) column_append \<Rightarrow> bytes \<Rightarrow> 'b Block \<Rightarrow> 'e option \<times> 'b Block" where
  "Block_WriteIPv6 app v = block_append app (CkIP v)"

definition Block_WriteArray :: "('e, 'b) column_append \<Rightarrow> ck_value \<Rightarrow> 'b Block \<Rightarrow> 'e option \<times> 'b Block" where
  "Block_WriteArray app v = block_append app (CkArray v)"

definition Block_WriteArrayString :: "('e, 'b) column_append \<Rightarrow> bytes list \<Rightarrow> 'b Block \<Rightarrow> 'e option \<times> 'b Block" where
  "Block_WriteArrayString app v = block_append app (CkArrayString v)"

definition Block_WriteArrayInt64 :: "('e, 'b) column_append \<Rightarrow> i64 list \<Rightarrow> 'b Block \<Rightarrow> 'e option \<times> 'b Block" where
  "Block_WriteArrayInt64 app v = block_append app (CkArrayInt64 v)"

definition Block_WriteArrayUInt64 :: "('e, 'b) column_append \<Rightarrow> u64 list \<Rightarrow> 'b Block \<Rightarrow> 'e option \<times> 'b Block" where
  "Block_WriteArrayUInt64 app v = block_append app (CkArrayUInt64 v)"

definition Block_WriteArrayFloat64 :: "('e, 'b) column_append \<Rightarrow> float64 list \<Rightarrow> 'b Block \<Rightarrow> 'e option \<times> 'b Block" where
  "Block_WriteArrayFloat64 app v = block_append app (CkArrayFloat64 v)"

definition Block_WriteDateTime :: "('e, 'b) column_append \<Rightarrow> u32 \<Rightarrow> 'b Block \<Rightarrow> 'e option \<times> 'b Block" where
  "Block_WriteDateTime app v = block_append app (CkTime (uint v))"

text \<open>
  The idiom \<^verbatim>\<open>if err := f(block); err != nil { return err }\<close> before \<open>g\<close>, and the loop
  \<^verbatim>\<open>for _, v := range values { if err := block.WriteX(v); err != nil { return err } }\<close>.
\<close>

definition and_then :: "('b Block \<Rightarrow> 'e option \<times> 'b Block) \<Rightarrow> ('b Block \<Rightarrow> 'e option \<times> 'b Block)
    \<Rightarrow> 'b Block \<Rightarrow> 'e option \<times> 'b Block" where
  "and_then f g b = (case f b of (Some er, b) \<Rightarrow> (Some er, b) | (None, b) \<Rightarrow> g b)"

primrec write_each :: "('v \<Rightarrow> 'b Block \<Rightarrow> 'e option \<times> 'b Block) \<Rightarrow> 'v list \<Rightarrow> 'b Block \<Rightarrow> 'e option \<times> 'b Block" where
  "write_each w [] = Pair None"
| "write_each w (v # vs) = and_then (w v) (write_each w vs)"


section \<open>Column types, codecs, indexes, engines\<close>

text \<open>A literal of the source, as its bytes.\<close>

definition str :: "string \<Rightarrow> bytes" where
  "str s = map of_char s"

datatype ColumnType =
    CT_UInt64 | CT_UInt64Nullable | CT_UInt32 | CT_UInt32Nullable | CT_UInt16 | CT_UInt16Nullable
  | CT_UInt8 | CT_UInt8Nullable | CT_Int64 | CT_Int64Nullable | CT_Int32 | CT_Int32Nullable
  | CT_Int16 | CT_Int16Nullable | CT_Int8 | CT_Int8Nullable | CT_Float64 | CT_Float64Nullable
  | CT_String | CT_IPv6 | CT_IPv4 | CT_ArrayString | CT_ArrayUInt16 | CT_ArrayUInt32
  | CT_ArrayInt64 | CT_ArrayFloat64 | CT_DateTime | CT_DateTime64 | CT_DateTime64ms | CT_DateTime64us
  | CT_FixString8 | CT_LowCardinalityString

fun ColumnType_String :: "ColumnType \<Rightarrow> bytes" where
  "ColumnType_String CT_UInt64 = str ''UInt64''"
| "ColumnType_String CT_UInt64Nullable = str ''Nullable(UInt64)''"
| "ColumnType_String CT_UInt32 = str ''UInt32''"
| "ColumnType_String CT_UInt32Nullable = str ''Nullable(UInt32)''"
| "ColumnType_String CT_UInt16 = str ''UInt16''"
| "ColumnType_String CT_UInt16Nullable = str ''Nullable(UInt16)''"
| "ColumnType_String CT_UInt8 = str ''UInt8''"
| "ColumnType_String CT_UInt8Nullable = str ''Nullable(UInt8)''"
| "ColumnType_String CT_Int64 = str ''Int64''"
| "ColumnType_String CT_Int64Nullable = str ''Nullable(Int64)''"
| "ColumnType_String CT_Int32 = str ''Int32''"
| "ColumnType_String CT_Int32Nullable = str ''Nullable(Int32)''"
| "ColumnType_String CT_Int16 = str ''Int16''"
| "ColumnType_String CT_Int16Nullable = str ''Nullable(Int16)''"
| "ColumnType_String CT_Int8 = str ''Int8''"
| "ColumnType_String CT_Int8Nullable = str ''Nullable(Int8)''"
| "ColumnType_String CT_Float64 = str ''Float64''"
| "ColumnType_String CT_Float64Nullable = str ''Nullable(Float64)''"
| "ColumnType_String CT_String = str ''String''"
| "ColumnType_String CT_IPv6 = str ''IPv6''"
| "ColumnType_String CT_IPv4 = str ''IPv4''"
| "ColumnType_String CT_ArrayString = str ''Array(String)''"
| "ColumnType_String CT_ArrayUInt16 = str ''Array(UInt16)''"
| "ColumnType_String CT_ArrayUInt32 = str ''Array(UInt32)''"
| "ColumnType_String CT_ArrayInt64 = str ''Array(Int64)''"
| "ColumnType_String CT_ArrayFloat64 = str ''Array(Float64)''"
| "ColumnType_String CT_DateTime = str ''DateTime('' @ [39] @ str ''Asia/Shanghai'' @ [39] @ str '')''"
| "ColumnType_String CT_DateTime64 = str ''DateTime64(0, '' @ [39] @ str ''Asia/Shanghai'' @ [39] @ str '')''"
| "ColumnType_String CT_DateTime64ms = str ''DateTime64(3, '' @ [39] @ str ''Asia/Shanghai'' @ [39] @ str '')''"
| "ColumnType_String CT_DateTime64us = str ''DateTime64(6, '' @ [39] @ str ''Asia/Shanghai'' @ [39] @ str '')''"
| "ColumnType_String CT_FixString8 = str ''FixedString(8)''"
| "ColumnType_String CT_LowCardinalityString = str ''LowCardinality(String)''"

datatype CodecType =
    CodecDefault | CodecLZ4 | CodecLZ4HC | CodecZSTD | CodecT64 | CodecDelta
  | CodecDoubleDelta | CodecGorilla | CodecNone

fun CodecType_String :: "CodecType \<Rightarrow> bytes" where
  "CodecType_String CodecDefault = []"
| "CodecType_String CodecLZ4 = str ''LZ4''"
| "CodecType_String CodecLZ4HC = str ''LZ4HC''"
| "CodecType_String CodecZSTD = str ''ZSTD''"
| "CodecType_String CodecT64 = str ''T64''"
| "CodecType_String CodecDelta = str ''Delta''"
| "CodecType_String CodecDoubleDelta = str ''DoubleDelta''"
| "CodecType_String CodecGorilla = str ''Gorilla''"
| "CodecType_String CodecNone = str ''None''"

datatype IndexType =
    IndexNone | IndexMinmax | IndexSet | IndexBloomfilter

fun IndexType_String :: "IndexType \<Rightarrow> bytes" where
  "IndexType_String IndexNone = []"
| "IndexType_String IndexMinmax = str ''minmax''"
| "IndexType_String IndexSet = str ''set(300)''"
| "IndexType_String IndexBloomfilter = str ''bloom_filter''"

datatype TimeFuncType =
    TimeFuncNone | TimeFuncMinute | TimeFuncTenMinute | TimeFuncHour | TimeFuncFourHour | TimeFuncTwelveHour
  | TimeFuncDay | TimeFuncWeek | TimeFuncMonth | TimeFuncYYYYMM | TimeFuncYYYYMMDD

text \<open>\<^verbatim>\<open>fmt.Sprintf(timeFuncTypeString[t], timeKey)\<close>\<close>

fun TimeFuncType_String :: "TimeFuncType \<Rightarrow> bytes \<Rightarrow> bytes" where
  "TimeFuncType_String TimeFuncNone timeKey = timeKey"
| "TimeFuncType_String TimeFuncMinute timeKey = str ''toStartOfMinute('' @ timeKey @ str '')''"
| "TimeFuncType_String TimeFuncTenMinute timeKey = str ''toStartOfTenMinute('' @ timeKey @ str '')''"
| "TimeFuncType_String TimeFuncHour timeKey = str ''toStartOfHour('' @ timeKey @ str '')''"
| "TimeFuncType_String TimeFuncFourHour timeKey = str ''toStartOfInterval('' @ timeKey @ str '', INTERVAL 4 hour)''"
| "TimeFuncType_String TimeFuncTwelveHour timeKey = str ''toStartOfInterval('' @ timeKey @ str '', INTERVAL 12 hour)''"
| "TimeFuncType_String TimeFuncDay timeKey = str ''toStartOfDay('' @ timeKey @ str '')''"
| "TimeFuncType_String TimeFuncWeek timeKey = str ''toStartOfWeek('' @ timeKey @ str '')''"
| "TimeFuncType_String TimeFuncMonth timeKey = str ''toStartOfMonth('' @ timeKey @ str '')''"
| "TimeFuncType_String TimeFuncYYYYMM timeKey = str ''toYYYYMM('' @ timeKey @ str '')''"
| "TimeFuncType_String TimeFuncYYYYMMDD timeKey = str ''toYYYYMMDD('' @ timeKey @ str '')''"

datatype EngineType =
    Distributed | MergeTree | ReplicatedMergeTree | AggregatingMergeTree | ReplicatedAggregatingMergeTree

text \<open>
  The engine's text with the arguments of \<^verbatim>\<open>Sprintf\<close> filled in where it has placeholders: the
  cluster, the database and the table.
\<close>

fun EngineType_Sprintf :: "EngineType \<Rightarrow> bytes \<Rightarrow> bytes \<Rightarrow> bytes \<Rightarrow> bytes" where
  "EngineType_Sprintf Distributed cluster db tbl =
     str ''Distributed('' @ [39] @ cluster @ [39] @ str '', '' @ [39] @ db @ [39] @ str '', '' @ [39] @ tbl @ [39] @ str '', rand())''"
| "EngineType_Sprintf MergeTree _ _ _ =
     str ''MergeTree()''"
| "EngineType_Sprintf ReplicatedMergeTree _ db tbl =
     str ''ReplicatedMergeTree('' @ [39] @ str ''/clickhouse/tables/{shard}/'' @ db @ str ''/'' @ tbl @ [39] @ str '', '' @ [39] @ str ''{replica}'' @ [39] @ str '')''"
| "EngineType_Sprintf AggregatingMergeTree _ _ _ =
     str ''AggregatingMergeTree()''"
| "EngineType_Sprintf ReplicatedAggregatingMergeTree _ db tbl =
     str ''ReplicatedAggregatingMergeTree('' @ [39] @ str ''/clickhouse/tables/{shard}/'' @ db @ str ''/'' @ tbl @ [39] @ str '', '' @ [39] @ str ''{replica}'' @ [39] @ str '')''"

datatype ClusterType =
    DF_CLUSTER | DF_REPLICATED_CLUSTER

fun ClusterType_String :: "ClusterType \<Rightarrow> bytes" where
  "ClusterType_String DF_CLUSTER = str ''df_cluster''"
| "ClusterType_String DF_REPLICATED_CLUSTER = str ''df_replicated_cluster''"

definition DF_STORAGE_POLICY :: bytes where
  "DF_STORAGE_POLICY = str ''df_storage''"

section \<open>Columns\<close>

record Column =
  col_Name :: bytes
  col_Type :: ColumnType
  col_Codec :: CodecType
  col_Index :: IndexType
  col_GroupBy :: bool
  col_Comment :: bytes

definition SetGroupBy :: "Column \<Rightarrow> Column" where
  "SetGroupBy c = c\<lparr>col_GroupBy := True\<rparr>"

definition SetCodec :: "CodecType \<Rightarrow> Column \<Rightarrow> Column" where
  "SetCodec ct c = c\<lparr>col_Codec := ct\<rparr>"

definition SetIndex :: "IndexType \<Rightarrow> Column \<Rightarrow> Column" where
  "SetIndex i c = c\<lparr>col_Index := i\<rparr>"

definition SetComment :: "bytes \<Rightarrow> Column \<Rightarrow> Column" where
  "SetComment comment c = c\<lparr>col_Comment := comment\<rparr>"

definition NewColumn :: "bytes \<Rightarrow> ColumnType \<Rightarrow> Column" where
  "NewColumn name t =
     (let (codec, ix) =
        (if t = CT_UInt8 then (CodecDefault, IndexSet)
         else if t \<in> {CT_UInt16, CT_UInt32, CT_Int32, CT_IPv4, CT_IPv6, CT_ArrayUInt16} then (CodecDefault, IndexMinmax)
         else if t \<in> {CT_UInt64, CT_Int64} then (CodecT64, IndexNone)
         else if t \<in> {CT_DateTime, CT_DateTime64ms, CT_DateTime64us} then (CodecDoubleDelta, IndexMinmax)
         else if t = CT_Float64 then (CodecGorilla, IndexNone)
         else (CodecDefault, IndexNone))
      in \<lparr>col_Name = name, col_Type = t, col_Codec = codec, col_Index = ix, col_GroupBy = False, col_Comment = []\<rparr>)"

definition NewColumnWithGroupBy :: "bytes \<Rightarrow> ColumnType \<Rightarrow> Column" where
  "NewColumnWithGroupBy name t = SetGroupBy (NewColumn name t)"

definition NewColumns :: "bytes list \<Rightarrow> ColumnType \<Rightarrow> Column list" where
  "NewColumns names t = map (\<lambda>name. NewColumn name t) names"

definition NewColumnsWithComment :: "(bytes \<times> bytes) list \<Rightarrow> ColumnType \<Rightarrow> Column list" where
  "NewColumnsWithComment nameComments t = map (\<lambda>(name, comment). SetComment comment (NewColumn name t)) nameComments"

section \<open>Tables\<close>

record Table =
  tbl_Version :: bytes
  tbl_ID :: u8
  tbl_Database :: bytes
  tbl_LocalName :: bytes
  tbl_GlobalName :: bytes
  tbl_Columns :: "Column list"
  tbl_TimeKey :: bytes
  tbl_TTL :: int
  tbl_PartitionFunc :: TimeFuncType
  tbl_Cluster :: ClusterType
  tbl_Engine :: EngineType
  tbl_OrderKeys :: "bytes list"
  tbl_PrimaryKeyCount :: nat

text \<open>Decimal text, as \<^verbatim>\<open>strconv.FormatUint\<close> and the verb \<^verbatim>\<open>%d\<close> write it.\<close>

fun decimal :: "nat \<Rightarrow> bytes" where
  "decimal n = (if n < 10 then [of_nat (48 + n)] else decimal (n div 10) @ [of_nat (48 + n mod 10)])"

declare decimal.simps [simp del]

definition format_int :: "int \<Rightarrow> bytes" where
  "format_int i = (if i < 0 then 45 # decimal (nat (- i)) else decimal (nat i))"

text \<open>\<^verbatim>\<open>strings.Join\<close>\<close>

fun Join :: "bytes \<Rightarrow> bytes list \<Rightarrow> bytes" where
  "Join sep [] = []"
| "Join sep [x] = x"
| "Join sep (x # y # ys) = x @ sep @ Join sep (y # ys)"

text \<open>
  The text of one column and of its index. The version of the table becomes the comment of
  the time column, also in the column itself.
\<close>

definition version_comment :: "Table \<Rightarrow> Column \<Rightarrow> Column" where
  "version_comment t c = (if col_Name c = tbl_TimeKey t then c\<lparr>col_Comment := tbl_Version t\<rparr> else c)"

definition column_sql :: "Column \<Rightarrow> bytes list" where
  "column_sql c =
     (let comment = (if col_Comment c \<noteq> [] then str ''COMMENT '' @ [39] @ col_Comment c @ [39] else []);
          codec = (if col_Codec c \<noteq> CodecDefault then str ''CODEC('' @ CodecType_String (col_Codec c) @ str '')'' else [])
      in [[96] @ col_Name c @ [96] @ str '' '' @ ColumnType_String (col_Type c) @ str '' '' @ comment @ str '' '' @ codec]
         @ (if col_Index c \<noteq> IndexNone
            then [str ''INDEX '' @ col_Name c @ str ''_idx ('' @ col_Name c @ str '') TYPE ''
                  @ IndexType_String (col_Index c) @ str '' GRANULARITY 3'']
            else []))"

text \<open>
  The columns of the table are updated in place. \<open>None\<close> is the panic of the slice expression
  \<^verbatim>\<open>t.OrderKeys[:t.PrimaryKeyCount]\<close>. The engine's text is formatted only for the replicated
  engines; the text of \<open>Distributed\<close> keeps its placeholders, given here as arguments.
\<close>

definition MakeLocalTableCreateSQL :: "Table \<Rightarrow> (bytes \<times> Table) option" where
  "MakeLocalTableCreateSQL t =
     (let cs = map (version_comment t) (tbl_Columns t);
          columns = concat (map column_sql cs);
          engine = (if tbl_Engine t = ReplicatedMergeTree \<or> tbl_Engine t = ReplicatedAggregatingMergeTree
            then EngineType_Sprintf (tbl_Engine t) [] (tbl_Database t) (tbl_LocalName t)
            else EngineType_Sprintf (tbl_Engine t) (str ''%s'') (str ''%s'') (str ''%s''))
      in if tbl_PrimaryKeyCount t > length (tbl_OrderKeys t) then None
         else Some ([10] @ str ''CREATE TABLE IF NOT EXISTS '' @ tbl_Database t @ str ''.'' @ [96] @ tbl_LocalName t @ [96] @ [10]
           @ str ''('' @ Join (str '','' @ [10]) columns @ str '')'' @ [10]
           @ str ''ENGINE = '' @ engine @ [10]
           @ str ''PRIMARY KEY ('' @ Join (str '','') (take (tbl_PrimaryKeyCount t) (tbl_OrderKeys t)) @ str '')'' @ [10]
           @ str ''ORDER BY ('' @ Join (str '','') (tbl_OrderKeys t) @ str '')'' @ [10]
           @ str ''PARTITION BY '' @ TimeFuncType_String (tbl_PartitionFunc t) (tbl_TimeKey t) @ [10]
           @ str ''TTL '' @ tbl_TimeKey t @ str '' +  toIntervalDay('' @ format_int (tbl_TTL t) @ str '')'' @ [10]
           @ str ''SETTINGS storage_policy = '' @ [39] @ DF_STORAGE_POLICY @ [39],
           t\<lparr>tbl_Columns := cs\<rparr>))"

definition MakeGlobalTableCreateSQL :: "Table \<Rightarrow> bytes" where
  "MakeGlobalTableCreateSQL t =
     (let engine = EngineType_Sprintf Distributed (ClusterType_String (tbl_Cluster t)) (tbl_Database t) (tbl_LocalName t)
      in str ''CREATE TABLE IF NOT EXISTS '' @ tbl_Database t @ str ''.'' @ [96] @ tbl_GlobalName t @ [96]
         @ str '' AS '' @ tbl_Database t @ str ''.'' @ [96] @ tbl_LocalName t @ [96] @ str '' ENGINE='' @ engine)"

definition MakePrepareTableInsertSQL :: "Table \<Rightarrow> bytes" where
  "MakePrepareTableInsertSQL t =
     (let columns = map col_Name (tbl_Columns t); vals = map (\<lambda>_. str ''?'') (tbl_Columns t)
      in str ''INSERT INTO '' @ tbl_Database t @ str ''.'' @ [96] @ tbl_LocalName t @ [96] @ str '' ('' @ Join (str '','') columns
         @ str '') VALUES ('' @ Join (str '','') vals @ str '')'')"

section \<open>Row laws\<close>

text \<open>The row a sequence of writes produces, as the appends it performs.\<close>

definition writes :: "('e, 'b) column_append \<Rightarrow> ('b Block \<Rightarrow> 'e option \<times> 'b Block) \<Rightarrow> ck_value list \<Rightarrow> bool" where
  "writes app f vs \<longleftrightarrow> f = write_each (block_append app) vs"

lemma write_each_append: "write_each w (xs @ ys) = and_then (write_each w xs) (write_each w ys)"
  by (induction xs) (auto simp: and_then_def fun_eq_iff split: prod.split option.split)

lemma write_each_map: "write_each w (map f xs) = write_each (\<lambda>x. w (f x)) xs"
  by (induction xs) auto

lemma writes_and_then: "writes app f xs \<Longrightarrow> writes app g ys \<Longrightarrow> writes app (and_then f g) (xs @ ys)"
  by (simp add: writes_def write_each_append)

lemma writes_each:
  assumes "\<And>v. w v = block_append app (c v)"
  shows "writes app (write_each w vs) (map c vs)"
proof -
  have "w = (\<lambda>v. block_append app (c v))" using assms by (rule ext)
  then show ?thesis by (simp add: writes_def write_each_map)
qed

lemma writes_one: "writes app (block_append app v) [v]"
  by (auto simp: writes_def and_then_def fun_eq_iff split: prod.split option.split)

text \<open>
  A driver that accepts every value and logs the column it goes to: a row of \<open>n\<close> values fills
  the \<open>n\<close> columns from the current index on, in order.
\<close>

lemma write_each_log:
  assumes "\<And>i v b. \<exists>b'. app i v b = (None, b') \<and> logged b' = logged b @ [(i, v)]"
  shows "\<exists>b'. write_each (block_append app) vs b = (None, b') \<and> index b' = index b + length vs \<and>
    logged (Batch b') = logged (Batch b) @ zip [index b..<index b + length vs] vs"
proof (induction vs arbitrary: b)
  case (Cons v vs)
  obtain c where c: "app (index b) v (Batch b) = (None, c)" "logged c = logged (Batch b) @ [(index b, v)]"
    using assms by blast
  let ?b = "b\<lparr>Batch := c, index := index b + 1\<rparr>"
  have "block_append app v b = (None, ?b)" by (simp add: block_append_def c)
  moreover have "[index b..<index b + length (v # vs)] = index b # [index ?b..<index ?b + length vs]"
    by (simp add: upt_rec)
  ultimately show ?case using Cons.IH [of ?b] by (simp add: and_then_def c(2) upt_conv_Cons)
qed simp

text \<open>A failing append stops the row there, with the error and the index of the column.\<close>

lemma write_each_error:
  assumes "write_each (block_append app) vs b = (Some er, b')"
  shows "index b \<le> index b' \<and> index b' < index b + length vs \<and>
    (\<exists>batch. app (index b') (vs ! (index b' - index b)) batch = (Some er, Batch b'))"
  using assms
proof (induction vs arbitrary: b)
  case (Cons v vs)
  show ?case
  proof (cases "app (index b) v (Batch b)")
    case (Pair r c)
    show ?thesis
    proof (cases r)
      case None
      let ?b = "b\<lparr>Batch := c, index := index b + 1\<rparr>"
      have "block_append app v b = (None, ?b)" by (simp add: block_append_def Pair None)
      then have "write_each (block_append app) vs ?b = (Some er, b')"
        using Cons.prems by (simp add: and_then_def)
      from Cons.IH [OF this] have b: "index b + 1 \<le> index b'" "index b' < index b + 1 + length vs"
        "\<exists>batch. app (index b') (vs ! (index b' - (index b + 1))) batch = (Some er, Batch b')" by auto
      moreover have "(v # vs) ! (index b' - index b) = vs ! (index b' - (index b + 1))"
        using b(1) by (simp add: nth_Cons')
      ultimately show ?thesis by auto
    next
      case (Some x)
      then show ?thesis using Cons.prems Pair by (auto simp: and_then_def block_append_def)
    qed
  qed
qed simp

section \<open>Decimal text\<close>

text \<open>The value of a decimal text, and its bounds.\<close>

primrec from_decimal :: "bytes \<Rightarrow> nat \<Rightarrow> nat" where
  "from_decimal [] acc = acc"
| "from_decimal (b # bs) acc = from_decimal bs (10 * acc + (unat b - 48))"

lemma from_decimal_append: "from_decimal (xs @ ys) acc = from_decimal ys (from_decimal xs acc)"
  by (induction xs arbitrary: acc) auto

lemma from_decimal_decimal: "from_decimal (decimal n) 0 = n"
proof (induction n rule: decimal.induct)
  case (1 n)
  have d: "unat (of_nat (48 + k) :: u8) = 48 + k" if "k < 10" for k
    by (subst unat_of_nat) (use that in simp)
  show ?case
  proof (cases "n < 10")
    case True
    then show ?thesis using d [OF True] by (subst decimal.simps) (simp add: from_decimal_append)
  next
    case False
    have "unat (of_nat (48 + n mod 10) :: u8) = 48 + n mod 10" by (rule d) simp
    then show ?thesis using 1 [OF False] False
      by (subst decimal.simps) (simp add: from_decimal_append mult.commute)
  qed
qed

lemma length_decimal: "0 < k \<Longrightarrow> n < 10 ^ k \<Longrightarrow> length (decimal n) \<le> k"
proof (induction k arbitrary: n)
  case (Suc k)
  show ?case
  proof (cases "n < 10")
    case True
    then show ?thesis by (subst decimal.simps) simp
  next
    case False
    then have "0 < k" using Suc.prems by (cases k) auto
    moreover have "n div 10 < 10 ^ k" using Suc.prems(2) by (simp add: less_mult_imp_div_less mult.commute)
    ultimately have "length (decimal (n div 10)) \<le> k" by (rule Suc.IH)
    then show ?thesis using False by (subst decimal.simps) simp
  qed
qed simp

end
