(* ===== verification/Meter_Spec.thy ===== *)
theory Meter_Spec
  imports Ckdb "HOL-Library.Multiset"
begin

text \<open>
  What the aggregation of meters relies on. The locale \<open>mergeable\<close> is the contract of
  \<^verbatim>\<open>ConcurrentMerge\<close> (\<^verbatim>\<open>server/libs/zerodoc/interface.go\<close>): merging is associative and
  commutative, so the value of a batch does not depend on the order in which its documents
  arrive. \<open>directed_merge\<close> adds \<^verbatim>\<open>Reverse\<close>, which swaps the directions and commutes with
  merging. Every meter of \<^verbatim>\<open>server/libs/zerodoc\<close> interprets them.

  The theory also holds what the meters share to print and to store themselves: the key and
  value text, and the conversion to \<^verbatim>\<open>float64\<close>.
\<close>

section \<open>Merging\<close>

locale mergeable =
  fixes merge :: "'m \<Rightarrow> 'm \<Rightarrow> 'm"
  assumes merge_assoc: "merge (merge a b) c = merge a (merge b c)"
    and merge_comm: "merge a b = merge b a"
begin

lemma merge_swap: "merge (merge m a) b = merge (merge m b) a"
  by (metis merge_assoc merge_comm)

text \<open>The order of arrival does not matter.\<close>

lemma batch_order:
  assumes "mset xs = mset ys"
  shows "foldl merge m xs = foldl merge m ys"
proof -
  have "fold (\<lambda>a m. merge m a) xs = fold (\<lambda>a m. merge m a) ys"
    by (rule fold_multiset_equiv [OF _ assms]) (auto simp: merge_swap)
  then show ?thesis by (simp add: foldl_conv_fold)
qed

text \<open>Partial results can be merged: the batch may be split over workers.\<close>

lemma batch_split: "foldl merge m (xs @ y # ys) = merge (foldl merge m xs) (foldl merge y ys)"
proof (induction ys rule: rev_induct)
  case (snoc z zs)
  then show ?case by (simp add: merge_assoc)
qed simp

end

locale directed_merge = mergeable +
  fixes reverse :: "'m \<Rightarrow> 'm"
  assumes reverse_twice: "reverse (reverse a) = a"
    and reverse_merge: "reverse (merge a b) = merge (reverse a) (reverse b)"
begin

lemma batch_reverse: "reverse (foldl merge m xs) = foldl merge (reverse m) (map reverse xs)"
  by (induction xs arbitrary: m) (simp_all add: reverse_merge)

end

text \<open>\<^verbatim>\<open>if x < other { x = other }\<close>\<close>

definition raise_to :: "'a::len word \<Rightarrow> 'a word \<Rightarrow> 'a word" where
  "raise_to other x = (if x < other then other else x)"

lemma raise_to_max: "raise_to other x = max x other"
  by (auto simp: raise_to_def max_def)

section \<open>Key and value text\<close>

definition FormatUint :: "u64 \<Rightarrow> bytes" where
  "FormatUint v = decimal (unat v)"

text \<open>
  The buffer being filled and the offset reached. \<open>put\<close> is
  \<^verbatim>\<open>offset += copy(b[offset:], s)\<close>, which stops at the end of the buffer; \<open>put_byte\<close> is
  \<^verbatim>\<open>b[offset] = c; offset++\<close>, which panics there.
\<close>

type_synonym filling = "bytes \<times> nat"

definition put :: "bytes \<Rightarrow> filling \<Rightarrow> filling" where
  "put s = (\<lambda>(b, offset). let n = min (length b - offset) (length s)
     in (take offset b @ take n s @ drop (offset + n) b, offset + n))"

definition put_byte :: "u8 \<Rightarrow> filling \<Rightarrow> filling option" where
  "put_byte c = (\<lambda>(b, offset). if offset < length b then Some (b[offset := c], offset + 1) else None)"

fun marshal_loop :: "bytes list \<Rightarrow> u64 list \<Rightarrow> filling \<Rightarrow> filling option" where
  "marshal_loop (f # fs) (v # vals) (b, offset) =
     (if v = 0 then marshal_loop fs vals (b, offset)
      else do {
        st \<leftarrow> (if offset > 0 then put_byte 44 (b, offset) else Some (b, offset));
        st \<leftarrow> put_byte 105 (put (FormatUint v) (put f st));
        marshal_loop fs vals st })"
| "marshal_loop _ _ st = Some st"

definition marshalKeyValues :: "bytes \<Rightarrow> bytes list \<Rightarrow> u64 list \<Rightarrow> (bytes \<times> nat) option" where
  "marshalKeyValues b fs vals =
     (if length fs \<noteq> length vals then None else marshal_loop fs vals (b, 0))"

text \<open>The text: the non-zero values, separated by commas.\<close>

definition entry :: "bytes \<times> u64 \<Rightarrow> bytes" where
  "entry = (\<lambda>(f, v). f @ FormatUint v @ [105])"

definition kv_text :: "(bytes \<times> u64) list \<Rightarrow> bytes" where
  "kv_text kvs = Join [44] (map entry (filter (\<lambda>(f, v). v \<noteq> 0) kvs))"

definition written :: "bytes \<Rightarrow> bytes \<Rightarrow> filling" where
  "written t b = (t @ drop (length t) b, length t)"

lemma put_written:
  assumes "length t + length s \<le> length b"
  shows "put s (written t b) = written (t @ s) b"
proof -
  have m: "min (length b - length t) (length s) = length s" using assms by simp
  show ?thesis using assms by (simp add: put_def written_def m Let_def add.commute)
qed

lemma put_byte_written:
  assumes "length t < length b"
  shows "put_byte c (written t b) = Some (written (t @ [c]) b)"
proof -
  have "drop (length t) b = b ! length t # drop (Suc (length t)) b"
    using assms by (rule Cons_nth_drop_Suc [symmetric])
  then show ?thesis using assms by (simp add: put_byte_def written_def list_update_append)
qed

lemma Join_Cons: "xs \<noteq> [] \<Longrightarrow> Join sep (x # xs) = x @ sep @ Join sep xs"
  by (cases xs) simp_all

lemma Join_map_concat: "Join [c] (x # xs) = x @ concat (map (\<lambda>y. c # y) xs)"
  by (induction xs arbitrary: x) simp_all

text \<open>The loop from a text \<open>t\<close> on: it appends the entries that fit and panics otherwise.\<close>

definition more_text :: "bytes \<Rightarrow> (bytes \<times> u64) list \<Rightarrow> bytes" where
  "more_text t kvs = (let es = map entry (filter (\<lambda>(f, v). v \<noteq> 0) kvs) in
     if t = [] then Join [44] es else t @ concat (map (\<lambda>y. 44 # y) es))"

lemma entry_fits:
  assumes "length t + length (entry (f, v)) \<le> length b"
  shows "put_byte 105 (put (FormatUint v) (put f (written t b))) = Some (written (t @ entry (f, v)) b)"
proof -
  have "put f (written t b) = written (t @ f) b" using assms by (intro put_written) (simp add: entry_def)
  moreover have "put (FormatUint v) (written (t @ f) b) = written ((t @ f) @ FormatUint v) b"
    using assms by (intro put_written) (simp add: entry_def)
  moreover have "put_byte 105 (written ((t @ f) @ FormatUint v) b) = Some (written (((t @ f) @ FormatUint v) @ [105]) b)"
    using assms by (intro put_byte_written) (simp add: entry_def)
  ultimately show ?thesis by (simp add: entry_def)
qed

lemma more_text_zero [simp]: "more_text t ((f, 0) # kvs) = more_text t kvs"
  by (simp add: more_text_def)

lemma more_text_entry:
  assumes "v \<noteq> 0"
  shows "more_text t ((f, v) # kvs) = more_text ((if t = [] then t else t @ [44]) @ entry (f, v)) kvs"
proof -
  have "entry (f, v) \<noteq> []" by (simp add: entry_def)
  with assms show ?thesis by (simp add: more_text_def Let_def Join_map_concat)
qed

lemma length_more_text: "length t \<le> length (more_text t kvs)"
  by (simp add: more_text_def Let_def)

lemma marshal_loop_step:
  assumes "v \<noteq> 0" "(if t = [] then Some (written t b) else put_byte 44 (written t b)) = Some st"
    "put_byte 105 (put (FormatUint v) (put f st)) = Some st'"
  shows "marshal_loop (f # fs) (v # vals) (written t b) = marshal_loop fs vals st'"
  using assms by (cases "t = []") (auto simp: written_def)

lemma marshal_loop_fits:
  assumes "length fs = length vals" "length (more_text t (zip fs vals)) \<le> length b"
  shows "marshal_loop fs vals (written t b) = Some (written (more_text t (zip fs vals)) b)"
  using assms
proof (induction fs vals arbitrary: t rule: list_induct2)
  case Nil
  then show ?case by (simp add: written_def more_text_def)
next
  case (Cons f fs v vals)
  show ?case
  proof (cases "v = 0")
    case True
    then show ?thesis using Cons by (simp add: written_def)
  next
    case False
    let ?t = "if t = [] then t else t @ [44]"
    have m: "more_text t (zip (f # fs) (v # vals)) = more_text (?t @ entry (f, v)) (zip fs vals)"
      using False by (simp add: more_text_entry)
    have fit: "length (?t @ entry (f, v)) \<le> length b"
      by (rule order.trans [OF length_more_text Cons.prems [unfolded m]])
    have "(if t = [] then Some (written t b) else put_byte 44 (written t b)) = Some (written ?t b)"
      using fit by (auto simp: entry_def intro!: put_byte_written)
    moreover have "put_byte 105 (put (FormatUint v) (put f (written ?t b))) = Some (written (?t @ entry (f, v)) b)"
      using fit by (intro entry_fits) simp
    ultimately have "marshal_loop (f # fs) (v # vals) (written t b) = marshal_loop fs vals (written (?t @ entry (f, v)) b)"
      by (rule marshal_loop_step [OF False])
    also have "\<dots> = Some (written (more_text (?t @ entry (f, v)) (zip fs vals)) b)"
      by (rule Cons.IH [OF Cons.prems [unfolded m]])
    finally show ?thesis unfolding m .
  qed
qed

lemma marshalKeyValues_fits:
  assumes "length (kv_text kvs) \<le> length b"
  shows "marshalKeyValues b (map fst kvs) (map snd kvs) = Some (written (kv_text kvs) b)"
  using marshal_loop_fits [of "map fst kvs" "map snd kvs" "[]" b] assms
  by (simp add: marshalKeyValues_def written_def more_text_def kv_text_def zip_map_fst_snd)

text \<open>A bound on the text: the names, twenty digits, and two more bytes for each.\<close>

lemma length_FormatUint: "length (FormatUint v) \<le> 20"
proof -
  have "unat v < 2 ^ 64" using unsigned_less [of v, where 'a = nat] by simp
  then have "unat v < 10 ^ 20" by simp
  then show ?thesis unfolding FormatUint_def by (intro length_decimal) simp_all
qed

lemma length_Join_comma: "length (Join [c] xs) \<le> sum_list (map (\<lambda>x. length x + 1) xs)"
  by (induction xs) (auto simp: Join_map_concat length_concat comp_def)

lemma length_kv_text: "length (kv_text kvs) \<le> sum_list (map (\<lambda>(f, v). length f + 22) kvs)"
proof -
  let ?es = "filter (\<lambda>(f, v). v \<noteq> 0) kvs"
  have "length (kv_text kvs) \<le> sum_list (map (\<lambda>x. length x + 1) (map entry ?es))"
    unfolding kv_text_def by (rule length_Join_comma)
  also have "\<dots> \<le> sum_list (map (\<lambda>(f, v). length f + 22) ?es)"
    unfolding map_map by (rule sum_list_mono) (use length_FormatUint in \<open>auto simp: entry_def\<close>)
  also have "\<dots> \<le> sum_list (map (\<lambda>(f, v). length f + 22) kvs)"
    by (induction kvs) auto
  finally show ?thesis .
qed

lemma length_str [simp]: "length (str s) = length s"
  by (simp add: str_def)

section \<open>Floating point\<close>

text \<open>
  \<^verbatim>\<open>float64(x)\<close> of an unsigned integer: the exponent is the position of the highest bit, and
  an integer of more than 53 bits is rounded to the nearest, a tie to the even one. The result
  is the bit pattern; a carry out of the mantissa moves into the exponent.
\<close>

fun msb :: "nat \<Rightarrow> nat" where
  "msb n = (if n < 2 then 0 else Suc (msb (n div 2)))"

declare msb.simps [simp del]

definition float64_of_u64 :: "u64 \<Rightarrow> float64" where
  "float64_of_u64 x =
     (let n = unat x; k = msb n in
      if n = 0 then 0
      else if k \<le> 52 then of_nat ((1023 + k) * 2 ^ 52 + (n * 2 ^ (52 - k) - 2 ^ 52))
      else let e = k - 52; q = n div 2 ^ e; r = n mod 2 ^ e; h = 2 ^ (e - 1);
               q = (if r > h \<or> r = h \<and> odd q then q + 1 else q)
           in of_nat ((1023 + k) * 2 ^ 52 + (q - 2 ^ 52)))"

text \<open>The integer a pattern with a non-negative exponent stands for.\<close>

definition float64_to_nat :: "float64 \<Rightarrow> nat" where
  "float64_to_nat f =
     (let ex = unat f div 2 ^ 52; m = unat f mod 2 ^ 52 + 2 ^ 52 in
      if unat f = 0 then 0
      else if ex < 1075 then m div 2 ^ (1075 - ex) else m * 2 ^ (ex - 1075))"

lemma msb_bounds: "0 < n \<Longrightarrow> 2 ^ msb n \<le> n \<and> n < 2 ^ Suc (msb n)"
proof (induction n rule: msb.induct)
  case (1 n)
  show ?case
  proof (cases "n < 2")
    case True
    then show ?thesis using "1.prems" by (subst (1 2) msb.simps) simp
  next
    case False
    then have "2 ^ msb (n div 2) \<le> n div 2 \<and> n div 2 < 2 ^ Suc (msb (n div 2))"
      using 1 by simp
    then show ?thesis using False by (subst (1 2) msb.simps) auto
  qed
qed

text \<open>Below \<open>2 ^ 53\<close> the conversion is exact.\<close>

lemma float64_exact:
  assumes "unat x < 2 ^ 53"
  shows "float64_to_nat (float64_of_u64 x) = unat x"
proof (cases "unat x = 0")
  case True
  then show ?thesis by (simp add: float64_of_u64_def float64_to_nat_def Let_def)
next
  case False
  define n where "n = unat x"
  define k where "k = msb n"
  define m where "m = n * 2 ^ (52 - k)"
  have n: "2 ^ k \<le> n" "n < 2 ^ Suc k" "0 < n" using msb_bounds [of n] False by (auto simp: k_def n_def)
  have "(2 :: nat) ^ k < 2 ^ 53" using n(1) assms by (simp add: n_def)
  then have k: "k \<le> 52" using power_less_imp_less_exp [of "2::nat" k 53] by simp
  have p: "(2::nat) ^ k * 2 ^ (52 - k) = 2 ^ 52" using k by (simp flip: power_add)
  have m: "2 ^ 52 \<le> m" "m < 2 ^ 53"
  proof -
    show "2 ^ 52 \<le> m" unfolding m_def p [symmetric] using n(1) by (rule mult_le_mono1)
    have "n * 2 ^ (52 - k) < 2 ^ Suc k * 2 ^ (52 - k)" using n(2) by (intro mult_strict_right_mono) simp_all
    also have "\<dots> = 2 * 2 ^ 52" using p by (simp only: power_Suc mult.assoc)
    finally show "m < 2 ^ 53" unfolding m_def by simp
  qed
  define P :: nat where "P = 2 ^ 52"
  define f where "f = m - P"
  have f: "f < P" "m = f + P" using m by (simp_all add: f_def P_def)
  define b where "b = (1023 + k) * P + f"
  have "b < 2 ^ 64"
  proof -
    have "b < (1023 + k) * P + P" using f by (simp add: b_def)
    also have "\<dots> \<le> (1023 + 52) * P + P" using k by simp
    also have "\<dots> < 2 ^ 64" by (simp add: P_def)
    finally show ?thesis .
  qed
  then have u: "unat (of_nat b :: u64) = b" by (simp add: unat_of_nat)
  have "float64_of_u64 x = of_nat b"
    using False k unfolding float64_of_u64_def Let_def n_def [symmetric] k_def [symmetric] m_def [symmetric]
      P_def [symmetric] f_def [symmetric] b_def [symmetric] by simp
  moreover have "b div P = 1023 + k" "b mod P = f" using f by (simp_all add: b_def)
  moreover have "b \<noteq> 0" using f by (simp add: b_def P_def)
  moreover have "(if k < 52 then m div 2 ^ (52 - k) else m * 2 ^ (k - 52)) = n"
    using k by (cases "k = 52") (simp_all add: m_def)
  ultimately show ?thesis
    using f unfolding float64_to_nat_def Let_def P_def [symmetric] n_def [symmetric] by (cases "k < 52") (simp_all add: u)
qed

text \<open>The type a value is stored with.\<close>

fun value_type :: "ck_value \<Rightarrow> ColumnType option" where
  "value_type (CkUInt8 _) = Some CT_UInt8"
| "value_type (CkUInt16 _) = Some CT_UInt16"
| "value_type (CkUInt32 _) = Some CT_UInt32"
| "value_type (CkUInt64 _) = Some CT_UInt64"
| "value_type (CkInt32 _) = Some CT_Int32"
| "value_type (CkInt64 _) = Some CT_Int64"
| "value_type (CkFloat64 _) = Some CT_Float64"
| "value_type (CkString _) = Some CT_String"
| "value_type _ = None"

named_theorems row_writes \<open>the rows of the block writes\<close>

lemma row_writes_each [row_writes]:
  "writes app (write_each (Block_WriteUInt64 app) vs) (map CkUInt64 vs)"
  "writes app (write_each (Block_WriteUInt32 app) us) (map CkUInt32 us)"
  "writes app (write_each (Block_WriteFloat64 app) fls) (map CkFloat64 fls)"
  by (rule writes_each, simp add: Block_WriteUInt64_def Block_WriteUInt32_def Block_WriteFloat64_def)+

lemma row_writes_one [row_writes]:
  "writes app (Block_WriteUInt64 app v) [CkUInt64 v]"
  "writes app (Block_WriteUInt32 app u) [CkUInt32 u]"
  "writes app (Block_WriteFloat64 app f) [CkFloat64 f]"
  by (simp_all add: Block_WriteUInt64_def Block_WriteUInt32_def Block_WriteFloat64_def writes_one)

lemmas column_defs = NewColumnsWithComment_def NewColumn_def SetComment_def SetIndex_def

end
