(* ===== verification/Basic_Meter.thy ===== *)
theory Basic_Meter
  imports Meter_Spec
begin

text \<open>
  The building blocks of the meters, \<^verbatim>\<open>server/libs/zerodoc/basic_meter.go\<close>: traffic, latency,
  performance, anomaly and flow load. For each: its record and that of its protobuf message
  (\<^verbatim>\<open>message/metric.proto\<close>), the operations of the source, the row its \<open>WriteBlock\<close>
  produces with the types of the columns, and the interpretation of \<open>directed_merge\<close>.

  The comment texts of the columns are not in ASCII; they are the argument \<open>cmt\<close> of the column
  functions, by the name of the column.
\<close>

section \<open>Traffic\<close>

record Traffic =
  tr_PacketTx :: u64
  tr_PacketRx :: u64
  tr_ByteTx :: u64
  tr_ByteRx :: u64
  tr_L3ByteTx :: u64
  tr_L3ByteRx :: u64
  tr_L4ByteTx :: u64
  tr_L4ByteRx :: u64
  tr_NewFlow :: u64
  tr_ClosedFlow :: u64
  tr_L7Request :: u32
  tr_L7Response :: u32

record pb_Traffic =
  pbtr_PacketTx :: u64
  pbtr_PacketRx :: u64
  pbtr_ByteTx :: u64
  pbtr_ByteRx :: u64
  pbtr_L3ByteTx :: u64
  pbtr_L3ByteRx :: u64
  pbtr_L4ByteTx :: u64
  pbtr_L4ByteRx :: u64
  pbtr_NewFlow :: u64
  pbtr_ClosedFlow :: u64
  pbtr_L7Request :: u32
  pbtr_L7Response :: u32

definition Traffic_Reverse :: "Traffic \<Rightarrow> Traffic" where
  "Traffic_Reverse t = t\<lparr>tr_PacketTx := tr_PacketRx t, tr_PacketRx := tr_PacketTx t, tr_ByteTx := tr_ByteRx t,
     tr_ByteRx := tr_ByteTx t, tr_L3ByteTx := tr_L3ByteRx t, tr_L3ByteRx := tr_L3ByteTx t,
     tr_L4ByteTx := tr_L4ByteRx t, tr_L4ByteRx := tr_L4ByteTx t\<rparr>"

definition Traffic_WriteToPB :: "Traffic \<Rightarrow> pb_Traffic \<Rightarrow> pb_Traffic" where
  "Traffic_WriteToPB t p = p\<lparr>pbtr_PacketTx := tr_PacketTx t, pbtr_PacketRx := tr_PacketRx t,
     pbtr_ByteTx := tr_ByteTx t, pbtr_ByteRx := tr_ByteRx t, pbtr_L3ByteTx := tr_L3ByteTx t,
     pbtr_L3ByteRx := tr_L3ByteRx t, pbtr_L4ByteTx := tr_L4ByteTx t,
     pbtr_L4ByteRx := tr_L4ByteRx t, pbtr_NewFlow := tr_NewFlow t,
     pbtr_ClosedFlow := tr_ClosedFlow t, pbtr_L7Request := tr_L7Request t,
     pbtr_L7Response := tr_L7Response t\<rparr>"

definition Traffic_ReadFromPB :: "pb_Traffic \<Rightarrow> Traffic \<Rightarrow> Traffic" where
  "Traffic_ReadFromPB p t = t\<lparr>tr_PacketTx := pbtr_PacketTx p, tr_PacketRx := pbtr_PacketRx p,
     tr_ByteTx := pbtr_ByteTx p, tr_ByteRx := pbtr_ByteRx p, tr_L3ByteTx := pbtr_L3ByteTx p,
     tr_L3ByteRx := pbtr_L3ByteRx p, tr_L4ByteTx := pbtr_L4ByteTx p,
     tr_L4ByteRx := pbtr_L4ByteRx p, tr_NewFlow := pbtr_NewFlow p,
     tr_ClosedFlow := pbtr_ClosedFlow p, tr_L7Request := pbtr_L7Request p,
     tr_L7Response := pbtr_L7Response p\<rparr>"

definition Traffic_ConcurrentMerge :: "Traffic \<Rightarrow> Traffic \<Rightarrow> Traffic" where
  "Traffic_ConcurrentMerge t other = t\<lparr>tr_PacketTx := tr_PacketTx t + tr_PacketTx other,
     tr_PacketRx := tr_PacketRx t + tr_PacketRx other,
     tr_ByteTx := tr_ByteTx t + tr_ByteTx other, tr_ByteRx := tr_ByteRx t + tr_ByteRx other,
     tr_L3ByteTx := tr_L3ByteTx t + tr_L3ByteTx other,
     tr_L3ByteRx := tr_L3ByteRx t + tr_L3ByteRx other,
     tr_L4ByteTx := tr_L4ByteTx t + tr_L4ByteTx other,
     tr_L4ByteRx := tr_L4ByteRx t + tr_L4ByteRx other,
     tr_NewFlow := tr_NewFlow t + tr_NewFlow other,
     tr_ClosedFlow := tr_ClosedFlow t + tr_ClosedFlow other,
     tr_L7Request := tr_L7Request t + tr_L7Request other,
     tr_L7Response := tr_L7Response t + tr_L7Response other\<rparr>"

definition Traffic_SequentialMerge :: "Traffic \<Rightarrow> Traffic \<Rightarrow> Traffic" where
  "Traffic_SequentialMerge t other = Traffic_ConcurrentMerge t other"

definition Traffic_fields :: "Traffic \<Rightarrow> (bytes \<times> u64) list" where
  "Traffic_fields t =
     [(str ''packet_tx='', tr_PacketTx t), (str ''packet_rx='', tr_PacketRx t),
      (str ''byte_tx='', tr_ByteTx t), (str ''byte_rx='', tr_ByteRx t),
      (str ''byte='', tr_ByteTx t + tr_ByteRx t), (str ''l3_byte_tx='', tr_L3ByteTx t),
      (str ''l3_byte_rx='', tr_L3ByteRx t), (str ''l4_byte_tx='', tr_L4ByteTx t),
      (str ''l4_byte_rx='', tr_L4ByteRx t), (str ''new_flow='', tr_NewFlow t),
      (str ''closed_flow='', tr_ClosedFlow t), (str ''l7_request='', ucast (tr_L7Request t)),
      (str ''l7_response='', ucast (tr_L7Response t))]"

definition Traffic_MarshalTo :: "Traffic \<Rightarrow> bytes \<Rightarrow> (bytes \<times> nat) option" where
  "Traffic_MarshalTo t b =
     (let (b, offset) = put (str ''i,'') (put (FormatUint (tr_PacketTx t + tr_PacketRx t)) (put (str ''packet='') (b, 0)))
      in case marshalKeyValues (drop offset b) (map fst (Traffic_fields t)) (map snd (Traffic_fields t)) of
           None \<Rightarrow> None
         | Some (rest, n) \<Rightarrow> Some (take offset b @ rest, (if n = 0 then offset - 1 else offset) + n))"

definition TrafficColumns :: "(string \<Rightarrow> bytes) \<Rightarrow> Column list" where
  "TrafficColumns cmt =
     NewColumnsWithComment (map (\<lambda>n. (str n, cmt n)) [''packet_tx'', ''packet_rx'', ''packet'', ''byte_tx'', ''byte_rx'', ''byte'',
      ''l3_byte_tx'', ''l3_byte_rx'', ''l4_byte_tx'', ''l4_byte_rx'', ''new_flow'',
      ''closed_flow'', ''l7_request'', ''l7_response'']) CT_UInt64"

definition Traffic_WriteBlock :: "('e, 'b) column_append \<Rightarrow> Traffic \<Rightarrow> 'b Block \<Rightarrow> 'e option \<times> 'b Block" where
  "Traffic_WriteBlock app t =
     (write_each (Block_WriteUInt64 app) [tr_PacketTx t, tr_PacketRx t, tr_PacketTx t + tr_PacketRx t, tr_ByteTx t, tr_ByteRx t,
      tr_ByteTx t + tr_ByteRx t, tr_L3ByteTx t, tr_L3ByteRx t, tr_L4ByteTx t, tr_L4ByteRx t,
      tr_NewFlow t, tr_ClosedFlow t, ucast (tr_L7Request t), ucast (tr_L7Response t)])"

section \<open>Latency\<close>

record Latency =
  la_RTTMax :: u32
  la_RTTClientMax :: u32
  la_RTTServerMax :: u32
  la_SRTMax :: u32
  la_ARTMax :: u32
  la_RRTMax :: u32
  la_RTTSum :: u64
  la_RTTClientSum :: u64
  la_RTTServerSum :: u64
  la_SRTSum :: u64
  la_ARTSum :: u64
  la_RRTSum :: u64
  la_RTTCount :: u32
  la_RTTClientCount :: u32
  la_RTTServerCount :: u32
  la_SRTCount :: u32
  la_ARTCount :: u32
  la_RRTCount :: u32

record pb_Latency =
  pbla_RttMax :: u32
  pbla_RttClientMax :: u32
  pbla_RttServerMax :: u32
  pbla_SrtMax :: u32
  pbla_ArtMax :: u32
  pbla_RrtMax :: u32
  pbla_RttSum :: u64
  pbla_RttClientSum :: u64
  pbla_RttServerSum :: u64
  pbla_SrtSum :: u64
  pbla_ArtSum :: u64
  pbla_RrtSum :: u64
  pbla_RttCount :: u32
  pbla_RttClientCount :: u32
  pbla_RttServerCount :: u32
  pbla_SrtCount :: u32
  pbla_ArtCount :: u32
  pbla_RrtCount :: u32

definition Latency_Reverse :: "Latency \<Rightarrow> Latency" where
  "Latency_Reverse t = t"

definition Latency_WriteToPB :: "Latency \<Rightarrow> pb_Latency \<Rightarrow> pb_Latency" where
  "Latency_WriteToPB t p = p\<lparr>pbla_RttMax := la_RTTMax t, pbla_RttClientMax := la_RTTClientMax t,
     pbla_RttServerMax := la_RTTServerMax t, pbla_SrtMax := la_SRTMax t,
     pbla_ArtMax := la_ARTMax t, pbla_RrtMax := la_RRTMax t, pbla_RttSum := la_RTTSum t,
     pbla_RttClientSum := la_RTTClientSum t, pbla_RttServerSum := la_RTTServerSum t,
     pbla_SrtSum := la_SRTSum t, pbla_ArtSum := la_ARTSum t, pbla_RrtSum := la_RRTSum t,
     pbla_RttCount := la_RTTCount t, pbla_RttClientCount := la_RTTClientCount t,
     pbla_RttServerCount := la_RTTServerCount t, pbla_SrtCount := la_SRTCount t,
     pbla_ArtCount := la_ARTCount t, pbla_RrtCount := la_RRTCount t\<rparr>"

definition Latency_ReadFromPB :: "pb_Latency \<Rightarrow> Latency \<Rightarrow> Latency" where
  "Latency_ReadFromPB p t = t\<lparr>la_RTTMax := pbla_RttMax p, la_RTTClientMax := pbla_RttClientMax p,
     la_RTTServerMax := pbla_RttServerMax p, la_SRTMax := pbla_SrtMax p,
     la_ARTMax := pbla_ArtMax p, la_RRTMax := pbla_RrtMax p, la_RTTSum := pbla_RttSum p,
     la_RTTClientSum := pbla_RttClientSum p, la_RTTServerSum := pbla_RttServerSum p,
     la_SRTSum := pbla_SrtSum p, la_ARTSum := pbla_ArtSum p, la_RRTSum := pbla_RrtSum p,
     la_RTTCount := pbla_RttCount p, la_RTTClientCount := pbla_RttClientCount p,
     la_RTTServerCount := pbla_RttServerCount p, la_SRTCount := pbla_SrtCount p,
     la_ARTCount := pbla_ArtCount p, la_RRTCount := pbla_RrtCount p\<rparr>"

definition Latency_ConcurrentMerge :: "Latency \<Rightarrow> Latency \<Rightarrow> Latency" where
  "Latency_ConcurrentMerge t other = t\<lparr>la_RTTMax := raise_to (la_RTTMax other) (la_RTTMax t),
     la_RTTClientMax := raise_to (la_RTTClientMax other) (la_RTTClientMax t),
     la_RTTServerMax := raise_to (la_RTTServerMax other) (la_RTTServerMax t),
     la_SRTMax := raise_to (la_SRTMax other) (la_SRTMax t),
     la_ARTMax := raise_to (la_ARTMax other) (la_ARTMax t),
     la_RRTMax := raise_to (la_RRTMax other) (la_RRTMax t),
     la_RTTSum := la_RTTSum t + la_RTTSum other,
     la_RTTClientSum := la_RTTClientSum t + la_RTTClientSum other,
     la_RTTServerSum := la_RTTServerSum t + la_RTTServerSum other,
     la_SRTSum := la_SRTSum t + la_SRTSum other, la_ARTSum := la_ARTSum t + la_ARTSum other,
     la_RRTSum := la_RRTSum t + la_RRTSum other,
     la_RTTCount := la_RTTCount t + la_RTTCount other,
     la_RTTClientCount := la_RTTClientCount t + la_RTTClientCount other,
     la_RTTServerCount := la_RTTServerCount t + la_RTTServerCount other,
     la_SRTCount := la_SRTCount t + la_SRTCount other,
     la_ARTCount := la_ARTCount t + la_ARTCount other,
     la_RRTCount := la_RRTCount t + la_RRTCount other\<rparr>"

definition Latency_SequentialMerge :: "Latency \<Rightarrow> Latency \<Rightarrow> Latency" where
  "Latency_SequentialMerge t other = Latency_ConcurrentMerge t other"

definition Latency_fields :: "Latency \<Rightarrow> (bytes \<times> u64) list" where
  "Latency_fields t =
     [(str ''rtt_sum='', la_RTTSum t), (str ''rtt_client_sum='', la_RTTClientSum t),
      (str ''rtt_server_sum='', la_RTTServerSum t), (str ''srt_sum='', la_SRTSum t),
      (str ''art_sum='', la_ARTSum t), (str ''rrt_sum='', la_RRTSum t),
      (str ''rtt_count='', ucast (la_RTTCount t)),
      (str ''rtt_client_count='', ucast (la_RTTClientCount t)),
      (str ''rtt_server_count='', ucast (la_RTTServerCount t)),
      (str ''srt_count='', ucast (la_SRTCount t)),
      (str ''art_count='', ucast (la_ARTCount t)),
      (str ''rrt_count='', ucast (la_RRTCount t)), (str ''rtt_max='', ucast (la_RTTMax t)),
      (str ''rtt_client_max='', ucast (la_RTTClientMax t)),
      (str ''rtt_server_max='', ucast (la_RTTServerMax t)),
      (str ''srt_max='', ucast (la_SRTMax t)), (str ''art_max='', ucast (la_ARTMax t)),
      (str ''rrt_max='', ucast (la_RRTMax t))]"

definition Latency_MarshalTo :: "Latency \<Rightarrow> bytes \<Rightarrow> (bytes \<times> nat) option" where
  "Latency_MarshalTo t b = marshalKeyValues b (map fst (Latency_fields t)) (map snd (Latency_fields t))"

definition LatencyColumns :: "(string \<Rightarrow> bytes) \<Rightarrow> Column list" where
  "LatencyColumns cmt =
     NewColumnsWithComment (map (\<lambda>n. (str n, cmt n)) [''rtt_sum'', ''rtt_client_sum'', ''rtt_server_sum'', ''srt_sum'', ''art_sum'',
      ''rrt_sum'']) CT_Float64
     @ NewColumnsWithComment (map (\<lambda>n. (str n, cmt n)) [''rtt_count'', ''rtt_client_count'', ''rtt_server_count'', ''srt_count'', ''art_count'',
      ''rrt_count'']) CT_UInt64
     @ map (SetIndex IndexNone) (NewColumnsWithComment (map (\<lambda>n. (str n, cmt n)) [''rtt_max'', ''rtt_client_max'', ''rtt_server_max'', ''srt_max'', ''art_max'',
      ''rrt_max'']) CT_UInt32)"

definition Latency_WriteBlock :: "('e, 'b) column_append \<Rightarrow> Latency \<Rightarrow> 'b Block \<Rightarrow> 'e option \<times> 'b Block" where
  "Latency_WriteBlock app t =
     (and_then (write_each (Block_WriteFloat64 app) [float64_of_u64 (la_RTTSum t), float64_of_u64 (la_RTTClientSum t),
      float64_of_u64 (la_RTTServerSum t), float64_of_u64 (la_SRTSum t),
      float64_of_u64 (la_ARTSum t), float64_of_u64 (la_RRTSum t)])
     (and_then (write_each (Block_WriteUInt64 app) [ucast (la_RTTCount t), ucast (la_RTTClientCount t), ucast (la_RTTServerCount t),
      ucast (la_SRTCount t), ucast (la_ARTCount t), ucast (la_RRTCount t)])
     (write_each (Block_WriteUInt32 app) [la_RTTMax t, la_RTTClientMax t, la_RTTServerMax t, la_SRTMax t, la_ARTMax t, la_RRTMax t])))"

section \<open>Performance\<close>

record Performance =
  pe_RetransTx :: u64
  pe_RetransRx :: u64
  pe_ZeroWinTx :: u64
  pe_ZeroWinRx :: u64

record pb_Performance =
  pbpe_RetransTx :: u64
  pbpe_RetransRx :: u64
  pbpe_ZeroWinTx :: u64
  pbpe_ZeroWinRx :: u64

definition Performance_Reverse :: "Performance \<Rightarrow> Performance" where
  "Performance_Reverse t = t"

definition Performance_WriteToPB :: "Performance \<Rightarrow> pb_Performance \<Rightarrow> pb_Performance" where
  "Performance_WriteToPB t p = p\<lparr>pbpe_RetransTx := pe_RetransTx t, pbpe_RetransRx := pe_RetransRx t,
     pbpe_ZeroWinTx := pe_ZeroWinTx t, pbpe_ZeroWinRx := pe_ZeroWinRx t\<rparr>"

definition Performance_ReadFromPB :: "pb_Performance \<Rightarrow> Performance \<Rightarrow> Performance" where
  "Performance_ReadFromPB p t = t\<lparr>pe_RetransTx := pbpe_RetransTx p, pe_RetransRx := pbpe_RetransRx p,
     pe_ZeroWinTx := pbpe_ZeroWinTx p, pe_ZeroWinRx := pbpe_ZeroWinRx p\<rparr>"

definition Performance_ConcurrentMerge :: "Performance \<Rightarrow> Performance \<Rightarrow> Performance" where
  "Performance_ConcurrentMerge t other = t\<lparr>pe_RetransTx := pe_RetransTx t + pe_RetransTx other,
     pe_RetransRx := pe_RetransRx t + pe_RetransRx other,
     pe_ZeroWinTx := pe_ZeroWinTx t + pe_ZeroWinTx other,
     pe_ZeroWinRx := pe_ZeroWinRx t + pe_ZeroWinRx other\<rparr>"

definition Performance_SequentialMerge :: "Performance \<Rightarrow> Performance \<Rightarrow> Performance" where
  "Performance_SequentialMerge t other = Performance_ConcurrentMerge t other"

definition Performance_fields :: "Performance \<Rightarrow> (bytes \<times> u64) list" where
  "Performance_fields t =
     [(str ''retrans_tx='', pe_RetransTx t), (str ''retrans_rx='', pe_RetransRx t),
      (str ''retrans='', pe_RetransTx t + pe_RetransRx t),
      (str ''zero_win_tx='', pe_ZeroWinTx t), (str ''zero_win_rx='', pe_ZeroWinRx t),
      (str ''zero_win='', pe_ZeroWinTx t + pe_ZeroWinRx t)]"

definition Performance_MarshalTo :: "Performance \<Rightarrow> bytes \<Rightarrow> (bytes \<times> nat) option" where
  "Performance_MarshalTo t b = marshalKeyValues b (map fst (Performance_fields t)) (map snd (Performance_fields t))"

definition PerformanceColumns :: "(string \<Rightarrow> bytes) \<Rightarrow> Column list" where
  "PerformanceColumns cmt =
     NewColumnsWithComment (map (\<lambda>n. (str n, cmt n)) [''retrans_tx'', ''retrans_rx'', ''retrans'', ''zero_win_tx'', ''zero_win_rx'',
      ''zero_win'']) CT_UInt64"

definition Performance_WriteBlock :: "('e, 'b) column_append \<Rightarrow> Performance \<Rightarrow> 'b Block \<Rightarrow> 'e option \<times> 'b Block" where
  "Performance_WriteBlock app t =
     (write_each (Block_WriteUInt64 app) [pe_RetransTx t, pe_RetransRx t, pe_RetransTx t + pe_RetransRx t, pe_ZeroWinTx t,
      pe_ZeroWinRx t, pe_ZeroWinTx t + pe_ZeroWinRx t])"

section \<open>Anomaly\<close>

record Anomaly =
  an_ClientRstFlow :: u64
  an_ServerRstFlow :: u64
  an_ClientSynRepeat :: u64
  an_ServerSYNACKRepeat :: u64
  an_ClientHalfCloseFlow :: u64
  an_ServerHalfCloseFlow :: u64
  an_ClientSourcePortReuse :: u64
  an_ClientEstablishReset :: u64
  an_ServerReset :: u64
  an_ServerQueueLack :: u64
  an_ServerEstablishReset :: u64
  an_TCPTimeout :: u64
  an_L7ClientError :: u32
  an_L7ServerError :: u32
  an_L7Timeout :: u32

record pb_Anomaly =
  pban_ClientRstFlow :: u64
  pban_ServerRstFlow :: u64
  pban_ClientSynRepeat :: u64
  pban_ServerSynackRepeat :: u64
  pban_ClientHalfCloseFlow :: u64
  pban_ServerHalfCloseFlow :: u64
  pban_ClientSourcePortReuse :: u64
  pban_ClientEstablishReset :: u64
  pban_ServerReset :: u64
  pban_ServerQueueLack :: u64
  pban_ServerEstablishReset :: u64
  pban_TcpTimeout :: u64
  pban_L7ClientError :: u32
  pban_L7ServerError :: u32
  pban_L7Timeout :: u32

definition Anomaly_Reverse :: "Anomaly \<Rightarrow> Anomaly" where
  "Anomaly_Reverse t = t"

definition Anomaly_WriteToPB :: "Anomaly \<Rightarrow> pb_Anomaly \<Rightarrow> pb_Anomaly" where
  "Anomaly_WriteToPB t p = p\<lparr>pban_ClientRstFlow := an_ClientRstFlow t, pban_ServerRstFlow := an_ServerRstFlow t,
     pban_ClientSynRepeat := an_ClientSynRepeat t,
     pban_ServerSynackRepeat := an_ServerSYNACKRepeat t,
     pban_ClientHalfCloseFlow := an_ClientHalfCloseFlow t,
     pban_ServerHalfCloseFlow := an_ServerHalfCloseFlow t,
     pban_ClientSourcePortReuse := an_ClientSourcePortReuse t,
     pban_ClientEstablishReset := an_ClientEstablishReset t,
     pban_ServerReset := an_ServerReset t, pban_ServerQueueLack := an_ServerQueueLack t,
     pban_ServerEstablishReset := an_ServerEstablishReset t,
     pban_TcpTimeout := an_TCPTimeout t, pban_L7ClientError := an_L7ClientError t,
     pban_L7ServerError := an_L7ServerError t, pban_L7Timeout := an_L7Timeout t\<rparr>"

definition Anomaly_ReadFromPB :: "pb_Anomaly \<Rightarrow> Anomaly \<Rightarrow> Anomaly" where
  "Anomaly_ReadFromPB p t = t\<lparr>an_ClientRstFlow := pban_ClientRstFlow p, an_ServerRstFlow := pban_ServerRstFlow p,
     an_ClientSynRepeat := pban_ClientSynRepeat p,
     an_ServerSYNACKRepeat := pban_ServerSynackRepeat p,
     an_ClientHalfCloseFlow := pban_ClientHalfCloseFlow p,
     an_ServerHalfCloseFlow := pban_ServerHalfCloseFlow p,
     an_ClientSourcePortReuse := pban_ClientSourcePortReuse p,
     an_ClientEstablishReset := pban_ClientEstablishReset p,
     an_ServerReset := pban_ServerReset p, an_ServerQueueLack := pban_ServerQueueLack p,
     an_ServerEstablishReset := pban_ServerEstablishReset p,
     an_TCPTimeout := pban_TcpTimeout p, an_L7ClientError := pban_L7ClientError p,
     an_L7ServerError := pban_L7ServerError p, an_L7Timeout := pban_L7Timeout p\<rparr>"

definition Anomaly_ConcurrentMerge :: "Anomaly \<Rightarrow> Anomaly \<Rightarrow> Anomaly" where
  "Anomaly_ConcurrentMerge t other = t\<lparr>an_ClientRstFlow := an_ClientRstFlow t + an_ClientRstFlow other,
     an_ServerRstFlow := an_ServerRstFlow t + an_ServerRstFlow other,
     an_ClientSynRepeat := an_ClientSynRepeat t + an_ClientSynRepeat other,
     an_ServerSYNACKRepeat := an_ServerSYNACKRepeat t + an_ServerSYNACKRepeat other,
     an_ClientHalfCloseFlow := an_ClientHalfCloseFlow t + an_ClientHalfCloseFlow other,
     an_ServerHalfCloseFlow := an_ServerHalfCloseFlow t + an_ServerHalfCloseFlow other,
     an_ClientSourcePortReuse := an_ClientSourcePortReuse t + an_ClientSourcePortReuse other,
     an_ClientEstablishReset := an_ClientEstablishReset t + an_ClientEstablishReset other,
     an_ServerReset := an_ServerReset t + an_ServerReset other,
     an_ServerQueueLack := an_ServerQueueLack t + an_ServerQueueLack other,
     an_ServerEstablishReset := an_ServerEstablishReset t + an_ServerEstablishReset other,
     an_TCPTimeout := an_TCPTimeout t + an_TCPTimeout other,
     an_L7ClientError := an_L7ClientError t + an_L7ClientError other,
     an_L7ServerError := an_L7ServerError t + an_L7ServerError other,
     an_L7Timeout := an_L7Timeout t + an_L7Timeout other\<rparr>"

definition Anomaly_SequentialMerge :: "Anomaly \<Rightarrow> Anomaly \<Rightarrow> Anomaly" where
  "Anomaly_SequentialMerge t other = Anomaly_ConcurrentMerge t other"

definition Anomaly_fields :: "Anomaly \<Rightarrow> (bytes \<times> u64) list" where
  "Anomaly_fields t =
    (let clientFail = an_ClientSynRepeat t + an_ClientSourcePortReuse t + an_ClientEstablishReset t;
         serverFail = an_ServerSYNACKRepeat t + an_ServerReset t + an_ServerQueueLack t + an_ServerEstablishReset t
     in [(str ''client_rst_flow='', an_ClientRstFlow t),
      (str ''server_rst_flow='', an_ServerRstFlow t),
      (str ''client_syn_repeat='', an_ClientSynRepeat t),
      (str ''server_syn_ack_repeat='', an_ServerSYNACKRepeat t),
      (str ''client_half_close_flow='', an_ClientHalfCloseFlow t),
      (str ''server_half_close_flow='', an_ServerHalfCloseFlow t),
      (str ''client_source_port_reuse='', an_ClientSourcePortReuse t),
      (str ''server_reset='', an_ServerReset t),
      (str ''server_queue_lack='', an_ServerQueueLack t),
      (str ''client_establish_other_rst='', an_ClientEstablishReset t),
      (str ''server_establish_other_rst='', an_ServerEstablishReset t),
      (str ''tcp_timeout='', an_TCPTimeout t), (str ''client_establish_fail='', clientFail),
      (str ''server_establish_fail='', serverFail),
      (str ''tcp_establish_fail='', clientFail + serverFail),
      (str ''l7_client_error='', ucast (an_L7ClientError t)),
      (str ''l7_server_error='', ucast (an_L7ServerError t)),
      (str ''l7_timeout='', ucast (an_L7Timeout t)),
      (str ''l7_error='', ucast (an_L7ClientError t + an_L7ServerError t))])"

definition Anomaly_MarshalTo :: "Anomaly \<Rightarrow> bytes \<Rightarrow> (bytes \<times> nat) option" where
  "Anomaly_MarshalTo t b = marshalKeyValues b (map fst (Anomaly_fields t)) (map snd (Anomaly_fields t))"

definition AnomalyColumns :: "(string \<Rightarrow> bytes) \<Rightarrow> Column list" where
  "AnomalyColumns cmt =
     NewColumnsWithComment (map (\<lambda>n. (str n, cmt n)) [''client_rst_flow'', ''server_rst_flow'', ''client_syn_repeat'',
      ''server_syn_ack_repeat'', ''client_half_close_flow'', ''server_half_close_flow'',
      ''client_source_port_reuse'', ''server_reset'', ''server_queue_lack'',
      ''client_establish_other_rst'', ''server_establish_other_rst'', ''tcp_timeout'',
      ''client_establish_fail'', ''server_establish_fail'', ''tcp_establish_fail'',
      ''tcp_transfer_fail'', ''tcp_rst_fail'']) CT_UInt64
     @ NewColumnsWithComment (map (\<lambda>n. (str n, cmt n)) [''l7_client_error'', ''l7_server_error'', ''l7_timeout'', ''l7_error'']) CT_UInt32"

definition Anomaly_WriteBlock :: "('e, 'b) column_append \<Rightarrow> Anomaly \<Rightarrow> 'b Block \<Rightarrow> 'e option \<times> 'b Block" where
  "Anomaly_WriteBlock app t =
     (let clientFail = an_ClientSynRepeat t + an_ClientSourcePortReuse t + an_ClientEstablishReset t;
         serverFail = an_ServerSYNACKRepeat t + an_ServerReset t + an_ServerQueueLack t + an_ServerEstablishReset t;
         transferFail = an_ClientRstFlow t + an_ServerRstFlow t + an_ServerQueueLack t + an_ClientHalfCloseFlow t + an_ServerHalfCloseFlow t + an_TCPTimeout t;
         rstFail = an_ClientEstablishReset t + an_ServerEstablishReset t + an_ServerReset t + an_ClientRstFlow t + an_ServerRstFlow t in
     and_then (write_each (Block_WriteUInt64 app) [an_ClientRstFlow t, an_ServerRstFlow t, an_ClientSynRepeat t, an_ServerSYNACKRepeat t,
      an_ClientHalfCloseFlow t, an_ServerHalfCloseFlow t, an_ClientSourcePortReuse t,
      an_ServerReset t, an_ServerQueueLack t, an_ClientEstablishReset t,
      an_ServerEstablishReset t, an_TCPTimeout t, clientFail, serverFail,
      clientFail + serverFail, transferFail, rstFail])
     (write_each (Block_WriteUInt32 app) [an_L7ClientError t, an_L7ServerError t, an_L7Timeout t,
      an_L7ClientError t + an_L7ServerError t]))"

section \<open>FlowLoad\<close>

record FlowLoad =
  fl_Load :: u64

record pb_FlowLoad =
  pbfl_Load :: u64

definition FlowLoad_Reverse :: "FlowLoad \<Rightarrow> FlowLoad" where
  "FlowLoad_Reverse t = t"

definition FlowLoad_WriteToPB :: "FlowLoad \<Rightarrow> pb_FlowLoad \<Rightarrow> pb_FlowLoad" where
  "FlowLoad_WriteToPB t p = p\<lparr>pbfl_Load := fl_Load t\<rparr>"

definition FlowLoad_ReadFromPB :: "pb_FlowLoad \<Rightarrow> FlowLoad \<Rightarrow> FlowLoad" where
  "FlowLoad_ReadFromPB p t = t\<lparr>fl_Load := pbfl_Load p\<rparr>"

definition FlowLoad_ConcurrentMerge :: "FlowLoad \<Rightarrow> FlowLoad \<Rightarrow> FlowLoad" where
  "FlowLoad_ConcurrentMerge t other = t\<lparr>fl_Load := fl_Load t + fl_Load other\<rparr>"

definition FlowLoad_SequentialMerge :: "FlowLoad \<Rightarrow> FlowLoad \<Rightarrow> FlowLoad" where
  "FlowLoad_SequentialMerge t other = FlowLoad_ConcurrentMerge t other"

definition FlowLoad_fields :: "FlowLoad \<Rightarrow> (bytes \<times> u64) list" where
  "FlowLoad_fields t =
     [(str ''flow_load='', fl_Load t)]"

definition FlowLoad_MarshalTo :: "FlowLoad \<Rightarrow> bytes \<Rightarrow> (bytes \<times> nat) option" where
  "FlowLoad_MarshalTo t b = marshalKeyValues b (map fst (FlowLoad_fields t)) (map snd (FlowLoad_fields t))"

definition FlowLoadColumns :: "(string \<Rightarrow> bytes) \<Rightarrow> Column list" where
  "FlowLoadColumns cmt =
     NewColumnsWithComment (map (\<lambda>n. (str n, cmt n)) [''flow_load'']) CT_UInt64"

definition FlowLoad_WriteBlock :: "('e, 'b) column_append \<Rightarrow> FlowLoad \<Rightarrow> 'b Block \<Rightarrow> 'e option \<times> 'b Block" where
  "FlowLoad_WriteBlock app t =
     (write_each (Block_WriteUInt64 app) [fl_Load t])"

section \<open>Laws\<close>

text \<open>The row: the values of \<open>Traffic_WriteBlock\<close> with the types they are written with.\<close>

definition Traffic_row :: "Traffic \<Rightarrow> ck_value list" where
  "Traffic_row t =
     (map CkUInt64 [tr_PacketTx t, tr_PacketRx t, tr_PacketTx t + tr_PacketRx t, tr_ByteTx t, tr_ByteRx t,
      tr_ByteTx t + tr_ByteRx t, tr_L3ByteTx t, tr_L3ByteRx t, tr_L4ByteTx t, tr_L4ByteRx t,
      tr_NewFlow t, tr_ClosedFlow t, ucast (tr_L7Request t), ucast (tr_L7Response t)])"

lemma Traffic_WriteBlock_row: "writes app (Traffic_WriteBlock app t) (Traffic_row t)"
  unfolding Traffic_WriteBlock_def Traffic_row_def Let_def
  by (intro writes_and_then row_writes)

lemma Traffic_row_types: "map value_type (Traffic_row t) = map (Some o col_Type) (TrafficColumns cmt)"
  by (simp add: Traffic_row_def TrafficColumns_def column_defs Let_def)

interpretation m_Traffic: directed_merge Traffic_ConcurrentMerge Traffic_Reverse
  by unfold_locales
    (rule Traffic.equality; simp add: Traffic_ConcurrentMerge_def Traffic_Reverse_def raise_to_max
      add.assoc add.commute add.left_commute max.assoc max.commute max.left_commute)+

lemma Traffic_pb_round_trip [simp]: "Traffic_ReadFromPB (Traffic_WriteToPB t p) t' = t"
  by (rule Traffic.equality) (simp_all add: Traffic_ReadFromPB_def Traffic_WriteToPB_def)

text \<open>The row: the values of \<open>Latency_WriteBlock\<close> with the types they are written with.\<close>

definition Latency_row :: "Latency \<Rightarrow> ck_value list" where
  "Latency_row t =
     (map CkFloat64 [float64_of_u64 (la_RTTSum t), float64_of_u64 (la_RTTClientSum t),
      float64_of_u64 (la_RTTServerSum t), float64_of_u64 (la_SRTSum t),
      float64_of_u64 (la_ARTSum t), float64_of_u64 (la_RRTSum t)]
     @ map CkUInt64 [ucast (la_RTTCount t), ucast (la_RTTClientCount t), ucast (la_RTTServerCount t),
      ucast (la_SRTCount t), ucast (la_ARTCount t), ucast (la_RRTCount t)]
     @ map CkUInt32 [la_RTTMax t, la_RTTClientMax t, la_RTTServerMax t, la_SRTMax t, la_ARTMax t, la_RRTMax t])"

lemma Latency_WriteBlock_row: "writes app (Latency_WriteBlock app t) (Latency_row t)"
  unfolding Latency_WriteBlock_def Latency_row_def Let_def
  by (intro writes_and_then row_writes)

lemma Latency_row_types: "map value_type (Latency_row t) = map (Some o col_Type) (LatencyColumns cmt)"
  by (simp add: Latency_row_def LatencyColumns_def column_defs Let_def)

interpretation m_Latency: directed_merge Latency_ConcurrentMerge Latency_Reverse
  by unfold_locales
    (rule Latency.equality; simp add: Latency_ConcurrentMerge_def Latency_Reverse_def raise_to_max
      add.assoc add.commute add.left_commute max.assoc max.commute max.left_commute)+

lemma Latency_pb_round_trip [simp]: "Latency_ReadFromPB (Latency_WriteToPB t p) t' = t"
  by (rule Latency.equality) (simp_all add: Latency_ReadFromPB_def Latency_WriteToPB_def)

text \<open>The row: the values of \<open>Performance_WriteBlock\<close> with the types they are written with.\<close>

definition Performance_row :: "Performance \<Rightarrow> ck_value list" where
  "Performance_row t =
     (map CkUInt64 [pe_RetransTx t, pe_RetransRx t, pe_RetransTx t + pe_RetransRx t, pe_ZeroWinTx t,
      pe_ZeroWinRx t, pe_ZeroWinTx t + pe_ZeroWinRx t])"

lemma Performance_WriteBlock_row: "writes app (Performance_WriteBlock app t) (Performance_row t)"
  unfolding Performance_WriteBlock_def Performance_row_def Let_def
  by (intro writes_and_then row_writes)

lemma Performance_row_types: "map value_type (Performance_row t) = map (Some o col_Type) (PerformanceColumns cmt)"
  by (simp add: Performance_row_def PerformanceColumns_def column_defs Let_def)

interpretation m_Performance: directed_merge Performance_ConcurrentMerge Performance_Reverse
  by unfold_locales
    (rule Performance.equality; simp add: Performance_ConcurrentMerge_def Performance_Reverse_def raise_to_max
      add.assoc add.commute add.left_commute max.assoc max.commute max.left_commute)+

lemma Performance_pb_round_trip [simp]: "Performance_ReadFromPB (Performance_WriteToPB t p) t' = t"
  by (rule Performance.equality) (simp_all add: Performance_ReadFromPB_def Performance_WriteToPB_def)

text \<open>The row: the values of \<open>Anomaly_WriteBlock\<close> with the types they are written with.\<close>

definition Anomaly_row :: "Anomaly \<Rightarrow> ck_value list" where
  "Anomaly_row t =
     (let clientFail = an_ClientSynRepeat t + an_ClientSourcePortReuse t + an_ClientEstablishReset t;
         serverFail = an_ServerSYNACKRepeat t + an_ServerReset t + an_ServerQueueLack t + an_ServerEstablishReset t;
         transferFail = an_ClientRstFlow t + an_ServerRstFlow t + an_ServerQueueLack t + an_ClientHalfCloseFlow t + an_ServerHalfCloseFlow t + an_TCPTimeout t;
         rstFail = an_ClientEstablishReset t + an_ServerEstablishReset t + an_ServerReset t + an_ClientRstFlow t + an_ServerRstFlow t in
     map CkUInt64 [an_ClientRstFlow t, an_ServerRstFlow t, an_ClientSynRepeat t, an_ServerSYNACKRepeat t,
      an_ClientHalfCloseFlow t, an_ServerHalfCloseFlow t, an_ClientSourcePortReuse t,
      an_ServerReset t, an_ServerQueueLack t, an_ClientEstablishReset t,
      an_ServerEstablishReset t, an_TCPTimeout t, clientFail, serverFail,
      clientFail + serverFail, transferFail, rstFail]
     @ map CkUInt32 [an_L7ClientError t, an_L7ServerError t, an_L7Timeout t,
      an_L7ClientError t + an_L7ServerError t])"

lemma Anomaly_WriteBlock_row: "writes app (Anomaly_WriteBlock app t) (Anomaly_row t)"
  unfolding Anomaly_WriteBlock_def Anomaly_row_def Let_def
  by (intro writes_and_then row_writes)

lemma Anomaly_row_types: "map value_type (Anomaly_row t) = map (Some o col_Type) (AnomalyColumns cmt)"
  by (simp add: Anomaly_row_def AnomalyColumns_def column_defs Let_def)

interpretation m_Anomaly: directed_merge Anomaly_ConcurrentMerge Anomaly_Reverse
  by unfold_locales
    (rule Anomaly.equality; simp add: Anomaly_ConcurrentMerge_def Anomaly_Reverse_def raise_to_max
      add.assoc add.commute add.left_commute max.assoc max.commute max.left_commute)+

lemma Anomaly_pb_round_trip [simp]: "Anomaly_ReadFromPB (Anomaly_WriteToPB t p) t' = t"
  by (rule Anomaly.equality) (simp_all add: Anomaly_ReadFromPB_def Anomaly_WriteToPB_def)

text \<open>The row: the values of \<open>FlowLoad_WriteBlock\<close> with the types they are written with.\<close>

definition FlowLoad_row :: "FlowLoad \<Rightarrow> ck_value list" where
  "FlowLoad_row t =
     (map CkUInt64 [fl_Load t])"

lemma FlowLoad_WriteBlock_row: "writes app (FlowLoad_WriteBlock app t) (FlowLoad_row t)"
  unfolding FlowLoad_WriteBlock_def FlowLoad_row_def Let_def
  by (intro writes_and_then row_writes)

lemma FlowLoad_row_types: "map value_type (FlowLoad_row t) = map (Some o col_Type) (FlowLoadColumns cmt)"
  by (simp add: FlowLoad_row_def FlowLoadColumns_def column_defs Let_def)

interpretation m_FlowLoad: directed_merge FlowLoad_ConcurrentMerge FlowLoad_Reverse
  by unfold_locales
    (rule FlowLoad.equality; simp add: FlowLoad_ConcurrentMerge_def FlowLoad_Reverse_def raise_to_max
      add.assoc add.commute add.left_commute max.assoc max.commute max.left_commute)+

lemma FlowLoad_pb_round_trip [simp]: "FlowLoad_ReadFromPB (FlowLoad_WriteToPB t p) t' = t"
  by (rule FlowLoad.equality) (simp_all add: FlowLoad_ReadFromPB_def FlowLoad_WriteToPB_def)

text \<open>Printing fills the buffer with the text of the non-zero fields.\<close>

lemma Latency_MarshalTo_text:
  "length (kv_text (Latency_fields t)) \<le> length b \<Longrightarrow> Latency_MarshalTo t b = Some (written (kv_text (Latency_fields t)) b)"
  unfolding Latency_MarshalTo_def by (rule marshalKeyValues_fits)

lemma Performance_MarshalTo_text:
  "length (kv_text (Performance_fields t)) \<le> length b \<Longrightarrow>
   Performance_MarshalTo t b = Some (written (kv_text (Performance_fields t)) b)"
  unfolding Performance_MarshalTo_def by (rule marshalKeyValues_fits)

lemma Anomaly_MarshalTo_text:
  "length (kv_text (Anomaly_fields t)) \<le> length b \<Longrightarrow> Anomaly_MarshalTo t b = Some (written (kv_text (Anomaly_fields t)) b)"
  unfolding Anomaly_MarshalTo_def by (rule marshalKeyValues_fits)

lemma FlowLoad_MarshalTo_text:
  "length (kv_text (FlowLoad_fields t)) \<le> length b \<Longrightarrow> FlowLoad_MarshalTo t b = Some (written (kv_text (FlowLoad_fields t)) b)"
  unfolding FlowLoad_MarshalTo_def by (rule marshalKeyValues_fits)

text \<open>The packet count is always printed.\<close>

definition Traffic_text :: "Traffic \<Rightarrow> bytes" where
  "Traffic_text t = str ''packet='' @ FormatUint (tr_PacketTx t + tr_PacketRx t) @ str ''i''
     @ (let kv = kv_text (Traffic_fields t) in if kv = [] then [] else str '','' @ kv)"

lemma Traffic_MarshalTo_text:
  assumes "length (str ''packet='' @ FormatUint (tr_PacketTx t + tr_PacketRx t) @ str ''i,'')
    + length (kv_text (Traffic_fields t)) \<le> length b"
  shows "\<exists>b'. Traffic_MarshalTo t b = Some (b', length (Traffic_text t)) \<and> take (length (Traffic_text t)) b' = Traffic_text t
    \<and> length b' = length b"
proof -
  define h where "h = str ''packet='' @ FormatUint (tr_PacketTx t + tr_PacketRx t) @ str ''i,''"
  define kv where "kv = kv_text (Traffic_fields t)"
  have l: "length h + length kv \<le> length b" using assms by (simp only: h_def kv_def)
  have "put (str ''i,'') (put (FormatUint (tr_PacketTx t + tr_PacketRx t)) (put (str ''packet='') (written [] b)))
      = written h b"
    using assms by (simp add: put_written h_def)
  then have p: "put (str ''i,'') (put (FormatUint (tr_PacketTx t + tr_PacketRx t)) (put (str ''packet='') (b, 0)))
      = (h @ drop (length h) b, length h)"
    by (simp add: written_def)
  have "marshalKeyValues (drop (length h) b) (map fst (Traffic_fields t)) (map snd (Traffic_fields t))
      = Some (written kv (drop (length h) b))"
    unfolding kv_def by (rule marshalKeyValues_fits) (use l in \<open>simp add: kv_def\<close>)
  then have m: "Traffic_MarshalTo t b =
      Some (h @ kv @ drop (length h + length kv) b, (if kv = [] then length h - 1 else length h) + length kv)"
    unfolding Traffic_MarshalTo_def p by (simp add: written_def add.commute)
  show ?thesis
  proof (cases "kv = []")
    case True
    have "h = Traffic_text t @ str '',''"
      using True by (simp add: Traffic_text_def h_def str_def flip: kv_def)
    then show ?thesis using m True l by (simp add: str_def)
  next
    case False
    have t: "Traffic_text t = h @ kv" using False by (simp add: Traffic_text_def h_def str_def Let_def flip: kv_def)
    show ?thesis unfolding t m using False l by simp
  qed
qed

end
