(* ===== verification/Usage_Meter.thy ===== *)
theory Usage_Meter
  imports Meter_Spec
begin

text \<open>
  The usage meter, \<^verbatim>\<open>server/libs/zerodoc/usage_meter.go\<close>, which prints every field, also
  the zero ones.
\<close>

record UsageMeter =
  us_PacketTx :: u64
  us_PacketRx :: u64
  us_ByteTx :: u64
  us_ByteRx :: u64
  us_L3ByteTx :: u64
  us_L3ByteRx :: u64
  us_L4ByteTx :: u64
  us_L4ByteRx :: u64

record pb_UsageMeter =
  pbus_PacketTx :: u64
  pbus_PacketRx :: u64
  pbus_ByteTx :: u64
  pbus_ByteRx :: u64
  pbus_L3ByteTx :: u64
  pbus_L3ByteRx :: u64
  pbus_L4ByteTx :: u64
  pbus_L4ByteRx :: u64

definition UsageMeter_Reverse :: "UsageMeter \<Rightarrow> UsageMeter" where
  "UsageMeter_Reverse t = t\<lparr>us_PacketTx := us_PacketRx t, us_PacketRx := us_PacketTx t, us_ByteTx := us_ByteRx t,
     us_ByteRx := us_ByteTx t, us_L3ByteTx := us_L3ByteRx t, us_L3ByteRx := us_L3ByteTx t,
     us_L4ByteTx := us_L4ByteRx t, us_L4ByteRx := us_L4ByteTx t\<rparr>"

definition UsageMeter_WriteToPB :: "UsageMeter \<Rightarrow> pb_UsageMeter \<Rightarrow> pb_UsageMeter" where
  "UsageMeter_WriteToPB t p = p\<lparr>pbus_PacketTx := us_PacketTx t, pbus_PacketRx := us_PacketRx t,
     pbus_ByteTx := us_ByteTx t, pbus_ByteRx := us_ByteRx t, pbus_L3ByteTx := us_L3ByteTx t,
     pbus_L3ByteRx := us_L3ByteRx t, pbus_L4ByteTx := us_L4ByteTx t,
     pbus_L4ByteRx := us_L4ByteRx t\<rparr>"

definition UsageMeter_ReadFromPB :: "pb_UsageMeter \<Rightarrow> UsageMeter \<Rightarrow> UsageMeter" where
  "UsageMeter_ReadFromPB p t = t\<lparr>us_PacketTx := pbus_PacketTx p, us_PacketRx := pbus_PacketRx p,
     us_ByteTx := pbus_ByteTx p, us_ByteRx := pbus_ByteRx p, us_L3ByteTx := pbus_L3ByteTx p,
     us_L3ByteRx := pbus_L3ByteRx p, us_L4ByteTx := pbus_L4ByteTx p,
     us_L4ByteRx := pbus_L4ByteRx p\<rparr>"

definition UsageMeter_Merge :: "UsageMeter \<Rightarrow> UsageMeter \<Rightarrow> UsageMeter" where
  "UsageMeter_Merge t other = t\<lparr>us_PacketTx := us_PacketTx t + us_PacketTx other,
     us_PacketRx := us_PacketRx t + us_PacketRx other,
     us_ByteTx := us_ByteTx t + us_ByteTx other, us_ByteRx := us_ByteRx t + us_ByteRx other,
     us_L3ByteTx := us_L3ByteTx t + us_L3ByteTx other,
     us_L3ByteRx := us_L3ByteRx t + us_L3ByteRx other,
     us_L4ByteTx := us_L4ByteTx t + us_L4ByteTx other,
     us_L4ByteRx := us_L4ByteRx t + us_L4ByteRx other\<rparr>"

definition UsageMeterColumns :: "(string \<Rightarrow> bytes) \<Rightarrow> Column list" where
  "UsageMeterColumns cmt =
     NewColumnsWithComment (map (\<lambda>n. (str n, cmt n)) [''packet_tx'', ''packet_rx'', ''packet'', ''byte_tx'', ''byte_rx'', ''byte'',
      ''l3_byte_tx'', ''l3_byte_rx'', ''l4_byte_tx'', ''l4_byte_rx'']) CT_UInt64"

definition UsageMeter_WriteBlock :: "('e, 'b) column_append \<Rightarrow> UsageMeter \<Rightarrow> 'b Block \<Rightarrow> 'e option \<times> 'b Block" where
  "UsageMeter_WriteBlock app t =
     (write_each (Block_WriteUInt64 app) [us_PacketTx t, us_PacketRx t, us_PacketTx t + us_PacketRx t, us_ByteTx t, us_ByteRx t,
      us_ByteTx t + us_ByteRx t, us_L3ByteTx t, us_L3ByteRx t, us_L4ByteTx t, us_L4ByteRx t])"

definition UsageMeter_SortKey :: "UsageMeter \<Rightarrow> u64" where
  "UsageMeter_SortKey t = us_ByteTx t + us_ByteRx t"

text \<open>The pieces copied into the buffer one after the other, before the last byte.\<close>

definition UsageMeter_pieces :: "UsageMeter \<Rightarrow> bytes list" where
  "UsageMeter_pieces t =
     [str ''packet_tx='', FormatUint (us_PacketTx t), str ''i,packet_rx='',
      FormatUint (us_PacketRx t), str ''i,packet='', FormatUint (us_PacketTx t+us_PacketRx t),
      str ''i,byte_tx='', FormatUint (us_ByteTx t), str ''i,byte_rx='',
      FormatUint (us_ByteRx t), str ''i,byte='', FormatUint (us_ByteTx t+us_ByteRx t),
      str ''i,l3_byte_tx='', FormatUint (us_L3ByteTx t), str ''i,l3_byte_rx='',
      FormatUint (us_L3ByteRx t), str ''i,l4_byte_tx='', FormatUint (us_L4ByteTx t),
      str ''i,l4_byte_rx='', FormatUint (us_L4ByteRx t)]"

definition UsageMeter_MarshalTo :: "UsageMeter \<Rightarrow> bytes \<Rightarrow> (bytes \<times> nat) option" where
  "UsageMeter_MarshalTo t b = put_byte 105 (fold put (UsageMeter_pieces t) (b, 0))"

section \<open>Laws\<close>

text \<open>The row: the values of \<open>UsageMeter_WriteBlock\<close> with the types they are written with.\<close>

definition UsageMeter_row :: "UsageMeter \<Rightarrow> ck_value list" where
  "UsageMeter_row t =
     (map CkUInt64 [us_PacketTx t, us_PacketRx t, us_PacketTx t + us_PacketRx t, us_ByteTx t, us_ByteRx t,
      us_ByteTx t + us_ByteRx t, us_L3ByteTx t, us_L3ByteRx t, us_L4ByteTx t, us_L4ByteRx t])"

lemma UsageMeter_WriteBlock_row: "writes app (UsageMeter_WriteBlock app t) (UsageMeter_row t)"
  unfolding UsageMeter_WriteBlock_def UsageMeter_row_def Let_def
  by (intro writes_and_then row_writes)

lemma UsageMeter_row_types: "map value_type (UsageMeter_row t) = map (Some o col_Type) (UsageMeterColumns cmt)"
  by (simp add: UsageMeter_row_def UsageMeterColumns_def column_defs Let_def)

interpretation m_UsageMeter: directed_merge UsageMeter_Merge UsageMeter_Reverse
  by unfold_locales
    (rule UsageMeter.equality; simp add: UsageMeter_Merge_def UsageMeter_Reverse_def raise_to_max
      add.assoc add.commute add.left_commute max.assoc max.commute max.left_commute)+

lemma UsageMeter_pb_round_trip [simp]: "UsageMeter_ReadFromPB (UsageMeter_WriteToPB t p) t' = t"
  by (rule UsageMeter.equality) (simp_all add: UsageMeter_ReadFromPB_def UsageMeter_WriteToPB_def)

lemma fold_put_written:
  "length t + length (concat xs) \<le> length b \<Longrightarrow> fold put xs (written t b) = written (t @ concat xs) b"
  by (induction xs arbitrary: t) (simp_all add: put_written)

definition UsageMeter_text :: "UsageMeter \<Rightarrow> bytes" where
  "UsageMeter_text t = concat (UsageMeter_pieces t) @ [105]"

lemma UsageMeter_MarshalTo_text:
  assumes "length (UsageMeter_text t) \<le> length b"
  shows "UsageMeter_MarshalTo t b = Some (written (UsageMeter_text t) b)"
proof -
  let ?c = "concat (UsageMeter_pieces t)"
  have l: "length ?c < length b" using assms by (simp add: UsageMeter_text_def)
  then have "fold put (UsageMeter_pieces t) (written [] b) = written ?c b"
    using fold_put_written [of "[]" "UsageMeter_pieces t" b] by simp
  moreover have "written [] b = (b, 0)" by (simp add: written_def)
  ultimately show ?thesis
    using put_byte_written [OF l, of 105] by (simp add: UsageMeter_MarshalTo_def UsageMeter_text_def)
qed

lemma length_UsageMeter_text: "length (UsageMeter_text t) \<le> 2048"
proof -
  note f = length_FormatUint
  have "length (concat (UsageMeter_pieces t)) \<le> 13 * 10 + 20 * 10"
    unfolding UsageMeter_pieces_def
    using f [of "us_PacketTx t"] f [of "us_PacketRx t"] f [of "us_PacketTx t + us_PacketRx t"]
      f [of "us_ByteTx t"] f [of "us_ByteRx t"] f [of "us_ByteTx t + us_ByteRx t"]
      f [of "us_L3ByteTx t"] f [of "us_L3ByteRx t"] f [of "us_L4ByteTx t"] f [of "us_L4ByteRx t"]
    by simp
  then show ?thesis by (simp add: UsageMeter_text_def)
qed

end
