(* ===== verification/App_Meter.thy ===== *)
theory App_Meter
  imports Meter_Spec
begin

text \<open>
  The parts of the application meter, \<^verbatim>\<open>server/libs/zerodoc/app_meter.go\<close>: requests and
  responses, response times, errors.
\<close>

section \<open>AppTraffic\<close>

record AppTraffic =
  at_Request :: u32
  at_Response :: u32

record pb_AppTraffic =
  pbat_Request :: u32
  pbat_Response :: u32

definition AppTraffic_Reverse :: "AppTraffic \<Rightarrow> AppTraffic" where
  "AppTraffic_Reverse t = t"

definition AppTraffic_WriteToPB :: "AppTraffic \<Rightarrow> pb_AppTraffic \<Rightarrow> pb_AppTraffic" where
  "AppTraffic_WriteToPB t p = p\<lparr>pbat_Request := at_Request t, pbat_Response := at_Response t\<rparr>"

definition AppTraffic_ReadFromPB :: "pb_AppTraffic \<Rightarrow> AppTraffic \<Rightarrow> AppTraffic" where
  "AppTraffic_ReadFromPB p t = t\<lparr>at_Request := pbat_Request p, at_Response := pbat_Response p\<rparr>"

definition AppTraffic_ConcurrentMerge :: "AppTraffic \<Rightarrow> AppTraffic \<Rightarrow> AppTraffic" where
  "AppTraffic_ConcurrentMerge t other = t\<lparr>at_Request := at_Request t + at_Request other,
     at_Response := at_Response t + at_Response other\<rparr>"

definition AppTraffic_SequentialMerge :: "AppTraffic \<Rightarrow> AppTraffic \<Rightarrow> AppTraffic" where
  "AppTraffic_SequentialMerge t other = AppTraffic_ConcurrentMerge t other"

definition AppTraffic_fields :: "AppTraffic \<Rightarrow> (bytes \<times> u64) list" where
  "AppTraffic_fields t =
     [(str ''request='', ucast (at_Request t)), (str ''response='', ucast (at_Response t))]"

definition AppTraffic_MarshalTo :: "AppTraffic \<Rightarrow> bytes \<Rightarrow> (bytes \<times> nat) option" where
  "AppTraffic_MarshalTo t b = marshalKeyValues b (map fst (AppTraffic_fields t)) (map snd (AppTraffic_fields t))"

definition AppTrafficColumns :: "(string \<Rightarrow> bytes) \<Rightarrow> Column list" where
  "AppTrafficColumns cmt =
     [SetIndex IndexNone (SetComment (cmt ''request'') (NewColumn (str ''request'') CT_UInt32)),
      SetIndex IndexNone (SetComment (cmt ''response'') (NewColumn (str ''response'') CT_UInt32))]"

definition AppTraffic_WriteBlock :: "('e, 'b) column_append \<Rightarrow> AppTraffic \<Rightarrow> 'b Block \<Rightarrow> 'e option \<times> 'b Block" where
  "AppTraffic_WriteBlock app t =
     (and_then (Block_WriteUInt32 app (at_Request t))
     (Block_WriteUInt32 app (at_Response t)))"

section \<open>AppLatency\<close>

record AppLatency =
  al_RRTMax :: u32
  al_RRTSum :: u64
  al_RRTCount :: u32

record pb_AppLatency =
  pbal_RrtMax :: u32
  pbal_RrtSum :: u64
  pbal_RrtCount :: u32

definition AppLatency_Reverse :: "AppLatency \<Rightarrow> AppLatency" where
  "AppLatency_Reverse t = t"

definition AppLatency_WriteToPB :: "AppLatency \<Rightarrow> pb_AppLatency \<Rightarrow> pb_AppLatency" where
  "AppLatency_WriteToPB t p = p\<lparr>pbal_RrtMax := al_RRTMax t, pbal_RrtSum := al_RRTSum t, pbal_RrtCount := al_RRTCount t\<rparr>"

definition AppLatency_ReadFromPB :: "pb_AppLatency \<Rightarrow> AppLatency \<Rightarrow> AppLatency" where
  "AppLatency_ReadFromPB p t = t\<lparr>al_RRTMax := pbal_RrtMax p, al_RRTSum := pbal_RrtSum p, al_RRTCount := pbal_RrtCount p\<rparr>"

definition AppLatency_ConcurrentMerge :: "AppLatency \<Rightarrow> AppLatency \<Rightarrow> AppLatency" where
  "AppLatency_ConcurrentMerge t other = t\<lparr>al_RRTMax := raise_to (al_RRTMax other) (al_RRTMax t),
     al_RRTSum := al_RRTSum t + al_RRTSum other,
     al_RRTCount := al_RRTCount t + al_RRTCount other\<rparr>"

definition AppLatency_SequentialMerge :: "AppLatency \<Rightarrow> AppLatency \<Rightarrow> AppLatency" where
  "AppLatency_SequentialMerge t other = AppLatency_ConcurrentMerge t other"

definition AppLatency_fields :: "AppLatency \<Rightarrow> (bytes \<times> u64) list" where
  "AppLatency_fields t =
     [(str ''rrt_sum='', al_RRTSum t), (str ''rrt_count='', ucast (al_RRTCount t)),
      (str ''rrt_max='', ucast (al_RRTMax t))]"

definition AppLatency_MarshalTo :: "AppLatency \<Rightarrow> bytes \<Rightarrow> (bytes \<times> nat) option" where
  "AppLatency_MarshalTo t b = marshalKeyValues b (map fst (AppLatency_fields t)) (map snd (AppLatency_fields t))"

definition AppLatencyColumns :: "(string \<Rightarrow> bytes) \<Rightarrow> Column list" where
  "AppLatencyColumns cmt =
     [SetIndex IndexNone (SetComment (cmt ''rrt_max'') (NewColumn (str ''rrt_max'') CT_UInt32)),
      SetComment (cmt ''rrt_sum'') (NewColumn (str ''rrt_sum'') CT_Float64),
      SetComment (cmt ''rrt_count'') (NewColumn (str ''rrt_count'') CT_UInt64)]"

definition AppLatency_WriteBlock :: "('e, 'b) column_append \<Rightarrow> AppLatency \<Rightarrow> 'b Block \<Rightarrow> 'e option \<times> 'b Block" where
  "AppLatency_WriteBlock app t =
     (and_then (Block_WriteUInt32 app (al_RRTMax t))
     (and_then (Block_WriteFloat64 app (float64_of_u64 (al_RRTSum t)))
     (Block_WriteUInt64 app (ucast (al_RRTCount t)))))"

section \<open>AppAnomaly\<close>

record AppAnomaly =
  aa_ClientError :: u32
  aa_ServerError :: u32
  aa_Timeout :: u32

record pb_AppAnomaly =
  pbaa_ClientError :: u32
  pbaa_ServerError :: u32
  pbaa_Timeout :: u32

definition AppAnomaly_Reverse :: "AppAnomaly \<Rightarrow> AppAnomaly" where
  "AppAnomaly_Reverse t = t"

definition AppAnomaly_WriteToPB :: "AppAnomaly \<Rightarrow> pb_AppAnomaly \<Rightarrow> pb_AppAnomaly" where
  "AppAnomaly_WriteToPB t p = p\<lparr>pbaa_ClientError := aa_ClientError t, pbaa_ServerError := aa_ServerError t,
     pbaa_Timeout := aa_Timeout t\<rparr>"

definition AppAnomaly_ReadFromPB :: "pb_AppAnomaly \<Rightarrow> AppAnomaly \<Rightarrow> AppAnomaly" where
  "AppAnomaly_ReadFromPB p t = t\<lparr>aa_ClientError := pbaa_ClientError p, aa_ServerError := pbaa_ServerError p,
     aa_Timeout := pbaa_Timeout p\<rparr>"

definition AppAnomaly_ConcurrentMerge :: "AppAnomaly \<Rightarrow> AppAnomaly \<Rightarrow> AppAnomaly" where
  "AppAnomaly_ConcurrentMerge t other = t\<lparr>aa_ClientError := aa_ClientError t + aa_ClientError other,
     aa_ServerError := aa_ServerError t + aa_ServerError other,
     aa_Timeout := aa_Timeout t + aa_Timeout other\<rparr>"

definition AppAnomaly_SequentialMerge :: "AppAnomaly \<Rightarrow> AppAnomaly \<Rightarrow> AppAnomaly" where
  "AppAnomaly_SequentialMerge t other = AppAnomaly_ConcurrentMerge t other"

definition AppAnomaly_fields :: "AppAnomaly \<Rightarrow> (bytes \<times> u64) list" where
  "AppAnomaly_fields t =
     [(str ''client_error='', ucast (aa_ClientError t)),
      (str ''server_error='', ucast (aa_ServerError t)),
      (str ''timeout='', ucast (aa_Timeout t)),
      (str ''error='', ucast (aa_ClientError t + aa_ServerError t))]"

definition AppAnomaly_MarshalTo :: "AppAnomaly \<Rightarrow> bytes \<Rightarrow> (bytes \<times> nat) option" where
  "AppAnomaly_MarshalTo t b = marshalKeyValues b (map fst (AppAnomaly_fields t)) (map snd (AppAnomaly_fields t))"

definition AppAnomalyColumns :: "(string \<Rightarrow> bytes) \<Rightarrow> Column list" where
  "AppAnomalyColumns cmt =
     map (SetIndex IndexNone) (NewColumnsWithComment (map (\<lambda>n. (str n, cmt n)) [''client_error'', ''server_error'', ''timeout'', ''error'']) CT_UInt64)"

definition AppAnomaly_WriteBlock :: "('e, 'b) column_append \<Rightarrow> AppAnomaly \<Rightarrow> 'b Block \<Rightarrow> 'e option \<times> 'b Block" where
  "AppAnomaly_WriteBlock app t =
     (write_each (Block_WriteUInt64 app) [ucast (aa_ClientError t), ucast (aa_ServerError t), ucast (aa_Timeout t),
      ucast (aa_ClientError t + aa_ServerError t)])"

section \<open>Laws\<close>

text \<open>The row: the values of \<open>AppTraffic_WriteBlock\<close> with the types they are written with.\<close>

definition AppTraffic_row :: "AppTraffic \<Rightarrow> ck_value list" where
  "AppTraffic_row t =
     ([CkUInt32 (at_Request t)]
     @ [CkUInt32 (at_Response t)])"

lemma AppTraffic_WriteBlock_row: "writes app (AppTraffic_WriteBlock app t) (AppTraffic_row t)"
  unfolding AppTraffic_WriteBlock_def AppTraffic_row_def Let_def
  by (intro writes_and_then row_writes)

lemma AppTraffic_row_types: "map value_type (AppTraffic_row t) = map (Some o col_Type) (AppTrafficColumns cmt)"
  by (simp add: AppTraffic_row_def AppTrafficColumns_def column_defs Let_def)

interpretation m_AppTraffic: directed_merge AppTraffic_ConcurrentMerge AppTraffic_Reverse
  by unfold_locales
    (rule AppTraffic.equality; simp add: AppTraffic_ConcurrentMerge_def AppTraffic_Reverse_def raise_to_max
      add.assoc add.commute add.left_commute max.assoc max.commute max.left_commute)+

lemma AppTraffic_pb_round_trip [simp]: "AppTraffic_ReadFromPB (AppTraffic_WriteToPB t p) t' = t"
  by (rule AppTraffic.equality) (simp_all add: AppTraffic_ReadFromPB_def AppTraffic_WriteToPB_def)

lemma AppTraffic_MarshalTo_text:
  "length (kv_text (AppTraffic_fields t)) \<le> length b \<Longrightarrow> AppTraffic_MarshalTo t b = Some (written (kv_text (AppTraffic_fields t)) b)"
  unfolding AppTraffic_MarshalTo_def by (rule marshalKeyValues_fits)

text \<open>The row: the values of \<open>AppLatency_WriteBlock\<close> with the types they are written with.\<close>

definition AppLatency_row :: "AppLatency \<Rightarrow> ck_value list" where
  "AppLatency_row t =
     ([CkUInt32 (al_RRTMax t)]
     @ [CkFloat64 (float64_of_u64 (al_RRTSum t))]
     @ [CkUInt64 (ucast (al_RRTCount t))])"

lemma AppLatency_WriteBlock_row: "writes app (AppLatency_WriteBlock app t) (AppLatency_row t)"
  unfolding AppLatency_WriteBlock_def AppLatency_row_def Let_def
  by (intro writes_and_then row_writes)

lemma AppLatency_row_types: "map value_type (AppLatency_row t) = map (Some o col_Type) (AppLatencyColumns cmt)"
  by (simp add: AppLatency_row_def AppLatencyColumns_def column_defs Let_def)

interpretation m_AppLatency: directed_merge AppLatency_ConcurrentMerge AppLatency_Reverse
  by unfold_locales
    (rule AppLatency.equality; simp add: AppLatency_ConcurrentMerge_def AppLatency_Reverse_def raise_to_max
      add.assoc add.commute add.left_commute max.assoc max.commute max.left_commute)+

lemma AppLatency_pb_round_trip [simp]: "AppLatency_ReadFromPB (AppLatency_WriteToPB t p) t' = t"
  by (rule AppLatency.equality) (simp_all add: AppLatency_ReadFromPB_def AppLatency_WriteToPB_def)

lemma AppLatency_MarshalTo_text:
  "length (kv_text (AppLatency_fields t)) \<le> length b \<Longrightarrow> AppLatency_MarshalTo t b = Some (written (kv_text (AppLatency_fields t)) b)"
  unfolding AppLatency_MarshalTo_def by (rule marshalKeyValues_fits)

text \<open>The row: the values of \<open>AppAnomaly_WriteBlock\<close> with the types they are written with.\<close>

definition AppAnomaly_row :: "AppAnomaly \<Rightarrow> ck_value list" where
  "AppAnomaly_row t =
     (map CkUInt64 [ucast (aa_ClientError t), ucast (aa_ServerError t), ucast (aa_Timeout t),
      ucast (aa_ClientError t + aa_ServerError t)])"

lemma AppAnomaly_WriteBlock_row: "writes app (AppAnomaly_WriteBlock app t) (AppAnomaly_row t)"
  unfolding AppAnomaly_WriteBlock_def AppAnomaly_row_def Let_def
  by (intro writes_and_then row_writes)

lemma AppAnomaly_row_types: "map value_type (AppAnomaly_row t) = map (Some o col_Type) (AppAnomalyColumns cmt)"
  by (simp add: AppAnomaly_row_def AppAnomalyColumns_def column_defs Let_def)

interpretation m_AppAnomaly: directed_merge AppAnomaly_ConcurrentMerge AppAnomaly_Reverse
  by unfold_locales
    (rule AppAnomaly.equality; simp add: AppAnomaly_ConcurrentMerge_def AppAnomaly_Reverse_def raise_to_max
      add.assoc add.commute add.left_commute max.assoc max.commute max.left_commute)+

lemma AppAnomaly_pb_round_trip [simp]: "AppAnomaly_ReadFromPB (AppAnomaly_WriteToPB t p) t' = t"
  by (rule AppAnomaly.equality) (simp_all add: AppAnomaly_ReadFromPB_def AppAnomaly_WriteToPB_def)

lemma AppAnomaly_MarshalTo_text:
  "length (kv_text (AppAnomaly_fields t)) \<le> length b \<Longrightarrow> AppAnomaly_MarshalTo t b = Some (written (kv_text (AppAnomaly_fields t)) b)"
  unfolding AppAnomaly_MarshalTo_def by (rule marshalKeyValues_fits)

end
