(* ===== verification/Meter.thy ===== *)
theory Meter
  imports Basic_Meter Usage_Meter App_Meter
begin

text \<open>
  The meters of the documents: \<^verbatim>\<open>FlowMeter\<close> (\<^verbatim>\<open>server/libs/zerodoc/flow_meter.go\<close>),
  \<^verbatim>\<open>AppMeter\<close> (\<^verbatim>\<open>app_meter.go\<close>) and \<^verbatim>\<open>UsageMeter\<close> behind the interface \<^verbatim>\<open>Meter\<close>
  (\<^verbatim>\<open>interface.go\<close>), with the identifiers and names of \<^verbatim>\<open>const.go\<close>. An interface value is
  the datatype \<open>Meter\<close>, its constructor the dynamic type; a type assertion is a match on it.

  The laws: a merge of meters of one kind is associative and commutative and of different
  kinds does nothing; a row has the types of the columns; the printed text fits the buffer
  \<^verbatim>\<open>ToKVString\<close> allocates; protobuf round trips.
\<close>

section \<open>Identifiers\<close>

definition MAX_STRING_LENGTH :: nat where "MAX_STRING_LENGTH = 2048"

definition FLOW_SECOND_ID :: u8 where "FLOW_SECOND_ID = 0"
definition FLOW_ID :: u8 where "FLOW_ID = 1"
definition ACL_ID :: u8 where "ACL_ID = 4"
definition APP_ID :: u8 where "APP_ID = 5"
definition MAX_APP_ID :: u8 where "MAX_APP_ID = 6"

definition MeterVTAPNames :: "bytes list" where
  "MeterVTAPNames = [str ''vtap_flow'', str ''vtap_flow'', str ''vtap_wan'', str ''vtap_packet'',
     str ''vtap_acl'', str ''vtap_app'']"

text \<open>The loop of \<^verbatim>\<open>init\<close>: a name that occurs twice keeps its last index.\<close>

primrec names_to_id :: "nat \<Rightarrow> bytes list \<Rightarrow> (bytes \<rightharpoonup> u8) \<Rightarrow> (bytes \<rightharpoonup> u8)" where
  "names_to_id i [] m = m"
| "names_to_id i (name # names) m = names_to_id (i + 1) names (m(name \<mapsto> of_nat i))"

definition MeterNamesToID :: "bytes \<rightharpoonup> u8" where
  "MeterNamesToID = names_to_id 0 MeterVTAPNames Map.empty"

definition GetMeterID :: "bytes \<Rightarrow> u8" where
  "GetMeterID name = (case MeterNamesToID name of Some i \<Rightarrow> i | None \<Rightarrow> MAX_APP_ID)"

definition MAX_MEASUREMENT_ID :: u8 where "MAX_MEASUREMENT_ID = 1"

definition MeasurementNames :: "bytes list" where
  "MeasurementNames = [str ''main'']"

definition GetMeasurementID :: "bytes \<Rightarrow> u8" where
  "GetMeasurementID name =
     (case names_to_id 0 MeasurementNames Map.empty name of Some i \<Rightarrow> i | None \<Rightarrow> MAX_MEASUREMENT_ID)"

section \<open>Flow meter\<close>

record FlowMeter =
  fm_Traffic :: Traffic
  fm_Latency :: Latency
  fm_Performance :: Performance
  fm_Anomaly :: Anomaly
  fm_FlowLoad :: FlowLoad

text \<open>The parts of a message are pointers, nil until they are first written.\<close>

record pb_FlowMeter =
  pbfm_Traffic :: "pb_Traffic option"
  pbfm_Latency :: "pb_Latency option"
  pbfm_Performance :: "pb_Performance option"
  pbfm_Anomaly :: "pb_Anomaly option"
  pbfm_FlowLoad :: "pb_FlowLoad option"

definition pb_Traffic_zero :: pb_Traffic where
  "pb_Traffic_zero = \<lparr>pbtr_PacketTx = 0, pbtr_PacketRx = 0, pbtr_ByteTx = 0, pbtr_ByteRx = 0, pbtr_L3ByteTx = 0,
     pbtr_L3ByteRx = 0, pbtr_L4ByteTx = 0, pbtr_L4ByteRx = 0, pbtr_NewFlow = 0, pbtr_ClosedFlow = 0,
     pbtr_L7Request = 0, pbtr_L7Response = 0\<rparr>"

definition pb_Latency_zero :: pb_Latency where
  "pb_Latency_zero = \<lparr>pbla_RttMax = 0, pbla_RttClientMax = 0, pbla_RttServerMax = 0, pbla_SrtMax = 0, pbla_ArtMax = 0,
     pbla_RrtMax = 0, pbla_RttSum = 0, pbla_RttClientSum = 0, pbla_RttServerSum = 0, pbla_SrtSum = 0,
     pbla_ArtSum = 0, pbla_RrtSum = 0, pbla_RttCount = 0, pbla_RttClientCount = 0, pbla_RttServerCount = 0,
     pbla_SrtCount = 0, pbla_ArtCount = 0, pbla_RrtCount = 0\<rparr>"

definition pb_Performance_zero :: pb_Performance where
  "pb_Performance_zero = \<lparr>pbpe_RetransTx = 0, pbpe_RetransRx = 0, pbpe_ZeroWinTx = 0, pbpe_ZeroWinRx = 0\<rparr>"

definition pb_Anomaly_zero :: pb_Anomaly where
  "pb_Anomaly_zero = \<lparr>pban_ClientRstFlow = 0, pban_ServerRstFlow = 0, pban_ClientSynRepeat = 0,
     pban_ServerSynackRepeat = 0, pban_ClientHalfCloseFlow = 0, pban_ServerHalfCloseFlow = 0,
     pban_ClientSourcePortReuse = 0, pban_ClientEstablishReset = 0, pban_ServerReset = 0,
     pban_ServerQueueLack = 0, pban_ServerEstablishReset = 0, pban_TcpTimeout = 0, pban_L7ClientError = 0,
     pban_L7ServerError = 0, pban_L7Timeout = 0\<rparr>"

definition pb_FlowLoad_zero :: pb_FlowLoad where
  "pb_FlowLoad_zero = \<lparr>pbfl_Load = 0\<rparr>"

text \<open>\<^verbatim>\<open>if p.X == nil { p.X = &pb.X{} }; m.X.WriteToPB(p.X)\<close>\<close>

definition write_part :: "'p \<Rightarrow> ('p \<Rightarrow> 'p) \<Rightarrow> 'p option \<Rightarrow> 'p option" where
  "write_part zero w p = Some (w (case p of None \<Rightarrow> zero | Some q \<Rightarrow> q))"

definition FlowMeter_Reverse :: "FlowMeter \<Rightarrow> FlowMeter" where
  "FlowMeter_Reverse m = m\<lparr>fm_Traffic := Traffic_Reverse (fm_Traffic m), fm_Latency := Latency_Reverse (fm_Latency m),
     fm_Performance := Performance_Reverse (fm_Performance m), fm_Anomaly := Anomaly_Reverse (fm_Anomaly m),
     fm_FlowLoad := FlowLoad_Reverse (fm_FlowLoad m)\<rparr>"

definition FlowMeter_SortKey :: "FlowMeter \<Rightarrow> u64" where
  "FlowMeter_SortKey m = tr_PacketTx (fm_Traffic m) + tr_PacketRx (fm_Traffic m)"

definition FlowMeter_WriteToPB :: "FlowMeter \<Rightarrow> pb_FlowMeter \<Rightarrow> pb_FlowMeter" where
  "FlowMeter_WriteToPB m p = p\<lparr>
     pbfm_Traffic := write_part pb_Traffic_zero (Traffic_WriteToPB (fm_Traffic m)) (pbfm_Traffic p),
     pbfm_Latency := write_part pb_Latency_zero (Latency_WriteToPB (fm_Latency m)) (pbfm_Latency p),
     pbfm_Performance := write_part pb_Performance_zero (Performance_WriteToPB (fm_Performance m)) (pbfm_Performance p),
     pbfm_Anomaly := write_part pb_Anomaly_zero (Anomaly_WriteToPB (fm_Anomaly m)) (pbfm_Anomaly p),
     pbfm_FlowLoad := write_part pb_FlowLoad_zero (FlowLoad_WriteToPB (fm_FlowLoad m)) (pbfm_FlowLoad p)\<rparr>"

text \<open>A nil part panics.\<close>

definition FlowMeter_ReadFromPB :: "pb_FlowMeter \<Rightarrow> FlowMeter \<Rightarrow> FlowMeter option" where
  "FlowMeter_ReadFromPB p m = do {
     tr \<leftarrow> pbfm_Traffic p; la \<leftarrow> pbfm_Latency p; pe \<leftarrow> pbfm_Performance p;
     an \<leftarrow> pbfm_Anomaly p; fl \<leftarrow> pbfm_FlowLoad p;
     Some (m\<lparr>fm_Traffic := Traffic_ReadFromPB tr (fm_Traffic m), fm_Latency := Latency_ReadFromPB la (fm_Latency m),
       fm_Performance := Performance_ReadFromPB pe (fm_Performance m), fm_Anomaly := Anomaly_ReadFromPB an (fm_Anomaly m),
       fm_FlowLoad := FlowLoad_ReadFromPB fl (fm_FlowLoad m)\<rparr>) }"

text \<open>The merges of two flow meters, the body of the type assertion.\<close>

definition FlowMeter_ConcurrentMerge :: "FlowMeter \<Rightarrow> FlowMeter \<Rightarrow> FlowMeter" where
  "FlowMeter_ConcurrentMerge m pm = m\<lparr>
     fm_Traffic := Traffic_ConcurrentMerge (fm_Traffic m) (fm_Traffic pm),
     fm_Latency := Latency_ConcurrentMerge (fm_Latency m) (fm_Latency pm),
     fm_Performance := Performance_ConcurrentMerge (fm_Performance m) (fm_Performance pm),
     fm_Anomaly := Anomaly_ConcurrentMerge (fm_Anomaly m) (fm_Anomaly pm),
     fm_FlowLoad := FlowLoad_ConcurrentMerge (fm_FlowLoad m) (fm_FlowLoad pm)\<rparr>"

definition FlowMeter_SequentialMerge :: "FlowMeter \<Rightarrow> FlowMeter \<Rightarrow> FlowMeter" where
  "FlowMeter_SequentialMerge m pm = m\<lparr>
     fm_Traffic := Traffic_SequentialMerge (fm_Traffic m) (fm_Traffic pm),
     fm_Latency := Latency_SequentialMerge (fm_Latency m) (fm_Latency pm),
     fm_Performance := Performance_SequentialMerge (fm_Performance m) (fm_Performance pm),
     fm_Anomaly := Anomaly_SequentialMerge (fm_Anomaly m) (fm_Anomaly pm),
     fm_FlowLoad := FlowLoad_SequentialMerge (fm_FlowLoad m) (fm_FlowLoad pm)\<rparr>"

text \<open>
  \<open>sub\<close> is \<^verbatim>\<open>offset += x.MarshalTo(b[offset:])\<close>, \<open>sep\<close> the comma
  \<^verbatim>\<open>if offset > 0 && b[offset-1] != ',' { b[offset] = ','; offset++ }\<close>.
\<close>

definition sub :: "(bytes \<Rightarrow> filling option) \<Rightarrow> filling \<Rightarrow> filling option" where
  "sub f = (\<lambda>(b, offset). case f (drop offset b) of
       None \<Rightarrow> None
     | Some (r, n) \<Rightarrow> Some (take offset b @ r, offset + n))"

definition sep :: "filling \<Rightarrow> filling option" where
  "sep = (\<lambda>(b, offset). if offset > 0 \<and> b ! (offset - 1) \<noteq> 44 then put_byte 44 (b, offset) else Some (b, offset))"

definition FlowMeter_MarshalTo :: "FlowMeter \<Rightarrow> bytes \<Rightarrow> filling option" where
  "FlowMeter_MarshalTo m b = do {
     st \<leftarrow> sub (Traffic_MarshalTo (fm_Traffic m)) (b, 0);
     st \<leftarrow> sep st;
     st \<leftarrow> sub (Latency_MarshalTo (fm_Latency m)) st;
     st \<leftarrow> sep st;
     st \<leftarrow> sub (Performance_MarshalTo (fm_Performance m)) st;
     st \<leftarrow> sep st;
     st \<leftarrow> sub (Anomaly_MarshalTo (fm_Anomaly m)) st;
     st \<leftarrow> sep st;
     (b, offset) \<leftarrow> sub (FlowLoad_MarshalTo (fm_FlowLoad m)) st;
     Some (b, if offset > 0 \<and> b ! (offset - 1) = 44 then offset - 1 else offset) }"

text \<open>\<^verbatim>\<open>buffer := make([]byte, MAX_STRING_LENGTH); size := m.MarshalTo(buffer); string(buffer[:size])\<close>\<close>

definition to_kv_string :: "(bytes \<Rightarrow> filling option) \<Rightarrow> bytes option" where
  "to_kv_string f = (case f (replicate MAX_STRING_LENGTH 0) of
       None \<Rightarrow> None | Some (b, n) \<Rightarrow> Some (take n b))"

definition FlowMeter_ToKVString :: "FlowMeter \<Rightarrow> bytes option" where
  "FlowMeter_ToKVString m = to_kv_string (FlowMeter_MarshalTo m)"

definition FlowMeterColumns :: "(string \<Rightarrow> bytes) \<Rightarrow> Column list" where
  "FlowMeterColumns cmt = TrafficColumns cmt @ LatencyColumns cmt @ PerformanceColumns cmt @ AnomalyColumns cmt
     @ FlowLoadColumns cmt"

definition FlowMeter_WriteBlock :: "('e, 'b) column_append \<Rightarrow> FlowMeter \<Rightarrow> 'b Block \<Rightarrow> 'e option \<times> 'b Block" where
  "FlowMeter_WriteBlock app m =
     and_then (Traffic_WriteBlock app (fm_Traffic m))
     (and_then (Latency_WriteBlock app (fm_Latency m))
     (and_then (Performance_WriteBlock app (fm_Performance m))
     (and_then (Anomaly_WriteBlock app (fm_Anomaly m))
     (FlowLoad_WriteBlock app (fm_FlowLoad m)))))"

section \<open>Application meter\<close>

record AppMeter =
  am_AppTraffic :: AppTraffic
  am_AppLatency :: AppLatency
  am_AppAnomaly :: AppAnomaly

record pb_AppMeter =
  pbam_Traffic :: "pb_AppTraffic option"
  pbam_Latency :: "pb_AppLatency option"
  pbam_Anomaly :: "pb_AppAnomaly option"

definition AppMeter_Reverse :: "AppMeter \<Rightarrow> AppMeter" where
  "AppMeter_Reverse m = m\<lparr>am_AppTraffic := AppTraffic_Reverse (am_AppTraffic m),
     am_AppLatency := AppLatency_Reverse (am_AppLatency m), am_AppAnomaly := AppAnomaly_Reverse (am_AppAnomaly m)\<rparr>"

definition AppMeter_SortKey :: "AppMeter \<Rightarrow> u64" where
  "AppMeter_SortKey m = al_RRTSum (am_AppLatency m)"

definition AppMeter_WriteToPB :: "AppMeter \<Rightarrow> pb_AppMeter \<Rightarrow> pb_AppMeter" where
  "AppMeter_WriteToPB m p = p\<lparr>
     pbam_Traffic := write_part \<lparr>pbat_Request = 0, pbat_Response = 0\<rparr> (AppTraffic_WriteToPB (am_AppTraffic m)) (pbam_Traffic p),
     pbam_Latency := write_part \<lparr>pbal_RrtMax = 0, pbal_RrtSum = 0, pbal_RrtCount = 0\<rparr>
       (AppLatency_WriteToPB (am_AppLatency m)) (pbam_Latency p),
     pbam_Anomaly := write_part \<lparr>pbaa_ClientError = 0, pbaa_ServerError = 0, pbaa_Timeout = 0\<rparr>
       (AppAnomaly_WriteToPB (am_AppAnomaly m)) (pbam_Anomaly p)\<rparr>"

definition AppMeter_ReadFromPB :: "pb_AppMeter \<Rightarrow> AppMeter \<Rightarrow> AppMeter option" where
  "AppMeter_ReadFromPB p m = do {
     tr \<leftarrow> pbam_Traffic p; la \<leftarrow> pbam_Latency p; an \<leftarrow> pbam_Anomaly p;
     Some (m\<lparr>am_AppTraffic := AppTraffic_ReadFromPB tr (am_AppTraffic m),
       am_AppLatency := AppLatency_ReadFromPB la (am_AppLatency m),
       am_AppAnomaly := AppAnomaly_ReadFromPB an (am_AppAnomaly m)\<rparr>) }"

definition AppMeter_ConcurrentMerge :: "AppMeter \<Rightarrow> AppMeter \<Rightarrow> AppMeter" where
  "AppMeter_ConcurrentMerge m pm = m\<lparr>
     am_AppTraffic := AppTraffic_ConcurrentMerge (am_AppTraffic m) (am_AppTraffic pm),
     am_AppLatency := AppLatency_ConcurrentMerge (am_AppLatency m) (am_AppLatency pm),
     am_AppAnomaly := AppAnomaly_ConcurrentMerge (am_AppAnomaly m) (am_AppAnomaly pm)\<rparr>"

definition AppMeter_SequentialMerge :: "AppMeter \<Rightarrow> AppMeter \<Rightarrow> AppMeter" where
  "AppMeter_SequentialMerge m pm = m\<lparr>
     am_AppTraffic := AppTraffic_SequentialMerge (am_AppTraffic m) (am_AppTraffic pm),
     am_AppLatency := AppLatency_SequentialMerge (am_AppLatency m) (am_AppLatency pm),
     am_AppAnomaly := AppAnomaly_SequentialMerge (am_AppAnomaly m) (am_AppAnomaly pm)\<rparr>"

definition AppMeter_MarshalTo :: "AppMeter \<Rightarrow> bytes \<Rightarrow> filling option" where
  "AppMeter_MarshalTo m b = do {
     st \<leftarrow> sub (AppTraffic_MarshalTo (am_AppTraffic m)) (b, 0);
     st \<leftarrow> sep st;
     st \<leftarrow> sub (AppLatency_MarshalTo (am_AppLatency m)) st;
     st \<leftarrow> sep st;
     st \<leftarrow> sub (AppAnomaly_MarshalTo (am_AppAnomaly m)) st;
     sep st }"

definition AppMeter_ToKVString :: "AppMeter \<Rightarrow> bytes option" where
  "AppMeter_ToKVString m = to_kv_string (AppMeter_MarshalTo m)"

definition AppMeterColumns :: "(string \<Rightarrow> bytes) \<Rightarrow> Column list" where
  "AppMeterColumns cmt = AppTrafficColumns cmt @ AppLatencyColumns cmt @ AppAnomalyColumns cmt"

definition AppMeter_WriteBlock :: "('e, 'b) column_append \<Rightarrow> AppMeter \<Rightarrow> 'b Block \<Rightarrow> 'e option \<times> 'b Block" where
  "AppMeter_WriteBlock app m =
     and_then (AppTraffic_WriteBlock app (am_AppTraffic m))
     (and_then (AppLatency_WriteBlock app (am_AppLatency m))
     (AppAnomaly_WriteBlock app (am_AppAnomaly m)))"

definition UsageMeter_ToKVString :: "UsageMeter \<Rightarrow> bytes option" where
  "UsageMeter_ToKVString m = to_kv_string (UsageMeter_MarshalTo m)"

section \<open>The interface\<close>

datatype Meter = M_Flow FlowMeter | M_Usage UsageMeter | M_App AppMeter

fun Meter_ID :: "Meter \<Rightarrow> u8" where
  "Meter_ID (M_Flow _) = FLOW_ID"
| "Meter_ID (M_Usage _) = ACL_ID"
| "Meter_ID (M_App _) = APP_ID"

definition Meter_Name :: "Meter \<Rightarrow> bytes" where
  "Meter_Name m = MeterVTAPNames ! unat (Meter_ID m)"

definition VTAPName :: "Meter \<Rightarrow> bytes" where
  "VTAPName m = MeterVTAPNames ! unat (Meter_ID m)"

fun ConcurrentMerge :: "Meter \<Rightarrow> Meter \<Rightarrow> Meter" where
  "ConcurrentMerge (M_Flow m) (M_Flow pm) = M_Flow (FlowMeter_ConcurrentMerge m pm)"
| "ConcurrentMerge (M_Usage m) (M_Usage pm) = M_Usage (UsageMeter_Merge m pm)"
| "ConcurrentMerge (M_App m) (M_App pm) = M_App (AppMeter_ConcurrentMerge m pm)"
| "ConcurrentMerge m _ = m"

fun SequentialMerge :: "Meter \<Rightarrow> Meter \<Rightarrow> Meter" where
  "SequentialMerge (M_Flow m) (M_Flow pm) = M_Flow (FlowMeter_SequentialMerge m pm)"
| "SequentialMerge (M_Usage m) other = ConcurrentMerge (M_Usage m) other"
| "SequentialMerge (M_App m) (M_App pm) = M_App (AppMeter_SequentialMerge m pm)"
| "SequentialMerge m _ = m"

fun SortKey :: "Meter \<Rightarrow> u64" where
  "SortKey (M_Flow m) = FlowMeter_SortKey m"
| "SortKey (M_Usage m) = UsageMeter_SortKey m"
| "SortKey (M_App m) = AppMeter_SortKey m"

fun Meter_Reverse :: "Meter \<Rightarrow> Meter" where
  "Meter_Reverse (M_Flow m) = M_Flow (FlowMeter_Reverse m)"
| "Meter_Reverse (M_Usage m) = M_Usage (UsageMeter_Reverse m)"
| "Meter_Reverse (M_App m) = M_App (AppMeter_Reverse m)"

fun ToKVString :: "Meter \<Rightarrow> bytes option" where
  "ToKVString (M_Flow m) = FlowMeter_ToKVString m"
| "ToKVString (M_Usage m) = UsageMeter_ToKVString m"
| "ToKVString (M_App m) = AppMeter_ToKVString m"

fun Meter_WriteBlock :: "('e, 'b) column_append \<Rightarrow> Meter \<Rightarrow> 'b Block \<Rightarrow> 'e option \<times> 'b Block" where
  "Meter_WriteBlock app (M_Flow m) = FlowMeter_WriteBlock app m"
| "Meter_WriteBlock app (M_Usage m) = UsageMeter_WriteBlock app m"
| "Meter_WriteBlock app (M_App m) = AppMeter_WriteBlock app m"

section \<open>Merging\<close>

lemmas part_comm = m_Traffic.merge_comm m_Latency.merge_comm m_Performance.merge_comm m_Anomaly.merge_comm
  m_FlowLoad.merge_comm m_AppTraffic.merge_comm m_AppLatency.merge_comm m_AppAnomaly.merge_comm

lemmas part_assoc = m_Traffic.merge_assoc m_Latency.merge_assoc m_Performance.merge_assoc m_Anomaly.merge_assoc
  m_FlowLoad.merge_assoc m_AppTraffic.merge_assoc m_AppLatency.merge_assoc m_AppAnomaly.merge_assoc

lemmas part_reverse = m_Traffic.reverse_twice m_Latency.reverse_twice m_Performance.reverse_twice m_Anomaly.reverse_twice
  m_FlowLoad.reverse_twice m_AppTraffic.reverse_twice m_AppLatency.reverse_twice m_AppAnomaly.reverse_twice
  m_Traffic.reverse_merge m_Latency.reverse_merge m_Performance.reverse_merge m_Anomaly.reverse_merge
  m_FlowLoad.reverse_merge m_AppTraffic.reverse_merge m_AppLatency.reverse_merge m_AppAnomaly.reverse_merge

interpretation m_FlowMeter: directed_merge FlowMeter_ConcurrentMerge FlowMeter_Reverse
proof
  show "FlowMeter_ConcurrentMerge a b = FlowMeter_ConcurrentMerge b a" for a b
    by (rule FlowMeter.equality) (simp_all add: FlowMeter_ConcurrentMerge_def part_comm [of _ "_ b"])
qed (simp_all add: FlowMeter_ConcurrentMerge_def FlowMeter_Reverse_def part_assoc part_reverse)

interpretation m_AppMeter: directed_merge AppMeter_ConcurrentMerge AppMeter_Reverse
proof
  show "AppMeter_ConcurrentMerge a b = AppMeter_ConcurrentMerge b a" for a b
    by (rule AppMeter.equality) (simp_all add: AppMeter_ConcurrentMerge_def part_comm [of _ "_ b"])
qed (simp_all add: AppMeter_ConcurrentMerge_def AppMeter_Reverse_def part_assoc part_reverse)

text \<open>The sequential merges are the concurrent ones.\<close>

lemma SequentialMerge_eq: "SequentialMerge m other = ConcurrentMerge m other"
  by (cases "(m, other)" rule: SequentialMerge.cases)
    (simp_all add: FlowMeter_SequentialMerge_def FlowMeter_ConcurrentMerge_def AppMeter_SequentialMerge_def
      AppMeter_ConcurrentMerge_def Traffic_SequentialMerge_def Latency_SequentialMerge_def
      Performance_SequentialMerge_def Anomaly_SequentialMerge_def FlowLoad_SequentialMerge_def
      AppTraffic_SequentialMerge_def AppLatency_SequentialMerge_def AppAnomaly_SequentialMerge_def)

lemma ConcurrentMerge_ID [simp]: "Meter_ID (ConcurrentMerge m other) = Meter_ID m"
  by (cases "(m, other)" rule: ConcurrentMerge.cases) simp_all

lemma ConcurrentMerge_other: "Meter_ID other \<noteq> Meter_ID m \<Longrightarrow> ConcurrentMerge m other = m"
  by (cases "(m, other)" rule: ConcurrentMerge.cases) simp_all

lemma Meter_ID_inject:
  "Meter_ID m = FLOW_ID \<longleftrightarrow> (\<exists>f. m = M_Flow f)" "Meter_ID m = ACL_ID \<longleftrightarrow> (\<exists>u. m = M_Usage u)"
  "Meter_ID m = APP_ID \<longleftrightarrow> (\<exists>a. m = M_App a)"
  by (cases m; simp add: FLOW_ID_def ACL_ID_def APP_ID_def)+

lemma Meter_ID_known: "Meter_ID m = FLOW_ID \<or> Meter_ID m = ACL_ID \<or> Meter_ID m = APP_ID"
  by (cases m) simp_all

text \<open>A merge that skips the meters of another kind is still independent of the order.\<close>

lemma ConcurrentMerge_swap: "ConcurrentMerge (ConcurrentMerge m a) b = ConcurrentMerge (ConcurrentMerge m b) a"
  by (cases m; cases a; cases b)
    (simp_all add: m_FlowMeter.merge_swap m_UsageMeter.merge_swap m_AppMeter.merge_swap)

lemma Meter_batch_order:
  assumes "mset xs = mset ys"
  shows "foldl ConcurrentMerge m xs = foldl ConcurrentMerge m ys"
proof -
  have "fold (\<lambda>a m. ConcurrentMerge m a) xs = fold (\<lambda>a m. ConcurrentMerge m a) ys"
    by (rule fold_multiset_equiv [OF _ assms]) (auto simp: ConcurrentMerge_swap)
  then show ?thesis by (simp add: foldl_conv_fold)
qed

lemma Meter_Reverse_merge: "Meter_Reverse (ConcurrentMerge m other) = ConcurrentMerge (Meter_Reverse m) (Meter_Reverse other)"
  by (cases "(m, other)" rule: ConcurrentMerge.cases)
    (simp_all add: m_FlowMeter.reverse_merge m_UsageMeter.reverse_merge m_AppMeter.reverse_merge)

section \<open>Rows\<close>

fun Meter_row :: "Meter \<Rightarrow> ck_value list" where
  "Meter_row (M_Flow m) = Traffic_row (fm_Traffic m) @ Latency_row (fm_Latency m) @ Performance_row (fm_Performance m)
     @ Anomaly_row (fm_Anomaly m) @ FlowLoad_row (fm_FlowLoad m)"
| "Meter_row (M_Usage m) = UsageMeter_row m"
| "Meter_row (M_App m) = AppTraffic_row (am_AppTraffic m) @ AppLatency_row (am_AppLatency m) @ AppAnomaly_row (am_AppAnomaly m)"

fun Meter_Columns :: "(string \<Rightarrow> bytes) \<Rightarrow> Meter \<Rightarrow> Column list" where
  "Meter_Columns cmt (M_Flow _) = FlowMeterColumns cmt"
| "Meter_Columns cmt (M_Usage _) = UsageMeterColumns cmt"
| "Meter_Columns cmt (M_App _) = AppMeterColumns cmt"

lemma Meter_WriteBlock_row: "writes app (Meter_WriteBlock app m) (Meter_row m)"
  by (cases m)
    (simp_all add: FlowMeter_WriteBlock_def AppMeter_WriteBlock_def writes_and_then Traffic_WriteBlock_row
      Latency_WriteBlock_row Performance_WriteBlock_row Anomaly_WriteBlock_row FlowLoad_WriteBlock_row
      UsageMeter_WriteBlock_row AppTraffic_WriteBlock_row AppLatency_WriteBlock_row AppAnomaly_WriteBlock_row)

lemma Meter_row_types: "map value_type (Meter_row m) = map (Some \<circ> col_Type) (Meter_Columns cmt m)"
  by (cases m)
    (simp_all add: FlowMeterColumns_def AppMeterColumns_def Traffic_row_types [of _ cmt] Latency_row_types [of _ cmt]
      Performance_row_types [of _ cmt] Anomaly_row_types [of _ cmt] FlowLoad_row_types [of _ cmt] UsageMeter_row_types [of _ cmt]
      AppTraffic_row_types [of _ cmt] AppLatency_row_types [of _ cmt] AppAnomaly_row_types [of _ cmt])

section \<open>Protobuf\<close>

lemma FlowMeter_pb: "FlowMeter_ReadFromPB (FlowMeter_WriteToPB m p) m' = Some m"
  by (simp add: FlowMeter_ReadFromPB_def FlowMeter_WriteToPB_def write_part_def)

lemma AppMeter_pb: "AppMeter_ReadFromPB (AppMeter_WriteToPB m p) m' = Some m"
  by (simp add: AppMeter_ReadFromPB_def AppMeter_WriteToPB_def write_part_def)

section \<open>Printing\<close>

text \<open>The buffer of \<open>l\<close> bytes holds the text \<open>t\<close>, and the offset is at its end.\<close>

definition holds :: "nat \<Rightarrow> bytes \<Rightarrow> filling \<Rightarrow> bool" where
  "holds l t = (\<lambda>(b, offset). offset = length t \<and> length b = l \<and> offset \<le> l \<and> take offset b = t)"

text \<open>\<open>f\<close> prints \<open>x\<close> into every buffer of at least \<open>n\<close> bytes.\<close>

definition prints :: "(bytes \<Rightarrow> filling option) \<Rightarrow> nat \<Rightarrow> bytes \<Rightarrow> bool" where
  "prints f n x \<longleftrightarrow> length x \<le> n \<and> (\<forall>b. n \<le> length b \<longrightarrow> (\<exists>st. f b = Some st \<and> holds (length b) x st))"

lemma prints_written: "(\<And>b. length x \<le> length b \<Longrightarrow> f b = Some (written x b)) \<Longrightarrow> prints f (length x) x"
  by (auto simp: prints_def holds_def written_def)

lemma holds_start: "holds (length b) [] (b, 0)"
  by (simp add: holds_def)

lemma sub_holds:
  assumes "holds l t st" "prints f n x" "length t + n \<le> l"
  shows "\<exists>st'. sub f st = Some st' \<and> holds l (t @ x) st'"
proof -
  obtain b where st: "st = (b, length t)" "length b = l" "take (length t) b = t"
    using assms(1) by (auto simp: holds_def)
  have "n \<le> length (drop (length t) b)" using assms(3) st(2) by simp
  then obtain r where r: "f (drop (length t) b) = Some (r, length x)" "length r = l - length t" "take (length x) r = x"
  proof -
    obtain st' where "f (drop (length t) b) = Some st'" "holds (length (drop (length t) b)) x st'"
      using assms(2) \<open>n \<le> length (drop (length t) b)\<close> unfolding prints_def by blast
    then show thesis using that [of "fst st'"] st(2) by (cases st') (simp add: holds_def)
  qed
  have "length x \<le> n" using assms(2) by (simp add: prints_def)
  then show ?thesis using r st assms(3) by (auto simp: sub_def holds_def)
qed

definition with_comma :: "bytes \<Rightarrow> bytes" where
  "with_comma t = (if t \<noteq> [] \<and> last t \<noteq> 44 then t @ [44] else t)"

lemma holds_last: "holds l t (b, offset) \<Longrightarrow> t \<noteq> [] \<Longrightarrow> b ! (offset - 1) = last t"
proof -
  assume h: "holds l t (b, offset)" and t: "t \<noteq> []"
  have "take (length t) b ! (length t - 1) = b ! (length t - 1)" using t by (intro nth_take) simp
  moreover have e: "offset = length t" "take (length t) b = t" using h by (auto simp: holds_def)
  ultimately show ?thesis by (simp only: e last_conv_nth [OF t])
qed

lemma sep_holds:
  assumes "holds l t st" "length t < l"
  shows "\<exists>st'. sep st = Some st' \<and> holds l (with_comma t) st'"
proof -
  obtain b where st: "st = (b, length t)" "length b = l" "take (length t) b = t"
    using assms(1) by (auto simp: holds_def)
  show ?thesis
  proof (cases "t = []")
    case True
    then show ?thesis using st by (simp add: sep_def with_comma_def holds_def)
  next
    case False
    have l: "b ! (length t - 1) = last t" using holds_last [of l t b "length t"] assms(1) st False by simp
    have "take (Suc (length t)) (b[length t := 44]) = t @ [44]"
      using st assms(2) by (simp add: take_Suc_conv_app_nth)
    then show ?thesis using l False st assms(2)
      by (auto simp: sep_def with_comma_def holds_def put_byte_def)
  qed
qed

lemma bind_holds:
  "(\<exists>st. r = Some st \<and> P st) \<Longrightarrow> (\<And>st. P st \<Longrightarrow> \<exists>st'. k st = Some st' \<and> Q st') \<Longrightarrow> \<exists>st'. (r \<bind> k) = Some st' \<and> Q st'"
  by auto

lemma length_with_comma: "length (with_comma t) \<le> length t + 1" "length t \<le> length (with_comma t)"
  by (simp_all add: with_comma_def)

text \<open>The text of a key and value list ends with an \<open>i\<close>, so a comma follows it.\<close>

lemma last_kv_text: "kv_text kvs \<noteq> [] \<Longrightarrow> last (kv_text kvs) = 105"
proof -
  have j: "xs \<noteq> [] \<Longrightarrow> (\<And>x. x \<in> set xs \<Longrightarrow> x \<noteq> [] \<and> last x = 105) \<Longrightarrow> Join [44] xs \<noteq> [] \<and> last (Join [44] xs) = (105 :: u8)"
    for xs
  proof (induction xs)
    case (Cons x xs)
    then show ?case by (cases "xs = []") (auto simp: Join_Cons)
  qed simp
  assume "kv_text kvs \<noteq> []"
  then have "map entry (filter (\<lambda>(f, v). v \<noteq> 0) kvs) \<noteq> []" by (auto simp: kv_text_def)
  then show ?thesis unfolding kv_text_def by (intro j [THEN conjunct2]) (auto simp: entry_def)
qed

lemma with_comma_text: "t = [] \<or> last t = 44 \<Longrightarrow> with_comma (t @ kv_text kvs) = t @ (if kv_text kvs = [] then [] else kv_text kvs @ [44])"
  using last_kv_text [of kvs] by (auto simp: with_comma_def)

section \<open>Printing an application meter\<close>

definition AppMeter_text :: "AppMeter \<Rightarrow> bytes" where
  "AppMeter_text m = concat (map (\<lambda>x. x @ [44]) (filter (\<lambda>x. x \<noteq> [])
     [kv_text (AppTraffic_fields (am_AppTraffic m)), kv_text (AppLatency_fields (am_AppLatency m)),
      kv_text (AppAnomaly_fields (am_AppAnomaly m))]))"

lemma AppMeter_MarshalTo_text:
  assumes "length (kv_text (AppTraffic_fields (am_AppTraffic m))) + length (kv_text (AppLatency_fields (am_AppLatency m)))
    + length (kv_text (AppAnomaly_fields (am_AppAnomaly m))) + 3 \<le> length b"
  shows "\<exists>st. AppMeter_MarshalTo m b = Some st \<and> holds (length b) (AppMeter_text m) st"
proof -
  let ?t = "kv_text (AppTraffic_fields (am_AppTraffic m))" and ?l = "kv_text (AppLatency_fields (am_AppLatency m))"
    and ?a = "kv_text (AppAnomaly_fields (am_AppAnomaly m))"
  define u1 where "u1 = with_comma ([] @ ?t)"
  define u2 where "u2 = with_comma (u1 @ ?l)"
  define u3 where "u3 = with_comma (u2 @ ?a)"
  have len: "length u1 \<le> length ?t + 1" "length u2 \<le> length u1 + length ?l + 1"
    using length_with_comma(1) [of "[] @ ?t"] length_with_comma(1) [of "u1 @ ?l"] by (simp_all add: u1_def u2_def)
  have p: "prints (AppTraffic_MarshalTo (am_AppTraffic m)) (length ?t) ?t"
    "prints (AppLatency_MarshalTo (am_AppLatency m)) (length ?l) ?l"
    "prints (AppAnomaly_MarshalTo (am_AppAnomaly m)) (length ?a) ?a"
    by (rule prints_written, erule AppTraffic_MarshalTo_text AppLatency_MarshalTo_text AppAnomaly_MarshalTo_text)+
  note a = assms len
  obtain s1 where 1: "sub (AppTraffic_MarshalTo (am_AppTraffic m)) (b, 0) = Some s1" "holds (length b) ([] @ ?t) s1"
    using sub_holds [OF holds_start [of b] p(1)] a by auto
  obtain s2 where 2: "sep s1 = Some s2" "holds (length b) u1 s2"
    using sep_holds [OF 1(2)] a unfolding u1_def by auto
  obtain s3 where 3: "sub (AppLatency_MarshalTo (am_AppLatency m)) s2 = Some s3" "holds (length b) (u1 @ ?l) s3"
    using sub_holds [OF 2(2) p(2)] a by auto
  obtain s4 where 4: "sep s3 = Some s4" "holds (length b) u2 s4"
    using sep_holds [OF 3(2)] a unfolding u2_def by auto
  obtain s5 where 5: "sub (AppAnomaly_MarshalTo (am_AppAnomaly m)) s4 = Some s5" "holds (length b) (u2 @ ?a) s5"
    using sub_holds [OF 4(2) p(3)] a by auto
  obtain s6 where 6: "sep s5 = Some s6" "holds (length b) u3 s6"
    using sep_holds [OF 5(2)] a unfolding u3_def by auto
  have "\<exists>st. AppMeter_MarshalTo m b = Some st \<and> holds (length b) u3 st"
    by (simp add: AppMeter_MarshalTo_def 1 2 3 4 5 6)
  moreover have u1: "u1 = (if ?t = [] then [] else ?t @ [44])" using with_comma_text [of "[]"] by (simp add: u1_def)
  have "u1 = [] \<or> last u1 = 44" by (auto simp: u1_def with_comma_def)
  from with_comma_text [OF this] have u2: "u2 = u1 @ (if ?l = [] then [] else ?l @ [44])" by (simp only: u2_def)
  have "u2 = [] \<or> last u2 = 44" by (auto simp: u2_def with_comma_def)
  from with_comma_text [OF this] have u3: "u3 = u2 @ (if ?a = [] then [] else ?a @ [44])" by (simp only: u3_def)
  have "u3 = AppMeter_text m" using u1 u2 u3 by (simp add: AppMeter_text_def)
  ultimately show ?thesis by simp
qed

section \<open>Printing a flow meter\<close>

definition FlowMeter_text :: "FlowMeter \<Rightarrow> bytes" where
  "FlowMeter_text m = Join [44] (Traffic_text (fm_Traffic m) # filter (\<lambda>x. x \<noteq> [])
     [kv_text (Latency_fields (fm_Latency m)), kv_text (Performance_fields (fm_Performance m)),
      kv_text (Anomaly_fields (fm_Anomaly m)), kv_text (FlowLoad_fields (fm_FlowLoad m))])"

lemma Traffic_prints: "prints (Traffic_MarshalTo t) (length (Traffic_text t) + 1) (Traffic_text t)"
proof -
  have "length (str ''packet='' @ FormatUint (tr_PacketTx t + tr_PacketRx t) @ str ''i,'') + length (kv_text (Traffic_fields t))
      \<le> length (Traffic_text t) + 1"
    by (simp add: Traffic_text_def Let_def)
  note fits = order.trans [OF this]
  show ?thesis unfolding prints_def
  proof (intro conjI allI impI)
    fix b :: bytes
    assume "length (Traffic_text t) + 1 \<le> length b"
    from Traffic_MarshalTo_text [OF fits [OF this]] this
    show "\<exists>st. Traffic_MarshalTo t b = Some st \<and> holds (length b) (Traffic_text t) st"
      by (auto simp: holds_def)
  qed simp
qed

lemma last_Traffic_text: "Traffic_text t \<noteq> [] \<and> last (Traffic_text t) = 105"
  using last_kv_text [of "Traffic_fields t"] by (auto simp: Traffic_text_def Let_def str_def)

lemma FlowMeter_MarshalTo_text:
  assumes "length (Traffic_text (fm_Traffic m)) + length (kv_text (Latency_fields (fm_Latency m)))
    + length (kv_text (Performance_fields (fm_Performance m))) + length (kv_text (Anomaly_fields (fm_Anomaly m)))
    + length (kv_text (FlowLoad_fields (fm_FlowLoad m))) + 4 \<le> length b"
  shows "\<exists>st. FlowMeter_MarshalTo m b = Some st \<and> holds (length b) (FlowMeter_text m) st"
proof -
  let ?t = "Traffic_text (fm_Traffic m)" and ?l = "kv_text (Latency_fields (fm_Latency m))"
    and ?p = "kv_text (Performance_fields (fm_Performance m))" and ?a = "kv_text (Anomaly_fields (fm_Anomaly m))"
    and ?f = "kv_text (FlowLoad_fields (fm_FlowLoad m))"
  define u1 where "u1 = with_comma ([] @ ?t)"
  define u2 where "u2 = with_comma (u1 @ ?l)"
  define u3 where "u3 = with_comma (u2 @ ?p)"
  define u4 where "u4 = with_comma (u3 @ ?a)"
  have len: "length u1 \<le> length ?t + 1" "length u2 \<le> length u1 + length ?l + 1"
    "length u3 \<le> length u2 + length ?p + 1" "length u4 \<le> length u3 + length ?a + 1"
    using length_with_comma(1) [of "[] @ ?t"] length_with_comma(1) [of "u1 @ ?l"]
      length_with_comma(1) [of "u2 @ ?p"] length_with_comma(1) [of "u3 @ ?a"]
    by (simp_all add: u1_def u2_def u3_def u4_def)
  have p: "prints (Latency_MarshalTo (fm_Latency m)) (length ?l) ?l"
    "prints (Performance_MarshalTo (fm_Performance m)) (length ?p) ?p"
    "prints (Anomaly_MarshalTo (fm_Anomaly m)) (length ?a) ?a"
    "prints (FlowLoad_MarshalTo (fm_FlowLoad m)) (length ?f) ?f"
    by (rule prints_written, erule Latency_MarshalTo_text Performance_MarshalTo_text Anomaly_MarshalTo_text
        FlowLoad_MarshalTo_text)+
  note a = assms len
  obtain s1 where 1: "sub (Traffic_MarshalTo (fm_Traffic m)) (b, 0) = Some s1" "holds (length b) ([] @ ?t) s1"
    using sub_holds [OF holds_start [of b] Traffic_prints [of "fm_Traffic m"]] a by auto
  obtain s2 where 2: "sep s1 = Some s2" "holds (length b) u1 s2"
    using sep_holds [OF 1(2)] a unfolding u1_def by auto
  obtain s3 where 3: "sub (Latency_MarshalTo (fm_Latency m)) s2 = Some s3" "holds (length b) (u1 @ ?l) s3"
    using sub_holds [OF 2(2) p(1)] a by auto
  obtain s4 where 4: "sep s3 = Some s4" "holds (length b) u2 s4"
    using sep_holds [OF 3(2)] a unfolding u2_def by auto
  obtain s5 where 5: "sub (Performance_MarshalTo (fm_Performance m)) s4 = Some s5" "holds (length b) (u2 @ ?p) s5"
    using sub_holds [OF 4(2) p(2)] a by auto
  obtain s6 where 6: "sep s5 = Some s6" "holds (length b) u3 s6"
    using sep_holds [OF 5(2)] a unfolding u3_def by auto
  obtain s7 where 7: "sub (Anomaly_MarshalTo (fm_Anomaly m)) s6 = Some s7" "holds (length b) (u3 @ ?a) s7"
    using sub_holds [OF 6(2) p(3)] a by auto
  obtain s8 where 8: "sep s7 = Some s8" "holds (length b) u4 s8"
    using sep_holds [OF 7(2)] a unfolding u4_def by auto
  obtain c n where 9: "sub (FlowLoad_MarshalTo (fm_FlowLoad m)) s8 = Some (c, n)" "holds (length b) (u4 @ ?f) (c, n)"
    using sub_holds [OF 8(2) p(4)] a by auto
  have u1: "u1 = ?t @ [44]" using last_Traffic_text [of "fm_Traffic m"] by (simp add: u1_def with_comma_def)
  have "last u1 = 44" by (simp add: u1)
  then have u2: "u2 = u1 @ (if ?l = [] then [] else ?l @ [44])" "last u2 = 44"
    using with_comma_text [of u1 "Latency_fields (fm_Latency m)"] by (simp_all add: u2_def)
  then have u3: "u3 = u2 @ (if ?p = [] then [] else ?p @ [44])" "last u3 = 44"
    using with_comma_text [of u2 "Performance_fields (fm_Performance m)"] by (simp_all add: u3_def)
  then have u4: "u4 = u3 @ (if ?a = [] then [] else ?a @ [44])" "last u4 = 44"
    using with_comma_text [of u3 "Anomaly_fields (fm_Anomaly m)"] by (simp_all add: u4_def)
  have ne: "u4 \<noteq> []" using u1 u2(1) u3(1) u4(1) by simp
  have last: "c ! (n - 1) = last (u4 @ ?f)" using holds_last [OF 9(2)] ne by simp
  have n: "0 < n" using 9(2) ne by (simp add: holds_def)
  have "holds (length b) (FlowMeter_text m) (c, if c ! (n - 1) = 44 then n - 1 else n)"
  proof (cases "?f = []")
    case True
    have e: "u4 = FlowMeter_text m @ [44]"
      using True u1 u2(1) u3(1) u4(1) by (simp add: FlowMeter_text_def Join_map_concat)
    have h: "n = length (FlowMeter_text m) + 1" "length c = length b" "n \<le> length b" "take n c = FlowMeter_text m @ [44]"
      using 9(2) True e by (auto simp: holds_def)
    have "take (n - 1) c = take (n - 1) (take n c)" using h(1) by simp
    then have "take (n - 1) c = FlowMeter_text m" by (simp only: h(4)) (simp add: h(1))
    then show ?thesis using True last h u4(2) by (simp add: holds_def)
  next
    case False
    have "u4 @ ?f = FlowMeter_text m"
      using False u1 u2(1) u3(1) u4(1) by (simp add: FlowMeter_text_def Join_map_concat)
    moreover have "c ! (n - 1) = 105" using last last_kv_text [OF False] False by simp
    ultimately show ?thesis using 9(2) by simp
  qed
  then show ?thesis using n by (simp add: FlowMeter_MarshalTo_def 1 2 3 4 5 6 7 8 9)
qed

section \<open>The buffer is long enough\<close>

lemma kv_bounds:
  "length (kv_text (Traffic_fields t)) \<le> 415" "length (kv_text (Latency_fields l)) \<le> 594"
  "length (kv_text (Performance_fields p)) \<le> 195" "length (kv_text (Anomaly_fields a)) \<le> 773"
  "length (kv_text (FlowLoad_fields f)) \<le> 32"
  using length_kv_text [of "Traffic_fields t"] length_kv_text [of "Latency_fields l"]
    length_kv_text [of "Performance_fields p"] length_kv_text [of "Anomaly_fields a"] length_kv_text [of "FlowLoad_fields f"]
  by (simp_all add: Traffic_fields_def Latency_fields_def Performance_fields_def Anomaly_fields_def FlowLoad_fields_def Let_def)

lemma app_kv_bounds:
  "length (kv_text (AppTraffic_fields t)) \<le> 100" "length (kv_text (AppLatency_fields l)) \<le> 100"
  "length (kv_text (AppAnomaly_fields a)) \<le> 150"
  using length_kv_text [of "AppTraffic_fields t"] length_kv_text [of "AppLatency_fields l"]
    length_kv_text [of "AppAnomaly_fields a"]
  by (simp_all add: AppTraffic_fields_def AppLatency_fields_def AppAnomaly_fields_def)

lemma length_Traffic_text: "length (Traffic_text t) \<le> 444"
  using kv_bounds(1) [of t] length_FormatUint [of "tr_PacketTx t + tr_PacketRx t"] by (simp add: Traffic_text_def Let_def)

lemma to_kv_string_holds:
  "\<exists>st. f (replicate MAX_STRING_LENGTH 0) = Some st \<and> holds MAX_STRING_LENGTH t st \<Longrightarrow> to_kv_string f = Some t"
  by (auto simp: to_kv_string_def holds_def)

lemma FlowMeter_ToKVString_text: "FlowMeter_ToKVString m = Some (FlowMeter_text m)"
  unfolding FlowMeter_ToKVString_def
proof (rule to_kv_string_holds)
  show "\<exists>st. FlowMeter_MarshalTo m (replicate MAX_STRING_LENGTH 0) = Some st \<and> holds MAX_STRING_LENGTH (FlowMeter_text m) st"
    using FlowMeter_MarshalTo_text [of m "replicate MAX_STRING_LENGTH 0"] length_Traffic_text [of "fm_Traffic m"]
      kv_bounds(2) [of "fm_Latency m"] kv_bounds(3) [of "fm_Performance m"] kv_bounds(4) [of "fm_Anomaly m"]
      kv_bounds(5) [of "fm_FlowLoad m"]
    by (simp add: MAX_STRING_LENGTH_def)
qed

lemma AppMeter_ToKVString_text: "AppMeter_ToKVString m = Some (AppMeter_text m)"
  unfolding AppMeter_ToKVString_def
proof (rule to_kv_string_holds)
  show "\<exists>st. AppMeter_MarshalTo m (replicate MAX_STRING_LENGTH 0) = Some st \<and> holds MAX_STRING_LENGTH (AppMeter_text m) st"
    using AppMeter_MarshalTo_text [of m "replicate MAX_STRING_LENGTH 0"] app_kv_bounds(1) [of "am_AppTraffic m"]
      app_kv_bounds(2) [of "am_AppLatency m"] app_kv_bounds(3) [of "am_AppAnomaly m"]
    by (simp add: MAX_STRING_LENGTH_def)
qed

lemma UsageMeter_ToKVString_text: "UsageMeter_ToKVString m = Some (UsageMeter_text m)"
  using UsageMeter_MarshalTo_text [of m "replicate MAX_STRING_LENGTH 0"] length_UsageMeter_text [of m]
  by (simp add: UsageMeter_ToKVString_def to_kv_string_def MAX_STRING_LENGTH_def written_def)

section \<open>Properties\<close>

text \<open>C13: The result of merging a batch of meters into one does not depend on the order in which they
  arrive, also when meters of other kinds are among them.\<close>

theorem meter_batch_order:
  assumes "mset xs = mset ys"
  shows "foldl ConcurrentMerge m xs = foldl ConcurrentMerge m ys"
  using assms by (rule Meter_batch_order)

theorem meter_batch_order_witness:
  "let a = M_App \<lparr>am_AppTraffic = \<lparr>at_Request = 1, at_Response = 2\<rparr>, am_AppLatency = \<lparr>al_RRTMax = 5, al_RRTSum = 7, al_RRTCount = 1\<rparr>,
         am_AppAnomaly = \<lparr>aa_ClientError = 0, aa_ServerError = 1, aa_Timeout = 0\<rparr>\<rparr>;
       b = M_App \<lparr>am_AppTraffic = \<lparr>at_Request = 3, at_Response = 1\<rparr>, am_AppLatency = \<lparr>al_RRTMax = 9, al_RRTSum = 9, al_RRTCount = 1\<rparr>,
         am_AppAnomaly = \<lparr>aa_ClientError = 2, aa_ServerError = 0, aa_Timeout = 1\<rparr>\<rparr>
   in foldl ConcurrentMerge a [a, b] = foldl ConcurrentMerge a [b, a]"
  unfolding Let_def by (rule meter_batch_order) simp

text \<open>Reversing the direction commutes with merging a batch, and reversing twice changes nothing.\<close>

theorem meter_reverse_batch:
  "Meter_Reverse (foldl ConcurrentMerge m xs) = foldl ConcurrentMerge (Meter_Reverse m) (map Meter_Reverse xs) \<and>
   Meter_Reverse (Meter_Reverse m) = m"
proof
  show "Meter_Reverse (foldl ConcurrentMerge m xs) = foldl ConcurrentMerge (Meter_Reverse m) (map Meter_Reverse xs)"
    by (induction xs arbitrary: m) (simp_all add: Meter_Reverse_merge)
  show "Meter_Reverse (Meter_Reverse m) = m"
    by (cases m) (simp_all add: m_FlowMeter.reverse_twice m_UsageMeter.reverse_twice m_AppMeter.reverse_twice)
qed

text \<open>Given a driver that accepts and logs every value, a meter's row fills exactly the columns the
  table has for it, consecutively from the current index, each value with the type of its column.\<close>

theorem meter_row_fits_columns:
  assumes "\<And>i v b. \<exists>b'. app i v b = (None, b') \<and> logged b' = logged b @ [(i, v)]"
  shows "\<exists>b' vs. Meter_WriteBlock app m b = (None, b') \<and>
    logged (Batch b') = logged (Batch b) @ zip [index b..<index b'] vs \<and>
    index b' = index b + length (Meter_Columns cmt m) \<and>
    map value_type vs = map (Some \<circ> col_Type) (Meter_Columns cmt m)"
proof -
  have w: "Meter_WriteBlock app m = write_each (block_append app) (Meter_row m)"
    using Meter_WriteBlock_row by (simp add: writes_def)
  have l: "length (Meter_row m) = length (Meter_Columns cmt m)"
    using arg_cong [OF Meter_row_types [of m cmt], of length] by simp
  obtain b' where "write_each (block_append app) (Meter_row m) b = (None, b')"
    "index b' = index b + length (Meter_row m)"
    "logged (Batch b') = logged (Batch b) @ zip [index b..<index b + length (Meter_row m)] (Meter_row m)"
    using write_each_log [of app logged "Meter_row m" b] assms by blast
  then show ?thesis using Meter_row_types [of m cmt] by (intro exI [of _ b'] exI [of _ "Meter_row m"]) (simp add: w l)
qed

theorem meter_row_fits_columns_witness:
  "let app = (\<lambda>i v b. (None :: unit option, b @ [(i, v)]));
       m = M_Usage \<lparr>us_PacketTx = 1, us_PacketRx = 2, us_ByteTx = 3, us_ByteRx = 4, us_L3ByteTx = 5, us_L3ByteRx = 6,
         us_L4ByteTx = 7, us_L4ByteRx = 8\<rparr>
   in \<exists>b' vs. Meter_WriteBlock app m \<lparr>Batch = [], index = 3\<rparr> = (None, b') \<and> Batch b' = [] @ zip [3..<index b'] vs \<and>
     index b' = 3 + length (Meter_Columns (\<lambda>_. []) m) \<and> map value_type vs = map (Some \<circ> col_Type) (Meter_Columns (\<lambda>_. []) m)"
  unfolding Let_def
  using meter_row_fits_columns [of "\<lambda>i v b. (None :: unit option, b @ [(i, v)])" id
      "M_Usage \<lparr>us_PacketTx = 1, us_PacketRx = 2, us_ByteTx = 3, us_ByteRx = 4, us_L3ByteTx = 5, us_L3ByteRx = 6,
         us_L4ByteTx = 7, us_L4ByteRx = 8\<rparr>" "\<lparr>Batch = [], index = 3\<rparr>" "\<lambda>_. []"]
  by (simp del: Meter_WriteBlock.simps Meter_Columns.simps)

text \<open>When the driver refuses a value, writing a meter stops there: the error is returned, and the
  index still names the column that refused the value of that column's place in the row.\<close>

theorem meter_row_error:
  assumes "Meter_WriteBlock app m b = (Some er, b')"
  shows "index b \<le> index b' \<and> index b' < index b + length (Meter_Columns cmt m) \<and>
    (\<exists>batch. app (index b') (Meter_row m ! (index b' - index b)) batch = (Some er, Batch b'))"
proof -
  have w: "Meter_WriteBlock app m = write_each (block_append app) (Meter_row m)"
    using Meter_WriteBlock_row by (simp add: writes_def)
  have l: "length (Meter_row m) = length (Meter_Columns cmt m)"
    using arg_cong [OF Meter_row_types [of m cmt], of length] by simp
  from write_each_error [OF assms [unfolded w]] show ?thesis by (simp add: l)
qed

theorem meter_row_error_witness:
  "let app = (\<lambda>i v b. if i = 5 then (Some (), b) else (None, b));
       m = M_Usage \<lparr>us_PacketTx = 1, us_PacketRx = 2, us_ByteTx = 3, us_ByteRx = 4, us_L3ByteTx = 5, us_L3ByteRx = 6,
         us_L4ByteTx = 7, us_L4ByteRx = 8\<rparr>
   in Meter_WriteBlock app m \<lparr>Batch = (), index = 3\<rparr> = (Some (), \<lparr>Batch = (), index = 5\<rparr>) \<and>
     5 < 3 + length (Meter_Columns (\<lambda>_. []) m)"
proof -
  let ?app = "\<lambda>i v b. if i = 5 then (Some (), b) else (None, b)"
  let ?m = "M_Usage \<lparr>us_PacketTx = 1, us_PacketRx = 2, us_ByteTx = 3, us_ByteRx = 4, us_L3ByteTx = 5, us_L3ByteRx = 6,
         us_L4ByteTx = 7, us_L4ByteRx = 8\<rparr>"
  have w: "Meter_WriteBlock ?app ?m \<lparr>Batch = (), index = 3\<rparr> = (Some (), \<lparr>Batch = (), index = 5\<rparr>)"
    by (simp add: UsageMeter_WriteBlock_def Block_WriteUInt64_def block_append_def and_then_def)
  from meter_row_error [OF w, of "\<lambda>_. []"] w show ?thesis by (simp add: Let_def)
qed

text \<open>Printing a meter never panics: its text fits the buffer of \<open>MAX_STRING_LENGTH\<close> bytes, and it is the
  comma separated list of the fields.\<close>

theorem meter_text:
  "ToKVString (M_Flow f) = Some (FlowMeter_text f) \<and> ToKVString (M_Usage u) = Some (UsageMeter_text u) \<and>
   ToKVString (M_App a) = Some (AppMeter_text a)"
  by (simp add: FlowMeter_ToKVString_text UsageMeter_ToKVString_text AppMeter_ToKVString_text)

text \<open>The text of an application meter keeps a comma at its end, which the text of a flow meter does
  not have.\<close>

theorem app_text_trailing_comma:
  assumes "ToKVString (M_App a) = Some t" "t \<noteq> []"
  shows "last t = 44 \<and> (\<forall>f. last (the (ToKVString (M_Flow f))) \<noteq> 44)"
proof
  have "xs = [] \<or> last (concat (map (\<lambda>x. x @ [44 :: u8]) xs)) = 44" for xs by (induction xs) auto
  then show "last t = 44" using assms by (auto simp: AppMeter_ToKVString_text AppMeter_text_def)
  have c: "x \<noteq> [] \<Longrightarrow> last x = 105 \<Longrightarrow> \<forall>y \<in> set ys. y \<noteq> [] \<and> last y = 105 \<Longrightarrow> last (Join [44] (x # ys)) = (105 :: u8)" for x ys
    by (induction ys rule: rev_induct) (auto simp: Join_map_concat)
  show "\<forall>f. last (the (ToKVString (M_Flow f))) \<noteq> 44"
  proof
    fix f
    have "last (FlowMeter_text f) = 105"
      unfolding FlowMeter_text_def by (rule c) (auto simp: last_Traffic_text last_kv_text)
    then show "last (the (ToKVString (M_Flow f))) \<noteq> 44" by (simp add: FlowMeter_ToKVString_text)
  qed
qed

theorem app_text_trailing_comma_witness:
  "let a = \<lparr>am_AppTraffic = \<lparr>at_Request = 1, at_Response = 0\<rparr>, am_AppLatency = \<lparr>al_RRTMax = 0, al_RRTSum = 0, al_RRTCount = 0\<rparr>,
       am_AppAnomaly = \<lparr>aa_ClientError = 0, aa_ServerError = 0, aa_Timeout = 0\<rparr>\<rparr>
   in ToKVString (M_App a) = Some (str ''request=1i,'') \<and> last (the (ToKVString (M_App a))) = 44"
proof -
  let ?a = "\<lparr>am_AppTraffic = \<lparr>at_Request = 1, at_Response = 0\<rparr>, am_AppLatency = \<lparr>al_RRTMax = 0, al_RRTSum = 0, al_RRTCount = 0\<rparr>,
       am_AppAnomaly = \<lparr>aa_ClientError = 0, aa_ServerError = 0, aa_Timeout = 0\<rparr>\<rparr>"
  have t: "ToKVString (M_App ?a) = Some (str ''request=1i,'')"
    by (simp add: AppMeter_ToKVString_text AppMeter_text_def AppTraffic_fields_def AppLatency_fields_def AppAnomaly_fields_def
        kv_text_def entry_def FormatUint_def decimal.simps str_def)
  from app_text_trailing_comma [OF t] t show ?thesis by (simp add: Let_def str_def)
qed

text \<open>The name of a meter leads back to its identifier, in particular that of the flow meter, although two
  identifiers share its name.\<close>

theorem meter_id_of_name: "GetMeterID (Meter_Name m) = Meter_ID m \<and> GetMeterID (str ''vtap_flow'') = FLOW_ID"
proof -
  have "GetMeterID (str ''vtap_flow'') = FLOW_ID" "GetMeterID (str ''vtap_acl'') = ACL_ID"
    "GetMeterID (str ''vtap_app'') = APP_ID"
    by (simp_all add: GetMeterID_def MeterNamesToID_def MeterVTAPNames_def FLOW_ID_def ACL_ID_def APP_ID_def str_def)
  then show ?thesis
    by (cases m) (simp_all add: Meter_Name_def MeterVTAPNames_def FLOW_ID_def ACL_ID_def APP_ID_def)
qed

text \<open>A meter written to any protobuf message, also one with parts left nil, is read back; reading a
  message with a nil part panics.\<close>

theorem meter_pb_round_trip:
  "FlowMeter_ReadFromPB (FlowMeter_WriteToPB f p) f' = Some f \<and> AppMeter_ReadFromPB (AppMeter_WriteToPB a q) a' = Some a \<and>
   UsageMeter_ReadFromPB (UsageMeter_WriteToPB u r) u' = u \<and> FlowMeter_ReadFromPB (p\<lparr>pbfm_Traffic := None\<rparr>) f' = None"
  by (intro conjI FlowMeter_pb AppMeter_pb UsageMeter_pb_round_trip) (simp add: FlowMeter_ReadFromPB_def)

text \<open>The sums stored as floating point numbers are exact below \<open>2 ^ 53\<close>.\<close>

theorem float64_sum_exact:
  assumes "unat x < 2 ^ 53"
  shows "float64_to_nat (float64_of_u64 x) = unat x"
  using assms by (rule float64_exact)

theorem float64_sum_exact_witness: "float64_to_nat (float64_of_u64 3600000000) = 3600000000"
  using float64_sum_exact [of 3600000000] by simp

end
