(* ===== verification/Overwrite_Queue.thy ===== *)
theory Overwrite_Queue
  imports Go_Prelude "HOL-Library.Sublist"
begin

text \<open>
  The bounded queue of \<^verbatim>\<open>server/libs/queue/queue.go\<close>: a ring of a power of two slots in
  which new items overwrite the oldest ones, with an optional callback that releases what is
  overwritten, and the table of queues of \<^verbatim>\<open>multi_queue.go\<close>.

  A \<^verbatim>\<open>uint\<close> is a natural number below \<open>2 ^ 64\<close>, with the wrap-around of subtraction written
  out. An item is \<open>None\<close> when it is \<^verbatim>\<open>nil\<close>, which the flush indicator puts. The items handed
  to the release callback are part of the result, in order. \<open>Get\<close> and \<open>Gets\<close> block on an empty
  queue: their two halves are steps of the transition system at the end, which has the
  readers and the wait group as its state.
\<close>

section \<open>State\<close>

record QCounter =
  ctr_In :: u64
  ctr_Out :: u64
  ctr_Overwritten :: u64
  ctr_Pending :: u64

record 'a OverwriteQueue =
  q_closed :: bool
  q_readerWaiting :: nat
  q_reader :: nat
  q_items :: "'a option list"
  q_size :: nat
  q_writeCursor :: nat
  q_pending :: nat
  q_release :: bool
  q_counter :: QCounter

definition Counter_zero :: QCounter where
  "Counter_zero = \<lparr>ctr_In = 0, ctr_Out = 0, ctr_Overwritten = 0, ctr_Pending = 0\<rparr>"

definition Queue_zero :: "'a OverwriteQueue" where
  "Queue_zero = \<lparr>q_closed = False, q_readerWaiting = 0, q_reader = 0, q_items = [], q_size = 0, q_writeCursor = 0, q_pending = 0,
     q_release = False, q_counter = Counter_zero\<rparr>"

definition MAX_BATCH_GET_SIZE :: nat where "MAX_BATCH_GET_SIZE = 2 ^ 16"

text \<open>\<^verbatim>\<open>uint\<close> subtraction and \<^verbatim>\<open>utils.UintMin\<close>\<close>

definition usub :: "nat \<Rightarrow> nat \<Rightarrow> nat" where
  "usub a b = (a + 2 ^ 64 - b) mod 2 ^ 64"

definition UintMin :: "nat \<Rightarrow> nat \<Rightarrow> nat" where
  "UintMin x y = (if x < y then x else y)"

text \<open>\<^verbatim>\<open>copy(dst[at:], src)\<close>: the new content and the number of elements copied\<close>

definition copy_into :: "nat \<Rightarrow> 'b list \<Rightarrow> 'b list \<Rightarrow> 'b list \<times> nat" where
  "copy_into i src dst = (let n = min (length dst - i) (length src) in (take i dst @ take n src @ drop (i + n) dst, n))"

text \<open>
  \<^verbatim>\<open>if copied := copy(slots[at:], items); copied != len(items) { copy(slots, items[copied:]) }\<close>
\<close>

definition ring_write :: "nat \<Rightarrow> 'b list \<Rightarrow> 'b list \<Rightarrow> 'b list" where
  "ring_write i items slots =
     (let (slots, copied) = copy_into i items slots
      in if copied \<noteq> length items then fst (copy_into 0 (drop copied items) slots) else slots)"

section \<open>Operations\<close>

datatype QOption = OptionRelease | OptionFlushIndicator int | OptionStatsOption

text \<open>The rounding loop of \<^verbatim>\<open>Init\<close>, from exponent \<open>i\<close> on: no change past the exponent 31.\<close>

function round_size :: "nat \<Rightarrow> int \<Rightarrow> int" where
  "round_size i sz = (if i < 32 then if 2 ^ i \<ge> sz then 2 ^ i else round_size (i + 1) sz else sz)"
  by pat_completeness auto
termination by (relation "measure (\<lambda>(i, _). 32 - i)") auto

declare round_size.simps [simp del]

text \<open>
  The flush indicator starts a goroutine that puts \<^verbatim>\<open>nil\<close> at every tick, which is a \<open>Put\<close> step
  like any other; statistics are registered elsewhere.
\<close>

definition Queue_Init :: "int \<Rightarrow> QOption list \<Rightarrow> 'a OverwriteQueue \<Rightarrow> 'a OverwriteQueue" where
  "Queue_Init sz options q =
     (if q_size q \<noteq> 0 then q
      else let s = nat (round_size 0 sz) in
        q\<lparr>q_release := q_release q \<or> OptionRelease \<in> set options, q_items := replicate s None, q_size := s,
          q_counter := Counter_zero\<rparr>)"

definition NewOverwriteQueue :: "int \<Rightarrow> QOption list \<Rightarrow> 'a OverwriteQueue" where
  "NewOverwriteQueue sz options = Queue_Init sz options Queue_zero"

definition Queue_GetCounter :: "'a OverwriteQueue \<Rightarrow> QCounter \<times> 'a OverwriteQueue" where
  "Queue_GetCounter q = (q_counter q, q\<lparr>q_counter := Counter_zero\<rparr>)"

definition Close :: "'a OverwriteQueue \<Rightarrow> 'a OverwriteQueue" where
  "Close q = q\<lparr>q_closed := True\<rparr>"

definition Closed :: "'a OverwriteQueue \<Rightarrow> bool" where
  "Closed q = q_closed q"

definition firstIndex :: "'a OverwriteQueue \<Rightarrow> nat" where
  "firstIndex q = usub (q_writeCursor q + q_size q) (q_pending q) AND (q_size q - 1)"

definition Queue_Len :: "'a OverwriteQueue \<Rightarrow> nat" where
  "Queue_Len q = q_pending q"

definition releaseOverwritten :: "'a option list \<Rightarrow> 'a list" where
  "releaseOverwritten overwritten = List.map_filter id overwritten"

text \<open>The slots whose items are released by a \<open>Put\<close> that overwrites.\<close>

definition released_slots :: "nat \<Rightarrow> 'a OverwriteQueue \<Rightarrow> 'a option list" where
  "released_slots itemSize q =
     (let releaseFrom = firstIndex q;
          releaseTo = q_writeCursor q + itemSize;
          releaseTo = (if releaseTo > q_size q then releaseTo AND (q_size q - 1) else releaseTo)
      in if releaseFrom \<le> releaseTo then subslice releaseFrom releaseTo (q_items q)
         else subslice releaseFrom (q_size q) (q_items q) @ take releaseTo (q_items q))"

datatype q_error = OverflowError

text \<open>The flag of the result says that a waiting reader is signalled.\<close>

definition Put :: "'a option list \<Rightarrow> 'a OverwriteQueue \<Rightarrow> q_error + ('a list \<times> 'a OverwriteQueue)" where
  "Put items q =
     (let itemSize = length items in
      if itemSize > q_size q then Inl OverflowError
      else let freeSize = usub (q_size q) (q_pending q);
               released = (if itemSize > freeSize \<and> q_release q then releaseOverwritten (released_slots itemSize q) else []);
               slots = ring_write (q_writeCursor q) items (q_items q);
               c = q_counter q;
               c = c\<lparr>ctr_In := ctr_In c + of_nat itemSize\<rparr>;
               c = (if itemSize > freeSize then c\<lparr>ctr_Overwritten := ctr_Overwritten c + of_nat (usub itemSize freeSize)\<rparr> else c);
               pending = UintMin (q_pending q + itemSize) (q_size q);
               cursor = (q_writeCursor q + itemSize) AND (q_size q - 1);
               c = (if ctr_Pending c < of_nat pending then c\<lparr>ctr_Pending := of_nat pending\<rparr> else c);
               q = q\<lparr>q_items := slots, q_counter := c, q_pending := pending, q_writeCursor := cursor\<rparr>
           in Inr (released, if q_readerWaiting q > 0
                then q\<lparr>q_readerWaiting := q_readerWaiting q - 1, q_reader := q_reader q - 1\<rparr> else q))"

text \<open>\<open>get\<close> and \<open>gets\<close> run under the lock. An empty slot list is the only way to panic.\<close>

definition get :: "'a OverwriteQueue \<Rightarrow> ('a option \<times> 'a OverwriteQueue) option" where
  "get q =
     (let first = firstIndex q in
      if first \<ge> length (q_items q) then None
      else Some (q_items q ! first,
        q\<lparr>q_items := (q_items q)[first := None], q_pending := usub (q_pending q) 1,
          q_counter := (q_counter q)\<lparr>ctr_Out := ctr_Out (q_counter q) + 1\<rparr>\<rparr>))"

text \<open>The result is what was written to the front of the output slice of length \<open>n\<close>.\<close>

definition gets :: "nat \<Rightarrow> 'a OverwriteQueue \<Rightarrow> 'a option list \<times> 'a OverwriteQueue" where
  "gets n q =
     (let sz = UintMin n (q_pending q);
          first = firstIndex q;
          copied = min sz (length (q_items q) - first);
          out = take copied (drop first (q_items q));
          slots = fst (copy_into first (replicate copied None) (q_items q));
          copied2 = min (sz - copied) (length slots);
          out2 = (if copied \<noteq> sz then out @ take copied2 slots else out);
          slots2 = (if copied \<noteq> sz then fst (copy_into 0 (replicate copied2 None) slots) else slots)
      in (out2, q\<lparr>q_items := slots2, q_pending := usub (q_pending q) sz,
            q_counter := (q_counter q)\<lparr>ctr_Out := ctr_Out (q_counter q) + of_nat sz\<rparr>\<rparr>))"

text \<open>
  \<open>Get\<close> and \<open>Gets\<close> up to the point where they return or wait for the wait group, and from there on.
  \<open>None\<close> is a panic: the one of \<open>Gets\<close> on a slice longer than \<open>MAX_BATCH_GET_SIZE\<close>.
\<close>

datatype request = R_Get | R_Gets nat

datatype 'b call = Blocked | Returned 'b

definition serve :: "request \<Rightarrow> 'a OverwriteQueue \<Rightarrow> ('a option list \<times> 'a OverwriteQueue) option" where
  "serve r q = (case r of
       R_Get \<Rightarrow> map_option (\<lambda>(x, q). ([x], q)) (get q)
     | R_Gets n \<Rightarrow> Some (gets n q))"

definition enter :: "request \<Rightarrow> 'a OverwriteQueue \<Rightarrow> ('a option list call \<times> 'a OverwriteQueue) option" where
  "enter r q =
     (if (case r of R_Get \<Rightarrow> False | R_Gets n \<Rightarrow> n > MAX_BATCH_GET_SIZE) then None
      else if q_pending q = 0
      then Some (Blocked, q\<lparr>q_reader := q_reader q + 1, q_readerWaiting := q_readerWaiting q + 1\<rparr>)
      else map_option (\<lambda>(out, q). (Returned out, q)) (serve r q))"

text \<open>
  The queue and its readers, each idle or with the request it waits for. A waiting reader goes on
  when the counter of the wait group is zero. Writers hold the write lock for a whole \<open>Put\<close>.
\<close>

datatype 'b event = E_Put 'b | E_Wait nat | E_Got nat 'b

inductive qstep :: "'a OverwriteQueue \<times> request option list \<Rightarrow> 'a option list event \<Rightarrow>
    'a OverwriteQueue \<times> request option list \<Rightarrow> bool" where
  put: "items \<noteq> [] \<Longrightarrow> Put items q = Inr (released, q') \<Longrightarrow> qstep (q, rs) (E_Put items) (q', rs)"
| got: "i < length rs \<Longrightarrow> rs ! i = None \<Longrightarrow> enter r q = Some (Returned out, q') \<Longrightarrow> qstep (q, rs) (E_Got i out) (q', rs)"
| wait: "i < length rs \<Longrightarrow> rs ! i = None \<Longrightarrow> enter r q = Some (Blocked, q') \<Longrightarrow>
    qstep (q, rs) (E_Wait i) (q', rs[i := Some r])"
| resume: "i < length rs \<Longrightarrow> rs ! i = Some r \<Longrightarrow> q_reader q = 0 \<Longrightarrow> serve r q = Some (out, q') \<Longrightarrow>
    qstep (q, rs) (E_Got i out) (q', rs[i := None])"

inductive qreach :: "'a OverwriteQueue \<times> request option list \<Rightarrow> 'a option list event list \<Rightarrow>
    'a OverwriteQueue \<times> request option list \<Rightarrow> bool" for s0 where
  start: "qreach s0 [] s0"
| step: "qreach s0 tr s \<Longrightarrow> qstep s e s' \<Longrightarrow> qreach s0 (tr @ [e]) s'"

section \<open>Tables of queues\<close>

text \<open>
  The table of a multi queue holds pointers: the queues themselves are in a store, the table has
  indices into it, and several entries may be the same queue. \<open>None\<close> is a panic: more than
  \<open>MAX_QUEUE_COUNT\<close> queues, or the division by zero when there is none.
\<close>

record 'a FixedMultiQueue =
  mq_queues :: "'a OverwriteQueue list"
  mq_table :: "nat list"

definition MAX_QUEUE_COUNT :: u8 where "MAX_QUEUE_COUNT = 16"

function table_size :: "nat \<Rightarrow> nat \<Rightarrow> nat" where
  "table_size t sz = (if 0 < t \<and> t < sz then table_size (2 * t) sz else t)"
  by pat_completeness auto
termination by (relation "measure (\<lambda>(t, sz). sz - t)") auto

declare table_size.simps [simp del]

definition NewOverwriteQueues :: "u8 \<Rightarrow> int \<Rightarrow> QOption list \<Rightarrow> 'a FixedMultiQueue option" where
  "NewOverwriteQueues count queueSize options =
     (if count > MAX_QUEUE_COUNT then None
      else let sz = unat count;
               queues = replicate sz (NewOverwriteQueue queueSize (options @ [OptionStatsOption]));
               tableSize = table_size 1 sz
           in if sz = 0 then None
              else Some \<lparr>mq_queues = queues, mq_table = map (\<lambda>i. i mod sz) [0..<tableSize]\<rparr>)"

definition mq_entry :: "'a FixedMultiQueue \<Rightarrow> u8 \<Rightarrow> nat" where
  "mq_entry m key = mq_table m ! unat (key AND (of_nat (length (mq_table m) - 1)))"

definition MultiQueue_Put :: "u8 \<Rightarrow> 'a option list \<Rightarrow> 'a FixedMultiQueue \<Rightarrow> q_error + ('a list \<times> 'a FixedMultiQueue)" where
  "MultiQueue_Put key items m =
     (let e = mq_entry m key in
      case Put items (mq_queues m ! e) of
        Inl err \<Rightarrow> Inl err
      | Inr (released, q) \<Rightarrow> Inr (released, m\<lparr>mq_queues := (mq_queues m)[e := q]\<rparr>))"

definition MultiQueue_enter :: "u8 \<Rightarrow> request \<Rightarrow> 'a FixedMultiQueue \<Rightarrow> ('a option list call \<times> 'a FixedMultiQueue) option" where
  "MultiQueue_enter key r m =
     (let e = mq_entry m key in
      map_option (\<lambda>(c, q). (c, m\<lparr>mq_queues := (mq_queues m)[e := q]\<rparr>)) (enter r (mq_queues m ! e)))"

definition MultiQueue_Len :: "u8 \<Rightarrow> 'a FixedMultiQueue \<Rightarrow> nat" where
  "MultiQueue_Len key m = Queue_Len (mq_queues m ! mq_entry m key)"

definition MultiQueue_Close :: "'a FixedMultiQueue \<Rightarrow> 'a FixedMultiQueue" where
  "MultiQueue_Close m = m\<lparr>mq_queues := foldl (\<lambda>qs e. qs[e := Close (qs ! e)]) (mq_queues m) (mq_table m)\<rparr>"

section \<open>Invariant and abstraction\<close>

definition queue_ok :: "'a OverwriteQueue \<Rightarrow> bool" where
  "queue_ok q \<longleftrightarrow> (\<exists>k<32. q_size q = 2 ^ k) \<and> length (q_items q) = q_size q \<and> q_writeCursor q < q_size q \<and>
     q_pending q \<le> q_size q"

text \<open>The queued items, oldest first.\<close>

definition queued :: "'a OverwriteQueue \<Rightarrow> 'a option list" where
  "queued q = map (\<lambda>i. q_items q ! ((firstIndex q + i) mod q_size q)) [0..<q_pending q]"

lemma queue_okD:
  assumes "queue_ok q"
  shows "0 < q_size q" "q_size q < 2 ^ 64" "length (q_items q) = q_size q" "q_writeCursor q < q_size q"
    "q_pending q \<le> q_size q" "\<And>n. n AND (q_size q - 1) = n mod q_size q"
proof -
  obtain k where k: "k < 32" "q_size q = 2 ^ k" using assms by (auto simp: queue_ok_def)
  show "0 < q_size q" using k by simp
  have "(2 :: nat) ^ k < 2 ^ 64" using k(1) by (intro power_strict_increasing) simp_all
  then show "q_size q < 2 ^ 64" using k by simp
  show "n AND (q_size q - 1) = n mod q_size q" for n
  proof -
    have "q_size q - 1 = mask k" by (simp add: k mask_eq_exp_minus_1)
    then show ?thesis by (simp only:) (simp add: take_bit_eq_mod k flip: take_bit_eq_mask)
  qed
qed (use assms in \<open>auto simp: queue_ok_def\<close>)

lemma usub_ge: "b \<le> a \<Longrightarrow> a < 2 ^ 64 \<Longrightarrow> usub a b = a - b"
proof -
  assume "b \<le> a" "a < 2 ^ 64"
  then have "a + 2 ^ 64 - b = (a - b) + 2 ^ 64" "a - b < 2 ^ 64" by simp_all
  then show ?thesis unfolding usub_def by (simp only: mod_add_self2 mod_less)
qed

lemma firstIndex_eq:
  assumes "queue_ok q"
  shows "firstIndex q = (q_writeCursor q + q_size q - q_pending q) mod q_size q"
proof -
  obtain k where k: "k < 32" "q_size q = 2 ^ k" using assms by (auto simp: queue_ok_def)
  have "(2 :: nat) ^ k \<le> 2 ^ 32" using k(1) by (intro power_increasing) simp_all
  then have "q_size q \<le> 2 ^ 32" by (simp only: k(2))
  then have "q_writeCursor q + q_size q < 2 ^ 64" using queue_okD(4) [OF assms] by simp
  then show ?thesis
    using queue_okD [OF assms] by (simp add: firstIndex_def usub_ge)
qed

lemma firstIndex_less: "queue_ok q \<Longrightarrow> firstIndex q < q_size q"
  by (simp add: firstIndex_eq queue_okD(1))

lemma length_queued [simp]: "length (queued q) = q_pending q"
  by (simp add: queued_def)

lemma queued_nth:
  assumes "queue_ok q" "i < q_pending q"
  shows "queued q ! i = q_items q ! ((q_writeCursor q + (q_size q - q_pending q + i)) mod q_size q)"
proof -
  have "q_writeCursor q + q_size q - q_pending q + i = q_writeCursor q + (q_size q - q_pending q + i)"
    using queue_okD(5) [OF assms(1)] by simp
  then show ?thesis using assms by (simp add: queued_def firstIndex_eq mod_add_left_eq add.assoc)
qed

section \<open>The ring\<close>

lemma length_copy_into [simp]: "i \<le> length dst \<Longrightarrow> length (fst (copy_into i src dst)) = length dst"
  by (simp add: copy_into_def Let_def)

lemma length_ring_write [simp]: "i \<le> length slots \<Longrightarrow> length (ring_write i items slots) = length slots"
  by (simp add: ring_write_def split_beta)

lemma copy_into_nth:
  assumes "i \<le> length dst" "j < length dst"
  shows "fst (copy_into i src dst) ! j = (if i \<le> j \<and> j - i < length src then src ! (j - i) else dst ! j)"
  using assms by (auto simp: copy_into_def Let_def nth_append min_def)

lemma wrap_mod: "i < n \<Longrightarrow> r < n \<Longrightarrow> (i + r) mod n = (if i + r < n then i + r else i + r - n)" for n :: nat
  by (simp add: mod_if)

text \<open>Slot \<open>r\<close> places behind the start of the write has the \<open>r\<close>-th item, as far as there are items.\<close>

lemma ring_write_nth:
  assumes "i < length slots" "length items \<le> length slots" "r < length slots"
  shows "ring_write i items slots ! ((i + r) mod length slots) =
    (if r < length items then items ! r else slots ! ((i + r) mod length slots))"
proof (cases "length items \<le> length slots - i")
  case True
  then have w: "ring_write i items slots = fst (copy_into i items slots)"
    by (simp add: ring_write_def copy_into_def Let_def)
  show ?thesis
    unfolding w using assms True by (auto simp: wrap_mod copy_into_nth)
next
  case False
  let ?s = "fst (copy_into i items slots)"
  have w: "ring_write i items slots = fst (copy_into 0 (drop (length slots - i) items) ?s)"
    using False by (simp add: ring_write_def copy_into_def Let_def)
  show ?thesis
    unfolding w using assms False by (auto simp: wrap_mod copy_into_nth)
qed

section \<open>Put\<close>

lemma queue_eqI:
  assumes "queue_ok q'" "length xs = q_pending q'"
    and "\<And>i. i < q_pending q' \<Longrightarrow> q_items q' ! ((q_writeCursor q' + (q_size q' - q_pending q' + i)) mod q_size q') = xs ! i"
  shows "queued q' = xs"
  using assms by (intro nth_equalityI) (simp_all add: queued_nth)

definition overflow :: "nat \<Rightarrow> 'a OverwriteQueue \<Rightarrow> nat" where
  "overflow m q = q_pending q + m - q_size q"

text \<open>The part of \<open>Put\<close> that changes the ring.\<close>

lemma Put_ring:
  assumes "Put items q = Inr (released, q')"
  shows "q_items q' = ring_write (q_writeCursor q) items (q_items q)"
    "q_pending q' = UintMin (q_pending q + length items) (q_size q)"
    "q_writeCursor q' = (q_writeCursor q + length items) AND (q_size q - 1)"
    "q_size q' = q_size q" "q_release q' = q_release q" "length items \<le> q_size q"
  using assms by (auto simp: Put_def Let_def split: if_splits)

lemma Put_ok:
  assumes "queue_ok q" "Put items q = Inr (released, q')"
  shows "queue_ok q'"
  using assms(1) Put_ring [OF assms(2)] queue_okD(1,4,6) [OF assms(1)]
  by (auto simp: queue_ok_def UintMin_def)

lemma Put_queued:
  assumes ok: "queue_ok q" and put: "Put items q = Inr (released, q')"
  shows "queued q' = drop (overflow (length items) q) (queued q @ items)"
proof (rule queue_eqI [OF Put_ok [OF ok put]])
  note r = Put_ring [OF put] and k = queue_okD [OF ok]
  let ?n = "q_size q" and ?w = "q_writeCursor q" and ?m = "length items" and ?p = "q_pending q"
  let ?o = "overflow ?m q"
  have p': "q_pending q' = ?p + ?m - ?o" using r(2) by (simp add: UintMin_def overflow_def)
  have w': "q_writeCursor q' = (?w + ?m) mod ?n" by (simp only: r(3) k(6))
  show "length (drop ?o (queued q @ items)) = q_pending q'" by (simp add: p')
  fix i
  assume "i < q_pending q'"
  then have i: "i < ?p + ?m - ?o" by (simp add: p')
  define s where "s = ?n + i + ?o - ?p"
  have o: "?o \<le> ?p" "?p + ?m - ?o \<le> ?n" "?o = 0 \<or> ?o + ?n = ?p + ?m" using r(6) by (auto simp: overflow_def)
  have "(q_writeCursor q' + (q_size q' - q_pending q' + i)) mod q_size q' = ((?w + ?m) + (?n - (?p + ?m - ?o) + i)) mod ?n"
    by (simp add: w' r(4) p' mod_add_left_eq)
  also have "(?w + ?m) + (?n - (?p + ?m - ?o) + i) = ?w + s" using o k(5) by (simp add: s_def)
  finally have idx: "(q_writeCursor q' + (q_size q' - q_pending q' + i)) mod q_size q' = (?w + s) mod ?n" .
  show "q_items q' ! ((q_writeCursor q' + (q_size q' - q_pending q' + i)) mod q_size q') = drop ?o (queued q @ items) ! i"
  proof (cases "?o + i < ?p")
    case True
    then have s: "s < ?n" "?m \<le> s" "s = ?n - ?p + (?o + i)" using o k(5) r(6) by (auto simp: s_def overflow_def)
    have "q_items q' ! ((?w + s) mod ?n) = q_items q ! ((?w + s) mod ?n)"
      using ring_write_nth [of ?w "q_items q" items s] k(3,4) r(6) s(1,2) by (simp add: r(1))
    also have "\<dots> = queued q ! (?o + i)" using queued_nth [OF ok True] s(3) by simp
    also have "\<dots> = drop ?o (queued q @ items) ! i" using True by (auto simp: nth_append)
    finally show ?thesis by (simp only: idx)
  next
    case False
    define j where "j = ?o + i - ?p"
    have j: "s = ?n + j" "j < ?m" "j < ?n" using False i r(6) by (auto simp: s_def j_def)
    have "?w + s = (?w + j) + ?n" by (simp add: j(1))
    then have "(?w + s) mod ?n = (?w + j) mod ?n" by (simp only: mod_add_self2)
    moreover have "q_items q' ! ((?w + j) mod ?n) = items ! j"
      using ring_write_nth [of ?w "q_items q" items j] k(3,4) r(6) j(2,3) by (simp add: r(1))
    moreover have "drop ?o (queued q @ items) ! i = items ! j"
      using False o(1) by (auto simp: nth_append j_def add.commute)
    ultimately show ?thesis by (simp only: idx)
  qed
qed

text \<open>What is handed to the release callback.\<close>

lemma subslice_queued:
  assumes "queue_ok q" "firstIndex q + l \<le> q_size q" "l \<le> q_pending q"
  shows "subslice (firstIndex q) (firstIndex q + l) (q_items q) = take l (queued q)"
proof (rule nth_equalityI)
  note k = queue_okD [OF assms(1)]
  show len: "length (subslice (firstIndex q) (firstIndex q + l) (q_items q)) = length (take l (queued q))"
    using assms k(3) by (simp add: min_def)
  fix i
  assume "i < length (subslice (firstIndex q) (firstIndex q + l) (q_items q))"
  then have "i < l" using len assms(3) by simp
  then show "subslice (firstIndex q) (firstIndex q + l) (q_items q) ! i = take l (queued q) ! i"
    using assms k(3) by (simp add: subslice_def queued_def)
qed

lemma subslice_queued_wrap:
  assumes "queue_ok q" "l = q_size q - firstIndex q + t" "l \<le> q_pending q" "t \<le> firstIndex q"
  shows "subslice (firstIndex q) (q_size q) (q_items q) @ take t (q_items q) = take l (queued q)"
proof (rule nth_equalityI)
  note k = queue_okD [OF assms(1)] and f = firstIndex_less [OF assms(1)]
  show len: "length (subslice (firstIndex q) (q_size q) (q_items q) @ take t (q_items q)) = length (take l (queued q))"
    using assms(2-4) k(3) f by simp
  fix i
  assume "i < length (subslice (firstIndex q) (q_size q) (q_items q) @ take t (q_items q))"
  then have i: "i < l" using len assms(3) by simp
  have "(firstIndex q + i) mod q_size q = (if firstIndex q + i < q_size q then firstIndex q + i else firstIndex q + i - q_size q)"
    using i assms(2,4) f by (intro wrap_mod) simp_all
  then show "(subslice (firstIndex q) (q_size q) (q_items q) @ take t (q_items q)) ! i = take l (queued q) ! i"
    using i assms(2-4) k(3) f by (auto simp: subslice_def queued_def nth_append add.commute)
qed

lemma released_slots_eq:
  assumes ok: "queue_ok q" and m: "m \<le> q_size q" "q_size q < q_pending q + m"
    and no: "m < q_size q \<or> q_pending q < q_size q \<or> q_writeCursor q = 0"
  shows "released_slots m q = take (overflow m q) (queued q)"
proof -
  note k = queue_okD [OF ok] and f = firstIndex_less [OF ok]
  let ?n = "q_size q" and ?w = "q_writeCursor q" and ?p = "q_pending q" and ?f = "firstIndex q"
  have f_eq: "?f = (if ?p \<le> ?w then ?w - ?p else ?w + ?n - ?p)"
    unfolding firstIndex_eq [OF ok] using k(4,5) wrap_mod [of ?w ?n "?n - ?p"] by (cases "?p = 0") auto
  define to where "to = (if ?w + m > ?n then ?w + m - ?n else ?w + m)"
  have to: "(let r = ?w + m in if r > ?n then r AND (?n - 1) else r) = to"
    unfolding Let_def k(6) to_def using k(4) m(1) by (simp add: mod_if)
  have o: "overflow m q = ?p + m - ?n" "overflow m q \<le> ?p" using m by (simp_all add: overflow_def)
  show ?thesis
  proof (cases "?f \<le> to")
    case True
    then have "to = ?f + overflow m q" "?f + overflow m q \<le> ?n"
      using m no k(4,5) by (auto simp: to_def f_eq o(1) split: if_splits)
    then show ?thesis
      using subslice_queued [OF ok _ o(2)] True to by (simp add: released_slots_def Let_def)
  next
    case False
    then have "overflow m q = ?n - ?f + to" "to \<le> ?f"
      using m no k(4,5) f by (auto simp: to_def f_eq o(1) split: if_splits)
    from subslice_queued_wrap [OF ok this(1) o(2) this(2)] False to show ?thesis
      by (simp add: released_slots_def Let_def)
  qed
qed

lemma released_slots_full:
  assumes ok: "queue_ok q" and "q_pending q = q_size q" "q_writeCursor q \<noteq> 0"
  shows "released_slots (q_size q) q = []"
proof -
  note k = queue_okD [OF ok]
  have "firstIndex q = q_writeCursor q" using assms k(4) by (simp add: firstIndex_eq)
  moreover have "(q_writeCursor q + q_size q) AND (q_size q - 1) = q_writeCursor q"
    by (simp only: k(6)) (use k(4) in simp)
  ultimately show ?thesis using assms(3) by (simp add: released_slots_def Let_def)
qed

lemma Put_released:
  assumes ok: "queue_ok q" and put: "Put items q = Inr (released, q')"
  shows "released = (if q_release q \<and> \<not> (length items = q_size q \<and> q_pending q = q_size q \<and> q_writeCursor q \<noteq> 0)
    then releaseOverwritten (take (overflow (length items) q) (queued q)) else [])"
proof -
  note k = queue_okD [OF ok] and r = Put_ring [OF put]
  let ?m = "length items"
  have free: "usub (q_size q) (q_pending q) = q_size q - q_pending q" using k(2,5) by (rule_tac usub_ge) simp_all
  have rel: "released = (if ?m > q_size q - q_pending q \<and> q_release q then releaseOverwritten (released_slots ?m q) else [])"
    using put r(6) by (auto simp: Put_def Let_def free)
  show ?thesis
  proof (cases "?m > q_size q - q_pending q")
    case True
    then have m: "q_size q < q_pending q + ?m" by simp
    show ?thesis
    proof (cases "?m = q_size q \<and> q_pending q = q_size q \<and> q_writeCursor q \<noteq> 0")
      case True
      then have "released_slots ?m q = []" using released_slots_full [OF ok] by simp
      then show ?thesis using rel True by (simp add: releaseOverwritten_def List.map_filter_def)
    next
      case False
      then have "released_slots ?m q = take (overflow ?m q) (queued q)"
        using r(6) k(5) by (intro released_slots_eq [OF ok r(6) m]) auto
      then show ?thesis using rel True False by simp
    qed
  next
    case False
    then have "overflow ?m q = 0" using k(5) by (simp add: overflow_def)
    then show ?thesis using rel False by (simp add: releaseOverwritten_def List.map_filter_def)
  qed
qed

section \<open>Get\<close>

lemma ring_write_replicate:
  assumes "c \<le> length slots" "i < length slots"
  shows "ring_write i (replicate c x) slots =
    (let copied = min c (length slots - i); s = fst (copy_into i (replicate copied x) slots)
     in if copied \<noteq> c then fst (copy_into 0 (replicate (min (c - copied) (length s)) x) s) else s)"
proof (cases "c \<le> length slots - i")
  case True
  then have "min c (length slots - i) = c" "min (length slots - i) c = c" by simp_all
  then show ?thesis by (simp add: ring_write_def copy_into_def Let_def)
next
  case False
  then have c: "min c (length slots - i) = length slots - i" "min (length slots - i) c = length slots - i"
    "length slots - i \<noteq> c" "min (c - (length slots - i)) (length slots) = c - (length slots - i)"
    using assms by simp_all
  have "fst (copy_into i (replicate c x) slots) = fst (copy_into i (replicate (length slots - i) x) slots)"
    "snd (copy_into i (replicate c x) slots) = length slots - i"
    using False by (simp_all add: copy_into_def Let_def c)
  with c assms show ?thesis by (simp add: ring_write_def split_beta Let_def)
qed

lemma gets_ok: 
  assumes ok: "queue_ok q" and g: "gets n q = (out, q')"
  shows "q_items q' = ring_write (firstIndex q) (replicate (min n (q_pending q)) None) (q_items q)"
    "q_pending q' = q_pending q - min n (q_pending q)" "q_writeCursor q' = q_writeCursor q" "q_size q' = q_size q"
    "queue_ok q'" "q_readerWaiting q' = q_readerWaiting q" "q_reader q' = q_reader q" "q_release q' = q_release q"
    "out = take n (queued q)"
proof -
  note k = queue_okD [OF ok] and f = firstIndex_less [OF ok]
  let ?s = "min n (q_pending q)" and ?f = "firstIndex q"
  have s: "UintMin n (q_pending q) = ?s" by (simp add: UintMin_def)
  have q': "q' = snd (gets n q)" and o: "out = fst (gets n q)" using g by simp_all
  have p: "usub (q_pending q) ?s = q_pending q - ?s" using k(2,5) by (intro usub_ge) simp_all
  have rest: "ring_write ?f (replicate ?s None) (q_items q) =
     (let copied = min ?s (q_size q - ?f); slots = fst (copy_into ?f (replicate copied None) (q_items q))
      in if copied \<noteq> ?s then fst (copy_into 0 (replicate (min (?s - copied) (length slots)) None) slots) else slots)"
    using ring_write_replicate [of ?s "q_items q" ?f None] f k(3,5) by simp
  show items: "q_items q' = ring_write ?f (replicate ?s None) (q_items q)"
    unfolding rest q' gets_def Let_def s k(3) by simp
  show pend: "q_pending q' = q_pending q - ?s" and "q_writeCursor q' = q_writeCursor q" "q_size q' = q_size q"
    "q_readerWaiting q' = q_readerWaiting q" "q_reader q' = q_reader q" "q_release q' = q_release q"
    unfolding q' gets_def Let_def s p by simp_all
  then show "queue_ok q'" using ok f k(3) by (auto simp: queue_ok_def items)
  have out: "out = (let copied = min ?s (q_size q - ?f) in subslice ?f (?f + copied) (q_items q) @
      (if copied \<noteq> ?s then take (?s - copied) (fst (copy_into ?f (replicate copied None) (q_items q))) else []))"
    unfolding o gets_def Let_def s using f k(3,5) by (simp add: subslice_def min_absorb1)
  have "out = take ?s (queued q)"
  proof (cases "?s \<le> q_size q - ?f")
    case True
    then show ?thesis using out subslice_queued [OF ok, of ?s] f by (simp add: min_absorb1)
  next
    case False
    let ?t = "?s - (q_size q - ?f)"
    have t: "?t \<le> ?f" using False k(5) by simp
    have c: "min ?s (q_size q - ?f) = q_size q - ?f" "q_size q - ?f \<noteq> ?s" "?f + (q_size q - ?f) = q_size q"
      using False f by simp_all
    have tk: "take ?t (fst (copy_into ?f (replicate (q_size q - ?f) None) (q_items q))) = take ?t (q_items q)"
      using f k(3) t by (simp add: copy_into_def Let_def)
    have "out = subslice ?f (q_size q) (q_items q) @ take ?t (q_items q)"
      unfolding out Let_def c(1,3) tk using c(2) by simp
    then show ?thesis using subslice_queued_wrap [OF ok, of ?s ?t] False t f by simp
  qed
  then show "out = take n (queued q)" by (simp add: min_def split: if_splits)
qed

lemma gets_queued:
  assumes ok: "queue_ok q" and g: "gets n q = (out, q')"
  shows "queued q' = drop n (queued q)"
proof (rule queue_eqI)
  note k = queue_okD [OF ok] and f = firstIndex_less [OF ok] and r = gets_ok [OF ok g]
  show "queue_ok q'" by (rule r)
  let ?s = "min n (q_pending q)" and ?f = "firstIndex q"
  show "length (drop n (queued q)) = q_pending q'" by (simp add: r(2) min_def)
  fix i
  assume "i < q_pending q'"
  then have i: "?s + i < q_pending q" by (simp add: r(2))
  have "q_writeCursor q' + (q_size q' - q_pending q' + i) = q_writeCursor q + q_size q - q_pending q + (?s + i)"
    using k(5) i by (simp add: r(2,3,4))
  then have "(q_writeCursor q' + (q_size q' - q_pending q' + i)) mod q_size q' = (?f + (?s + i)) mod q_size q"
    by (simp only: r(4) firstIndex_eq [OF ok] mod_add_left_eq)
  moreover have "q_items q' ! ((?f + (?s + i)) mod q_size q) = q_items q ! ((?f + (?s + i)) mod q_size q)"
    using ring_write_nth [of ?f "q_items q" "replicate ?s None" "?s + i"] f k(3,5) i by (simp add: r(1))
  moreover have "n = ?s" using i by (simp add: min_def split: if_splits)
  ultimately show "q_items q' ! ((q_writeCursor q' + (q_size q' - q_pending q' + i)) mod q_size q') = drop n (queued q) ! i"
    using i by (simp add: queued_def)
qed

text \<open>A single \<open>get\<close> is a \<open>gets\<close> of one item.\<close>

lemma get_gets:
  assumes ok: "queue_ok q" and "0 < q_pending q"
  shows "get q = Some (hd (queued q), snd (gets 1 q))"
proof -
  note k = queue_okD [OF ok] and f = firstIndex_less [OF ok]
  have s: "UintMin (Suc 0) (q_pending q) = 1" using assms(2) by (auto simp: UintMin_def)
  have c: "min (Suc 0) (q_size q - firstIndex q) = 1" using f by simp
  have "hd (queued q) = q_items q ! firstIndex q"
    using assms(2) f by (simp add: hd_conv_nth queued_def)
  then show ?thesis
    using f k(3) by (simp add: get_def gets_def Let_def s c copy_into_def upd_conv_take_nth_drop)
qed

section \<open>The queue as a bounded list\<close>

text \<open>
  What a client relies on: new items go behind the old ones, the oldest are dropped when the
  capacity is exceeded, and reading takes from the front.
\<close>

locale overwriting_fifo =
  fixes ok :: "'q \<Rightarrow> bool" and contents :: "'q \<Rightarrow> 'b list" and cap :: "'q \<Rightarrow> nat"
    and put :: "'b list \<Rightarrow> 'q \<Rightarrow> 'q option" and tk :: "nat \<Rightarrow> 'q \<Rightarrow> 'b list \<times> 'q"
  assumes bounded: "ok q \<Longrightarrow> length (contents q) \<le> cap q"
    and put_accepts: "put xs q = None \<longleftrightarrow> cap q < length xs"
    and put_law: "ok q \<Longrightarrow> put xs q = Some q' \<Longrightarrow>
      ok q' \<and> cap q' = cap q \<and> contents q' = drop (length (contents q) + length xs - cap q) (contents q @ xs)"
    and tk_law: "ok q \<Longrightarrow> tk n q = (out, q') \<Longrightarrow>
      ok q' \<and> cap q' = cap q \<and> out = take n (contents q) \<and> contents q' = drop n (contents q)"
begin

lemma put_keeps_order: "ok q \<Longrightarrow> put xs q = Some q' \<Longrightarrow> subseq (contents q') (contents q @ xs)"
  using put_law suffix_imp_subseq [OF suffix_drop] by metis

lemma put_fits: "ok q \<Longrightarrow> length (contents q) + length xs \<le> cap q \<Longrightarrow> \<exists>q'. put xs q = Some q' \<and> contents q' = contents q @ xs"
  using put_law put_accepts [of xs q] by (cases "put xs q") fastforce+

lemma newest_kept: "ok q \<Longrightarrow> put xs q = Some q' \<Longrightarrow> suffix xs (contents q')"
proof -
  assume q: "ok q" "put xs q = Some q'"
  then have "length xs \<le> cap q" using put_accepts [of xs q] by auto
  then show ?thesis using put_law [OF q] by (auto simp: suffix_def)
qed

lemma tk_splits: "ok q \<Longrightarrow> tk n q = (out, q') \<Longrightarrow> out @ contents q' = contents q"
  using tk_law by fastforce

end

definition put_slots :: "'a option list \<Rightarrow> 'a OverwriteQueue \<Rightarrow> 'a OverwriteQueue option" where
  "put_slots items q = (case Put items q of Inl _ \<Rightarrow> None | Inr (_, q') \<Rightarrow> Some q')"

lemma Put_error: "Put items q = Inl e \<longleftrightarrow> q_size q < length items"
  by (cases e) (simp add: Put_def Let_def)

interpretation oq: overwriting_fifo queue_ok queued q_size put_slots gets
proof
  fix q :: "'a OverwriteQueue" and xs q' n out
  show "length (queued q) \<le> q_size q" if "queue_ok q" using queue_okD(5) [OF that] by simp
  show "put_slots xs q = None \<longleftrightarrow> q_size q < length xs"
    using Put_error [of xs q] by (auto simp: put_slots_def split: sum.splits)
  show "queue_ok q' \<and> q_size q' = q_size q \<and> queued q' = drop (length (queued q) + length xs - q_size q) (queued q @ xs)"
    if "queue_ok q" "put_slots xs q = Some q'"
    using that Put_ok [OF that(1)] Put_queued [OF that(1)] Put_ring(4) [of xs q]
    by (auto simp: put_slots_def overflow_def split: sum.splits)
  show "queue_ok q' \<and> q_size q' = q_size q \<and> out = take n (queued q) \<and> queued q' = drop n (queued q)"
    if "queue_ok q" "gets n q = (out, q')"
    using gets_ok [OF that] gets_queued [OF that] by blast
qed

section \<open>Construction\<close>

lemma round_size_spec:
  assumes "i \<le> 31" "sz \<le> 2 ^ 31" "i = 0 \<or> 2 ^ (i - 1) < sz"
  shows "\<exists>k<32. round_size i sz = 2 ^ k \<and> sz \<le> 2 ^ k \<and> (k = 0 \<or> 2 ^ (k - 1) < sz)"
  using assms
proof (induction i sz rule: round_size.induct)
  case (1 i sz)
  show ?case
  proof (cases "sz \<le> 2 ^ i")
    case True
    then show ?thesis using 1 by (intro exI [of _ i]) (simp add: round_size.simps)
  next
    case False
    then have "i \<noteq> 31" using 1(3) by auto
    then have "i + 1 \<le> 31" "i < 32" using 1(2) by simp_all
    moreover have "round_size i sz = round_size (i + 1) sz"
      using False calculation by (subst round_size.simps) simp
    ultimately show ?thesis using 1(1,3) False by simp
  qed
qed

lemma NewOverwriteQueue_ok:
  assumes "sz \<le> 2 ^ 31" "q = NewOverwriteQueue sz options"
  shows "queue_ok q" "sz \<le> int (q_size q)" "queued q = []" "q_reader q = 0" "q_readerWaiting q = 0"
proof -
  obtain k where k: "k < 32" "round_size 0 sz = 2 ^ k" "sz \<le> 2 ^ k" using round_size_spec [of 0 sz] assms by auto
  have s: "q_size q = 2 ^ k" "length (q_items q) = 2 ^ k" "q_writeCursor q = 0" "q_pending q = 0"
    using k by (simp_all add: assms NewOverwriteQueue_def Queue_Init_def Queue_zero_def Let_def nat_power_eq)
  then show "queue_ok q" "sz \<le> int (q_size q)" "queued q = []" using k by (auto simp: queue_ok_def queued_def)
  show "q_reader q = 0" "q_readerWaiting q = 0"
    by (simp_all add: assms NewOverwriteQueue_def Queue_Init_def Queue_zero_def Let_def)
qed

section \<open>One reader\<close>

lemma serve_spec:
  assumes ok: "queue_ok q" and "r = R_Get \<longrightarrow> 0 < q_pending q"
  shows "\<exists>out q'. serve r q = Some (out, q') \<and> queue_ok q' \<and> out @ queued q' = queued q \<and>
    q_reader q' = q_reader q \<and> q_readerWaiting q' = q_readerWaiting q"
proof (cases r)
  case R_Get
  obtain out q' where g: "gets 1 q = (out, q')" by fastforce
  note t = oq.tk_law [OF ok g] and k = gets_ok [OF ok g]
  have "q_pending q > 0" using assms(2) R_Get by simp
  then have "queued q \<noteq> []" by (metis length_queued list.size(3) less_irrefl)
  then have "[hd (queued q)] @ queued q' = queued q" using t by (cases "queued q") simp_all
  then show ?thesis using get_gets [OF ok \<open>q_pending q > 0\<close>] R_Get g k(5-7) by (simp add: serve_def)
next
  case (R_Gets n)
  obtain out q' where g: "gets n q = (out, q')" by fastforce
  show ?thesis using oq.tk_splits [OF ok g] gets_ok [OF ok g] R_Gets g by (simp add: serve_def)
qed

lemma Put_reader:
  assumes "Put items q = Inr (released, q')"
  shows "q_reader q' = (if q_readerWaiting q > 0 then q_reader q - 1 else q_reader q)"
    "q_readerWaiting q' = q_readerWaiting q - 1"
  using assms by (auto simp: Put_def Let_def split: if_splits)

text \<open>
  The reader is counted in the wait group exactly while it waits and nothing has been put, so it
  goes on when there is an item for it.
\<close>

fun single_ok :: "'a OverwriteQueue \<times> request option list \<Rightarrow> bool" where
  "single_ok (q, [None]) \<longleftrightarrow> queue_ok q \<and> q_reader q = 0 \<and> q_readerWaiting q = 0"
| "single_ok (q, [Some r]) \<longleftrightarrow> queue_ok q \<and> q_readerWaiting q = q_reader q \<and>
     q_reader q = (if q_pending q = 0 then 1 else 0)"
| "single_ok _ \<longleftrightarrow> False"

fun put_items :: "'a option list event \<Rightarrow> 'a option list" where
  "put_items (E_Put items) = items"
| "put_items _ = []"

fun got_items :: "'a option list event \<Rightarrow> 'a option list" where
  "got_items (E_Got _ out) = out"
| "got_items _ = []"

lemma enter_cases:
  assumes "queue_ok q" "enter r q = Some (c, q')"
  shows "(q_pending q = 0 \<and> c = Blocked \<and> q' = q\<lparr>q_reader := q_reader q + 1, q_readerWaiting := q_readerWaiting q + 1\<rparr>) \<or>
    (\<exists>out. q_pending q \<noteq> 0 \<and> c = Returned out \<and> serve r q = Some (out, q'))"
  using assms(2) by (auto simp: enter_def split: if_splits)

lemma single_ok_cases:
  assumes "single_ok s"
  obtains q r where "s = (q, [r])" "queue_ok q"
  using assms by (cases s rule: single_ok.cases) auto

lemma single_step:
  assumes "single_ok (q, [r])" "qstep (q, [r]) e s'"
  obtains q' r' where "s' = (q', [r'])" "single_ok s'"
    "\<exists>lost. lost @ got_items e @ queued q' = queued q @ put_items e"
  using assms(2)
proof cases
  case (put items released q')
  have ok: "queue_ok q" using assms(1) by (cases r) auto
  note p = Put_queued [OF ok put(4)] Put_ok [OF ok put(4)] Put_ring [OF put(4)] Put_reader [OF put(4)]
  have "0 < q_pending q'" using put(3) p(4,8) queue_okD(1) [OF ok] by (auto simp: UintMin_def)
  then have "single_ok (q', [r])" using assms(1) p by (cases r) auto
  moreover have "take (overflow (length items) q) (queued q @ items) @ [] @ queued q' = queued q @ items"
    unfolding p(1) by (simp only: append_Nil append_take_drop_id)
  ultimately show thesis using that put(1,2) by (metis got_items.simps(2) put_items.simps(1))
next
  case (got i req out q')
  then have i: "r = None" "queue_ok q" "q_reader q = 0" "q_readerWaiting q = 0" using assms(1) by auto
  from enter_cases [OF i(2) got(5)] have s: "q_pending q \<noteq> 0" "serve req q = Some (out, q')" by auto
  from serve_spec [OF i(2), of req] s i got(1,2) show thesis by (intro that [of q' None]) auto
next
  case (wait i req q')
  then have i: "r = None" "queue_ok q" "q_reader q = 0" "q_readerWaiting q = 0" using assms(1) by auto
  from enter_cases [OF i(2) wait(5)]
  have q': "q_pending q = 0" "q' = q\<lparr>q_reader := q_reader q + 1, q_readerWaiting := q_readerWaiting q + 1\<rparr>" by auto
  then have "queue_ok q'" "queued q' = queued q" using i(2) by (simp_all add: queue_ok_def queued_def firstIndex_def)
  with q' i wait(1-3) show thesis by (intro that [of q' "Some req"]) auto
next
  case (resume i req out q')
  then have i: "r = Some req" "queue_ok q" "q_reader q = 0" "q_readerWaiting q = 0" "q_pending q \<noteq> 0"
    using assms(1) by (auto split: if_splits)
  from serve_spec [OF i(2), of req] resume i show thesis by (intro that [of q' None]) auto
qed

lemma single_reach:
  assumes "qreach (q0, [None]) tr s" "single_ok (q0, [None])" "queued q0 = []"
  shows "single_ok s \<and> subseq (concat (map got_items tr) @ queued (fst s)) (concat (map put_items tr))"
  using assms(1)
proof induction
  case start
  show ?case using assms(2,3) by simp
next
  case (step tr s e s')
  then have ok: "single_ok s" by simp
  then obtain q r where s: "s = (q, [r])" by (rule single_ok_cases)
  obtain q' r' lost where s': "s' = (q', [r'])" "single_ok s'" and
    l: "lost @ got_items e @ queued q' = queued q @ put_items e"
    using single_step [OF ok [unfolded s] step.hyps(2) [unfolded s]] by metis
  let ?G = "concat (map got_items tr)" and ?P = "concat (map put_items tr)"
  have "subseq (got_items e @ queued q') (queued q @ put_items e)" by (simp add: list_emb_append2 flip: l)
  then have "subseq (?G @ got_items e @ queued q') (?G @ queued q @ put_items e)"
    by (rule list_emb_append_mono [OF subseq_order.order_refl])
  also have "subseq \<dots> (?P @ put_items e)" using step.IH s by (simp flip: append_assoc)
  finally show ?case using s' by simp
qed

section \<open>Tables\<close>

lemma table_size_spec:
  assumes "\<exists>k. t = 2 ^ k" "t < 2 * sz"
  shows "(\<exists>k. table_size t sz = 2 ^ k) \<and> sz \<le> table_size t sz \<and> table_size t sz < 2 * sz"
  using assms
proof (induction t sz rule: table_size.induct)
  case (1 t sz)
  show ?case
  proof (cases "t < sz")
    case True
    then have "0 < t \<and> t < sz" using 1(2) by auto
    moreover have "\<exists>k. 2 * t = 2 ^ k" using 1(2) by (metis power_Suc)
    ultimately show ?thesis using 1(1) True by (subst (1 2 3) table_size.simps) simp
  next
    case False
    then show ?thesis using 1(2,3) by (subst (1 2 3) table_size.simps) simp
  qed
qed

lemma mask_key:
  assumes "n = 2 ^ k" "n \<le> 16"
  shows "unat ((key :: u8) AND of_nat (n - 1)) = unat key mod n"
proof -
  have "(2 :: nat) ^ k < 2 ^ 8" using assms by simp
  then have k: "k < 8" by (rule power_less_imp_less_exp [rotated]) simp
  then have "(of_nat (n - 1) :: u8) = mask k"
    using assms by (simp add: mask_eq_exp_minus_1 of_nat_diff)
  then have "unat (key AND of_nat (n - 1)) = take_bit k (unat key)"
    by (simp add: unsigned_take_bit_eq flip: take_bit_eq_mask)
  then show ?thesis by (simp only: take_bit_eq_mod assms(1))
qed

lemma NewOverwriteQueues_entry:
  assumes "NewOverwriteQueues count queueSize options = Some m"
  shows "mq_entry m key = unat key mod length (mq_table m) mod unat count"
    "length (mq_queues m) = unat count" "0 < count" "count \<le> 16" "unat count \<le> length (mq_table m)" "length (mq_table m) \<le> 16"
    "mq_table m = map (\<lambda>i. i mod unat count) [0..<length (mq_table m)]"
proof -
  have c: "count \<le> 16" "unat count \<noteq> 0" and
    m: "length (mq_queues m) = unat count" "mq_table m = map (\<lambda>i. i mod unat count) [0..<table_size 1 (unat count)]"
    using assms by (auto simp: NewOverwriteQueues_def MAX_QUEUE_COUNT_def Let_def split: if_splits)
  let ?n = "table_size 1 (unat count)"
  have len: "length (mq_table m) = ?n" by (simp add: m)
  have le: "unat count \<le> 16" using c(1) by (simp add: word_le_nat_alt)
  have one: "\<exists>k. (1 :: nat) = 2 ^ k" by (rule exI [of _ 0]) simp
  have c2: "1 < 2 * unat count" using c(2) by simp
  obtain k where n: "?n = 2 ^ k" "unat count \<le> ?n" "?n < 2 * unat count"
    using table_size_spec [OF one c2] by blast
  have "(2 :: nat) ^ k < 2 ^ 5" using n le by simp
  then have "k < 5" by (rule power_less_imp_less_exp [rotated]) simp
  then have "(2 :: nat) ^ k \<le> 2 ^ 4" by (intro power_increasing) simp_all
  then have n16: "?n \<le> 16" using n by simp
  show "unat count \<le> length (mq_table m)" "length (mq_table m) \<le> 16" "length (mq_queues m) = unat count" "count \<le> 16"
    using n n16 c len m by simp_all
  show "0 < count" using c(2) by (simp add: word_gt_0 unat_eq_zero)
  show "mq_table m = map (\<lambda>i. i mod unat count) [0..<length (mq_table m)]" by (simp only: len) (rule m)
  have "0 < ?n" using n by simp
  then show "mq_entry m key = unat key mod length (mq_table m) mod unat count"
    unfolding mq_entry_def len mask_key [OF n(1) n16] by (simp add: m(2))
qed

section \<open>An example\<close>

definition full_queue :: "nat OverwriteQueue" where
  "full_queue = \<lparr>q_closed = False, q_readerWaiting = 0, q_reader = 0, q_items = [Some 1, Some 2], q_size = 2,
     q_writeCursor = 1, q_pending = 2, q_release = True, q_counter = Counter_zero\<rparr>"

lemma full_queue_ok: "queue_ok full_queue"
  by (auto simp: queue_ok_def full_queue_def intro: exI [of _ 1])

lemma full_queue_facts: "q_size full_queue = 2" "q_counter full_queue = Counter_zero" "ctr_Overwritten Counter_zero = 0"
  by (simp_all add: full_queue_def Counter_zero_def)

lemma full_queue_queued: "queued full_queue = [Some 2, Some 1]"
proof -
  have "firstIndex full_queue = 1" by (simp add: firstIndex_eq [OF full_queue_ok]) (simp add: full_queue_def)
  then show ?thesis by (simp add: queued_def upt_rec) (simp add: full_queue_def)
qed

lemma full_queue_put: "\<exists>p. Put [Some 3] full_queue = Inr p"
  by (simp add: Put_def full_queue_def Let_def)

text \<open>A waiting reader, an item, and two reads of it.\<close>

definition small_queue :: "nat \<Rightarrow> nat option list \<Rightarrow> nat \<Rightarrow> nat \<Rightarrow> u64 \<Rightarrow> u64 \<Rightarrow> nat OverwriteQueue" where
  "small_queue waiting slots cursor pending i out = \<lparr>q_closed = False, q_readerWaiting = waiting, q_reader = waiting,
     q_items = slots, q_size = 2, q_writeCursor = cursor, q_pending = pending, q_release = False,
     q_counter = \<lparr>ctr_In = i, ctr_Out = out, ctr_Overwritten = 0, ctr_Pending = i\<rparr>\<rparr>"

lemma replicate_two: "replicate 2 x = [x, x]"
  by (simp add: numeral_2_eq_2)

lemma race_steps:
  "NewOverwriteQueue 2 [] = small_queue 0 [None, None] 0 0 0 0"
  "enter R_Get (small_queue 0 [None, None] 0 0 0 0) = Some (Blocked, small_queue 1 [None, None] 0 0 0 0)"
  "Put [Some 7] (small_queue 1 [None, None] 0 0 0 0) = Inr ([], small_queue 0 [Some 7, None] 1 1 1 0)"
  "serve R_Get (small_queue 0 [Some 7, None] 1 1 1 0) = Some ([Some 7], small_queue 0 [None, None] 1 0 1 1)"
  "enter R_Get (small_queue 0 [Some 7, None] 1 1 1 0) = Some (Returned [Some 7], small_queue 0 [None, None] 1 0 1 1)"
  "serve R_Get (small_queue 0 [None, None] 1 0 1 1) = Some ([None], small_queue 0 [None, None] 1 (2 ^ 64 - 1) 1 2)"
  "q_reader (small_queue 0 slots cursor pending i out) = 0"
  "q_pending (small_queue 0 slots cursor pending i out) = pending"
  by (simp_all add: small_queue_def NewOverwriteQueue_def Queue_Init_def Queue_zero_def Counter_zero_def Let_def
      round_size.simps enter_def serve_def get_def Put_def firstIndex_def usub_def ring_write_def copy_into_def
      UintMin_def and_Suc_0_eq replicate_two)

section \<open>Properties\<close>

text \<open>C4: Putting items into a queue fails exactly when there are more items than slots. Otherwise the
  queue holds the newest items of its old content followed by the new ones, as many as it has
  slots, and the counters account for what came in and what was overwritten.\<close>

theorem put_overwrites_oldest:
  assumes "queue_ok q"
  shows "case Put items q of
      Inl e \<Rightarrow> q_size q < length items
    | Inr (released, q') \<Rightarrow> length items \<le> q_size q \<and> queue_ok q' \<and> q_size q' = q_size q \<and>
        queued q' = drop (length (queued q) + length items - q_size q) (queued q @ items) \<and>
        ctr_In (q_counter q') = ctr_In (q_counter q) + of_nat (length items) \<and>
        ctr_Overwritten (q_counter q') =
          ctr_Overwritten (q_counter q) + of_nat (length (queued q) + length items - q_size q)"
proof (cases "Put items q")
  case (Inl e)
  then show ?thesis using Put_error [of items q e] by simp
next
  case (Inr p)
  obtain released q' where p: "p = (released, q')" by fastforce
  note put = Inr [unfolded p]
  note r = Put_ring [OF put] and k = queue_okD [OF assms]
  have free: "usub (q_size q) (q_pending q) = q_size q - q_pending q" using k(2,5) by (intro usub_ge) simp_all
  have more: "usub (length items) (q_size q - q_pending q) = length items - (q_size q - q_pending q)"
    if "q_size q - q_pending q < length items" using that k(2) r(6) by (intro usub_ge) simp_all
  have "ctr_In (q_counter q') = ctr_In (q_counter q) + of_nat (length items)"
    using put by (auto simp: Put_def Let_def split: if_splits)
  moreover have "ctr_Overwritten (q_counter q') =
      ctr_Overwritten (q_counter q) + of_nat (length items - (q_size q - q_pending q))"
    using put r(6) more by (auto simp: Put_def Let_def free split: if_splits)
  moreover have "length items - (q_size q - q_pending q) = length (queued q) + length items - q_size q"
    using k(5) by simp
  ultimately show ?thesis
    using Put_queued [OF assms put] Put_ok [OF assms put] r(4,6) by (simp add: Inr p overflow_def)
qed

theorem put_overwrites_oldest_witness:
  "case Put [Some 3] full_queue of
     Inl e \<Rightarrow> False
   | Inr (released, q') \<Rightarrow> queued q' = [Some 1, Some 3] \<and> ctr_Overwritten (q_counter q') = 1"
proof -
  obtain released q' where p: "Put [Some 3] full_queue = Inr (released, q')" using full_queue_put by auto
  from put_overwrites_oldest [OF full_queue_ok, of "[Some 3]"] show ?thesis
    by (simp add: p full_queue_queued full_queue_facts)
qed

text \<open>C33: The callback is given exactly the overwritten items, oldest first and without the nil items of
  the flush indicator, with one exception: when a full queue is replaced as a whole while its write
  position is not at the start, nothing is released.\<close>

theorem put_releases_overwritten:
  assumes "queue_ok q" "q_release q" "Put items q = Inr (released, q')"
  shows "released =
    (if length items = q_size q \<and> length (queued q) = q_size q \<and> q_writeCursor q \<noteq> 0 then []
     else List.map_filter id (take (length (queued q) + length items - q_size q) (queued q)))"
  using Put_released [OF assms(1,3)] assms(2) by (simp add: releaseOverwritten_def overflow_def)

theorem put_releases_overwritten_witness:
  "\<exists>q'. Put [Some 3, Some 4] full_queue = Inr ([], q') \<and> queued full_queue = [Some 2, Some 1] \<and> q_writeCursor full_queue \<noteq> 0"
proof -
  obtain released q' where p: "Put [Some 3, Some 4] full_queue = Inr (released, q')"
    by (simp add: Put_def full_queue_def Let_def)
  have "released = []"
    using put_releases_overwritten [OF full_queue_ok _ p] by (simp add: full_queue_queued) (simp add: full_queue_def)
  then show ?thesis using p by (simp add: full_queue_queued) (simp add: full_queue_def)
qed

text \<open>C34: A batch read returns the oldest items, at most as many as asked for, and leaves the others; a
  single read of a queue that is not empty returns its oldest item.\<close>

theorem gets_takes_oldest:
  assumes "queue_ok q"
  shows "\<exists>q'. gets n q = (take n (queued q), q') \<and> queue_ok q' \<and> queued q' = drop n (queued q) \<and>
    (queued q \<noteq> [] \<longrightarrow> (\<exists>q1. get q = Some (hd (queued q), q1) \<and> queued q1 = tl (queued q)))"
proof -
  obtain out q' where g: "gets n q = (out, q')" by fastforce
  obtain out1 q1 where g1: "gets 1 q = (out1, q1)" by fastforce
  have "get q = Some (hd (queued q), q1) \<and> queued q1 = tl (queued q)" if "queued q \<noteq> []"
  proof -
    have "0 < q_pending q" using that by (metis length_queued length_greater_0_conv)
    then show ?thesis using get_gets [OF assms] oq.tk_law [OF assms g1] g1 by (simp add: drop_Suc)
  qed
  then show ?thesis using oq.tk_law [OF assms g] g by blast
qed

theorem gets_takes_oldest_witness:
  "fst (gets 1 full_queue) = [Some 2] \<and> (\<exists>q. get full_queue = Some (Some 2, q) \<and> queued q = [Some 1])"
  using gets_takes_oldest [OF full_queue_ok, of 1] by (auto simp: full_queue_queued)

text \<open>C5: With one reader, any interleaving of its calls with puts delivers items in the order they were
  put, each at most once and never one that was not put; the queue stays well formed, and a reader
  that waits while there are items is able to go on.\<close>

theorem single_reader_fifo:
  fixes q :: "'a OverwriteQueue"
  assumes "sz \<le> 2 ^ 31" "qreach (NewOverwriteQueue sz options, [None]) tr (q, rs)"
  shows "queue_ok q \<and> subseq (concat (map got_items tr) @ queued q) (concat (map put_items tr)) \<and>
    (\<forall>req. rs = [Some req] \<and> queued q \<noteq> [] \<longrightarrow> (\<exists>out s. qstep (q, rs) (E_Got 0 out) s))"
proof -
  define q0 :: "'a OverwriteQueue" where "q0 = NewOverwriteQueue sz options"
  note n = NewOverwriteQueue_ok [OF assms(1) q0_def]
  have s: "single_ok (q, rs)" "subseq (concat (map got_items tr) @ queued q) (concat (map put_items tr))"
    using single_reach [OF assms(2) [folded q0_def]] n by auto
  then have ok: "queue_ok q" by (cases "(q, rs)" rule: single_ok.cases) auto
  have "\<exists>out s. qstep (q, rs) (E_Got 0 out) s" if "rs = [Some req]" "queued q \<noteq> []" for req
  proof -
    have p: "0 < q_pending q" using that(2) by (metis length_queued length_greater_0_conv)
    then have "q_reader q = 0" using s(1) that(1) by simp
    moreover obtain out q' where "serve req q = Some (out, q')" using serve_spec [OF ok, of req] p by auto
    ultimately show ?thesis using qstep.resume [of 0 rs req q out q'] that(1) by auto
  qed
  then show ?thesis using ok s(2) by blast
qed

theorem single_reader_fifo_witness:
  "\<exists>q. qreach (NewOverwriteQueue 2 [] :: nat OverwriteQueue, [None]) [E_Wait 0, E_Put [Some 7], E_Got 0 [Some 7]] (q, [None]) \<and>
     queued q = []"
proof -
  let ?q = "small_queue 0 [None, None] 1 0 1 1"
  have r: "qreach (NewOverwriteQueue 2 [], [None]) [E_Wait 0, E_Put [Some 7], E_Got 0 [Some 7]] (?q, [None])"
    using qreach.step [OF qreach.step [OF qreach.step [OF qreach.start qstep.wait [OF _ _ race_steps(2), of 0 "[None]"]]
        qstep.put [OF _ race_steps(3)]] qstep.resume [OF _ _ _ race_steps(4), of 0]]
    by (simp add: race_steps(1,7))
  from list_emb_length [OF single_reader_fifo [OF _ r, THEN conjunct2, THEN conjunct1]]
  have "length (queued ?q) = 0" by simp
  then have "queued ?q = []" by (simp only: length_0_conv)
  with r show ?thesis by blast
qed

text \<open>C35: With two readers this fails: a reader woken for an item may find it taken by the other one,
  and its read makes the number of pending items wrap around.\<close>

theorem two_readers_underflow:
  "\<exists>tr q rs. qreach (NewOverwriteQueue 2 [] :: nat OverwriteQueue, [None, None]) tr (q, rs) \<and>
     concat (map put_items tr) = [Some 7] \<and> q_pending q = 2 ^ 64 - 1"
proof -
  have "qreach (NewOverwriteQueue 2 [], [None, None]) [E_Wait 0, E_Put [Some 7], E_Got 1 [Some 7], E_Got 0 [None]]
      (small_queue 0 [None, None] 1 (2 ^ 64 - 1) 1 2, [None, None])"
    using qreach.step [OF qreach.step [OF qreach.step [OF qreach.step [OF qreach.start
          qstep.wait [OF _ _ race_steps(2), of 0 "[None, None]"]] qstep.put [OF _ race_steps(3)]]
          qstep.got [OF _ _ race_steps(5), of 1]] qstep.resume [OF _ _ _ race_steps(6), of 0]]
    by (simp add: race_steps(1,7))
  moreover have "concat (map put_items [E_Wait 0, E_Put [Some 7], E_Got 1 [Some 7], E_Got 0 [None]]) = [Some 7]" by simp
  ultimately show ?thesis using race_steps(8) by blast
qed

text \<open>A table has an entry for every key, each of its queues is the entry of some key, and putting
  items under a key changes what is waiting under another one only if both have the same queue.\<close>

theorem multi_queue_routes:
  fixes m :: "'a FixedMultiQueue"
  assumes "NewOverwriteQueues count queueSize options = Some m" "queueSize \<le> 2 ^ 31"
  shows "mq_entry m key < unat count \<and> (\<forall>i<unat count. mq_entry m (of_nat i) = i) \<and>
    (\<forall>items released m'. MultiQueue_Put key items m = Inr (released, m') \<longrightarrow>
       mq_table m' = mq_table m \<and>
       (\<forall>key'. MultiQueue_Len key' m' = (if mq_entry m key' = mq_entry m key then length items else 0)))"
proof (intro conjI allI impI)
  note e = NewOverwriteQueues_entry [OF assms(1)]
  have pos: "0 < unat count" using e(3) by (simp add: word_gt_0 unat_gt_0)
  have lt: "mq_entry m key < unat count" for key using pos by (simp add: e(1))
  then show "mq_entry m key < unat count" .
  show "mq_entry m (of_nat i) = i" if "i < unat count" for i
  proof -
    have "i < length (mq_table m)" "i < 2 ^ 8" using that e(5,6) by simp_all
    then have "unat (of_nat i :: u8) = i" by (simp add: unat_of_nat)
    then show ?thesis using that \<open>i < length (mq_table m)\<close> by (simp add: e(1))
  qed
  fix items released m'
  assume "MultiQueue_Put key items m = Inr (released, m')"
  then obtain q' where put: "Put items (mq_queues m ! mq_entry m key) = Inr (released, q')"
    and m': "m' = m\<lparr>mq_queues := (mq_queues m)[mq_entry m key := q']\<rparr>"
    by (auto simp: MultiQueue_Put_def Let_def split: sum.splits)
  show "mq_table m' = mq_table m" by (simp add: m')
  fix key'
  define q0 :: "'a OverwriteQueue" where "q0 = NewOverwriteQueue queueSize (options @ [OptionStatsOption])"
  have q0: "q_pending q0 = 0" using NewOverwriteQueue_ok(3) [OF assms(2) q0_def] by (simp add: queued_def)
  have all: "mq_queues m ! i = q0" if "i < unat count" for i
    using assms(1) that by (auto simp: NewOverwriteQueues_def Let_def q0_def split: if_splits)
  have "q_pending q' = length items"
    using Put_ring(2,6) [OF put] all [OF lt] q0 by (simp add: UintMin_def)
  moreover have "mq_entry m' key' = mq_entry m key'" by (simp add: mq_entry_def m')
  ultimately show "MultiQueue_Len key' m' = (if mq_entry m key' = mq_entry m key then length items else 0)"
    unfolding MultiQueue_Len_def Queue_Len_def using all [OF lt [of key']] q0 lt [of key] e(2)
    by (simp add: m' nth_list_update)
qed

theorem multi_queue_routes_witness:
  "mq_entry (the (NewOverwriteQueues 3 8 [] :: nat FixedMultiQueue option)) 7 < 3"
  using multi_queue_routes [of 3 8 "[]" "the (NewOverwriteQueues 3 8 [])" 7, THEN conjunct1]
  by (simp add: NewOverwriteQueues_def Let_def MAX_QUEUE_COUNT_def)

end
