(* ===== verification/Stats_Message.thy ===== *)
theory Stats_Message
  imports Codec_Messages Meter_Spec
begin

text \<open>
  Self monitoring messages, \<^verbatim>\<open>server/libs/stats/message.go\<close>: a time, a table name, tags and fields.
  They are sent with the codec, and stored in a table that is generated from the message. The hash
  is that of \<^verbatim>\<open>server/libs/utils/hash.go\<close>. A message from the pool is an empty one.
\<close>

section \<open>Messages\<close>

definition TypeInt64 :: u8 where "TypeInt64 = 0"
definition TypeFloat64 :: u8 where "TypeFloat64 = 1"

record Tag =
  tag_Key :: bytes
  tag_Value :: bytes

record Field =
  fld_Key :: bytes
  fld_Type :: u8
  fld_Value :: i64

record DFStats =
  st_Time :: u32
  st_TableName :: bytes
  st_Tags :: "Tag list"
  st_Fields :: "Field list"

definition AcquireDFStats :: DFStats where
  "AcquireDFStats = \<lparr>st_Time = 0, st_TableName = [], st_Tags = [], st_Fields = []\<rparr>"

text \<open>What goes back to the pool.\<close>

definition ReleaseDFStats :: "DFStats \<Rightarrow> DFStats" where
  "ReleaseDFStats s = s\<lparr>st_Time := 0, st_TableName := [], st_Tags := [], st_Fields := []\<rparr>"

primrec DJBHash :: "u64 \<Rightarrow> bytes \<Rightarrow> u64" where
  "DJBHash hash [] = hash"
| "DJBHash hash (c # cs) = DJBHash ((push_bit 5 hash + hash) + ucast c) cs"

definition DFStats_Key :: "DFStats \<Rightarrow> u64" where
  "DFStats_Key s =
     (let base = DJBHash 31 (st_TableName s);
          base = fold (\<lambda>tag base. DJBHash base (tag_Key tag)) (st_Tags s) base
      in fold (\<lambda>field base. DJBHash base (fld_Key field)) (st_Fields s) base)"

section \<open>Wire format\<close>

definition write_tag :: "Tag \<Rightarrow> SimpleEncoder \<Rightarrow> SimpleEncoder" where
  "write_tag tag e = WriteString255 (tag_Value tag) (WriteString255 (tag_Key tag) e)"

definition write_fld :: "Field \<Rightarrow> SimpleEncoder \<Rightarrow> SimpleEncoder" where
  "write_fld field e = WriteVarintU64 (fld_Value field) (WriteU8 (fld_Type field) (WriteString255 (fld_Key field) e))"

definition DFStats_Encode :: "DFStats \<Rightarrow> SimpleEncoder \<Rightarrow> SimpleEncoder" where
  "DFStats_Encode s e =
     (let e = WriteString255 (st_TableName s) (WriteU32 (st_Time s) e);
          e = fold write_tag (st_Tags s) (WriteU8 (of_nat (length (st_Tags s))) e)
      in fold write_fld (st_Fields s) (WriteU8 (of_nat (length (st_Fields s))) e))"

definition read_tag :: "SimpleDecoder \<Rightarrow> Tag \<times> SimpleDecoder" where
  "read_tag d = (let (k, d) = ReadString255 d; (v, d) = ReadString255 d in (\<lparr>tag_Key = k, tag_Value = v\<rparr>, d))"

definition read_fld :: "SimpleDecoder \<Rightarrow> Field \<times> SimpleDecoder" where
  "read_fld d = (let (k, d) = ReadString255 d; (t, d) = ReadU8 d; (v, d) = ReadVarintU64 d
     in (\<lparr>fld_Key = k, fld_Type = t, fld_Value = v\<rparr>, d))"

text \<open>A nil decoder is an error; the loops append to a message from the pool.\<close>

datatype stats_error = No_input_decoder

definition DFStats_Decode :: "SimpleDecoder option \<Rightarrow> stats_error + (DFStats \<times> SimpleDecoder)" where
  "DFStats_Decode decoder =
     (case decoder of
        None \<Rightarrow> Inl No_input_decoder
      | Some d \<Rightarrow>
          (let s = AcquireDFStats;
               (t, d) = ReadU32 d;
               (name, d) = ReadString255 d;
               (n, d) = ReadU8 d;
               (tags, d) = read_times (unat n) read_tag d;
               (n, d) = ReadU8 d;
               (flds, d) = read_times (unat n) read_fld d
           in Inr (s\<lparr>st_Time := t, st_TableName := name, st_Tags := st_Tags s @ tags, st_Fields := st_Fields s @ flds\<rparr>, d)))"

section \<open>Table and row\<close>

definition write_fld_block :: "('e, 'b) column_append \<Rightarrow> Field \<Rightarrow> 'b Block \<Rightarrow> 'e option \<times> 'b Block" where
  "write_fld_block app field =
     (if fld_Type field = TypeFloat64 then Block_WriteFloat64 app (fld_Value field) else Block_WriteInt64 app (fld_Value field))"

definition DFStats_WriteBlock :: "('e, 'b) column_append \<Rightarrow> DFStats \<Rightarrow> 'b Block \<Rightarrow> 'e option \<times> 'b Block" where
  "DFStats_WriteBlock app s =
     and_then (Block_WriteUInt32 app (st_Time s))
       (and_then (write_each (\<lambda>tag. Block_WriteString app (tag_Value tag)) (st_Tags s))
          (write_each (write_fld_block app) (st_Fields s)))"

definition GenCKTable :: "int \<Rightarrow> DFStats \<Rightarrow> Table" where
  "GenCKTable ttl s =
     (let timeKey = str ''time'';
          columns = [NewColumnWithGroupBy (str ''time'') CT_DateTime]
            @ map (\<lambda>tag. NewColumnWithGroupBy (tag_Key tag) CT_LowCardinalityString) (st_Tags s)
            @ map (\<lambda>field. if fld_Type field = TypeFloat64 then NewColumn (fld_Key field) CT_Float64
                    else NewColumn (fld_Key field) CT_Int64) (st_Fields s);
          orderKeys = map tag_Key (st_Tags s) @ [timeKey]
      in \<lparr>tbl_Version = str ''20211122'', tbl_ID = 0, tbl_Database = str ''telegraf'',
          tbl_LocalName = st_TableName s @ str ''_local'', tbl_GlobalName = st_TableName s, tbl_Columns = columns,
          tbl_TimeKey = timeKey, tbl_TTL = ttl, tbl_PartitionFunc = TimeFuncDay, tbl_Cluster = DF_CLUSTER,
          tbl_Engine = MergeTree, tbl_OrderKeys = orderKeys, tbl_PrimaryKeyCount = length orderKeys\<rparr>)"

section \<open>Wire laws\<close>

text \<open>A tag is two strings in a row, a field a string, a byte and a variable length integer.\<close>

interpretation c_tag: codec_pair WriteString255 ReadString255
  "\<lambda>v. of_nat (min 255 (length v)) # take 255 v" "\<lambda>v. length v \<le> 255"
  WriteString255 ReadString255 "\<lambda>v. of_nat (min 255 (length v)) # take 255 v" "\<lambda>v. length v \<le> 255" ..

interpretation c_typed: codec_pair WriteU8 ReadU8 "\<lambda>v. [v]" "\<lambda>_. True" WriteVarintU64 ReadVarintU64 varint_bytes "\<lambda>_. True" ..

interpretation c_fld: codec_pair WriteString255 ReadString255
  "\<lambda>v. of_nat (min 255 (length v)) # take 255 v" "\<lambda>v. length v \<le> 255"
  "\<lambda>(x, y) e. WriteVarintU64 y (WriteU8 x e)" "\<lambda>d. let (x, d) = ReadU8 d; (y, d) = ReadVarintU64 d in ((x, y), d)"
  "\<lambda>(x, y). [x] @ varint_bytes y" "\<lambda>(x, y). True \<and> True" ..

definition string_wire :: "bytes \<Rightarrow> bytes" where
  "string_wire v = of_nat (min 255 (length v)) # take 255 v"

definition tag_wire :: "Tag \<Rightarrow> bytes" where
  "tag_wire tag = string_wire (tag_Key tag) @ string_wire (tag_Value tag)"

definition fld_wire :: "Field \<Rightarrow> bytes" where
  "fld_wire field = string_wire (fld_Key field) @ fld_Type field # varint_bytes (fld_Value field)"

fun tag_ok :: "Tag \<Rightarrow> bool" where
  "tag_ok tag \<longleftrightarrow> length (tag_Key tag) \<le> 255 \<and> length (tag_Value tag) \<le> 255"

fun fld_ok :: "Field \<Rightarrow> bool" where
  "fld_ok field \<longleftrightarrow> length (fld_Key field) \<le> 255"

interpretation s_tag: field_codec write_tag read_tag tag_wire tag_ok
proof
  show "write_tag v e = append_buf (tag_wire v) e" for v e
    using c_tag.both.wr_wire [of "(tag_Key v, tag_Value v)" e] by (simp add: write_tag_def tag_wire_def string_wire_def)
  show "read_tag d = (v, advance (length (tag_wire v)) d)" if "tag_ok v" "at d (tag_wire v @ rest)" for v d rest
    using c_tag.both.rd_wire [of "(tag_Key v, tag_Value v)" d rest] that
    by (auto simp: read_tag_def tag_wire_def string_wire_def Let_def split: prod.splits)
qed

interpretation s_fld: field_codec write_fld read_fld fld_wire fld_ok
proof
  show "write_fld v e = append_buf (fld_wire v) e" for v e
    using c_fld.both.wr_wire [of "(fld_Key v, fld_Type v, fld_Value v)" e] by (simp add: write_fld_def fld_wire_def string_wire_def)
  show "read_fld d = (v, advance (length (fld_wire v)) d)" if "fld_ok v" "at d (fld_wire v @ rest)" for v d rest
    using c_fld.both.rd_wire [of "(fld_Key v, fld_Type v, fld_Value v)" d rest] that
    by (auto simp: read_fld_def fld_wire_def string_wire_def Let_def split: prod.splits)
qed

definition stats_wire :: "DFStats \<Rightarrow> bytes" where
  "stats_wire s = put_le 4 (st_Time s) @ string_wire (st_TableName s) @
     of_nat (length (st_Tags s)) # concat (map tag_wire (st_Tags s)) @
     of_nat (length (st_Fields s)) # concat (map fld_wire (st_Fields s))"

definition stats_ok :: "DFStats \<Rightarrow> bool" where
  "stats_ok s \<longleftrightarrow> length (st_TableName s) \<le> 255 \<and> length (st_Tags s) \<le> 255 \<and> list_all tag_ok (st_Tags s) \<and>
     length (st_Fields s) \<le> 255 \<and> list_all fld_ok (st_Fields s)"

lemma DFStats_Encode_wire: "DFStats_Encode s e = append_buf (stats_wire s) e"
  by (simp add: DFStats_Encode_def Let_def c_u32.wr_wire c_u8.wr_wire c_string255.wr_wire s_tag.wr_list s_fld.wr_list
      stats_wire_def string_wire_def)

lemma count_byte: "n \<le> 255 \<Longrightarrow> unat (of_nat n :: u8) = n"
  by (simp add: unat_of_nat)

lemma DFStats_Decode_wire:
  assumes ok: "stats_ok s" and d: "at d (stats_wire s @ rest)"
  shows "DFStats_Decode (Some d) = Inr (s, advance (length (stats_wire s)) d)"
proof -
  let ?name = "string_wire (st_TableName s)"
  let ?tags = "concat (map tag_wire (st_Tags s))" and ?flds = "concat (map fld_wire (st_Fields s))"
  let ?n = "of_nat (length (st_Tags s)) :: u8" and ?m = "of_nat (length (st_Fields s)) :: u8"
  define d1 where "d1 = advance 4 d"
  define d2 where "d2 = advance (length ?name) d1"
  define d3 where "d3 = advance 1 d2"
  define d4 where "d4 = advance (length ?tags) d3"
  define d5 where "d5 = advance 1 d4"
  have a0: "at d (put_le 4 (st_Time s) @ ?name @ [?n] @ ?tags @ [?m] @ ?flds @ rest)"
    using d by (simp add: stats_wire_def)
  have a1: "at d1 (?name @ [?n] @ ?tags @ [?m] @ ?flds @ rest)" using at_advance [OF a0] by (simp add: d1_def)
  have a2: "at d2 ([?n] @ ?tags @ [?m] @ ?flds @ rest)" using at_advance [OF a1] by (simp add: d2_def)
  have a3: "at d3 (?tags @ [?m] @ ?flds @ rest)" using at_advance [OF a2] by (simp add: d3_def)
  have a4: "at d4 ([?m] @ ?flds @ rest)" using at_advance [OF a3] by (simp add: d4_def)
  have a5: "at d5 (?flds @ rest)" using at_advance [OF a4] by (simp add: d5_def)
  have r0: "ReadU32 d = (st_Time s, d1)" using c_u32.rd_wire [OF _ a0] by (simp add: d1_def)
  have r1: "ReadString255 d1 = (st_TableName s, d2)"
    using c_string255.rd_wire [OF _ a1 [unfolded string_wire_def]] ok by (simp add: stats_ok_def d2_def string_wire_def)
  have r2: "ReadU8 d2 = (?n, d3)" using c_u8.rd_wire [OF _ a2] by (simp add: d3_def)
  have r3: "read_times (unat ?n) read_tag d3 = (st_Tags s, d4)"
    using s_tag.rd_list [OF _ a3] ok by (simp add: stats_ok_def d4_def count_byte)
  have r4: "ReadU8 d4 = (?m, d5)" using c_u8.rd_wire [OF _ a4] by (simp add: d5_def)
  have r5: "read_times (unat ?m) read_fld d5 = (st_Fields s, advance (length ?flds) d5)"
    using s_fld.rd_list [OF _ a5] ok by (simp add: stats_ok_def count_byte)
  have end_pos: "advance (length ?flds) d5 = advance (length (stats_wire s)) d"
    by (simp add: d1_def d2_def d3_def d4_def d5_def stats_wire_def add_ac)
  show ?thesis
    by (simp add: DFStats_Decode_def r0 r1 r2 r3 r4 r5 end_pos AcquireDFStats_def)
qed

text \<open>On any input: the reads of tags and fields keep to the buffer.\<close>

interpretation r_tag: cursor_read_pair ReadString255 ReadString255 ..
interpretation r_typed: cursor_read_pair ReadU8 ReadVarintU64 ..
interpretation r_fld: cursor_read_pair ReadString255 "\<lambda>d. let (x, d) = ReadU8 d; (y, d) = ReadVarintU64 d in ((x, y), d)" ..

lemma snd_read_tag: "snd (read_tag d) = snd (let (x, d) = ReadString255 d; (y, d) = ReadString255 d in ((x, y), d))"
  by (simp add: read_tag_def split_beta)

lemma snd_read_fld: "snd (read_fld d) = snd (let (x, d) = ReadString255 d;
    (y, d) = (let (x, d) = ReadU8 d; (y, d) = ReadVarintU64 d in ((x, y), d)) in ((x, y), d))"
  by (simp add: read_fld_def split_beta)

interpretation rs_tag: cursor_read read_tag
  by unfold_locales
    (simp_all only: snd_read_tag r_tag.both.keeps_buf r_tag.both.err_mono r_tag.both.offset_mono r_tag.both.in_bounds not_False_eq_True)

interpretation rs_fld: cursor_read read_fld
  by unfold_locales
    (simp_all only: snd_read_fld r_fld.both.keeps_buf r_fld.both.err_mono r_fld.both.offset_mono r_fld.both.in_bounds not_False_eq_True)

context cursor_read
begin

lemma times_in_bounds:
  "\<not> overrun d \<Longrightarrow> dec_err (snd (read_times n rd d)) = dec_err d \<Longrightarrow> \<not> overrun (snd (read_times n rd d))"
proof (induction n arbitrary: d)
  case (Suc n)
  let ?d = "snd (rd d)"
  have eq: "snd (read_times (Suc n) rd d) = snd (read_times n rd ?d)" by (simp add: split_beta)
  have "dec_err ?d = dec_err d"
    using Suc.prems(2) err_mono [of d] times_mono [of n ?d] unfolding eq by simp
  with Suc.IH [of ?d] in_bounds [of d] Suc.prems(2) show ?case unfolding eq by simp
qed simp

end

lemma DFStats_Decode_in_bounds:
  assumes "DFStats_Decode (Some d) = Inr (s, d')" "\<not> Failed d'"
  shows "\<not> overrun d' \<and> \<not> Failed d \<and> dec_buf d' = dec_buf d"
proof -
  define d1 where "d1 = snd (ReadU32 d)"
  define d2 where "d2 = snd (ReadString255 d1)"
  define n where "n = unat (fst (ReadU8 d2))"
  define d3 where "d3 = snd (ReadU8 d2)"
  define d4 where "d4 = snd (read_times n read_tag d3)"
  define m where "m = unat (fst (ReadU8 d4))"
  define d5 where "d5 = snd (ReadU8 d4)"
  have d': "d' = snd (read_times m read_fld d5)"
    using assms(1) by (auto simp: DFStats_Decode_def d1_def d2_def d3_def d4_def d5_def n_def m_def split_beta Let_def)
  note mono = r_u32.err_mono [of d, folded d1_def] r_string255.err_mono [of d1, folded d2_def] r_u8.err_mono [of d2, folded d3_def]
    rs_tag.times_mono [of n d3, folded d4_def] r_u8.err_mono [of d4, folded d5_def] rs_fld.times_mono [of m d5, folded d']
  note bufs = r_u32.keeps_buf [of d, folded d1_def] r_string255.keeps_buf [of d1, folded d2_def] r_u8.keeps_buf [of d2, folded d3_def]
    r_u8.keeps_buf [of d4, folded d5_def]
  have e: "dec_err d' = 0" using assms(2) by (simp add: Failed_def)
  have "\<not> overrun d5" using r_u8.in_bounds [of d4, folded d5_def] mono e by simp
  then have "\<not> overrun d'" using rs_fld.times_in_bounds [of d5 m, folded d'] mono e by simp
  then show ?thesis using mono e bufs by (simp add: Failed_def)
qed

section \<open>Row laws\<close>

definition DFStats_row :: "DFStats \<Rightarrow> ck_value list" where
  "DFStats_row s = CkUInt32 (st_Time s) # map (CkString \<circ> tag_Value) (st_Tags s) @
     map (\<lambda>f. if fld_Type f = TypeFloat64 then CkFloat64 (fld_Value f) else CkInt64 (fld_Value f)) (st_Fields s)"

lemma DFStats_WriteBlock_row: "writes app (DFStats_WriteBlock app s) (DFStats_row s)"
proof -
  have "writes app (DFStats_WriteBlock app s) ([CkUInt32 (st_Time s)] @ map (CkString \<circ> tag_Value) (st_Tags s) @
     map (\<lambda>f. if fld_Type f = TypeFloat64 then CkFloat64 (fld_Value f) else CkInt64 (fld_Value f)) (st_Fields s))"
    unfolding DFStats_WriteBlock_def
    by (intro writes_and_then row_writes writes_each)
      (simp_all add: write_fld_block_def Block_WriteString_def Block_WriteFloat64_def Block_WriteInt64_def)
  then show ?thesis by (simp add: DFStats_row_def)
qed

text \<open>The column types a value may be stored in.\<close>

fun stored_as :: "ck_value \<Rightarrow> ColumnType \<Rightarrow> bool" where
  "stored_as (CkUInt32 _) t \<longleftrightarrow> t = CT_UInt32 \<or> t = CT_DateTime"
| "stored_as (CkString _) t \<longleftrightarrow> t = CT_String \<or> t = CT_LowCardinalityString"
| "stored_as v t \<longleftrightarrow> value_type v = Some t"

lemma list_all2_map_same: "(\<And>x. P (f x) (g x)) \<Longrightarrow> list_all2 P (map f xs) (map g xs)"
  by (induction xs) simp_all

lemma DFStats_row_stored: "list_all2 stored_as (DFStats_row s) (map col_Type (tbl_Columns (GenCKTable ttl s)))"
  unfolding DFStats_row_def GenCKTable_def Let_def
  by (auto simp: NewColumn_def NewColumnWithGroupBy_def SetGroupBy_def comp_def Let_def
      intro!: list_all2_appendI list_all2_map_same)

lemma DJBHash_append: "DJBHash h (xs @ ys) = DJBHash (DJBHash h xs) ys"
  by (induction xs arbitrary: h) simp_all

lemma fold_DJBHash: "fold (\<lambda>x h. DJBHash h (f x)) xs h = DJBHash h (concat (map f xs))"
  by (induction xs arbitrary: h) (simp_all add: DJBHash_append)

section \<open>Properties\<close>

text \<open>C25: A message within the limits of the format is read back from what was sent, and the decoder
  is at its end without a failure. The limits are 255 tags, 255 fields and strings of 255 bytes.\<close>

theorem stats_round_trip:
  assumes "stats_ok s"
  shows "\<exists>d'. DFStats_Decode (Some (Decoder_Init (Encoder_Bytes (DFStats_Encode s (Encoder_Reset e))) spare d)) = Inr (s, d') \<and>
    IsEnd d' \<and> \<not> Failed d'"
proof -
  let ?d = "Decoder_Init (Encoder_Bytes (DFStats_Encode s (Encoder_Reset e))) spare d"
  have b: "Encoder_Bytes (DFStats_Encode s (Encoder_Reset e)) = stats_wire s"
    by (simp add: DFStats_Encode_wire Encoder_Bytes_def Encoder_Reset_def)
  have "at ?d (stats_wire s @ [])" by (simp add: at_def Decoder_Init_def b)
  from DFStats_Decode_wire [OF assms this] show ?thesis
    by (simp add: IsEnd_def Failed_def) (simp add: Decoder_Init_def b)
qed

theorem stats_round_trip_witness:
  "let s = \<lparr>st_Time = 7, st_TableName = str ''cpu'', st_Tags = [\<lparr>tag_Key = str ''host'', tag_Value = str ''a''\<rparr>],
         st_Fields = [\<lparr>fld_Key = str ''used'', fld_Type = TypeInt64, fld_Value = 300\<rparr>]\<rparr>
   in \<exists>d'. DFStats_Decode (Some (Decoder_Init (Encoder_Bytes (DFStats_Encode s (Encoder_Reset \<lparr>enc_buf = [], enc_refs = 1\<rparr>))) []
        \<lparr>dec_buf = [], dec_spare = [], dec_offset = 0, dec_err = 0\<rparr>)) = Inr (s, d') \<and> IsEnd d' \<and> \<not> Failed d'"
  unfolding Let_def by (rule stats_round_trip) (simp add: stats_ok_def str_def)

text \<open>Whatever bytes are received: if no failure was counted, every read of the message stayed within
  them.\<close>

theorem stats_decode_in_bounds:
  assumes "DFStats_Decode (Some d) = Inr (s, d')" "\<not> Failed d'"
  shows "dec_offset d' \<le> length (dec_buf d') \<and> dec_buf d' = dec_buf d \<and> \<not> Failed d"
  using DFStats_Decode_in_bounds [OF assms] by (auto simp: overrun_def)

theorem stats_decode_in_bounds_witness:
  "\<exists>s d'. DFStats_Decode (Some \<lparr>dec_buf = [1, 0, 0, 0, 0, 0, 0, 9], dec_spare = [], dec_offset = 0, dec_err = 0\<rparr>) = Inr (s, d') \<and>
     dec_offset d' \<le> length (dec_buf d')"
proof -
  let ?d = "\<lparr>dec_buf = [1, 0, 0, 0, 0, 0, 0, 9], dec_spare = [], dec_offset = 0, dec_err = 0\<rparr>"
  obtain s d' where r: "DFStats_Decode (Some ?d) = Inr (s, d')" "\<not> Failed d'"
    by (simp add: DFStats_Decode_def ReadU32_def ReadString255_def ReadU8_def Let_def Failed_def overrun_def advance_def passed_def
        subslice_def)
  from stats_decode_in_bounds [OF this] r(1) show ?thesis by blast
qed

text \<open>The row of a message fills the columns of the table generated for it, in order, each value with a type its
  column stores; and the table's statement is generated without a panic.\<close>

theorem stats_row_fits_table:
  assumes "\<And>i v b. \<exists>b'. app i v b = (None, b') \<and> logged b' = logged b @ [(i, v)]"
  shows "\<exists>b' vs. DFStats_WriteBlock app s (ResetIndex b) = (None, b') \<and>
    logged (Batch b') = logged (Batch b) @ zip [0..<length (tbl_Columns (GenCKTable ttl s))] vs \<and>
    list_all2 stored_as vs (map col_Type (tbl_Columns (GenCKTable ttl s))) \<and>
    MakeLocalTableCreateSQL (GenCKTable ttl s) \<noteq> None"
proof -
  have w: "DFStats_WriteBlock app s = write_each (block_append app) (DFStats_row s)"
    using DFStats_WriteBlock_row by (simp add: writes_def)
  have l: "length (DFStats_row s) = length (tbl_Columns (GenCKTable ttl s))"
    using list_all2_lengthD [OF DFStats_row_stored [of s ttl]] by simp
  obtain b' where "write_each (block_append app) (DFStats_row s) (ResetIndex b) = (None, b')"
    "logged (Batch b') = logged (Batch b) @ zip [0..<length (DFStats_row s)] (DFStats_row s)"
    using write_each_log [of app logged "DFStats_row s" "ResetIndex b"] assms by (auto simp: ResetIndex_def)
  moreover have "MakeLocalTableCreateSQL (GenCKTable ttl s) \<noteq> None"
    by (simp add: MakeLocalTableCreateSQL_def Let_def) (simp add: GenCKTable_def Let_def)
  ultimately show ?thesis using DFStats_row_stored [of s ttl] by (auto simp: w l)
qed

theorem stats_row_fits_table_witness:
  "\<exists>b' vs. DFStats_WriteBlock (\<lambda>i v b. (None :: unit option, b @ [(i, v)])) (AcquireDFStats\<lparr>st_Time := 5\<rparr>) (ResetIndex \<lparr>Batch = [], index = 9\<rparr>)
     = (None, b') \<and> Batch b' = zip [0..<length (tbl_Columns (GenCKTable 3 (AcquireDFStats\<lparr>st_Time := 5\<rparr>)))] vs"
  using stats_row_fits_table [of "\<lambda>i v b. (None :: unit option, b @ [(i, v)])" id "AcquireDFStats\<lparr>st_Time := 5\<rparr>" "\<lparr>Batch = [], index = 9\<rparr>" 3]
  by auto

text \<open>The key of a message is the hash of its table name, tag keys and field keys run together, so it
  does not tell where one ends and the next begins: a tag and a field of the same name give the
  same key for different tables.\<close>

theorem stats_key_concat:
  "DFStats_Key s = DJBHash 31 (st_TableName s @ concat (map tag_Key (st_Tags s)) @ concat (map fld_Key (st_Fields s))) \<and>
   (\<exists>s1 s2. DFStats_Key s1 = DFStats_Key s2 \<and> st_TableName s1 = st_TableName s2 \<and>
      map col_Type (tbl_Columns (GenCKTable ttl s1)) \<noteq> map col_Type (tbl_Columns (GenCKTable ttl s2)))"
proof
  show "DFStats_Key s = DJBHash 31 (st_TableName s @ concat (map tag_Key (st_Tags s)) @ concat (map fld_Key (st_Fields s)))"
    by (simp add: DFStats_Key_def Let_def fold_DJBHash DJBHash_append)
  let ?s1 = "AcquireDFStats\<lparr>st_Tags := [\<lparr>tag_Key = [97], tag_Value = []\<rparr>]\<rparr>"
  let ?s2 = "AcquireDFStats\<lparr>st_Fields := [\<lparr>fld_Key = [97], fld_Type = TypeInt64, fld_Value = 0\<rparr>]\<rparr>"
  have "DFStats_Key ?s1 = DFStats_Key ?s2" by (simp add: DFStats_Key_def AcquireDFStats_def)
  moreover have "map col_Type (tbl_Columns (GenCKTable ttl ?s1)) \<noteq> map col_Type (tbl_Columns (GenCKTable ttl ?s2))"
    by (simp add: GenCKTable_def AcquireDFStats_def NewColumnWithGroupBy_def SetGroupBy_def NewColumn_def TypeInt64_def TypeFloat64_def Let_def)
  moreover have "st_TableName ?s1 = st_TableName ?s2" by simp
  ultimately show "\<exists>s1 s2. DFStats_Key s1 = DFStats_Key s2 \<and> st_TableName s1 = st_TableName s2 \<and>
      map col_Type (tbl_Columns (GenCKTable ttl s1)) \<noteq> map col_Type (tbl_Columns (GenCKTable ttl s2))" by blast
qed

end
