(* ===== verification/Policy_Data.thy ===== *)
theory Policy_Data
  imports Codec_Messages "HOL-Library.Sublist"
begin

text \<open>
  Policy results, \<^verbatim>\<open>server/libs/datatype/policy.go\<close>. An NPB action packs five fields into 64 bits:
  \<^verbatim>\<open>aclgid | payload-slice | tunnel-type | TapSide | tunnel-id\<close>. A policy holds a list of actions, each
  with the access list groups it stands for; merging policies joins actions of the same tunnel.

  The tables from groups to tunnel addresses are global variables in the source; here they are
  a record that the operations take. Slices of group numbers are values. \<open>None\<close> is a panic.
\<close>

section \<open>Tunnel tables\<close>

record TunnelMaps =
  tm_ip :: "u16 \<Rightarrow> bytes option"
  tm_id :: "u16 \<Rightarrow> u16"

fun UpdateTunnelMaps :: "u16 list \<Rightarrow> u16 list \<Rightarrow> bytes list \<Rightarrow> TunnelMaps \<Rightarrow> TunnelMaps option" where
  "UpdateTunnelMaps [] ipIds ips tm = Some tm"
| "UpdateTunnelMaps (g # aclGids) (i # ipIds) (ip # ips) tm =
     UpdateTunnelMaps aclGids ipIds ips (tm\<lparr>tm_ip := (tm_ip tm)(g := Some ip), tm_id := (tm_id tm)(g := i)\<rparr>)"
| "UpdateTunnelMaps _ _ _ tm = None"

definition GetTunnelIp :: "TunnelMaps \<Rightarrow> u16 \<Rightarrow> bytes option" where
  "GetTunnelIp tm aclGid = tm_ip tm aclGid"

definition GetTunnelIpId :: "TunnelMaps \<Rightarrow> u16 \<Rightarrow> u16" where
  "GetTunnelIpId tm aclGid = tm_id tm aclGid"

section \<open>Actions\<close>

type_synonym NpbAction = u64

definition NPB_TUNNEL_TYPE_VXLAN :: u8 where "NPB_TUNNEL_TYPE_VXLAN = 0"
definition NPB_TUNNEL_TYPE_GRE_ERSPAN :: u8 where "NPB_TUNNEL_TYPE_GRE_ERSPAN = 1"
definition NPB_TUNNEL_TYPE_PCAP :: u8 where "NPB_TUNNEL_TYPE_PCAP = 2"

definition TAPSIDE_SRC :: i64 where "TAPSIDE_SRC = 1"
definition TAPSIDE_DST :: i64 where "TAPSIDE_DST = 2"
definition TAPSIDE_MASK :: i64 where "TAPSIDE_MASK = TAPSIDE_SRC OR TAPSIDE_DST"
definition TAPSIDE_ALL :: i64 where "TAPSIDE_ALL = TAPSIDE_SRC OR TAPSIDE_DST"

definition TapSide :: "NpbAction \<Rightarrow> i64" where
  "TapSide a = drop_bit 26 a AND TAPSIDE_MASK"

definition TapSideCompare :: "NpbAction \<Rightarrow> i64 \<Rightarrow> bool" where
  "TapSideCompare a flag \<longleftrightarrow> TapSide a AND flag = flag"

definition GetDirections :: "NpbAction \<Rightarrow> u8" where
  "GetDirections a = ucast (TapSide a)"

definition SetTapSide :: "i64 \<Rightarrow> NpbAction \<Rightarrow> NpbAction" where
  "SetTapSide flag a = (a AND NOT (push_bit 26 TAPSIDE_MASK)) OR push_bit 26 (flag AND TAPSIDE_MASK)"

definition AddTapSide :: "i64 \<Rightarrow> NpbAction \<Rightarrow> NpbAction" where
  "AddTapSide flag a = a OR push_bit 26 (flag AND TAPSIDE_MASK)"

definition ReverseTapSide :: "NpbAction \<Rightarrow> NpbAction" where
  "ReverseTapSide a = (if TapSide a = TAPSIDE_ALL then a else a XOR push_bit 26 TAPSIDE_MASK)"

definition TunnelGid :: "NpbAction \<Rightarrow> u16" where
  "TunnelGid a = ucast (drop_bit 48 a)"

definition TunnelType :: "NpbAction \<Rightarrow> u8" where
  "TunnelType a = ucast (drop_bit 30 a AND 0x3)"

definition TunnelIpId :: "TunnelMaps \<Rightarrow> NpbAction \<Rightarrow> u16" where
  "TunnelIpId tm a = (if TunnelType a = NPB_TUNNEL_TYPE_PCAP then 0 else GetTunnelIpId tm (ucast (drop_bit 48 a)))"

definition TunnelIp :: "TunnelMaps \<Rightarrow> NpbAction \<Rightarrow> bytes option" where
  "TunnelIp tm a = (if TunnelType a = NPB_TUNNEL_TYPE_PCAP then None else GetTunnelIp tm (ucast (drop_bit 48 a)))"

definition TunnelId :: "NpbAction \<Rightarrow> u32" where
  "TunnelId a = ucast (a AND 0xffffff)"

definition SetTunnelId :: "u32 \<Rightarrow> NpbAction \<Rightarrow> NpbAction" where
  "SetTunnelId tid a = (a AND NOT 0xffffff) OR ucast (tid AND 0xffffff)"

definition PayloadSlice :: "NpbAction \<Rightarrow> u16" where
  "PayloadSlice a = ucast (drop_bit 32 a AND 0xffff)"

definition SetPayloadSlice :: "u16 \<Rightarrow> NpbAction \<Rightarrow> NpbAction" where
  "SetPayloadSlice payload a = (a AND NOT (push_bit 32 0xffff)) OR push_bit 32 (ucast payload)"

definition ToNpbAction :: "u32 \<Rightarrow> u32 \<Rightarrow> u8 \<Rightarrow> u8 \<Rightarrow> u16 \<Rightarrow> NpbAction" where
  "ToNpbAction aclGid tid tunnelType tapSide sl =
     push_bit 48 (ucast (aclGid AND 0xffff)) OR push_bit 32 (ucast sl) OR
     push_bit 30 (ucast (tunnelType AND 0x3)) OR push_bit 26 (ucast tapSide AND TAPSIDE_MASK) OR ucast (tid AND 0xffffff)"

record NpbActions =
  npb_action :: NpbAction
  npb_aclGids :: "u16 list"

definition AddAclGid :: "u16 list \<Rightarrow> NpbActions \<Rightarrow> NpbActions" where
  "AddAclGid aclGids a =
     fold (\<lambda>m a. if m \<in> set (npb_aclGids a) then a else a\<lparr>npb_aclGids := npb_aclGids a @ [m]\<rparr>) aclGids a"

definition GetAclGid :: "NpbActions \<Rightarrow> u16 list" where
  "GetAclGid a = npb_aclGids a"

definition doTridentPcap :: "NpbActions \<Rightarrow> bool" where
  "doTridentPcap a \<longleftrightarrow> TunnelType (npb_action a) = NPB_TUNNEL_TYPE_PCAP"

definition NpbActions_ReverseTapSide :: "NpbActions \<Rightarrow> NpbActions" where
  "NpbActions_ReverseTapSide a = \<lparr>npb_action = ReverseTapSide (npb_action a), npb_aclGids = npb_aclGids a\<rparr>"

definition ToNpbActions :: "u32 \<Rightarrow> u32 \<Rightarrow> u8 \<Rightarrow> u8 \<Rightarrow> u16 \<Rightarrow> NpbActions" where
  "ToNpbActions aclGid tid tunnelType tapSide sl =
     \<lparr>npb_action = ToNpbAction aclGid tid tunnelType tapSide sl, npb_aclGids = [ucast aclGid]\<rparr>"

text \<open>The promoted setters of the embedded action.\<close>

definition on_action :: "(NpbAction \<Rightarrow> NpbAction) \<Rightarrow> NpbActions \<Rightarrow> NpbActions" where
  "on_action f a = a\<lparr>npb_action := f (npb_action a)\<rparr>"

definition NpbActions_Encode :: "NpbActions \<Rightarrow> SimpleEncoder \<Rightarrow> SimpleEncoder" where
  "NpbActions_Encode n e = WriteU16Slice (npb_aclGids n) (WriteU64 (npb_action n) e)"

definition NpbActions_Decode :: "SimpleDecoder \<Rightarrow> NpbActions \<times> SimpleDecoder" where
  "NpbActions_Decode d = (let (a, d) = ReadU64 d; (gids, d) = ReadU16Slice d in (\<lparr>npb_action = a, npb_aclGids = gids\<rparr>, d))"

section \<open>Policies\<close>

definition ACTION_PCAP :: u16 where "ACTION_PCAP = 1"

record PolicyData =
  pd_NpbActions :: "NpbActions list"
  pd_AclId :: u32
  pd_ActionFlags :: u16

definition INVALID_POLICY_DATA :: PolicyData where
  "INVALID_POLICY_DATA = \<lparr>pd_NpbActions = [], pd_AclId = 0, pd_ActionFlags = 0\<rparr>"

definition PolicyData_Encode :: "PolicyData \<Rightarrow> SimpleEncoder \<Rightarrow> SimpleEncoder" where
  "PolicyData_Encode p e =
     (let e = fold NpbActions_Encode (pd_NpbActions p) (WriteU32 (of_nat (length (pd_NpbActions p))) e)
      in WriteU16 (pd_ActionFlags p) (WriteU32 (pd_AclId p) e))"

text \<open>The actions of \<open>p\<close> stay when the message has none.\<close>

definition PolicyData_Decode :: "PolicyData \<Rightarrow> SimpleDecoder \<Rightarrow> PolicyData \<times> SimpleDecoder" where
  "PolicyData_Decode p d =
     (let (l, d) = ReadU32 d;
          (p, d) = (if l > 0
            then let (as, d) = read_times (unat l) NpbActions_Decode d in (p\<lparr>pd_NpbActions := as\<rparr>, d)
            else (p, d));
          (aclId, d) = ReadU32 d;
          (flags, d) = ReadU16 d
      in (p\<lparr>pd_AclId := aclId, pd_ActionFlags := flags\<rparr>, d))"

definition PolicyData_Valid :: "PolicyData \<Rightarrow> bool" where
  "PolicyData_Valid d \<longleftrightarrow> pd_AclId d \<noteq> 0"

definition FormatNpbAction :: "PolicyData \<Rightarrow> PolicyData" where
  "FormatNpbAction d = d\<lparr>pd_NpbActions := map (\<lambda>a.
     if TapSide (npb_action a) = TAPSIDE_ALL \<and> TunnelType (npb_action a) \<noteq> NPB_TUNNEL_TYPE_PCAP
     then on_action (SetTapSide TAPSIDE_SRC) a else a) (pd_NpbActions d)\<rparr>"

text \<open>The fields of a lookup key that deduplication reads.\<close>

record LookupKey =
  lk_L2End0 :: bool
  lk_L2End1 :: bool
  lk_L3End0 :: bool
  lk_L3End1 :: bool
  lk_TapType :: u16

definition TAP_TOR :: u16 where "TAP_TOR = 3"

definition valid_action :: "LookupKey \<Rightarrow> NpbActions \<Rightarrow> bool" where
  "valid_action packet action \<longleftrightarrow>
     TunnelType (npb_action action) = NPB_TUNNEL_TYPE_PCAP \<or>
     (TapSideCompare (npb_action action) TAPSIDE_SRC \<and> lk_L2End0 packet \<and> lk_L3End0 packet) \<or>
     (TapSideCompare (npb_action action) TAPSIDE_DST \<and> lk_L2End1 packet \<and> lk_L3End1 packet)"

definition dedupNpbAction :: "LookupKey \<Rightarrow> PolicyData \<Rightarrow> NpbActions list" where
  "dedupNpbAction packet d =
     (if pd_NpbActions d = [] \<or> lk_TapType packet \<noteq> TAP_TOR then pd_NpbActions d
      else filter (valid_action packet) (pd_NpbActions d))"

definition Dedup :: "LookupKey \<Rightarrow> PolicyData \<Rightarrow> PolicyData" where
  "Dedup packet d =
     (if pd_NpbActions d = [] \<or> lk_TapType packet \<noteq> TAP_TOR then d
      else let validActions = dedupNpbAction packet d in
        if validActions = [] \<and> pd_ActionFlags d = 0 then INVALID_POLICY_DATA
        else d\<lparr>pd_NpbActions := validActions\<rparr>)"

section \<open>Merging\<close>

text \<open>
  The inner loop of \<^verbatim>\<open>MergeNpbAction\<close> over the actions there are: the updated actions and whether
  one of them took \<open>n\<close>. An equal action ends the loop, a joined one does not. The group number of
  a PCAP action is read at index 0, which panics when there is none.
\<close>

definition join_action :: "u8 list \<Rightarrow> NpbActions \<Rightarrow> NpbActions \<Rightarrow> NpbActions" where
  "join_action directions n m =
     (let a = (if PayloadSlice (npb_action n) = 0 \<or> PayloadSlice (npb_action n) > PayloadSlice (npb_action m)
               then on_action (SetPayloadSlice (PayloadSlice (npb_action n))) m else m);
          a = (case directions of
                 dir # _ \<Rightarrow> on_action (SetTapSide (ucast dir)) a
               | [] \<Rightarrow> on_action (AddTapSide (TapSide (npb_action n))) a)
      in AddAclGid (GetAclGid n) a)"

definition same_tunnel :: "TunnelMaps \<Rightarrow> NpbActions \<Rightarrow> NpbActions \<Rightarrow> bool" where
  "same_tunnel tm m n \<longleftrightarrow> TunnelIpId tm (npb_action m) = TunnelIpId tm (npb_action n) \<and>
     TunnelId (npb_action m) = TunnelId (npb_action n) \<and> TunnelType (npb_action m) = TunnelType (npb_action n)"

fun merge_scan :: "TunnelMaps \<Rightarrow> u8 list \<Rightarrow> NpbActions \<Rightarrow> NpbActions list \<Rightarrow> (NpbActions list \<times> bool) option" where
  "merge_scan tm directions n [] = Some ([], False)"
| "merge_scan tm directions n (m # ms) =
     (let skip = map_option (\<lambda>(ms, r). (m # ms, r)) (merge_scan tm directions n ms);
          join = map_option (\<lambda>(ms, r). (join_action directions n m # ms, True)) (merge_scan tm directions n ms)
      in if npb_action m = npb_action n then Some (AddAclGid (GetAclGid n) m # ms, True)
         else if \<not> same_tunnel tm m n then skip
         else if TunnelType (npb_action n) = NPB_TUNNEL_TYPE_PCAP
         then (case GetAclGid n of
                 [] \<Rightarrow> None
               | aclGid # _ \<Rightarrow> if aclGid \<in> set (GetAclGid m) then join else skip)
         else join)"

definition merge_one :: "TunnelMaps \<Rightarrow> u8 list \<Rightarrow> NpbActions \<Rightarrow> PolicyData \<Rightarrow> PolicyData option" where
  "merge_one tm directions n d =
     (case merge_scan tm directions n (pd_NpbActions d) of
        None \<Rightarrow> None
      | Some (as, True) \<Rightarrow> Some (d\<lparr>pd_NpbActions := as\<rparr>)
      | Some (as, False) \<Rightarrow>
          (let npbAction = (case directions of dir # _ \<Rightarrow> on_action (SetTapSide (ucast dir)) n | [] \<Rightarrow> n);
               d = (if doTridentPcap npbAction then d\<lparr>pd_ActionFlags := pd_ActionFlags d OR ACTION_PCAP\<rparr> else d)
           in Some (d\<lparr>pd_NpbActions := as @ [npbAction]\<rparr>)))"

fun merge_all :: "TunnelMaps \<Rightarrow> u8 list \<Rightarrow> NpbActions list \<Rightarrow> PolicyData \<Rightarrow> PolicyData option" where
  "merge_all tm directions [] d = Some d"
| "merge_all tm directions (n # ns) d =
     (case merge_one tm directions n d of None \<Rightarrow> None | Some d \<Rightarrow> merge_all tm directions ns d)"

definition MergeNpbAction :: "TunnelMaps \<Rightarrow> NpbActions list \<Rightarrow> u32 \<Rightarrow> u8 list \<Rightarrow> PolicyData \<Rightarrow> PolicyData option" where
  "MergeNpbAction tm actions aclID directions d =
     merge_all tm directions actions (if pd_AclId d = 0 then d\<lparr>pd_AclId := aclID\<rparr> else d)"

definition Merge :: "TunnelMaps \<Rightarrow> NpbActions list \<Rightarrow> u32 \<Rightarrow> u8 list \<Rightarrow> PolicyData \<Rightarrow> PolicyData option" where
  "Merge tm npbActions aclID directions d = MergeNpbAction tm npbActions aclID directions d"

definition MergeNpbAndSwapDirection :: "TunnelMaps \<Rightarrow> NpbActions list \<Rightarrow> u32 \<Rightarrow> PolicyData \<Rightarrow> PolicyData option" where
  "MergeNpbAndSwapDirection tm actions aclID d = MergeNpbAction tm (map NpbActions_ReverseTapSide actions) aclID [] d"

definition MergeAndSwapDirection :: "TunnelMaps \<Rightarrow> NpbActions list \<Rightarrow> u32 \<Rightarrow> PolicyData \<Rightarrow> PolicyData option" where
  "MergeAndSwapDirection tm npbActions aclID d = MergeNpbAndSwapDirection tm npbActions aclID d"

section \<open>Fields of an action\<close>

text \<open>A field of a packed word: what is set is read back, and nothing but the last value counts.\<close>

locale bit_field =
  fixes gt :: "u64 \<Rightarrow> 'v" and st :: "'v \<Rightarrow> u64 \<Rightarrow> u64" and fits :: "'v \<Rightarrow> bool"
  assumes get_fits: "fits (gt a)"
    and get_set: "fits v \<Longrightarrow> gt (st v a) = v"
    and set_set: "st v (st w a) = st v a"
    and set_get: "st (gt a) a = a"
begin

lemma set_unchanged: "fits v \<Longrightarrow> st v a = a \<longleftrightarrow> gt a = v"
  using get_set [of v a] set_get [of a] by metis

lemma get_inj: "gt a = gt b \<Longrightarrow> st v a = st v b \<Longrightarrow> a = b"
  using set_get set_set by metis

end

text \<open>Two fields that do not overlap.\<close>

locale bit_fields = a: bit_field ga sa fa + b: bit_field gb sb fb
  for ga :: "u64 \<Rightarrow> 'v" and sa fa and gb :: "u64 \<Rightarrow> 'w" and sb fb +
  assumes keeps_b: "gb (sa v x) = gb x" and keeps_a: "ga (sb w x) = ga x" and commute: "sa v (sb w x) = sb w (sa v x)"
begin

lemma both_set: "fa v \<Longrightarrow> fb w \<Longrightarrow> ga (sa v (sb w x)) = v \<and> gb (sa v (sb w x)) = w"
  by (simp add: a.get_set b.get_set keeps_b)

end

lemma mask_consts:
  "TAPSIDE_MASK = mask 2" "TAPSIDE_ALL = mask 2" "(0x3 :: u64) = mask 2" "(0xffff :: u64) = mask 16" "(0xffffff :: u64) = mask 24"
  "(0xffffff :: u32) = mask 24" "(0xffff :: u32) = mask 16" "(0x3 :: u8) = mask 2"
  by (simp_all add: TAPSIDE_MASK_def TAPSIDE_ALL_def TAPSIDE_SRC_def TAPSIDE_DST_def mask_eq_exp_minus_1)

lemma bit_TapSide: "bit (TapSide a) n \<longleftrightarrow> n < 2 \<and> bit a (26 + n)"
  by (auto simp: TapSide_def mask_consts bit_simps)

lemma bit_SetTapSide: "bit (SetTapSide f a) n \<longleftrightarrow> (if 26 \<le> n \<and> n < 28 then bit f (n - 26) else bit a n)"
  by (auto simp: SetTapSide_def mask_consts bit_simps dest: bit_imp_le_length)

lemma bit_TunnelId: "bit (TunnelId a) n \<longleftrightarrow> n < 24 \<and> bit a n"
  by (auto simp: TunnelId_def mask_consts bit_simps)

lemma bit_SetTunnelId: "bit (SetTunnelId v a) n \<longleftrightarrow> (if n < 24 then bit v n else bit a n)"
  by (auto simp: SetTunnelId_def mask_consts bit_simps dest: bit_imp_le_length)

lemma bit_PayloadSlice: "bit (PayloadSlice a) n \<longleftrightarrow> n < 16 \<and> bit a (32 + n)"
  by (auto simp: PayloadSlice_def mask_consts bit_simps)

lemma bit_SetPayloadSlice: "bit (SetPayloadSlice v a) n \<longleftrightarrow> (if 32 \<le> n \<and> n < 48 then bit v (n - 32) else bit a n)"
  by (auto simp: SetPayloadSlice_def mask_consts bit_simps dest: bit_imp_le_length)

lemma bit_TunnelType: "bit (TunnelType a) n \<longleftrightarrow> n < 2 \<and> bit a (30 + n)"
  by (auto simp: TunnelType_def mask_consts bit_simps)

lemma bit_TunnelGid: "bit (TunnelGid a) n \<longleftrightarrow> n < 16 \<and> bit a (48 + n)"
  by (auto simp: TunnelGid_def bit_simps)

lemma bit_AddTapSide: "bit (AddTapSide f a) n \<longleftrightarrow> bit a n \<or> 26 \<le> n \<and> n < 28 \<and> bit f (n - 26)"
  by (auto simp: AddTapSide_def mask_consts bit_simps dest: bit_imp_le_length)

lemma bit_ToNpbAction:
  "bit (ToNpbAction aclGid tid tunnelType tapSide sl) n \<longleftrightarrow>
    (if n < 24 then bit tid n else if n < 26 then False else if n < 28 then bit tapSide (n - 26)
     else if n < 30 then False else if n < 32 then bit tunnelType (n - 30)
     else if n < 48 then bit sl (n - 32) else n < 64 \<and> bit aclGid (n - 48))"
  by (auto simp: ToNpbAction_def mask_consts bit_simps dest: bit_imp_le_length)

lemmas bit_fields_simps = bit_TapSide bit_SetTapSide bit_TunnelId bit_SetTunnelId bit_PayloadSlice bit_SetPayloadSlice
  bit_TunnelType bit_TunnelGid bit_AddTapSide bit_ToNpbAction

lemma bit_high_false: "LENGTH('a) \<le> n \<Longrightarrow> \<not> bit (w :: 'a::len word) n"
  using bit_imp_le_length by fastforce

interpretation f_side: bit_field TapSide SetTapSide "\<lambda>v. take_bit 2 v = v"
proof
  show "take_bit 2 (TapSide a) = TapSide a" for a
    by (rule bit_word_eqI) (auto simp: bit_simps bit_TapSide)
  show "TapSide (SetTapSide v a) = v" if "take_bit 2 v = v" for v a
  proof (rule bit_word_eqI)
    fix n
    have "bit v n \<longleftrightarrow> n < 2 \<and> bit v n" using that by (metis bit_take_bit_iff)
    then show "bit (TapSide (SetTapSide v a)) n = bit v n" by (auto simp: bit_fields_simps)
  qed
  show "SetTapSide v (SetTapSide w a) = SetTapSide v a" for v w a
    by (rule bit_word_eqI) (auto simp: bit_fields_simps)
  show "SetTapSide (TapSide a) a = a" for a
    by (rule bit_word_eqI) (auto simp: bit_fields_simps)
qed

interpretation f_id: bit_field TunnelId SetTunnelId "\<lambda>v. take_bit 24 v = v"
proof
  show "take_bit 24 (TunnelId a) = TunnelId a" for a
    by (rule bit_word_eqI) (auto simp: bit_simps bit_TunnelId)
  show "TunnelId (SetTunnelId v a) = v" if "take_bit 24 v = v" for v a
  proof (rule bit_word_eqI)
    fix n
    have "bit v n \<longleftrightarrow> n < 24 \<and> bit v n" using that by (metis bit_take_bit_iff)
    then show "bit (TunnelId (SetTunnelId v a)) n = bit v n" by (auto simp: bit_fields_simps)
  qed
  show "SetTunnelId v (SetTunnelId w a) = SetTunnelId v a" for v w a
    by (rule bit_word_eqI) (auto simp: bit_fields_simps)
  show "SetTunnelId (TunnelId a) a = a" for a
    by (rule bit_word_eqI) (auto simp: bit_fields_simps)
qed

interpretation f_slice: bit_field PayloadSlice SetPayloadSlice "\<lambda>_. True"
  by unfold_locales (simp_all, (rule bit_word_eqI, auto simp: bit_fields_simps)+)

interpretation f_side_slice: bit_fields TapSide SetTapSide "\<lambda>v. take_bit 2 v = v" PayloadSlice SetPayloadSlice "\<lambda>_. True"
  by unfold_locales (rule bit_word_eqI, auto simp: bit_fields_simps)+

interpretation f_side_id: bit_fields TapSide SetTapSide "\<lambda>v. take_bit 2 v = v" TunnelId SetTunnelId "\<lambda>v. take_bit 24 v = v"
  by unfold_locales (rule bit_word_eqI, auto simp: bit_fields_simps)+

interpretation f_slice_id: bit_fields PayloadSlice SetPayloadSlice "\<lambda>_. True" TunnelId SetTunnelId "\<lambda>v. take_bit 24 v = v"
  by unfold_locales (rule bit_word_eqI, auto simp: bit_fields_simps)+

text \<open>The setters leave the tunnel type and the group alone.\<close>

lemma tunnel_kept [simp]:
  "TunnelType (SetTapSide v a) = TunnelType a" "TunnelType (SetPayloadSlice s a) = TunnelType a"
  "TunnelType (AddTapSide v a) = TunnelType a" "TunnelGid (SetTapSide v a) = TunnelGid a"
  "TunnelGid (SetPayloadSlice s a) = TunnelGid a" "TunnelGid (AddTapSide v a) = TunnelGid a"
  "TunnelId (SetTapSide v a) = TunnelId a" "TunnelId (SetPayloadSlice s a) = TunnelId a"
  "TunnelId (AddTapSide v a) = TunnelId a"
  "PayloadSlice (AddTapSide v a) = PayloadSlice a" "PayloadSlice (SetTapSide v a) = PayloadSlice a"
  "TapSide (SetPayloadSlice s a) = TapSide a"
  by (rule bit_word_eqI, auto simp: bit_fields_simps)+

lemma TunnelIpId_gid: "TunnelIpId tm a = (if TunnelType a = NPB_TUNNEL_TYPE_PCAP then 0 else tm_id tm (TunnelGid a))"
  by (simp add: TunnelIpId_def GetTunnelIpId_def TunnelGid_def)

section \<open>Merging laws\<close>

lemma AddAclGid_simps [simp]: "AddAclGid [] a = a"
  "AddAclGid (g # gs) a = AddAclGid gs (if g \<in> set (npb_aclGids a) then a else a\<lparr>npb_aclGids := npb_aclGids a @ [g]\<rparr>)"
  by (simp_all add: AddAclGid_def)

lemma AddAclGid_laws:
  "npb_action (AddAclGid gs a) = npb_action a"
  "set (npb_aclGids (AddAclGid gs a)) = set (npb_aclGids a) \<union> set gs"
  "distinct (npb_aclGids a) \<Longrightarrow> distinct (npb_aclGids (AddAclGid gs a))"
  "prefix (npb_aclGids a) (npb_aclGids (AddAclGid gs a))"
proof (induction gs arbitrary: a)
  case (Cons g gs)
  case 4
  let ?a = "if g \<in> set (npb_aclGids a) then a else a\<lparr>npb_aclGids := npb_aclGids a @ [g]\<rparr>"
  have "prefix (npb_aclGids a) (npb_aclGids ?a)" by simp
  also have "prefix \<dots> (npb_aclGids (AddAclGid gs ?a))" by (rule Cons.IH)
  finally show ?case by simp
qed auto

text \<open>An action goes on in another one: the same tunnel, with the groups it had first.\<close>

definition grows :: "TunnelMaps \<Rightarrow> NpbActions \<Rightarrow> NpbActions \<Rightarrow> bool" where
  "grows tm m a \<longleftrightarrow> same_tunnel tm m a \<and> prefix (npb_aclGids m) (npb_aclGids a) \<and>
     (distinct (npb_aclGids m) \<longrightarrow> distinct (npb_aclGids a))"

lemma grows_refl: "grows tm m m"
  by (simp add: grows_def same_tunnel_def)

lemma grows_trans: "grows tm a b \<Longrightarrow> grows tm b c \<Longrightarrow> grows tm a c"
  by (auto simp: grows_def same_tunnel_def)

lemma join_action_laws:
  assumes "same_tunnel tm m n"
  shows "grows tm m (join_action directions n m)" "same_tunnel tm (join_action directions n m) n"
    "set (npb_aclGids n) \<subseteq> set (npb_aclGids (join_action directions n m))"
proof -
  have "\<exists>a. join_action directions n m = AddAclGid (npb_aclGids n) a \<and> npb_aclGids a = npb_aclGids m \<and> same_tunnel tm m a"
    unfolding join_action_def Let_def GetAclGid_def
    by (rule exI, rule conjI, rule refl) (auto simp: on_action_def same_tunnel_def TunnelIpId_gid split: list.splits)
  then obtain a where a: "join_action directions n m = AddAclGid (npb_aclGids n) a" "npb_aclGids a = npb_aclGids m"
    "same_tunnel tm m a" by blast
  note l = AddAclGid_laws [where gs = "npb_aclGids n" and a = a, unfolded a(2)]
  show "grows tm m (join_action directions n m)" "same_tunnel tm (join_action directions n m) n"
    "set (npb_aclGids n) \<subseteq> set (npb_aclGids (join_action directions n m))"
    using a(3) assms l by (auto simp: a(1) grows_def same_tunnel_def)
qed

definition covers :: "TunnelMaps \<Rightarrow> NpbActions list \<Rightarrow> NpbActions \<Rightarrow> bool" where
  "covers tm as n \<longleftrightarrow> (\<exists>a\<in>set as. same_tunnel tm a n \<and> set (npb_aclGids n) \<subseteq> set (npb_aclGids a))"

lemma merge_scan_laws:
  assumes "npb_aclGids n \<noteq> []"
  shows "\<exists>as r. merge_scan tm directions n ms = Some (as, r) \<and> list_all2 (grows tm) ms as \<and>
    (r \<longrightarrow> covers tm as n) \<and> (\<not> r \<longrightarrow> as = ms)"
proof (induction ms)
  case (Cons m ms)
  then obtain as r where s: "merge_scan tm directions n ms = Some (as, r)" "list_all2 (grows tm) ms as"
    "r \<longrightarrow> covers tm as n" "\<not> r \<longrightarrow> as = ms" by blast
  obtain g gs where g: "npb_aclGids n = g # gs" using assms by (cases "npb_aclGids n") auto
  have eq: "grows tm m (AddAclGid (npb_aclGids n) m)" "covers tm (AddAclGid (npb_aclGids n) m # ms) n"
    if "npb_action m = npb_action n"
    using that AddAclGid_laws by (auto simp: grows_def covers_def same_tunnel_def)
  have join: "covers tm (join_action directions n m # as) n" "grows tm m (join_action directions n m)" if "same_tunnel tm m n"
    using join_action_laws [OF that] by (auto simp: covers_def)
  have skip: "r \<longrightarrow> covers tm (m # as) n" using s(3) by (auto simp: covers_def)
  show ?case
    using eq join skip s(2,4) by (auto simp: s(1) Let_def GetAclGid_def g grows_refl list_all2_refl)
next
  case Nil
  show ?case by (intro exI [of _ "[]"] exI [of _ False]) simp
qed

definition extends :: "TunnelMaps \<Rightarrow> NpbActions list \<Rightarrow> NpbActions list \<Rightarrow> bool" where
  "extends tm ms as \<longleftrightarrow> (\<exists>bs cs. as = bs @ cs \<and> list_all2 (grows tm) ms bs)"

lemma extends_refl: "extends tm ms ms"
  unfolding extends_def by (rule exI [of _ ms], rule exI [of _ "[]"]) (simp add: list_all2_refl grows_refl)

lemma extends_trans: "extends tm as bs \<Longrightarrow> extends tm bs cs \<Longrightarrow> extends tm as cs"
proof -
  assume "extends tm as bs" "extends tm bs cs"
  then obtain b b' c c' where e: "bs = b @ b'" "list_all2 (grows tm) as b" "cs = c @ c'" "list_all2 (grows tm) bs c"
    by (auto simp: extends_def)
  then obtain c1 c2 where c: "c = c1 @ c2" "list_all2 (grows tm) b c1" by (auto simp: list_all2_append1)
  have "list_all2 (grows tm) as c1" using list_all2_trans [OF _ e(2) c(2)] grows_trans by blast
  then show ?thesis using e(3) c(1) by (auto simp: extends_def)
qed

lemma covers_extends: "covers tm as n \<Longrightarrow> extends tm as bs \<Longrightarrow> covers tm bs n"
proof -
  assume "covers tm as n" "extends tm as bs"
  then obtain a b c where a: "a \<in> set as" "same_tunnel tm a n" "set (npb_aclGids n) \<subseteq> set (npb_aclGids a)"
    and b: "bs = b @ c" "list_all2 (grows tm) as b" by (auto simp: covers_def extends_def)
  then obtain a' where a': "a' \<in> set b" "grows tm a a'" by (metis in_set_conv_nth list_all2_conv_all_nth)
  then have "same_tunnel tm a' n" "set (npb_aclGids n) \<subseteq> set (npb_aclGids a')"
    using a by (auto simp: grows_def same_tunnel_def dest: set_mono_prefix)
  then show ?thesis using a' b by (auto simp: covers_def)
qed

text \<open>
  The groups of each action are distinct and there is one, and the flag says when there is a PCAP
  action.
\<close>

definition action_ok :: "u16 \<Rightarrow> NpbActions \<Rightarrow> bool" where
  "action_ok flags a \<longleftrightarrow> npb_aclGids a \<noteq> [] \<and> distinct (npb_aclGids a) \<and>
     (TunnelType (npb_action a) = NPB_TUNNEL_TYPE_PCAP \<longrightarrow> flags AND ACTION_PCAP \<noteq> 0)"

definition policy_ok :: "PolicyData \<Rightarrow> bool" where
  "policy_ok d \<longleftrightarrow> list_all (action_ok (pd_ActionFlags d)) (pd_NpbActions d)"

lemma grows_ok: "grows tm m a \<Longrightarrow> action_ok flags m \<Longrightarrow> action_ok flags a"
  by (auto simp: grows_def action_ok_def same_tunnel_def)

lemma list_grows_ok: "list_all2 (grows tm) ms as \<Longrightarrow> list_all (action_ok flags) ms \<Longrightarrow> list_all (action_ok flags) as"
  by (induction rule: list_all2_induct) (auto intro: grows_ok)

lemma ACTION_PCAP_not_0 [simp]: "ACTION_PCAP \<noteq> 0"
  by (simp add: ACTION_PCAP_def)

lemma pcap_flag: "(flags OR ACTION_PCAP) AND ACTION_PCAP \<noteq> 0"
proof -
  have "(flags OR ACTION_PCAP) AND ACTION_PCAP = ACTION_PCAP"
    by (rule bit_word_eqI) (auto simp: bit_simps)
  then show ?thesis by (simp add: ACTION_PCAP_def)
qed

lemma action_ok_flag: "action_ok flags a \<Longrightarrow> action_ok (flags OR ACTION_PCAP) a"
  by (simp add: action_ok_def pcap_flag)

lemma merge_one_laws:
  assumes n: "npb_aclGids n \<noteq> []" "distinct (npb_aclGids n)"
  shows "\<exists>d'. merge_one tm directions n d = Some d' \<and> extends tm (pd_NpbActions d) (pd_NpbActions d') \<and>
    covers tm (pd_NpbActions d') n \<and> (policy_ok d \<longrightarrow> policy_ok d') \<and> pd_AclId d' = pd_AclId d"
proof -
  obtain as r where s: "merge_scan tm directions n (pd_NpbActions d) = Some (as, r)"
    "list_all2 (grows tm) (pd_NpbActions d) as" "r \<longrightarrow> covers tm as n" "\<not> r \<longrightarrow> as = pd_NpbActions d"
    using merge_scan_laws [OF n(1)] by blast
  show ?thesis
  proof (cases r)
    case True
    then show ?thesis using s list_grows_ok [OF s(2)] by (auto simp: merge_one_def extends_def policy_ok_def)
  next
    case False
    let ?n = "case directions of dir # _ \<Rightarrow> on_action (SetTapSide (ucast dir)) n | [] \<Rightarrow> n"
    have t: "same_tunnel tm ?n n" "npb_aclGids ?n = npb_aclGids n"
      by (auto simp: on_action_def same_tunnel_def TunnelIpId_gid split: list.splits)
    have "action_ok (pd_ActionFlags d OR ACTION_PCAP) ?n" using n t(2) by (simp add: action_ok_def pcap_flag)
    moreover have "action_ok (pd_ActionFlags d) ?n" if "\<not> doTridentPcap ?n"
      using that n t(2) by (simp add: action_ok_def doTridentPcap_def)
    ultimately show ?thesis
      using s False t grows_refl
      by (auto simp: merge_one_def Let_def covers_def policy_ok_def extends_def list_all_iff action_ok_flag list_all2_refl)
  qed
qed

lemma merge_all_laws:
  assumes "\<forall>n\<in>set ns. npb_aclGids n \<noteq> [] \<and> distinct (npb_aclGids n)"
  shows "\<exists>d'. merge_all tm directions ns d = Some d' \<and> extends tm (pd_NpbActions d) (pd_NpbActions d') \<and>
    (\<forall>n\<in>set ns. covers tm (pd_NpbActions d') n) \<and> (policy_ok d \<longrightarrow> policy_ok d') \<and> pd_AclId d' = pd_AclId d"
  using assms
proof (induction ns arbitrary: d)
  case (Cons n ns)
  then obtain d1 where d1: "merge_one tm directions n d = Some d1" "extends tm (pd_NpbActions d) (pd_NpbActions d1)"
    "covers tm (pd_NpbActions d1) n" "policy_ok d \<longrightarrow> policy_ok d1" "pd_AclId d1 = pd_AclId d"
    using merge_one_laws [of n tm directions d] by auto
  obtain d' where d': "merge_all tm directions ns d1 = Some d'" "extends tm (pd_NpbActions d1) (pd_NpbActions d')"
    "\<forall>n\<in>set ns. covers tm (pd_NpbActions d') n" "policy_ok d1 \<longrightarrow> policy_ok d'" "pd_AclId d' = pd_AclId d1"
    using Cons.IH [of d1] Cons.prems by auto
  show ?case
    using d1 d' extends_trans [OF d1(2) d'(2)] covers_extends [OF d1(3) d'(2)] by auto
qed (simp add: extends_refl)

section \<open>Wire laws\<close>

interpretation c_gids: codec_pair WriteU64 ReadU64 "put_le 8" "\<lambda>_. True" WriteU16Slice ReadU16Slice
  "\<lambda>vs. put_le 4 (of_nat (length vs) :: u32) @ concat (map (put_le 2) vs)" "\<lambda>vs. length vs < 2 ^ 32" ..

definition npb_wire :: "NpbActions \<Rightarrow> bytes" where
  "npb_wire n = put_le 8 (npb_action n) @ put_le 4 (of_nat (length (npb_aclGids n)) :: u32) @ concat (map (put_le 2) (npb_aclGids n))"

interpretation c_npb: field_codec NpbActions_Encode NpbActions_Decode npb_wire "\<lambda>n. length (npb_aclGids n) < 2 ^ 32"
proof
  show "NpbActions_Encode v e = append_buf (npb_wire v) e" for v e
    using c_gids.both.wr_wire [of "(npb_action v, npb_aclGids v)" e] by (simp add: NpbActions_Encode_def npb_wire_def)
  show "NpbActions_Decode d = (v, advance (length (npb_wire v)) d)"
    if "length (npb_aclGids v) < 2 ^ 32" "at d (npb_wire v @ rest)" for v d rest
    using c_gids.both.rd_wire [of "(npb_action v, npb_aclGids v)" d rest] that
    by (auto simp: NpbActions_Decode_def npb_wire_def Let_def split: prod.splits)
qed

definition policy_wire :: "PolicyData \<Rightarrow> bytes" where
  "policy_wire p = put_le 4 (of_nat (length (pd_NpbActions p)) :: u32) @ concat (map npb_wire (pd_NpbActions p)) @
     put_le 4 (pd_AclId p) @ put_le 2 (pd_ActionFlags p)"

definition sendable :: "PolicyData \<Rightarrow> bool" where
  "sendable p \<longleftrightarrow> length (pd_NpbActions p) < 2 ^ 32 \<and> list_all (\<lambda>n. length (npb_aclGids n) < 2 ^ 32) (pd_NpbActions p)"

lemma PolicyData_Encode_wire: "PolicyData_Encode p e = append_buf (policy_wire p) e"
  by (simp add: PolicyData_Encode_def Let_def c_u32.wr_wire c_u16.wr_wire c_npb.wr_list policy_wire_def)

lemma PolicyData_Decode_wire:
  assumes ok: "sendable p" and d: "at d (policy_wire p @ rest)"
  shows "PolicyData_Decode p0 d =
    (if pd_NpbActions p = [] then p\<lparr>pd_NpbActions := pd_NpbActions p0\<rparr> else p, advance (length (policy_wire p)) d)"
proof -
  let ?n = "length (pd_NpbActions p)" and ?as = "concat (map npb_wire (pd_NpbActions p))"
  define d1 where "d1 = advance 4 d"
  define d2 where "d2 = advance (length ?as) d1"
  define d3 where "d3 = advance 4 d2"
  have n: "unat (of_nat ?n :: u32) = ?n" using ok by (simp add: sendable_def unat_of_nat)
  have a0: "at d (put_le 4 (of_nat ?n :: u32) @ ?as @ put_le 4 (pd_AclId p) @ put_le 2 (pd_ActionFlags p) @ rest)"
    using d by (simp add: policy_wire_def)
  have a1: "at d1 (?as @ put_le 4 (pd_AclId p) @ put_le 2 (pd_ActionFlags p) @ rest)"
    using at_advance [OF a0] by (simp add: d1_def)
  have a2: "at d2 (put_le 4 (pd_AclId p) @ put_le 2 (pd_ActionFlags p) @ rest)" using at_advance [OF a1] by (simp add: d2_def)
  have a3: "at d3 (put_le 2 (pd_ActionFlags p) @ rest)" using at_advance [OF a2] by (simp add: d3_def)
  have r0: "ReadU32 d = (of_nat ?n, d1)" using c_u32.rd_wire [OF _ a0] by (simp add: d1_def)
  have r1: "read_times ?n NpbActions_Decode d1 = (pd_NpbActions p, d2)"
    using c_npb.rd_list [OF _ a1] ok by (simp add: sendable_def d2_def)
  have r2: "ReadU32 d2 = (pd_AclId p, d3)" using c_u32.rd_wire [OF _ a2] by (simp add: d3_def)
  have r3: "ReadU16 d3 = (pd_ActionFlags p, advance 2 d3)" using c_u16.rd_wire [OF _ a3] by simp
  have end_pos: "advance 2 d3 = advance (length (policy_wire p)) d"
    by (simp add: d1_def d2_def d3_def policy_wire_def add_ac)
  have pos: "(of_nat ?n :: u32) > 0 \<longleftrightarrow> pd_NpbActions p \<noteq> []"
  proof -
    have "unat (of_nat ?n :: u32) = 0 \<longleftrightarrow> pd_NpbActions p = []" unfolding n by simp
    then show ?thesis by (simp add: unsigned_eq_0_iff flip: word_neq_0_conv)
  qed
  have empty: "d2 = d1" if "pd_NpbActions p = []" using that by (simp add: d2_def)
  show ?thesis
  proof (cases "pd_NpbActions p = []")
    case True
    have "p0\<lparr>pd_AclId := pd_AclId p, pd_ActionFlags := pd_ActionFlags p\<rparr> = p\<lparr>pd_NpbActions := pd_NpbActions p0\<rparr>" by simp
    then show ?thesis
      unfolding PolicyData_Decode_def r0 prod.case Let_def pos n using True r2 [unfolded empty [OF True]] by (simp add: r3 end_pos)
  next
    case False
    then show ?thesis
      unfolding PolicyData_Decode_def r0 prod.case Let_def pos n r1 by (simp add: r2 r3 end_pos)
  qed
qed

section \<open>Deduplication laws\<close>

lemma Dedup_tor:
  assumes "lk_TapType packet = TAP_TOR"
  shows "pd_NpbActions (Dedup packet d) = filter (valid_action packet) (pd_NpbActions d)"
  using assms by (auto simp: Dedup_def dedupNpbAction_def INVALID_POLICY_DATA_def Let_def)

lemma Dedup_idem: "Dedup packet (Dedup packet d) = Dedup packet d"
proof (cases "lk_TapType packet = TAP_TOR \<and> pd_NpbActions d \<noteq> []")
  case True
  let ?v = "filter (valid_action packet) (pd_NpbActions d)"
  have d: "Dedup packet d = (if ?v = [] \<and> pd_ActionFlags d = 0 then INVALID_POLICY_DATA else d\<lparr>pd_NpbActions := ?v\<rparr>)"
    using True by (simp add: Dedup_def dedupNpbAction_def Let_def)
  show ?thesis unfolding d using True by (auto simp: Dedup_def dedupNpbAction_def INVALID_POLICY_DATA_def)
qed (auto simp: Dedup_def)

section \<open>Properties\<close>

text \<open>Packing and unpacking an action: each field is read back, cut to its width, and packing the
  fields of an action gives it back with its four unused bits cleared.\<close>

theorem npb_action_fields:
  "TunnelGid (ToNpbAction g i ty side sl) = ucast g \<and> PayloadSlice (ToNpbAction g i ty side sl) = sl \<and>
   TunnelType (ToNpbAction g i ty side sl) = ty AND 3 \<and> TapSide (ToNpbAction g i ty side sl) = ucast side AND TAPSIDE_MASK \<and>
   TunnelId (ToNpbAction g i ty side sl) = i AND 0xffffff \<and>
   ToNpbAction (ucast (TunnelGid a)) (TunnelId a) (TunnelType a) (ucast (TapSide a)) (PayloadSlice a) = a AND NOT 0x33000000"
proof (intro conjI)
  have unused: "bit (0x33000000 :: u64) n \<longleftrightarrow> n = 24 \<or> n = 25 \<or> n = 28 \<or> n = 29" for n
  proof -
    have eq: "(0x33000000 :: u64) = push_bit 24 (mask 2) OR push_bit 28 (mask 2)" by (simp add: mask_eq_exp_minus_1)
    show ?thesis by (subst eq) (auto simp: bit_or_iff bit_push_bit_iff bit_mask_iff possible_bit_word)
  qed
  define k :: u64 where "k = NOT 0x33000000"
  have used: "bit k n \<longleftrightarrow> n < 64 \<and> \<not> (n = 24 \<or> n = 25 \<or> n = 28 \<or> n = 29)" for n
    by (simp only: k_def bit_not_iff unused possible_bit_word, simp)
  show "ToNpbAction (ucast (TunnelGid a)) (TunnelId a) (TunnelType a) (ucast (TapSide a)) (PayloadSlice a) = a AND NOT 0x33000000"
    unfolding k_def [symmetric] by (rule bit_word_eqI) (auto simp: bit_fields_simps bit_ucast_iff bit_and_iff used)
qed (rule bit_word_eqI; auto simp: bit_fields_simps bit_ucast_iff bit_and_iff mask_consts bit_mask_iff possible_bit_word)+

text \<open>C14: Merging actions, each with at least one group and none of its groups twice, into a well formed policy never panics and gives a
  well formed policy again. The actions that were there go on at their places with the groups they
  had, and every merged action is covered: some action of the same tunnel has all of its groups.
  The first access list number stays.\<close>

theorem merge_covers_actions:
  assumes "\<forall>n\<in>set actions. npb_aclGids n \<noteq> [] \<and> distinct (npb_aclGids n)" "policy_ok d"
  shows "\<exists>d'. MergeNpbAction tm actions aclID directions d = Some d' \<and> policy_ok d' \<and>
    extends tm (pd_NpbActions d) (pd_NpbActions d') \<and> (\<forall>n\<in>set actions. covers tm (pd_NpbActions d') n) \<and>
    pd_AclId d' = (if pd_AclId d = 0 then aclID else pd_AclId d)"
proof -
  let ?d = "if pd_AclId d = 0 then d\<lparr>pd_AclId := aclID\<rparr> else d"
  have "policy_ok ?d" "pd_NpbActions ?d = pd_NpbActions d" using assms(2) by (simp_all add: policy_ok_def)
  with merge_all_laws [OF assms(1), of tm directions ?d] show ?thesis by (auto simp: MergeNpbAction_def)
qed

theorem merge_covers_actions_witness:
  "\<exists>d'. MergeNpbAction \<lparr>tm_ip = \<lambda>_. None, tm_id = \<lambda>_. 0\<rparr> [ToNpbActions 5 9 0 1 100] 77 [] INVALID_POLICY_DATA = Some d' \<and>
     covers \<lparr>tm_ip = \<lambda>_. None, tm_id = \<lambda>_. 0\<rparr> (pd_NpbActions d') (ToNpbActions 5 9 0 1 100) \<and> pd_AclId d' = 77"
  using merge_covers_actions [of "[ToNpbActions 5 9 0 1 100]" INVALID_POLICY_DATA "\<lparr>tm_ip = \<lambda>_. None, tm_id = \<lambda>_. 0\<rparr>" 77 "[]"]
  by (auto simp: ToNpbActions_def policy_ok_def INVALID_POLICY_DATA_def)

text \<open>How much of the payload survives a merge depends on the order: the whole payload, a slice of 0, wins
  over 100 bytes when it comes second and loses when it comes first.\<close>

theorem merge_payload_order:
  "let whole = ToNpbActions 5 9 0 1 0; part = ToNpbActions 5 9 0 1 100;
       merged = (\<lambda>as. map_option (\<lambda>d. map (PayloadSlice \<circ> npb_action) (pd_NpbActions d)) (MergeNpbAction tm as 1 [] INVALID_POLICY_DATA))
   in merged [part, whole] = Some [0] \<and> merged [whole, part] = Some [100]"
proof -
  let ?whole = "ToNpbAction 5 9 0 1 0" and ?part = "ToNpbAction 5 9 0 1 100"
  have s: "PayloadSlice ?whole = 0" "PayloadSlice ?part = 100" "TunnelType ?whole = TunnelType ?part"
    "TunnelId ?whole = TunnelId ?part" "TunnelGid ?whole = TunnelGid ?part"
    by (rule bit_word_eqI; auto simp: bit_fields_simps)+
  have ne: "?whole \<noteq> ?part" "?part \<noteq> ?whole" using s(1,2) by auto
  have ty: "TunnelType ?part \<noteq> NPB_TUNNEL_TYPE_PCAP"
  proof -
    have "\<not> bit (TunnelType ?part) 1" by (simp add: bit_fields_simps)
    moreover have "bit NPB_TUNNEL_TYPE_PCAP 1" by (simp add: NPB_TUNNEL_TYPE_PCAP_def)
    ultimately show ?thesis by metis
  qed
  show ?thesis
    by (simp add: Let_def ToNpbActions_def MergeNpbAction_def merge_one_def INVALID_POLICY_DATA_def doTridentPcap_def
        same_tunnel_def TunnelIpId_gid s ne ty join_action_def on_action_def GetAclGid_def f_slice.get_set)
qed

text \<open>C29: A policy is read back from what was sent, into a fresh policy; read into one that has actions, a
  policy without actions leaves those in place.\<close>

theorem policy_round_trip:
  assumes "sendable p"
  shows "fst (PolicyData_Decode p0 (Decoder_Init (Encoder_Bytes (PolicyData_Encode p (Encoder_Reset e))) spare d)) =
    (if pd_NpbActions p = [] then p\<lparr>pd_NpbActions := pd_NpbActions p0\<rparr> else p)"
proof -
  let ?d = "Decoder_Init (Encoder_Bytes (PolicyData_Encode p (Encoder_Reset e))) spare d"
  have "at ?d (policy_wire p @ [])"
    by (simp add: at_def Decoder_Init_def PolicyData_Encode_wire Encoder_Bytes_def Encoder_Reset_def)
  from PolicyData_Decode_wire [OF assms this] show ?thesis by simp
qed

theorem policy_round_trip_witness:
  "fst (PolicyData_Decode INVALID_POLICY_DATA (Decoder_Init (Encoder_Bytes (PolicyData_Encode
     \<lparr>pd_NpbActions = [ToNpbActions 5 9 0 1 100], pd_AclId = 3, pd_ActionFlags = 0\<rparr> (Encoder_Reset \<lparr>enc_buf = [], enc_refs = 1\<rparr>))) []
     \<lparr>dec_buf = [], dec_spare = [], dec_offset = 0, dec_err = 0\<rparr>)) = \<lparr>pd_NpbActions = [ToNpbActions 5 9 0 1 100], pd_AclId = 3, pd_ActionFlags = 0\<rparr>"
  by (subst policy_round_trip) (simp_all add: sendable_def ToNpbActions_def)

text \<open>Deduplication at a switch keeps exactly the actions that capture to a file or whose side is local to the
  packet's end, in their order; without any action and flag left the policy is invalid. Doing it
  twice changes nothing more.\<close>

theorem dedup_exact:
  assumes "lk_TapType packet = TAP_TOR"
  shows "pd_NpbActions (Dedup packet d) = filter (valid_action packet) (pd_NpbActions d) \<and>
    Dedup packet (Dedup packet d) = Dedup packet d \<and>
    (pd_NpbActions d \<noteq> [] \<and> filter (valid_action packet) (pd_NpbActions d) = [] \<and> pd_ActionFlags d = 0 \<longrightarrow>
       \<not> PolicyData_Valid (Dedup packet d))"
  using Dedup_tor [OF assms] Dedup_idem assms
  by (auto simp: Dedup_def dedupNpbAction_def PolicyData_Valid_def INVALID_POLICY_DATA_def Let_def)

theorem dedup_exact_witness:
  "\<not> PolicyData_Valid (Dedup \<lparr>lk_L2End0 = False, lk_L2End1 = True, lk_L3End0 = True, lk_L3End1 = True, lk_TapType = 3\<rparr>
     \<lparr>pd_NpbActions = [ToNpbActions 5 9 0 1 100], pd_AclId = 3, pd_ActionFlags = 0\<rparr>)"
proof -
  let ?p = "\<lparr>lk_L2End0 = False, lk_L2End1 = True, lk_L3End0 = True, lk_L3End1 = True, lk_TapType = 3\<rparr>"
  have b: "\<not> bit (TapSide (ToNpbAction 5 9 0 1 100)) 1" "\<not> bit (TunnelType (ToNpbAction 5 9 0 1 100)) 1" by (simp_all add: bit_fields_simps)
  have "bit NPB_TUNNEL_TYPE_PCAP 1" "bit TAPSIDE_DST 1" by (simp_all add: NPB_TUNNEL_TYPE_PCAP_def TAPSIDE_DST_def)
  then have "TunnelType (ToNpbAction 5 9 0 1 100) \<noteq> NPB_TUNNEL_TYPE_PCAP" "\<not> TapSideCompare (ToNpbAction 5 9 0 1 100) TAPSIDE_DST"
    using b unfolding TapSideCompare_def by (metis, metis bit_and_iff)
  then have "\<not> valid_action ?p (ToNpbActions 5 9 0 1 100)" by (simp add: valid_action_def ToNpbActions_def)
  then show ?thesis using dedup_exact [of ?p "\<lparr>pd_NpbActions = [ToNpbActions 5 9 0 1 100], pd_AclId = 3, pd_ActionFlags = 0\<rparr>"]
    by (simp add: TAP_TOR_def)
qed

end
