(* ===== verification/U64_Lru.thy ===== *)
theory U64_Lru
  imports Go_Prelude "HOL-Library.Monad_Syntax"
begin

text \<open>
  The map with least recently used eviction of \<^verbatim>\<open>server/libs/hmap/lru/u64_lru.go\<close>, keyed by 64 bit integers
  that are hashed with \<^verbatim>\<open>keyhash/jenkins.go\<close>.

  Nodes live in a ring of blocks and are named by their position in it. Each node is in two
  doubly linked lists, the collision chain of its hash slot and the list of all nodes by age; \<open>-1\<close>
  is the end of a list. Removing a node moves the first node of the ring into its place, so that
  the nodes in use are always a contiguous part of the ring and blocks can be given back.

  Positions are integers. \<open>None\<close> is a panic, or a loop that does not end. A block comes from a pool
  with whatever it held before: it is an argument of the operations that may need one. Values
  are optional because \<^verbatim>\<open>nil\<close> is one of them.
\<close>

section \<open>Hashing\<close>

definition Jenkins :: "u64 \<Rightarrow> i32" where
  "Jenkins hash =
     (let hash = push_bit 21 hash - hash - 1;
          hash = hash XOR drop_bit 24 hash;
          hash = (hash + push_bit 3 hash) + push_bit 8 hash;
          hash = hash XOR drop_bit 14 hash;
          hash = (hash + push_bit 2 hash) + push_bit 4 hash;
          hash = hash XOR drop_bit 28 hash;
          hash = hash + push_bit 31 hash
      in ucast hash)"

text \<open>The least power of two that is not below \<open>v\<close>, and its exponent; \<open>(1, 0)\<close> past \<open>2 ^ 29\<close>.\<close>

definition minPowerOfTwo :: "int \<Rightarrow> int \<times> nat" where
  "minPowerOfTwo v = (case find (\<lambda>i. v \<le> 2 ^ i) [0..<30] of Some i \<Rightarrow> (2 ^ i, i) | None \<Rightarrow> (1, 0))"

section \<open>State\<close>

definition BLOCK_SIZE :: int where "BLOCK_SIZE = 256"

record 'v u64LRUNode =
  nd_key :: u64
  nd_value :: "'v option"
  hashListNext :: int
  hashListPrev :: int
  timeListNext :: int
  timeListPrev :: int

definition blankU64LRUNodeForInit :: "'v u64LRUNode" where
  "blankU64LRUNodeForInit = \<lparr>nd_key = 0, nd_value = None, hashListNext = 0, hashListPrev = 0, timeListNext = 0, timeListPrev = 0\<rparr>"

type_synonym 'v ring = "'v u64LRUNode list option list"

record LruCounter =
  lc_Max :: int
  lc_Size :: int
  lc_AvgScan :: int
  lc_totalScan :: int
  lc_scanTimes :: int

definition LruCounter_zero :: LruCounter where
  "LruCounter_zero = \<lparr>lc_Max = 0, lc_Size = 0, lc_AvgScan = 0, lc_totalScan = 0, lc_scanTimes = 0\<rparr>"

record 'v U64LRU =
  ringBuffer :: "'v ring"
  bufferStartIndex :: int
  bufferEndIndex :: int
  hashSlots :: int
  hashSlotHead :: "int list"
  timeListHead :: int
  timeListTail :: int
  lru_capacity :: int
  lru_size :: int
  lru_counter :: LruCounter
  collisionChainDebugThreshold :: u32
  debugChain :: "bytes option"
  debugChainRead :: bool

definition incIndex :: "'v U64LRU \<Rightarrow> int \<Rightarrow> int" where
  "incIndex m i = (if (i + 1) div BLOCK_SIZE \<ge> int (length (ringBuffer m)) then 0 else i + 1)"

definition decIndex :: "'v U64LRU \<Rightarrow> int \<Rightarrow> int" where
  "decIndex m i = (if i \<le> 0 then int (length (ringBuffer m)) * BLOCK_SIZE - 1 else i - 1)"

text \<open>\<^verbatim>\<open>getNode\<close> gives a pointer: reading through it, and writing through it.\<close>

definition ring_get :: "'v ring \<Rightarrow> int \<Rightarrow> 'v u64LRUNode option" where
  "ring_get r i =
     (let row = i div BLOCK_SIZE; col = i mod BLOCK_SIZE in
      if row < 0 \<or> row \<ge> int (length r) then None
      else case r ! nat row of
          None \<Rightarrow> None
        | Some blk \<Rightarrow> if nat col < length blk then Some (blk ! nat col) else None)"

definition ring_set :: "int \<Rightarrow> 'v u64LRUNode \<Rightarrow> 'v ring \<Rightarrow> 'v ring" where
  "ring_set i n r =
     (let row = nat (i div BLOCK_SIZE); col = nat (i mod BLOCK_SIZE) in
      r[row := map_option (\<lambda>blk. blk[col := n]) (r ! row)])"

definition getNode :: "'v U64LRU \<Rightarrow> int \<Rightarrow> 'v u64LRUNode option" where
  "getNode m i = ring_get (ringBuffer m) i"

definition upd :: "int \<Rightarrow> ('v u64LRUNode \<Rightarrow> 'v u64LRUNode) \<Rightarrow> 'v U64LRU \<Rightarrow> 'v U64LRU option" where
  "upd i f m = map_option (\<lambda>n. m\<lparr>ringBuffer := ring_set i (f n) (ringBuffer m)\<rparr>) (getNode m i)"

definition compressHash :: "'v U64LRU \<Rightarrow> u64 \<Rightarrow> int" where
  "compressHash m hash = sint (Jenkins hash AND of_int (hashSlots m - 1))"

definition slot_head :: "'v U64LRU \<Rightarrow> int \<Rightarrow> int option" where
  "slot_head m s = (if 0 \<le> s \<and> s < int (length (hashSlotHead m)) then Some (hashSlotHead m ! nat s) else None)"

definition set_slot_head :: "int \<Rightarrow> int \<Rightarrow> 'v U64LRU \<Rightarrow> 'v U64LRU option" where
  "set_slot_head s i m =
     (if 0 \<le> s \<and> s < int (length (hashSlotHead m)) then Some (m\<lparr>hashSlotHead := (hashSlotHead m)[nat s := i]\<rparr>) else None)"

section \<open>List operations\<close>

definition pushNodeToHashList :: "int \<Rightarrow> int \<Rightarrow> 'v U64LRU \<Rightarrow> 'v U64LRU option" where
  "pushNodeToHashList nodeIndex hash m = do {
     head \<leftarrow> slot_head m hash;
     m \<leftarrow> upd nodeIndex (\<lambda>n. n\<lparr>hashListNext := head, hashListPrev := -1\<rparr>) m;
     m \<leftarrow> (if head \<noteq> -1 then upd head (\<lambda>n. n\<lparr>hashListPrev := nodeIndex\<rparr>) m else Some m);
     set_slot_head hash nodeIndex m
   }"

definition pushNodeToTimeList :: "int \<Rightarrow> 'v U64LRU \<Rightarrow> 'v U64LRU option" where
  "pushNodeToTimeList nodeIndex m = do {
     let head = timeListHead m;
     m \<leftarrow> upd nodeIndex (\<lambda>n. n\<lparr>timeListNext := head, timeListPrev := -1\<rparr>) m;
     m \<leftarrow> (if head \<noteq> -1 then upd head (\<lambda>n. n\<lparr>timeListPrev := nodeIndex\<rparr>) m else Some m);
     let m = m\<lparr>timeListHead := nodeIndex\<rparr>;
     Some (if timeListTail m = -1 then m\<lparr>timeListTail := nodeIndex\<rparr> else m)
   }"

text \<open>The node is read again after the first write, which may go to the node itself.\<close>

definition removeNodeFromHashList :: "int \<Rightarrow> int \<Rightarrow> int \<Rightarrow> 'v U64LRU \<Rightarrow> 'v U64LRU option" where
  "removeNodeFromHashList nodeIndex newNext newPrev m = do {
     node \<leftarrow> getNode m nodeIndex;
     m \<leftarrow> (if hashListPrev node \<noteq> -1 then upd (hashListPrev node) (\<lambda>n. n\<lparr>hashListNext := newNext\<rparr>) m
          else set_slot_head (compressHash m (nd_key node)) newNext m);
     node \<leftarrow> getNode m nodeIndex;
     if hashListNext node \<noteq> -1 then upd (hashListNext node) (\<lambda>n. n\<lparr>hashListPrev := newPrev\<rparr>) m else Some m
   }"

definition removeNodeFromTimeList :: "int \<Rightarrow> int \<Rightarrow> int \<Rightarrow> 'v U64LRU \<Rightarrow> 'v U64LRU option" where
  "removeNodeFromTimeList nodeIndex newNext newPrev m = do {
     node \<leftarrow> getNode m nodeIndex;
     m \<leftarrow> (if timeListPrev node \<noteq> -1 then upd (timeListPrev node) (\<lambda>n. n\<lparr>timeListNext := newNext\<rparr>) m
          else Some (m\<lparr>timeListHead := newNext\<rparr>));
     node \<leftarrow> getNode m nodeIndex;
     if timeListNext node \<noteq> -1 then upd (timeListNext node) (\<lambda>n. n\<lparr>timeListPrev := newPrev\<rparr>) m
     else Some (m\<lparr>timeListTail := newPrev\<rparr>)
   }"

section \<open>Nodes\<close>

text \<open>The node's place is filled with the first node of the ring.\<close>

definition fill_place :: "int \<Rightarrow> 'v U64LRU \<Rightarrow> 'v U64LRU option" where
  "fill_place nodeIndex m =
     (if nodeIndex \<noteq> bufferStartIndex m then do {
        firstNode \<leftarrow> getNode m (bufferStartIndex m);
        m \<leftarrow> upd nodeIndex (\<lambda>_. firstNode) m;
        m \<leftarrow> removeNodeFromHashList (bufferStartIndex m) nodeIndex nodeIndex m;
        m \<leftarrow> removeNodeFromTimeList (bufferStartIndex m) nodeIndex nodeIndex m;
        upd (bufferStartIndex m) (\<lambda>_. blankU64LRUNodeForInit) m
      } else upd nodeIndex (\<lambda>_. blankU64LRUNodeForInit) m)"

definition release_first :: "'v U64LRU \<Rightarrow> 'v U64LRU" where
  "release_first m =
     (let start = bufferStartIndex m;
          r = (if start mod BLOCK_SIZE = BLOCK_SIZE - 1 then (ringBuffer m)[nat (start div BLOCK_SIZE) := None] else ringBuffer m)
      in m\<lparr>ringBuffer := r, bufferStartIndex := incIndex m start, lru_size := lru_size m - 1\<rparr>)"

definition removeNode :: "int \<Rightarrow> 'v U64LRU \<Rightarrow> 'v U64LRU option" where
  "removeNode nodeIndex m = do {
     node \<leftarrow> getNode m nodeIndex;
     m \<leftarrow> removeNodeFromHashList nodeIndex (hashListNext node) (hashListPrev node) m;
     node \<leftarrow> getNode m nodeIndex;
     m \<leftarrow> removeNodeFromTimeList nodeIndex (timeListNext node) (timeListPrev node) m;
     m \<leftarrow> fill_place nodeIndex m;
     Some (release_first m)
   }"

definition updateNode :: "int \<Rightarrow> 'v option \<Rightarrow> 'v U64LRU \<Rightarrow> 'v U64LRU option" where
  "updateNode nodeIndex value m = do {
     m \<leftarrow> (if nodeIndex \<noteq> timeListHead m then do {
            node \<leftarrow> getNode m nodeIndex;
            m \<leftarrow> removeNodeFromTimeList nodeIndex (timeListNext node) (timeListPrev node) m;
            pushNodeToTimeList nodeIndex m
          } else Some m);
     upd nodeIndex (\<lambda>n. n\<lparr>nd_value := value\<rparr>) m
   }"

text \<open>\<open>fresh\<close> is the block the pool hands out.\<close>

definition alloc_row :: "'v u64LRUNode list \<Rightarrow> int \<Rightarrow> 'v U64LRU \<Rightarrow> 'v U64LRU option" where
  "alloc_row fresh row m =
     (if row < 0 \<or> row \<ge> int (length (ringBuffer m)) then None
      else Some (if ringBuffer m ! nat row = None then m\<lparr>ringBuffer := (ringBuffer m)[nat row := Some fresh]\<rparr> else m))"

definition newNode :: "'v u64LRUNode list \<Rightarrow> u64 \<Rightarrow> 'v option \<Rightarrow> 'v U64LRU \<Rightarrow> 'v U64LRU option" where
  "newNode fresh key value m = do {
     m \<leftarrow> (if lru_size m \<ge> lru_capacity m then removeNode (timeListTail m) m else Some m);
     let i = bufferEndIndex m;
     m \<leftarrow> alloc_row fresh (i div BLOCK_SIZE) m;
     let m = m\<lparr>lru_size := lru_size m + 1\<rparr>;
     m \<leftarrow> pushNodeToHashList i (compressHash m key) m;
     m \<leftarrow> pushNodeToTimeList i m;
     m \<leftarrow> upd i (\<lambda>n. n\<lparr>nd_key := key, nd_value := value\<rparr>) m;
     Some (m\<lparr>bufferEndIndex := incIndex m i\<rparr>)
   }"

section \<open>Operations\<close>

definition Lru_GetCounter :: "'v U64LRU \<Rightarrow> LruCounter \<times> 'v U64LRU" where
  "Lru_GetCounter m =
     (let c = lru_counter m;
          c = (if lc_scanTimes c \<noteq> 0 then c\<lparr>lc_AvgScan := lc_totalScan c div lc_scanTimes c\<rparr> else c)
      in (c\<lparr>lc_Size := lru_size m\<rparr>, m\<lparr>lru_counter := LruCounter_zero\<rparr>))"

text \<open>The keys of a chain, written from the start of \<open>n\<close> zero bytes.\<close>

partial_function (option) chain_loop :: "'v U64LRU \<Rightarrow> nat \<Rightarrow> int \<Rightarrow> bytes option" where
  "chain_loop m n i =
     (if i = -1 \<or> n = 0 then Some (replicate n 0)
      else do {
        node \<leftarrow> getNode m i;
        rest \<leftarrow> chain_loop m (n - 8) (hashListNext node);
        Some (put_be 8 (nd_key node) @ rest)
      })"

definition generateCollisionChainIn :: "'v U64LRU \<Rightarrow> nat \<Rightarrow> int \<Rightarrow> bytes option" where
  "generateCollisionChainIn m n slot = do { i \<leftarrow> slot_head m slot; chain_loop m n i }"

text \<open>The loop of \<^verbatim>\<open>find\<close>: where it stops, \<open>-1\<close> at the end of the chain, and the number of nodes seen.\<close>

partial_function (option) find_loop :: "'v U64LRU \<Rightarrow> u64 \<Rightarrow> nat \<Rightarrow> int \<Rightarrow> (int \<times> nat) option" where
  "find_loop m key width i =
     (if i = -1 then Some (-1, width)
      else do {
        node \<leftarrow> getNode m i;
        if nd_key node = key then Some (i, width + 1) else find_loop m key (width + 1) (hashListNext node)
      })"

definition count_scan :: "nat \<Rightarrow> nat \<Rightarrow> 'v U64LRU \<Rightarrow> 'v U64LRU" where
  "count_scan scanned width m =
     (let c = lru_counter m
      in m\<lparr>lru_counter := c\<lparr>lc_totalScan := lc_totalScan c + int scanned, lc_Max := max (lc_Max c) (int width)\<rparr>\<rparr>)"

text \<open>
  Keeping a long chain for debugging: when the last one has been read and this one reaches the threshold. An added key
  comes first.
\<close>

definition keep_chain :: "u64 list \<Rightarrow> nat \<Rightarrow> int \<Rightarrow> 'v U64LRU \<Rightarrow> 'v U64LRU option" where
  "keep_chain added width slot m =
     (let threshold = unat (collisionChainDebugThreshold m) in
      if debugChainRead m \<and> threshold > 0 \<and> width \<ge> threshold
      then do {
        rest \<leftarrow> generateCollisionChainIn m (8 * (width - length added)) slot;
        Some (m\<lparr>debugChain := Some (concat (map (put_be 8) added) @ rest), debugChainRead := False\<rparr>)
      }
      else Some m)"

definition find_node :: "u64 \<Rightarrow> bool \<Rightarrow> 'v U64LRU \<Rightarrow> (int \<times> 'v U64LRU) option" where
  "find_node key isAdd m = do {
     let m = m\<lparr>lru_counter := (lru_counter m)\<lparr>lc_scanTimes := lc_scanTimes (lru_counter m) + 1\<rparr>\<rparr>;
     let slot = compressHash m key;
     head \<leftarrow> slot_head m slot;
     (i, width) \<leftarrow> find_loop m key 0 head;
     if i \<noteq> -1 then do {
       m \<leftarrow> keep_chain [] width slot (count_scan width width m);
       Some (i, m)
     } else do {
       let w = (if isAdd then width + 1 else width);
       m \<leftarrow> keep_chain (if isAdd then [key] else []) w slot (count_scan width w m);
       Some (-1, m)
     }
   }"

definition Lru_Add :: "'v u64LRUNode list \<Rightarrow> u64 \<Rightarrow> 'v option \<Rightarrow> 'v U64LRU \<Rightarrow> 'v U64LRU option" where
  "Lru_Add fresh key value m = do {
     (i, m) \<leftarrow> find_node key True m;
     if i \<noteq> -1 then updateNode i value m else newNode fresh key value m
   }"

definition Lru_Remove :: "u64 \<Rightarrow> 'v U64LRU \<Rightarrow> 'v U64LRU option" where
  "Lru_Remove key m = do {
     head \<leftarrow> slot_head m (compressHash m key);
     (i, _) \<leftarrow> find_loop m key 0 head;
     if i \<noteq> -1 then removeNode i m else Some m
   }"

text \<open>The result is the value, if the key was found.\<close>

definition Lru_Get :: "u64 \<Rightarrow> bool \<Rightarrow> 'v U64LRU \<Rightarrow> ('v option option \<times> 'v U64LRU) option" where
  "Lru_Get key peek m = do {
     (i, m) \<leftarrow> find_node key False m;
     if i \<noteq> -1 then do {
       node \<leftarrow> getNode m i;
       m \<leftarrow> (if \<not> peek then updateNode i (nd_value node) m else Some m);
       node \<leftarrow> getNode m i;
       Some (Some (nd_value node), m)
     } else Some (None, m)
   }"

text \<open>The calls of the callback, in order.\<close>

partial_function (option) walk_loop :: "'v U64LRU \<Rightarrow> int \<Rightarrow> (u64 \<times> 'v option) list option" where
  "walk_loop m i =
     (if i = -1 then Some []
      else do {
        node \<leftarrow> getNode m i;
        rest \<leftarrow> walk_loop m (timeListNext node);
        Some ((nd_key node, nd_value node) # rest)
      })"

definition Lru_Walk :: "'v U64LRU \<Rightarrow> (u64 \<times> 'v option) list option" where
  "Lru_Walk m = walk_loop m (timeListHead m)"

definition Lru_Clear :: "'v U64LRU \<Rightarrow> 'v U64LRU" where
  "Lru_Clear m = m\<lparr>ringBuffer := map (\<lambda>_. None) (ringBuffer m), bufferStartIndex := 0, bufferEndIndex := 0,
     hashSlotHead := map (\<lambda>_. -1) (hashSlotHead m), timeListHead := -1, timeListTail := -1, lru_size := 0,
     debugChainRead := True\<rparr>"

definition GetCollisionChain :: "'v U64LRU \<Rightarrow> bytes option \<times> 'v U64LRU" where
  "GetCollisionChain m = (if debugChainRead m then (None, m) else (debugChain m, m\<lparr>debugChainRead := True\<rparr>))"

definition SetCollisionChainDebugThreshold :: "int \<Rightarrow> 'v U64LRU \<Rightarrow> 'v U64LRU" where
  "SetCollisionChainDebugThreshold t m =
     (let m = m\<lparr>collisionChainDebugThreshold := of_int t\<rparr> in if t > 0 then m\<lparr>debugChainRead := True\<rparr> else m)"

definition NewU64LRUNoStats :: "int \<Rightarrow> int \<Rightarrow> 'v U64LRU" where
  "NewU64LRUNoStats slots capacity =
     (let (slots, bits) = minPowerOfTwo slots
      in \<lparr>ringBuffer = replicate (nat ((capacity + BLOCK_SIZE) div BLOCK_SIZE + 1)) None, bufferStartIndex = 0, bufferEndIndex = 0,
          hashSlots = slots, hashSlotHead = replicate (nat slots) (-1), timeListHead = -1, timeListTail = -1,
          lru_capacity = capacity, lru_size = 0, lru_counter = LruCounter_zero, collisionChainDebugThreshold = 0,
          debugChain = None, debugChainRead = False\<rparr>)"

end
