(* ===== verification/Linked_Lists.thy ===== *)
theory Linked_Lists
  imports Go_Prelude
begin

text \<open>
  Doubly linked lists whose nodes are named by positions: the nodes \<open>xs\<close> are linked in this order by
  the functions \<open>nx\<close> and \<open>pv\<close>, between \<open>p\<close> before the first and \<open>q\<close> behind the last.
\<close>

section \<open>Links\<close>

definition first :: "'i \<Rightarrow> 'i list \<Rightarrow> 'i" where
  "first q xs = (case xs of [] \<Rightarrow> q | x # _ \<Rightarrow> x)"

definition final :: "'i \<Rightarrow> 'i list \<Rightarrow> 'i" where
  "final p xs = (if xs = [] then p else last xs)"

primrec links :: "('i \<Rightarrow> 'i) \<Rightarrow> ('i \<Rightarrow> 'i) \<Rightarrow> 'i \<Rightarrow> 'i list \<Rightarrow> 'i \<Rightarrow> bool" where
  "links nx pv p [] q \<longleftrightarrow> True"
| "links nx pv p (x # xs) q \<longleftrightarrow> pv x = p \<and> nx x = first q xs \<and> links nx pv x xs q"

lemma first_simps [simp]: "first q [] = q" "first q (x # xs) = x" "first q (xs @ ys) = first (first q ys) xs"
  by (simp_all add: first_def split: list.split)

lemma final_simps [simp]: "final p [] = p" "final p (x # xs) = final x xs" "final p (xs @ ys) = final (final p xs) ys"
  by (simp_all add: final_def)

lemma first_in: "first q xs = q \<or> first q xs \<in> set xs"
  by (cases xs) simp_all

lemma final_in: "final p xs = p \<or> final p xs \<in> set xs"
  by (simp add: final_def)

lemma first_end_iff: "q \<notin> set xs \<Longrightarrow> first q xs = q \<longleftrightarrow> xs = []"
  by (cases xs) auto

lemma final_end_iff: "p \<notin> set xs \<Longrightarrow> final p xs = p \<longleftrightarrow> xs = []"
  by (auto simp: final_def)

lemma links_append: "links nx pv p (xs @ ys) q \<longleftrightarrow> links nx pv p xs (first q ys) \<and> links nx pv (final p xs) ys q"
  by (induction xs arbitrary: p) auto

lemma links_cong:
  assumes "\<And>x. x \<in> set xs \<Longrightarrow> nx x = nx' x" "\<And>x. x \<in> set xs \<Longrightarrow> pv x = pv' x"
  shows "links nx pv p xs q \<longleftrightarrow> links nx' pv' p xs q"
  using assms by (induction xs arbitrary: p) auto

text \<open>Changing what the last node points to, and what the first one points back to.\<close>

lemma links_end:
  assumes "links nx pv p xs q" "distinct xs"
    and "\<And>x. x \<in> set xs \<Longrightarrow> nx' x = (if x = final p xs then r else nx x)" "\<And>x. x \<in> set xs \<Longrightarrow> pv' x = pv x"
    and "p \<notin> set xs"
  shows "links nx' pv' p xs r"
  using assms
proof (induction xs arbitrary: p)
  case (Cons x xs)
  have f: "final x xs = x \<longleftrightarrow> xs = []" using Cons.prems(2) by (intro final_end_iff) simp
  have "links nx' pv' x xs r"
  proof (rule Cons.IH)
    show "nx' y = (if y = final x xs then r else nx y)" if "y \<in> set xs" for y
      using Cons.prems(3) [of y] that by simp
  qed (use Cons.prems in auto)
  moreover have "nx' x = first r xs" using Cons.prems(1,3) f by (cases xs) auto
  ultimately show ?case using Cons.prems by simp
qed simp

lemma links_start:
  assumes "links nx pv p xs q" "distinct xs"
    and "\<And>x. x \<in> set xs \<Longrightarrow> pv' x = (if x = first q xs then r else pv x)" "\<And>x. x \<in> set xs \<Longrightarrow> nx' x = nx x"
  shows "links nx' pv' r xs q"
proof (cases xs)
  case (Cons x ys)
  have "links nx' pv' x ys q \<longleftrightarrow> links nx pv x ys q"
    using assms(2-4) Cons by (intro links_cong) auto
  then show ?thesis using assms Cons by simp
qed simp

section \<open>Insertion, deletion, replacement\<close>

lemma links_push:
  assumes "links nx pv e xs e" "distinct xs" "x \<notin> set xs" "e \<notin> set xs"
  shows "links (nx(x := first e xs)) (if xs = [] then pv(x := e) else (pv(x := e))(first e xs := x)) e (x # xs) e"
proof -
  have "links (nx(x := first e xs)) (if xs = [] then pv(x := e) else (pv(x := e))(first e xs := x)) x xs e"
    using assms by (intro links_start [OF assms(1,2)]) auto
  moreover have "first e xs \<noteq> x" if "xs \<noteq> []" using first_in [of e xs] assms that by (cases xs) auto
  ultimately show ?thesis by auto
qed

lemma links_around:
  assumes "links nx pv e (as @ x # bs) e"
  shows "pv x = final e as" "nx x = first e bs"
  using assms by (simp_all add: links_append)

lemma links_delete:
  assumes "links nx pv e (as @ x # bs) e" "distinct (as @ x # bs)" "e \<notin> set (as @ x # bs)"
  shows "links (if as = [] then nx else nx(final e as := first e bs))
    (if bs = [] then pv else pv(first e bs := final e as)) e (as @ bs) e"
proof -
  have l: "links nx pv e as x" "links nx pv x bs e" using assms(1) by (simp_all add: links_append)
  have fa: "final e as \<in> set as" if "as \<noteq> []" using that by (simp add: final_def)
  have fb: "first e bs \<in> set bs" if "bs \<noteq> []" using that by (cases bs) simp_all
  show ?thesis
    unfolding links_append
  proof
    show "links (if as = [] then nx else nx(final e as := first e bs)) (if bs = [] then pv else pv(first e bs := final e as))
        e as (first e bs)"
      using assms(2,3) fb by (intro links_end [OF l(1)]) auto
    show "links (if as = [] then nx else nx(final e as := first e bs)) (if bs = [] then pv else pv(first e bs := final e as))
        (final e as) bs e"
      using assms(2,3) fa by (intro links_start [OF l(2)]) auto
  qed
qed

lemma links_replace:
  assumes "links nx pv e (as @ x # bs) e" "distinct (as @ x # bs)" "e \<notin> set (as @ x # bs)"
    and y: "y \<notin> set (as @ x # bs)" "nx y = nx x" "pv y = pv x"
  shows "links (if as = [] then nx else nx(final e as := y)) (if bs = [] then pv else pv(first e bs := y)) e (as @ y # bs) e"
proof -
  have l: "links nx pv e as x" "links nx pv x bs e" using assms(1) by (simp_all add: links_append)
  note xa = links_around [OF assms(1)]
  have fa: "final e as \<in> set as" if "as \<noteq> []" using that by (simp add: final_def)
  have fb: "first e bs \<in> set bs" if "bs \<noteq> []" using that by (cases bs) simp_all
  have "links (if as = [] then nx else nx(final e as := y)) (if bs = [] then pv else pv(first e bs := y)) e as y"
    using assms(2,3) fb by (intro links_end [OF l(1)]) auto
  moreover have "links (if as = [] then nx else nx(final e as := y)) (if bs = [] then pv else pv(first e bs := y)) y bs e"
    using assms(2,3) fa by (intro links_start [OF l(2)]) auto
  moreover have "y \<noteq> final e as" if "as \<noteq> []" using fa [OF that] y(1) by auto
  moreover have "y \<noteq> first e bs" if "bs \<noteq> []" using fb [OF that] y(1) by auto
  ultimately show ?thesis using y xa by (auto simp: links_append)
qed

end
