(* ===== verification/Lru_Lists.thy ===== *)
theory Lru_Lists
  imports U64_Lru Linked_Lists
begin

text \<open>
  The two lists of the nodes of \<open>U64_Lru\<close>: reading and writing nodes, the effect of the list operations on the
  linked positions, the invariant of the map and the search for a key.
\<close>

section \<open>Reading and writing nodes\<close>

definition valid :: "'v ring \<Rightarrow> int \<Rightarrow> bool" where "valid r i \<longleftrightarrow> ring_get r i \<noteq> None"

definition tn :: "'v ring \<Rightarrow> int \<Rightarrow> int" where "tn r i = timeListNext (the (ring_get r i))"
definition tp :: "'v ring \<Rightarrow> int \<Rightarrow> int" where "tp r i = timeListPrev (the (ring_get r i))"
definition hn :: "'v ring \<Rightarrow> int \<Rightarrow> int" where "hn r i = hashListNext (the (ring_get r i))"
definition hp :: "'v ring \<Rightarrow> int \<Rightarrow> int" where "hp r i = hashListPrev (the (ring_get r i))"
definition ky :: "'v ring \<Rightarrow> int \<Rightarrow> u64" where "ky r i = nd_key (the (ring_get r i))"
definition vl :: "'v ring \<Rightarrow> int \<Rightarrow> 'v option" where "vl r i = nd_value (the (ring_get r i))"

lemmas node_fields = tn_def tp_def hn_def hp_def ky_def vl_def

lemma div_mod_eqI: "(i :: int) div b = j div b \<Longrightarrow> i mod b = j mod b \<Longrightarrow> i = j"
  by (metis mult_div_mod_eq)

lemma ring_get_set:
  assumes "valid r i"
  shows "ring_get (ring_set i n r) j = (if j = i then Some n else ring_get r j)"
proof -
  let ?row = "i div BLOCK_SIZE" and ?col = "i mod BLOCK_SIZE"
  obtain blk where row: "0 \<le> ?row" "?row < int (length r)" "r ! nat ?row = Some blk" "nat ?col < length blk"
    using assms by (auto simp: valid_def ring_get_def Let_def split: option.splits if_splits)
  have s: "ring_set i n r = r[nat ?row := Some (blk[nat ?col := n])]" by (simp add: ring_set_def Let_def row)
  show ?thesis
  proof (cases "j div BLOCK_SIZE = ?row")
    case True
    have "nat (j mod BLOCK_SIZE) = nat ?col \<longleftrightarrow> j = i"
    proof
      assume "nat (j mod BLOCK_SIZE) = nat ?col"
      then have "j mod BLOCK_SIZE = ?col" by (simp add: BLOCK_SIZE_def)
      with True show "j = i" by (rule div_mod_eqI)
    qed simp
    then show ?thesis using row True by (auto simp: s ring_get_def Let_def nat_less_iff)
  next
    case False
    then have "j \<noteq> i" by auto
    moreover have "nat (j div BLOCK_SIZE) \<noteq> nat ?row" if "0 \<le> j div BLOCK_SIZE" using False that row(1) by simp
    ultimately show ?thesis using row by (auto simp: s ring_get_def Let_def)
  qed
qed

lemma length_ring_set [simp]: "length (ring_set i n r) = length r"
  by (simp add: ring_set_def Let_def)

lemma upd_ok:
  assumes "valid (ringBuffer m) i"
  shows "upd i f m = Some (m\<lparr>ringBuffer := ring_set i (f (the (ring_get (ringBuffer m) i))) (ringBuffer m)\<rparr>)"
  using assms by (auto simp: valid_def upd_def getNode_def)

text \<open>Blocks have full length.\<close>

definition blocks_ok :: "'v ring \<Rightarrow> bool" where
  "blocks_ok r \<longleftrightarrow> (\<forall>blk. Some blk \<in> set r \<longrightarrow> int (length blk) = BLOCK_SIZE)"

lemma blocks_ok_set: "blocks_ok r \<Longrightarrow> valid r i \<Longrightarrow> blocks_ok (ring_set i n r)"
proof -
  assume "blocks_ok r" "valid r i"
  moreover from this obtain blk where "nat (i div BLOCK_SIZE) < length r" "r ! nat (i div BLOCK_SIZE) = Some blk"
    by (auto simp: valid_def ring_get_def Let_def split: option.splits if_splits)
  moreover from this have "Some blk \<in> set r" by (metis nth_mem)
  ultimately show ?thesis
    by (auto simp: blocks_ok_def ring_set_def Let_def dest!: set_update_subset_insert [THEN subsetD])
qed

text \<open>What a change of time links, and one of hash links, leaves alone.\<close>

definition same_store :: "'v ring \<Rightarrow> 'v ring \<Rightarrow> bool" where
  "same_store r r' \<longleftrightarrow> valid r' = valid r \<and> length r' = length r \<and> (blocks_ok r \<longrightarrow> blocks_ok r')"

definition time_change :: "'v ring \<Rightarrow> 'v ring \<Rightarrow> bool" where
  "time_change r r' \<longleftrightarrow> same_store r r' \<and> ky r' = ky r \<and> vl r' = vl r \<and> hn r' = hn r \<and> hp r' = hp r"

definition hash_change :: "'v ring \<Rightarrow> 'v ring \<Rightarrow> bool" where
  "hash_change r r' \<longleftrightarrow> same_store r r' \<and> ky r' = ky r \<and> vl r' = vl r \<and> tn r' = tn r \<and> tp r' = tp r"

lemma same_store_set: "valid r i \<Longrightarrow> same_store r (ring_set i n r)"
  by (auto simp: same_store_def valid_def ring_get_set fun_eq_iff intro: blocks_ok_set [unfolded valid_def])

lemma change_refl [simp]: "same_store r r" "time_change r r" "hash_change r r"
  by (simp_all add: same_store_def time_change_def hash_change_def)

lemma same_store_trans: "same_store r r' \<Longrightarrow> same_store r' r'' \<Longrightarrow> same_store r r''"
  by (simp add: same_store_def)

lemma time_change_trans: "time_change r r' \<Longrightarrow> time_change r' r'' \<Longrightarrow> time_change r r''"
  by (auto simp: time_change_def intro: same_store_trans)

lemma hash_change_trans: "hash_change r r' \<Longrightarrow> hash_change r' r'' \<Longrightarrow> hash_change r r''"
  by (auto simp: hash_change_def intro: same_store_trans)

lemma node_set:
  assumes "valid r i"
  shows "tn (ring_set i n r) = (tn r)(i := timeListNext n)" "tp (ring_set i n r) = (tp r)(i := timeListPrev n)"
    "hn (ring_set i n r) = (hn r)(i := hashListNext n)" "hp (ring_set i n r) = (hp r)(i := hashListPrev n)"
    "ky (ring_set i n r) = (ky r)(i := nd_key n)" "vl (ring_set i n r) = (vl r)(i := nd_value n)"
  using assms by (simp_all add: node_fields fun_eq_iff ring_get_set)

lemma time_change_set:
  assumes "valid r i" "nd_key n = ky r i" "nd_value n = vl r i" "hashListNext n = hn r i" "hashListPrev n = hp r i"
  shows "time_change r (ring_set i n r)"
  using assms by (simp add: time_change_def same_store_set node_set fun_upd_idem)

lemma hash_change_set:
  assumes "valid r i" "nd_key n = ky r i" "nd_value n = vl r i" "timeListNext n = tn r i" "timeListPrev n = tp r i"
  shows "hash_change r (ring_set i n r)"
  using assms by (simp add: hash_change_def same_store_set node_set fun_upd_idem)

section \<open>The time list\<close>

lemma removeNodeFromTimeList_eq:
  fixes m :: "'v U64LRU"
  defines "r \<equiv> ringBuffer m"
  assumes x: "valid r x" and p: "tp r x \<noteq> -1 \<Longrightarrow> valid r (tp r x)" and n: "tn r x \<noteq> -1 \<Longrightarrow> valid r (tn r x)"
    and px: "tp r x \<noteq> x"
  shows "\<exists>r'. removeNodeFromTimeList x a b m = Some (m\<lparr>ringBuffer := r',
      timeListHead := (if tp r x = -1 then a else timeListHead m), timeListTail := (if tn r x = -1 then b else timeListTail m)\<rparr>) \<and>
    time_change r r' \<and> tn r' = (if tp r x = -1 then tn r else (tn r)(tp r x := a)) \<and>
    tp r' = (if tn r x = -1 then tp r else (tp r)(tn r x := b))"
proof -
  obtain nd where nd: "ring_get r x = Some nd" using x by (auto simp: valid_def)
  have f: "timeListPrev nd = tp r x" "timeListNext nd = tn r x" by (simp_all add: node_fields nd)
  define r1 where "r1 = (if tp r x = -1 then r else ring_set (tp r x) ((the (ring_get r (tp r x)))\<lparr>timeListNext := a\<rparr>) r)"
  define m1 where "m1 = m\<lparr>ringBuffer := r1, timeListHead := (if tp r x = -1 then a else timeListHead m)\<rparr>"
  have c1: "time_change r r1" "tn r1 = (if tp r x = -1 then tn r else (tn r)(tp r x := a))" "tp r1 = tp r"
    using p by (auto simp: r1_def node_set intro!: time_change_set) (simp_all add: node_fields fun_eq_iff)
  then have v1: "valid r1 = valid r" by (simp add: time_change_def same_store_def)
  have s1: "(if timeListPrev nd \<noteq> -1 then upd (timeListPrev nd) (\<lambda>n. n\<lparr>timeListNext := a\<rparr>) m
      else Some (m\<lparr>timeListHead := a\<rparr>)) = Some m1"
    using p by (auto simp: f m1_def r1_def r_def upd_ok)
  have x1: "\<exists>nd1. getNode m1 x = Some nd1 \<and> timeListNext nd1 = tn r x"
  proof -
    have "valid r1 x" using v1 x by metis
    then obtain nd1 where "ring_get r1 x = Some nd1" by (auto simp: valid_def)
    moreover have "tn r1 x = tn r x" using c1(2) px by simp
    ultimately show ?thesis by (auto simp: getNode_def m1_def node_fields)
  qed
  then obtain nd1 where nd1: "getNode m1 x = Some nd1" "timeListNext nd1 = tn r x" by blast
  define r2 where "r2 = (if tn r x = -1 then r1 else ring_set (tn r x) ((the (ring_get r1 (tn r x)))\<lparr>timeListPrev := b\<rparr>) r1)"
  have vn: "valid r1 (tn r x)" if "tn r x \<noteq> -1" using n that v1 by metis
  have c2: "time_change r1 r2" "tn r2 = tn r1" "tp r2 = (if tn r x = -1 then tp r else (tp r)(tn r x := b))"
    using vn c1(3) by (auto simp: r2_def node_set intro!: time_change_set) (simp_all add: node_fields fun_eq_iff)
  have "removeNodeFromTimeList x a b m = Some (m\<lparr>ringBuffer := r2,
      timeListHead := (if tp r x = -1 then a else timeListHead m), timeListTail := (if tn r x = -1 then b else timeListTail m)\<rparr>)"
  proof -
    have g: "getNode m x = Some nd" using nd by (simp add: getNode_def r_def)
    have "removeNodeFromTimeList x a b m = (if tn r x \<noteq> -1 then upd (tn r x) (\<lambda>n. n\<lparr>timeListPrev := b\<rparr>) m1
        else Some (m1\<lparr>timeListTail := b\<rparr>))"
      by (simp only: removeNodeFromTimeList_def g Option.bind.simps s1 nd1)
    then show ?thesis using vn by (auto simp: upd_ok r2_def m1_def)
  qed
  moreover have "time_change r r2" by (rule time_change_trans [OF c1(1) c2(1)])
  moreover have "tn r2 = (if tp r x = -1 then tn r else (tn r)(tp r x := a))" by (simp only: c1(2) c2(2))
  ultimately show ?thesis using c2(3) by blast
qed

definition time_list :: "'v ring \<Rightarrow> int \<Rightarrow> int \<Rightarrow> int list \<Rightarrow> bool" where
  "time_list r h t ts \<longleftrightarrow> h = first (-1) ts \<and> t = final (-1) ts \<and> links (tn r) (tp r) (-1) ts (-1) \<and> distinct ts \<and>
     -1 \<notin> set ts \<and> (\<forall>i\<in>set ts. valid r i)"

text \<open>The neighbours of a node in the list.\<close>

lemma time_list_around:
  assumes "time_list r h t (as @ x # bs)"
  shows "tp r x = final (-1) as" "tn r x = first (-1) bs" "valid r x" "tp r x \<noteq> x"
    "tp r x \<noteq> -1 \<Longrightarrow> valid r (tp r x)" "tn r x \<noteq> -1 \<Longrightarrow> valid r (tn r x)"
    "tp r x = -1 \<longleftrightarrow> as = []" "tn r x = -1 \<longleftrightarrow> bs = []"
proof -
  have l: "links (tn r) (tp r) (-1) (as @ x # bs) (-1)" and d: "distinct (as @ x # bs)" "-1 \<notin> set (as @ x # bs)"
    and v: "\<forall>i\<in>set (as @ x # bs). valid r i" using assms by (auto simp: time_list_def)
  note a = links_around [OF l]
  then show "tp r x = final (-1) as" "tn r x = first (-1) bs" by simp_all
  show "valid r x" using v by simp
  show "tp r x = -1 \<longleftrightarrow> as = []" "tn r x = -1 \<longleftrightarrow> bs = []"
    using d a by (simp_all add: first_end_iff final_end_iff)
  show "tp r x \<noteq> x" using final_in [of "-1" as] d a by auto
  show "valid r (tp r x)" if "tp r x \<noteq> -1" using final_in [of "-1" as] v that by (auto simp: a)
  show "valid r (tn r x)" if "tn r x \<noteq> -1" using first_in [of "-1" bs] v that by (auto simp: a)
qed

lemma removeTime_delete:
  assumes "time_list (ringBuffer m) (timeListHead m) (timeListTail m) (as @ x # bs)"
  shows "\<exists>r h t. removeNodeFromTimeList x (tn (ringBuffer m) x) (tp (ringBuffer m) x) m =
      Some (m\<lparr>ringBuffer := r, timeListHead := h, timeListTail := t\<rparr>) \<and>
    time_list r h t (as @ bs) \<and> time_change (ringBuffer m) r"
proof -
  let ?r = "ringBuffer m"
  note a = time_list_around [OF assms]
  obtain r' where r': "removeNodeFromTimeList x (tn ?r x) (tp ?r x) m = Some (m\<lparr>ringBuffer := r',
      timeListHead := (if tp ?r x = -1 then tn ?r x else timeListHead m), timeListTail := (if tn ?r x = -1 then tp ?r x else timeListTail m)\<rparr>)"
    "time_change ?r r'" "tn r' = (if tp ?r x = -1 then tn ?r else (tn ?r)(tp ?r x := tn ?r x))"
    "tp r' = (if tn ?r x = -1 then tp ?r else (tp ?r)(tn ?r x := tp ?r x))"
    using removeNodeFromTimeList_eq [OF a(3,5,6,4), of "tn ?r x" "tp ?r x"] by blast
  have l: "links (tn ?r) (tp ?r) (-1) (as @ x # bs) (-1)" and d: "distinct (as @ x # bs)" "-1 \<notin> set (as @ x # bs)"
    and v: "\<forall>i\<in>set (as @ x # bs). valid ?r i" and ht: "timeListHead m = first (-1) (as @ x # bs)" "timeListTail m = final (-1) (as @ x # bs)"
    using assms by (auto simp: time_list_def)
  have "links (tn r') (tp r') (-1) (as @ bs) (-1)"
    unfolding r'(3,4) a(7,8) unfolding a(1,2) by (rule links_delete [OF l d])
  moreover have "valid r' = valid ?r" using r'(2) by (simp add: time_change_def same_store_def)
  moreover have "(if tp ?r x = -1 then tn ?r x else timeListHead m) = first (-1) (as @ bs)"
    unfolding a(7) by (cases as) (simp_all add: a(2) ht)
  moreover have "(if tn ?r x = -1 then tp ?r x else timeListTail m) = final (-1) (as @ bs)"
    unfolding a(8) by (cases bs) (simp_all add: a(1) ht)
  ultimately have "time_list r' (if tp ?r x = -1 then tn ?r x else timeListHead m) (if tn ?r x = -1 then tp ?r x else timeListTail m) (as @ bs)"
    unfolding time_list_def using d v by auto
  then show ?thesis using r'(1,2) by blast
qed

lemma time_list_change:
  assumes "time_list r h t ts" "valid r' = valid r" "links (tn r') (tp r') (-1) ts' (-1)"
    and "distinct ts'" "-1 \<notin> set ts'" "\<And>i. i \<in> set ts' \<Longrightarrow> valid r i" "h' = first (-1) ts'" "t' = final (-1) ts'"
  shows "time_list r' h' t' ts'"
  using assms by (simp add: time_list_def)

lemma removeTime_replace:
  assumes "time_list (ringBuffer m) (timeListHead m) (timeListTail m) (as @ y # bs)"
    and x: "valid (ringBuffer m) x" "x \<notin> set (as @ y # bs)" "x \<noteq> -1"
    and eq: "tn (ringBuffer m) x = tn (ringBuffer m) y" "tp (ringBuffer m) x = tp (ringBuffer m) y"
  shows "\<exists>r h t. removeNodeFromTimeList y x x m = Some (m\<lparr>ringBuffer := r, timeListHead := h, timeListTail := t\<rparr>) \<and>
    time_list r h t (as @ x # bs) \<and> time_change (ringBuffer m) r"
proof -
  let ?r = "ringBuffer m"
  note a = time_list_around [OF assms(1)]
  obtain r' where r': "removeNodeFromTimeList y x x m = Some (m\<lparr>ringBuffer := r',
      timeListHead := (if tp ?r y = -1 then x else timeListHead m), timeListTail := (if tn ?r y = -1 then x else timeListTail m)\<rparr>)"
    "time_change ?r r'" "tn r' = (if tp ?r y = -1 then tn ?r else (tn ?r)(tp ?r y := x))"
    "tp r' = (if tn ?r y = -1 then tp ?r else (tp ?r)(tn ?r y := x))"
    using removeNodeFromTimeList_eq [OF a(3,5,6,4), of x x] by blast
  have l: "links (tn ?r) (tp ?r) (-1) (as @ y # bs) (-1)" and d: "distinct (as @ y # bs)" "-1 \<notin> set (as @ y # bs)"
    and v: "\<forall>i\<in>set (as @ y # bs). valid ?r i" and ht: "timeListHead m = first (-1) (as @ y # bs)" "timeListTail m = final (-1) (as @ y # bs)"
    using assms(1) by (auto simp: time_list_def)
  have "time_list r' (if tp ?r y = -1 then x else timeListHead m) (if tn ?r y = -1 then x else timeListTail m) (as @ x # bs)"
  proof (rule time_list_change [OF assms(1)])
    show "valid r' = valid ?r" using r'(2) by (simp add: time_change_def same_store_def)
    show "links (tn r') (tp r') (-1) (as @ x # bs) (-1)"
      unfolding r'(3,4) a(7,8) unfolding a(1,2) by (rule links_replace [OF l d x(2) eq])
    show "(if tp ?r y = -1 then x else timeListHead m) = first (-1) (as @ x # bs)"
      unfolding a(7) by (cases as) (simp_all add: ht)
    show "(if tn ?r y = -1 then x else timeListTail m) = final (-1) (as @ x # bs)"
      unfolding a(8) by (cases bs) (simp_all add: ht)
  qed (use d x v in auto)
  then show ?thesis using r'(1,2) by blast
qed

lemma pushTime:
  assumes tl: "time_list (ringBuffer m) (timeListHead m) (timeListTail m) ts"
    and x: "valid (ringBuffer m) x" "x \<notin> set ts" "x \<noteq> -1"
  shows "\<exists>r h t. pushNodeToTimeList x m = Some (m\<lparr>ringBuffer := r, timeListHead := h, timeListTail := t\<rparr>) \<and>
    time_list r h t (x # ts) \<and> time_change (ringBuffer m) r"
proof -
  let ?r = "ringBuffer m" and ?h = "timeListHead m"
  have l: "links (tn ?r) (tp ?r) (-1) ts (-1)" and d: "distinct ts" "-1 \<notin> set ts"
    and v: "\<forall>i\<in>set ts. valid ?r i" and ht: "?h = first (-1) ts" "timeListTail m = final (-1) ts"
    using tl by (auto simp: time_list_def)
  have he: "?h = -1 \<longleftrightarrow> ts = []" "timeListTail m = -1 \<longleftrightarrow> ts = []" using d by (simp_all add: ht first_end_iff final_end_iff)
  have hv: "valid ?r ?h" "?h \<noteq> x" if "ts \<noteq> []" using first_in [of "-1" ts] v x(2) he(1) that by (auto simp: ht)
  define r1 where "r1 = ring_set x ((the (ring_get ?r x))\<lparr>timeListNext := ?h, timeListPrev := -1\<rparr>) ?r"
  have c1: "time_change ?r r1" "tn r1 = (tn ?r)(x := ?h)" "tp r1 = (tp ?r)(x := -1)"
    using x(1) by (auto simp: r1_def node_set intro!: time_change_set) (simp_all add: node_fields)
  have v1: "valid r1 = valid ?r" using c1(1) by (simp add: time_change_def same_store_def)
  define r2 where "r2 = (if ts = [] then r1 else ring_set ?h ((the (ring_get r1 ?h))\<lparr>timeListPrev := x\<rparr>) r1)"
  have hv1: "valid r1 ?h" if "ts \<noteq> []" using hv(1) [OF that] by (simp add: v1)
  have c2: "time_change r1 r2" "tn r2 = tn r1" "tp r2 = (if ts = [] then tp r1 else (tp r1)(?h := x))"
    using hv1 by (auto simp: r2_def node_set intro!: time_change_set) (simp_all add: node_fields fun_eq_iff)
  have "pushNodeToTimeList x m = Some (m\<lparr>ringBuffer := r2, timeListHead := x, timeListTail := (if ts = [] then x else timeListTail m)\<rparr>)"
    using x(1) hv1 by (auto simp: pushNodeToTimeList_def upd_ok he r2_def Let_def simp flip: r1_def)
  moreover have "time_change ?r r2" by (rule time_change_trans [OF c1(1) c2(1)])
  moreover have "time_list r2 x (if ts = [] then x else timeListTail m) (x # ts)"
  proof (rule time_list_change [OF tl])
    show "valid r2 = valid ?r" using \<open>time_change ?r r2\<close> by (simp add: time_change_def same_store_def)
    show "links (tn r2) (tp r2) (-1) (x # ts) (-1)"
      unfolding c2(2,3) c1(2,3) ht(1) by (rule links_push [OF l d(1) x(2) d(2)])
    show "(if ts = [] then x else timeListTail m) = final (-1) (x # ts)" by (cases ts) (simp_all add: ht)
  qed (use d x v in auto)
  ultimately show ?thesis by blast
qed

section \<open>Collision chains\<close>

lemma slot_head_ok: "s < length (hashSlotHead m) \<Longrightarrow> slot_head m (int s) = Some (hashSlotHead m ! s)"
  by (simp add: slot_head_def)

lemma set_slot_head_ok: "s < length (hashSlotHead m) \<Longrightarrow> set_slot_head (int s) i m = Some (m\<lparr>hashSlotHead := (hashSlotHead m)[s := i]\<rparr>)"
  by (simp add: set_slot_head_def)

lemma removeNodeFromHashList_eq:
  fixes m :: "'v U64LRU"
  defines "r \<equiv> ringBuffer m"
  assumes x: "valid r x" and p: "hp r x \<noteq> -1 \<Longrightarrow> valid r (hp r x)" and n: "hn r x \<noteq> -1 \<Longrightarrow> valid r (hn r x)"
    and px: "hp r x \<noteq> x" and s: "compressHash m (ky r x) = int s" "s < length (hashSlotHead m)"
  shows "\<exists>r'. removeNodeFromHashList x a b m = Some (m\<lparr>ringBuffer := r',
      hashSlotHead := (if hp r x = -1 then (hashSlotHead m)[s := a] else hashSlotHead m)\<rparr>) \<and>
    hash_change r r' \<and> hn r' = (if hp r x = -1 then hn r else (hn r)(hp r x := a)) \<and>
    hp r' = (if hn r x = -1 then hp r else (hp r)(hn r x := b))"
proof -
  obtain nd where nd: "ring_get r x = Some nd" using x by (auto simp: valid_def)
  have f: "hashListPrev nd = hp r x" "hashListNext nd = hn r x" "nd_key nd = ky r x" by (simp_all add: node_fields nd)
  define r1 where "r1 = (if hp r x = -1 then r else ring_set (hp r x) ((the (ring_get r (hp r x)))\<lparr>hashListNext := a\<rparr>) r)"
  define m1 where "m1 = m\<lparr>ringBuffer := r1, hashSlotHead := (if hp r x = -1 then (hashSlotHead m)[s := a] else hashSlotHead m)\<rparr>"
  have c1: "hash_change r r1" "hn r1 = (if hp r x = -1 then hn r else (hn r)(hp r x := a))" "hp r1 = hp r"
    using p by (auto simp: r1_def node_set intro!: hash_change_set) (simp_all add: node_fields fun_eq_iff)
  then have v1: "valid r1 = valid r" by (simp add: hash_change_def same_store_def)
  have s1: "(if hashListPrev nd \<noteq> -1 then upd (hashListPrev nd) (\<lambda>n. n\<lparr>hashListNext := a\<rparr>) m
      else set_slot_head (compressHash m (nd_key nd)) a m) = Some m1"
    using p s(2) by (auto simp: f m1_def r1_def r_def upd_ok s(1) [unfolded r_def] set_slot_head_ok)
  have "\<exists>nd1. getNode m1 x = Some nd1 \<and> hashListNext nd1 = hn r x"
  proof -
    have "valid r1 x" using v1 x by metis
    then obtain nd1 where "ring_get r1 x = Some nd1" by (auto simp: valid_def)
    moreover have "hn r1 x = hn r x" using c1(2) px by simp
    ultimately show ?thesis by (auto simp: getNode_def m1_def node_fields)
  qed
  then obtain nd1 where nd1: "getNode m1 x = Some nd1" "hashListNext nd1 = hn r x" by blast
  define r2 where "r2 = (if hn r x = -1 then r1 else ring_set (hn r x) ((the (ring_get r1 (hn r x)))\<lparr>hashListPrev := b\<rparr>) r1)"
  have vn: "valid r1 (hn r x)" if "hn r x \<noteq> -1" using n that v1 by metis
  have c2: "hash_change r1 r2" "hn r2 = hn r1" "hp r2 = (if hn r x = -1 then hp r else (hp r)(hn r x := b))"
    using vn c1(3) by (auto simp: r2_def node_set intro!: hash_change_set) (simp_all add: node_fields fun_eq_iff)
  have "removeNodeFromHashList x a b m = Some (m\<lparr>ringBuffer := r2,
      hashSlotHead := (if hp r x = -1 then (hashSlotHead m)[s := a] else hashSlotHead m)\<rparr>)"
  proof -
    have g: "getNode m x = Some nd" using nd by (simp add: getNode_def r_def)
    have "removeNodeFromHashList x a b m = (if hn r x \<noteq> -1 then upd (hn r x) (\<lambda>n. n\<lparr>hashListPrev := b\<rparr>) m1 else Some m1)"
      by (simp only: removeNodeFromHashList_def g Option.bind.simps s1 nd1)
    then show ?thesis using vn by (auto simp: upd_ok r2_def m1_def)
  qed
  moreover have "hash_change r r2" by (rule hash_change_trans [OF c1(1) c2(1)])
  moreover have "hn r2 = (if hp r x = -1 then hn r else (hn r)(hp r x := a))" by (simp only: c1(2) c2(2))
  ultimately show ?thesis using c2(3) by blast
qed

definition coll_chain :: "'v ring \<Rightarrow> int \<Rightarrow> int list \<Rightarrow> bool" where
  "coll_chain r h xs \<longleftrightarrow> h = first (-1) xs \<and> links (hn r) (hp r) (-1) xs (-1) \<and> distinct xs \<and> -1 \<notin> set xs \<and> (\<forall>i\<in>set xs. valid r i)"

definition coll_chains :: "'v ring \<Rightarrow> int list \<Rightarrow> (nat \<Rightarrow> int list) \<Rightarrow> bool" where
  "coll_chains r heads hs \<longleftrightarrow> (\<forall>s<length heads. coll_chain r (heads ! s) (hs s)) \<and>
     (\<forall>s<length heads. \<forall>s'<length heads. s \<noteq> s' \<longrightarrow> set (hs s) \<inter> set (hs s') = {})"

lemma coll_chain_around:
  assumes "coll_chain r h (as @ x # bs)"
  shows "hp r x = final (-1) as" "hn r x = first (-1) bs" "valid r x" "hp r x \<noteq> x"
    "hp r x \<noteq> -1 \<Longrightarrow> valid r (hp r x)" "hn r x \<noteq> -1 \<Longrightarrow> valid r (hn r x)"
    "hp r x = -1 \<longleftrightarrow> as = []" "hn r x = -1 \<longleftrightarrow> bs = []"
proof -
  have l: "links (hn r) (hp r) (-1) (as @ x # bs) (-1)" and d: "distinct (as @ x # bs)" "-1 \<notin> set (as @ x # bs)"
    and v: "\<forall>i\<in>set (as @ x # bs). valid r i" using assms by (auto simp: coll_chain_def)
  note a = links_around [OF l]
  then show "hp r x = final (-1) as" "hn r x = first (-1) bs" by simp_all
  show "valid r x" using v by simp
  show "hp r x = -1 \<longleftrightarrow> as = []" "hn r x = -1 \<longleftrightarrow> bs = []"
    using d a by (simp_all add: first_end_iff final_end_iff)
  show "hp r x \<noteq> x" using final_in [of "-1" as] d a by auto
  show "valid r (hp r x)" if "hp r x \<noteq> -1" using final_in [of "-1" as] v that by (auto simp: a)
  show "valid r (hn r x)" if "hn r x \<noteq> -1" using first_in [of "-1" bs] v that by (auto simp: a)
qed

text \<open>Changing one chain: the links of the others are out of its reach.\<close>

lemma coll_chains_update:
  assumes c: "coll_chains r heads hs" and s: "s < length heads" and new: "coll_chain r' h xs"
    and v: "valid r' = valid r"
    and other: "\<And>i. i \<notin> set (hs s) \<union> set xs \<Longrightarrow> hn r' i = hn r i \<and> hp r' i = hp r i"
    and fresh: "\<And>i s'. i \<in> set xs - set (hs s) \<Longrightarrow> s' < length heads \<Longrightarrow> i \<notin> set (hs s')"
  shows "coll_chains r' (heads[s := h]) (hs(s := xs))"
proof -
  have dis: "set xs \<inter> set (hs s') = {}" if "s' < length heads" "s' \<noteq> s" for s'
    using c s that fresh unfolding coll_chains_def by blast
  have "coll_chain r' (heads ! s') (hs s')" if "s' < length heads" "s' \<noteq> s" for s'
  proof -
    have o: "coll_chain r (heads ! s') (hs s')" using c that by (simp add: coll_chains_def)
    have "set (hs s) \<inter> set (hs s') = {}" using c s that unfolding coll_chains_def by blast
    then have "links (hn r') (hp r') (-1) (hs s') (-1) \<longleftrightarrow> links (hn r) (hp r) (-1) (hs s') (-1)"
      using other dis [OF that] by (intro links_cong) auto
    then show ?thesis using o by (simp add: coll_chain_def v)
  qed
  moreover have "set ((hs(s := xs)) a) \<inter> set ((hs(s := xs)) b) = {}" if "a < length heads" "b < length heads" "a \<noteq> b" for a b
    using that dis [of a] dis [of b] c unfolding coll_chains_def by auto
  ultimately show ?thesis unfolding coll_chains_def using s new by (auto simp: nth_list_update)
qed

lemma removeHash_delete:
  assumes c: "coll_chains (ringBuffer m) (hashSlotHead m) hs" and s: "s < length (hashSlotHead m)"
    and hs: "hs s = as @ x # bs" and k: "compressHash m (ky (ringBuffer m) x) = int s"
  shows "\<exists>r heads. removeNodeFromHashList x (hn (ringBuffer m) x) (hp (ringBuffer m) x) m =
      Some (m\<lparr>ringBuffer := r, hashSlotHead := heads\<rparr>) \<and> length heads = length (hashSlotHead m) \<and>
    coll_chains r heads (hs(s := as @ bs)) \<and> hash_change (ringBuffer m) r"
proof -
  let ?r = "ringBuffer m" and ?H = "hashSlotHead m"
  have ch: "coll_chain ?r (?H ! s) (as @ x # bs)" using c s hs by (metis coll_chains_def)
  note a = coll_chain_around [OF ch]
  obtain r' where r': "removeNodeFromHashList x (hn ?r x) (hp ?r x) m = Some (m\<lparr>ringBuffer := r',
      hashSlotHead := (if hp ?r x = -1 then ?H[s := hn ?r x] else ?H)\<rparr>)"
    "hash_change ?r r'" "hn r' = (if hp ?r x = -1 then hn ?r else (hn ?r)(hp ?r x := hn ?r x))"
    "hp r' = (if hn ?r x = -1 then hp ?r else (hp ?r)(hn ?r x := hp ?r x))"
    using removeNodeFromHashList_eq [OF a(3,5,6,4) k s, of "hn ?r x" "hp ?r x"] by blast
  have l: "links (hn ?r) (hp ?r) (-1) (as @ x # bs) (-1)" and d: "distinct (as @ x # bs)" "-1 \<notin> set (as @ x # bs)"
    and v: "\<forall>i\<in>set (as @ x # bs). valid ?r i" and h: "?H ! s = first (-1) (as @ x # bs)"
    using ch by (auto simp: coll_chain_def)
  have vv: "valid r' = valid ?r" using r'(2) by (simp add: hash_change_def same_store_def)
  have lk: "links (hn r') (hp r') (-1) (as @ bs) (-1)"
    unfolding r'(3,4) a(7,8) unfolding a(1,2) by (rule links_delete [OF l d])
  have heads: "(if hp ?r x = -1 then ?H[s := hn ?r x] else ?H) = ?H[s := first (-1) (as @ bs)]"
    unfolding a(7) using h by (cases as) (simp_all add: a(2), metis list_update_id)
  have "coll_chains r' (?H[s := first (-1) (as @ bs)]) (hs(s := as @ bs))"
  proof (rule coll_chains_update [OF c s _ vv])
    show "coll_chain r' (first (-1) (as @ bs)) (as @ bs)" using lk d v by (auto simp: coll_chain_def vv)
    show "hn r' i = hn ?r i \<and> hp r' i = hp ?r i" if "i \<notin> set (hs s) \<union> set (as @ bs)" for i
      using that final_in [of "-1" as] first_in [of "-1" bs] by (auto simp: r'(3,4) hs a(1,2) split: if_splits)
  qed (use hs in auto)
  with r'(1,2) [unfolded heads] show ?thesis
    by (intro exI [of _ r'] exI conjI) (assumption, simp)
qed

lemma removeHash_replace:
  assumes c: "coll_chains (ringBuffer m) (hashSlotHead m) hs" and s: "s < length (hashSlotHead m)"
    and hs: "hs s = as @ y # bs" and k: "compressHash m (ky (ringBuffer m) y) = int s"
    and x: "valid (ringBuffer m) x" "x \<noteq> -1" "\<And>s'. s' < length (hashSlotHead m) \<Longrightarrow> x \<notin> set (hs s')"
    and eq: "hn (ringBuffer m) x = hn (ringBuffer m) y" "hp (ringBuffer m) x = hp (ringBuffer m) y"
  shows "\<exists>r heads. removeNodeFromHashList y x x m = Some (m\<lparr>ringBuffer := r, hashSlotHead := heads\<rparr>) \<and>
    length heads = length (hashSlotHead m) \<and> coll_chains r heads (hs(s := as @ x # bs)) \<and> hash_change (ringBuffer m) r"
proof -
  let ?r = "ringBuffer m" and ?H = "hashSlotHead m"
  have ch: "coll_chain ?r (?H ! s) (as @ y # bs)" using c s hs by (metis coll_chains_def)
  note a = coll_chain_around [OF ch]
  obtain r' where r': "removeNodeFromHashList y x x m = Some (m\<lparr>ringBuffer := r',
      hashSlotHead := (if hp ?r y = -1 then ?H[s := x] else ?H)\<rparr>)"
    "hash_change ?r r'" "hn r' = (if hp ?r y = -1 then hn ?r else (hn ?r)(hp ?r y := x))"
    "hp r' = (if hn ?r y = -1 then hp ?r else (hp ?r)(hn ?r y := x))"
    using removeNodeFromHashList_eq [OF a(3,5,6,4) k s, of x x] by blast
  have l: "links (hn ?r) (hp ?r) (-1) (as @ y # bs) (-1)" and d: "distinct (as @ y # bs)" "-1 \<notin> set (as @ y # bs)"
    and v: "\<forall>i\<in>set (as @ y # bs). valid ?r i" and h: "?H ! s = first (-1) (as @ y # bs)"
    using ch by (auto simp: coll_chain_def)
  have nx: "x \<notin> set (as @ y # bs)" using x(3) [OF s] hs by simp
  have vv: "valid r' = valid ?r" using r'(2) by (simp add: hash_change_def same_store_def)
  have lk: "links (hn r') (hp r') (-1) (as @ x # bs) (-1)"
    unfolding r'(3,4) a(7,8) unfolding a(1,2) by (rule links_replace [OF l d nx eq])
  have heads: "(if hp ?r y = -1 then ?H[s := x] else ?H) = ?H[s := first (-1) (as @ x # bs)]"
    unfolding a(7) using h by (cases as) (simp_all, metis list_update_id)
  have "coll_chains r' (?H[s := first (-1) (as @ x # bs)]) (hs(s := as @ x # bs))"
  proof (rule coll_chains_update [OF c s _ vv])
    show "coll_chain r' (first (-1) (as @ x # bs)) (as @ x # bs)" using lk d v x(1,2) nx by (auto simp: coll_chain_def vv)
    show "hn r' i = hn ?r i \<and> hp r' i = hp ?r i" if "i \<notin> set (hs s) \<union> set (as @ x # bs)" for i
      using that final_in [of "-1" as] first_in [of "-1" bs] by (auto simp: r'(3,4) hs a(1,2) split: if_splits)
    show "i \<notin> set (hs s')" if "i \<in> set (as @ x # bs) - set (hs s)" "s' < length ?H" for i s'
      using that x(3) [OF that(2)] hs by auto
  qed
  with r'(1,2) [unfolded heads] show ?thesis
    by (intro exI [of _ r'] exI conjI) (assumption, simp)
qed

lemma pushHash:
  assumes c: "coll_chains (ringBuffer m) (hashSlotHead m) hs" and s: "s < length (hashSlotHead m)"
    and x: "valid (ringBuffer m) x" "x \<noteq> -1" "\<And>s'. s' < length (hashSlotHead m) \<Longrightarrow> x \<notin> set (hs s')"
  shows "\<exists>r heads. pushNodeToHashList x (int s) m = Some (m\<lparr>ringBuffer := r, hashSlotHead := heads\<rparr>) \<and>
    length heads = length (hashSlotHead m) \<and> coll_chains r heads (hs(s := x # hs s)) \<and> hash_change (ringBuffer m) r"
proof -
  let ?r = "ringBuffer m" and ?H = "hashSlotHead m" and ?xs = "hs s"
  let ?h = "?H ! s"
  have ch: "coll_chain ?r ?h ?xs" using c s by (metis coll_chains_def)
  have l: "links (hn ?r) (hp ?r) (-1) ?xs (-1)" and d: "distinct ?xs" "-1 \<notin> set ?xs"
    and v: "\<forall>i\<in>set ?xs. valid ?r i" and h: "?h = first (-1) ?xs"
    using ch by (auto simp: coll_chain_def)
  have he: "?h = -1 \<longleftrightarrow> ?xs = []" using d by (simp add: h first_end_iff)
  have hv: "valid ?r ?h" if "?xs \<noteq> []" using first_in [of "-1" ?xs] v he(1) that by (auto simp: h)
  define r1 where "r1 = ring_set x ((the (ring_get ?r x))\<lparr>hashListNext := ?h, hashListPrev := -1\<rparr>) ?r"
  have c1: "hash_change ?r r1" "hn r1 = (hn ?r)(x := ?h)" "hp r1 = (hp ?r)(x := -1)"
    using x(1) by (auto simp: r1_def node_set intro!: hash_change_set) (simp_all add: node_fields)
  have v1: "valid r1 = valid ?r" using c1(1) by (simp add: hash_change_def same_store_def)
  define r2 where "r2 = (if ?xs = [] then r1 else ring_set ?h ((the (ring_get r1 ?h))\<lparr>hashListPrev := x\<rparr>) r1)"
  have hv1: "valid r1 ?h" if "?xs \<noteq> []" using hv(1) [OF that] by (simp add: v1)
  have c2: "hash_change r1 r2" "hn r2 = hn r1" "hp r2 = (if ?xs = [] then hp r1 else (hp r1)(?h := x))"
    using hv1 by (auto simp: r2_def node_set intro!: hash_change_set) (simp_all add: node_fields fun_eq_iff)
  have run: "pushNodeToHashList x (int s) m = Some (m\<lparr>ringBuffer := r2, hashSlotHead := ?H[s := x]\<rparr>)"
    using x(1) hv1 s by (auto simp: pushNodeToHashList_def slot_head_ok upd_ok he r2_def set_slot_head_ok simp flip: r1_def)
  have hc: "hash_change ?r r2" by (rule hash_change_trans [OF c1(1) c2(1)])
  have vv: "valid r2 = valid ?r" using hc by (simp add: hash_change_def same_store_def)
  have nx: "x \<notin> set ?xs" using x(3) [OF s] .
  have lk: "links (hn r2) (hp r2) (-1) (x # ?xs) (-1)"
    unfolding c2(2,3) c1(2,3) h by (rule links_push [OF l d(1) nx d(2)])
  have "coll_chains r2 (?H[s := x]) (hs(s := x # ?xs))"
  proof (rule coll_chains_update [OF c s _ vv])
    show "coll_chain r2 x (x # ?xs)" using lk d v x(1,2) nx by (auto simp: coll_chain_def vv)
    show "hn r2 i = hn ?r i \<and> hp r2 i = hp ?r i" if "i \<notin> set (hs s) \<union> set (x # ?xs)" for i
      using that first_in [of "-1" ?xs] he by (auto simp: c2 c1 h split: if_splits)
    show "i \<notin> set (hs s')" if "i \<in> set (x # ?xs) - set (hs s)" "s' < length ?H" for i s'
      using that x(3) [OF that(2)] by auto
  qed
  then show ?thesis
    by (intro exI [of _ r2] exI [of _ "?H[s := x]"]) (simp add: run hc)
qed

section \<open>Invariant\<close>

definition ring_total :: "'v U64LRU \<Rightarrow> int" where
  "ring_total m = int (length (ringBuffer m)) * BLOCK_SIZE"

text \<open>The nodes in use follow each other from the start position on, and a whole block is spare.\<close>

definition layout :: "'v U64LRU \<Rightarrow> int set \<Rightarrow> bool" where
  "layout m L \<longleftrightarrow> blocks_ok (ringBuffer m) \<and> lru_capacity m + BLOCK_SIZE < ring_total m \<and>
     0 \<le> bufferStartIndex m \<and> bufferStartIndex m < ring_total m \<and> 0 \<le> lru_size m \<and> lru_size m \<le> lru_capacity m \<and>
     bufferEndIndex m = (bufferStartIndex m + lru_size m) mod ring_total m \<and>
     L = (\<lambda>k. (bufferStartIndex m + k) mod ring_total m) ` {0..<lru_size m}"

definition slots_ok :: "'v U64LRU \<Rightarrow> bool" where
  "slots_ok m \<longleftrightarrow> (\<exists>k<30. hashSlots m = 2 ^ k \<and> length (hashSlotHead m) = 2 ^ k)"

definition chains_of :: "'v U64LRU \<Rightarrow> int list \<Rightarrow> (nat \<Rightarrow> int list) \<Rightarrow> bool" where
  "chains_of m ts hs \<longleftrightarrow>
     (\<forall>s<length (hashSlotHead m). set (hs s) = {i \<in> set ts. compressHash m (ky (ringBuffer m) i) = int s})"

definition lru_ok :: "'v U64LRU \<Rightarrow> int list \<Rightarrow> (nat \<Rightarrow> int list) \<Rightarrow> bool" where
  "lru_ok m ts hs \<longleftrightarrow> time_list (ringBuffer m) (timeListHead m) (timeListTail m) ts \<and>
     coll_chains (ringBuffer m) (hashSlotHead m) hs \<and> chains_of m ts hs \<and> inj_on (ky (ringBuffer m)) (set ts) \<and>
     layout m (set ts) \<and> slots_ok m"

definition entries :: "'v ring \<Rightarrow> int list \<Rightarrow> (u64 \<times> 'v option) list" where
  "entries r ts = map (\<lambda>i. (ky r i, vl r i)) ts"

lemma sint_take_bit: "k < 31 \<Longrightarrow> sint (take_bit k (w :: i32)) = take_bit k (uint w)"
proof -
  assume k: "k < 31"
  have "uint (take_bit k w) = take_bit k (uint w)" by (rule unsigned_take_bit_eq)
  moreover have "\<not> bit (take_bit k (uint w)) 31" using k by (simp add: bit_take_bit_iff)
  moreover have "sint (take_bit k w) = signed_take_bit 31 (uint (take_bit k w))" by (simp add: sint_uint)
  ultimately show ?thesis using k by (simp add: signed_take_bit_eq_if_positive take_bit_take_bit)
qed

lemma compressHash_range:
  assumes "slots_ok m"
  obtains s where "s < length (hashSlotHead m)" "compressHash m key = int s"
proof -
  obtain k where k: "k < 30" "hashSlots m = 2 ^ k" "length (hashSlotHead m) = 2 ^ k" using assms by (auto simp: slots_ok_def)
  have "(of_int (hashSlots m - 1) :: i32) = mask k" by (simp add: k mask_eq_exp_minus_1)
  then have "compressHash m key = sint (take_bit k (Jenkins key))"
    by (simp add: compressHash_def flip: take_bit_eq_mask)
  also have "\<dots> = take_bit k (uint (Jenkins key))" using k(1) by (simp add: sint_take_bit)
  finally have c: "compressHash m key = uint (Jenkins key) mod 2 ^ k" by (simp add: take_bit_eq_mod)
  have "0 \<le> compressHash m key" "compressHash m key < int (2 ^ k)" unfolding c by simp_all
  then show thesis using that [of "nat (compressHash m key)"] k(3) by (simp add: nat_less_iff)
qed

text \<open>Positions in the ring.\<close>

lemma ring_total_pos: "layout m L \<Longrightarrow> 0 < ring_total m"
  by (simp add: layout_def)

lemma incIndex_eq:
  assumes "0 \<le> i" "i < ring_total m"
  shows "incIndex m i = (i + 1) mod ring_total m"
proof -
  have "int (length (ringBuffer m)) \<le> (i + 1) div BLOCK_SIZE \<longleftrightarrow> ring_total m \<le> i + 1"
    unfolding ring_total_def BLOCK_SIZE_def by linarith
  moreover have "i + 1 = ring_total m \<or> i + 1 < ring_total m" using assms by linarith
  ultimately show ?thesis using assms(1) by (auto simp: incIndex_def)
qed

lemma ring_pos_inj:
  assumes "0 \<le> a" "a < T" "0 \<le> b" "b < T" "(s + a) mod T = (s + b) mod (T :: int)"
  shows "a = b"
proof -
  have "((s + a) - (s + b)) mod T = 0" using assms(5) by (simp add: mod_eq_dvd_iff)
  then have "(a - b) mod T = 0" by simp
  then show ?thesis using assms(1-4) by (metis diff_add_cancel mod_add_left_eq mod_pos_pos_trivial add_0)
qed

lemma layout_card:
  assumes "layout m L"
  shows "int (card L) = lru_size m" "finite L" "L \<subseteq> {0..<ring_total m}" "bufferEndIndex m \<notin> L" "0 \<le> bufferEndIndex m" "bufferEndIndex m < ring_total m"
    "lru_size m < ring_total m"
proof -
  have b: "0 \<le> lru_size m" "lru_size m < ring_total m" and L: "L = (\<lambda>k. (bufferStartIndex m + k) mod ring_total m) ` {0..<lru_size m}"
    and e: "bufferEndIndex m = (bufferStartIndex m + lru_size m) mod ring_total m"
    using assms by (auto simp: layout_def BLOCK_SIZE_def)
  show "lru_size m < ring_total m" by (rule b)
  have "inj_on (\<lambda>k. (bufferStartIndex m + k) mod ring_total m) {0..<lru_size m}"
    using b by (intro inj_onI, rule_tac T = "ring_total m" and s = "bufferStartIndex m" in ring_pos_inj) auto
  then show "int (card L) = lru_size m" using b by (simp add: L card_image)
  show "finite L" "L \<subseteq> {0..<ring_total m}" using b by (auto simp: L)
  show "bufferEndIndex m \<notin> L"
  proof
    assume "bufferEndIndex m \<in> L"
    then obtain k where k: "0 \<le> k" "k < lru_size m" "(bufferStartIndex m + lru_size m) mod ring_total m = (bufferStartIndex m + k) mod ring_total m"
      by (auto simp: L e)
    have "lru_size m = k" using b k(1,2) by (intro ring_pos_inj [OF _ _ _ _ k(3)]) auto
    with k(2) show False by simp
  qed
  show "0 \<le> bufferEndIndex m" "bufferEndIndex m < ring_total m" using b by (simp_all add: e)
qed

lemma lru_size_eq: "lru_ok m ts hs \<Longrightarrow> int (length ts) = lru_size m"
  using layout_card(1) by (metis lru_ok_def time_list_def distinct_card)

section \<open>Searching\<close>

declare find_loop.simps [simp del] chain_loop.simps [simp del] walk_loop.simps [simp del]

lemma find_loop_links:
  assumes "links (hn (ringBuffer m)) (hp (ringBuffer m)) p xs (-1)" "-1 \<notin> set xs" "\<forall>i\<in>set xs. valid (ringBuffer m) i"
  shows "\<exists>w'. find_loop m key w (first (-1) xs) =
    Some (case find (\<lambda>i. ky (ringBuffer m) i = key) xs of None \<Rightarrow> -1 | Some i \<Rightarrow> i, w')"
  using assms
proof (induction xs arbitrary: p w)
  case Nil
  show ?case by (simp add: find_loop.simps [of m key w "-1"])
next
  case (Cons x xs)
  obtain nd where nd: "getNode m x = Some nd" using Cons.prems(3) by (auto simp: valid_def getNode_def)
  have f: "nd_key nd = ky (ringBuffer m) x" "hashListNext nd = first (-1) xs"
    using Cons.prems(1) nd by (simp_all add: node_fields getNode_def)
  show ?case
  proof (cases "nd_key nd = key")
    case True
    then show ?thesis using f Cons.prems(2) by (subst find_loop.simps) (simp add: nd)
  next
    case False
    then show ?thesis using f Cons.prems Cons.IH [of x "w + 1"] by (subst find_loop.simps) (simp add: nd)
  qed
qed

lemma chain_loop_links:
  assumes "links (hn (ringBuffer m)) (hp (ringBuffer m)) p xs (-1)" "-1 \<notin> set xs" "\<forall>i\<in>set xs. valid (ringBuffer m) i"
  shows "\<exists>bs. chain_loop m n (first (-1) xs) = Some bs"
  using assms
proof (induction xs arbitrary: p n)
  case Nil
  show ?case by (simp add: chain_loop.simps [of m n "-1"])
next
  case (Cons x xs)
  obtain nd where nd: "getNode m x = Some nd" using Cons.prems(3) by (auto simp: valid_def getNode_def)
  have f: "hashListNext nd = first (-1) xs" using Cons.prems(1) nd by (simp add: node_fields getNode_def)
  obtain bs where "chain_loop m (n - 8) (first (-1) xs) = Some bs" using Cons.IH [of x "n - 8"] Cons.prems by auto
  then show ?case using f by (subst chain_loop.simps) (simp add: nd)
qed

lemma walk_loop_links:
  assumes "links (tn (ringBuffer m)) (tp (ringBuffer m)) p xs (-1)" "-1 \<notin> set xs" "\<forall>i\<in>set xs. valid (ringBuffer m) i"
  shows "walk_loop m (first (-1) xs) = Some (entries (ringBuffer m) xs)"
  using assms
proof (induction xs arbitrary: p)
  case Nil
  show ?case by (simp add: walk_loop.simps [of m "-1"] entries_def)
next
  case (Cons x xs)
  obtain nd where nd: "getNode m x = Some nd" using Cons.prems(3) by (auto simp: valid_def getNode_def)
  have f: "timeListNext nd = first (-1) xs" "nd_key nd = ky (ringBuffer m) x" "nd_value nd = vl (ringBuffer m) x"
    using Cons.prems(1) nd by (simp_all add: node_fields getNode_def)
  show ?case using f Cons.prems Cons.IH [of x] by (subst walk_loop.simps) (simp add: nd entries_def)
qed

lemma Lru_Walk_entries: "lru_ok m ts hs \<Longrightarrow> Lru_Walk m = Some (entries (ringBuffer m) ts)"
  using walk_loop_links [of m "-1" ts] by (simp add: lru_ok_def time_list_def Lru_Walk_def)

text \<open>The position of a key.\<close>

definition pos_of :: "'v ring \<Rightarrow> int list \<Rightarrow> u64 \<Rightarrow> int" where
  "pos_of r ts key = (case find (\<lambda>i. ky r i = key) ts of None \<Rightarrow> -1 | Some i \<Rightarrow> i)"

lemma pos_of_cases:
  assumes "inj_on (ky r) (set ts)" "-1 \<notin> set ts"
  shows "(pos_of r ts key = -1 \<and> key \<notin> ky r ` set ts) \<or> (pos_of r ts key \<in> set ts \<and> pos_of r ts key \<noteq> -1 \<and> ky r (pos_of r ts key) = key)"
proof (cases "find (\<lambda>i. ky r i = key) ts")
  case None
  then have "pos_of r ts key = -1" by (simp add: pos_of_def)
  moreover have "key \<notin> ky r ` set ts" using None by (auto simp: find_None_iff)
  ultimately show ?thesis by simp
next
  case (Some x)
  then obtain j where "j < length ts" "x = ts ! j" "ky r (ts ! j) = key" by (auto simp: find_Some_iff)
  then have "x \<in> set ts" "ky r x = key" by simp_all
  then show ?thesis using Some assms(2) by (auto simp: pos_of_def)
qed

lemma pos_of_unique:
  assumes "inj_on (ky r) (set ts)" "-1 \<notin> set ts" "set xs = {i \<in> set ts. f (ky r i) = f key}"
  shows "pos_of r xs key = pos_of r ts key"
proof -
  have xs: "inj_on (ky r) (set xs)" "-1 \<notin> set xs" using assms by (auto intro: inj_on_subset)
  consider "pos_of r ts key = -1" "key \<notin> ky r ` set ts"
    | "pos_of r ts key \<in> set ts" "ky r (pos_of r ts key) = key"
    using pos_of_cases [OF assms(1,2), of key] by blast
  then show ?thesis
  proof cases
    case 1
    then have "key \<notin> ky r ` set xs" using assms(3) by auto
    then show ?thesis using pos_of_cases [OF xs, of key] 1 by (metis image_eqI)
  next
    case 2
    then have "pos_of r ts key \<in> set xs" using assms(3) by simp
    then have "key \<in> ky r ` set xs" using 2(2) by (metis image_eqI)
    then have "pos_of r xs key \<in> set xs" "ky r (pos_of r xs key) = key" using pos_of_cases [OF xs, of key] by auto
    then show ?thesis using 2(2) \<open>pos_of r ts key \<in> set xs\<close> inj_onD [OF xs(1)] by metis
  qed
qed

lemma slot_find:
  assumes "lru_ok m ts hs"
  shows "\<exists>h w. slot_head m (compressHash m key) = Some h \<and> find_loop m key 0 h = Some (pos_of (ringBuffer m) ts key, w) \<and>
    (\<forall>n. generateCollisionChainIn m n (compressHash m key) \<noteq> None)"
proof -
  have ok: "slots_ok m" "coll_chains (ringBuffer m) (hashSlotHead m) hs" "chains_of m ts hs" "inj_on (ky (ringBuffer m)) (set ts)"
    "-1 \<notin> set ts" using assms by (auto simp: lru_ok_def time_list_def)
  obtain s where s: "s < length (hashSlotHead m)" "compressHash m key = int s" using compressHash_range [OF ok(1)] by blast
  have c: "coll_chain (ringBuffer m) (hashSlotHead m ! s) (hs s)" using ok(2) s(1) by (auto simp: coll_chains_def)
  have set_hs: "set (hs s) = {i \<in> set ts. compressHash m (ky (ringBuffer m) i) = compressHash m key}"
    using ok(3) s by (auto simp: chains_of_def)
  have h: "slot_head m (compressHash m key) = Some (first (-1) (hs s))" using s c by (simp add: slot_head_ok coll_chain_def)
  have "\<exists>w. find_loop m key 0 (first (-1) (hs s)) = Some (pos_of (ringBuffer m) (hs s) key, w)"
    using find_loop_links [of m "-1" "hs s" key 0] c by (auto simp: coll_chain_def pos_of_def)
  moreover have "pos_of (ringBuffer m) (hs s) key = pos_of (ringBuffer m) ts key"
    by (rule pos_of_unique [OF ok(4,5) set_hs])
  moreover have "generateCollisionChainIn m n (compressHash m key) \<noteq> None" for n
    using chain_loop_links [of m "-1" "hs s" n] c by (auto simp: generateCollisionChainIn_def h coll_chain_def)
  ultimately show ?thesis using h by auto
qed

text \<open>Counters and the kept chain do not matter for the map.\<close>

definition same_map :: "'v U64LRU \<Rightarrow> 'v U64LRU \<Rightarrow> bool" where
  "same_map m m' \<longleftrightarrow> (\<exists>c d b. m' = m\<lparr>lru_counter := c, debugChain := d, debugChainRead := b\<rparr>)"

lemma same_mapI:
  "same_map m (m\<lparr>lru_counter := c\<rparr>)" "same_map m (m\<lparr>debugChain := d, debugChainRead := b\<rparr>)" "same_map m m"
proof -
  have "m\<lparr>lru_counter := c\<rparr> = m\<lparr>lru_counter := c, debugChain := debugChain m, debugChainRead := debugChainRead m\<rparr>"
    "m\<lparr>debugChain := d, debugChainRead := b\<rparr> = m\<lparr>lru_counter := lru_counter m, debugChain := d, debugChainRead := b\<rparr>"
    "m = m\<lparr>lru_counter := lru_counter m, debugChain := debugChain m, debugChainRead := debugChainRead m\<rparr>" by simp_all
  then show "same_map m (m\<lparr>lru_counter := c\<rparr>)" "same_map m (m\<lparr>debugChain := d, debugChainRead := b\<rparr>)" "same_map m m"
    unfolding same_map_def by blast+
qed

lemma same_map_trans: "same_map m m' \<Longrightarrow> same_map m' m'' \<Longrightarrow> same_map m m''"
  unfolding same_map_def by (elim exE) (simp, blast)

lemma same_map_ok:
  assumes "same_map m m'"
  shows "lru_ok m' ts hs = lru_ok m ts hs" "ringBuffer m' = ringBuffer m" "lru_capacity m' = lru_capacity m" "lru_size m' = lru_size m"
    "hashSlotHead m' = hashSlotHead m" "compressHash m' = compressHash m"
  using assms by (auto simp: same_map_def lru_ok_def chains_of_def compressHash_def layout_def ring_total_def slots_ok_def fun_eq_iff)

lemma keep_chain_same:
  assumes "\<And>n. generateCollisionChainIn m n slot \<noteq> None"
  shows "\<exists>m'. keep_chain added width slot m = Some m' \<and> same_map m m'"
proof -
  obtain rest where "generateCollisionChainIn m (8 * (width - length added)) slot = Some rest" using assms by blast
  then show ?thesis using same_mapI by (auto simp: keep_chain_def Let_def)
qed

lemma find_node_spec:
  assumes "lru_ok m ts hs"
  shows "\<exists>m'. find_node key isAdd m = Some (pos_of (ringBuffer m) ts key, m') \<and> same_map m m'"
proof -
  let ?m = "m\<lparr>lru_counter := (lru_counter m)\<lparr>lc_scanTimes := lc_scanTimes (lru_counter m) + 1\<rparr>\<rparr>"
  have s: "same_map m ?m" by (rule same_mapI)
  have ok: "lru_ok ?m ts hs" using assms same_map_ok(1) [OF s] by simp
  obtain h w where f: "slot_head ?m (compressHash ?m key) = Some h" "find_loop ?m key 0 h = Some (pos_of (ringBuffer m) ts key, w)"
    using slot_find [OF ok, of key] by auto
  have sc: "same_map m (count_scan a b ?m)" for a b
    unfolding count_scan_def Let_def by (rule same_map_trans [OF s]) (rule same_mapI)
  have gen: "generateCollisionChainIn (count_scan a b ?m) n (compressHash ?m key) \<noteq> None" for a b n
  proof -
    have "lru_ok (count_scan a b ?m) ts hs" using assms same_map_ok(1) [OF sc] by simp
    moreover have "compressHash (count_scan a b ?m) key = compressHash ?m key" by (simp add: compressHash_def count_scan_def Let_def)
    ultimately show ?thesis using slot_find [of "count_scan a b ?m" ts hs key] by auto
  qed
  have tr: "same_map m m'" if "same_map (count_scan a b ?m) m'" for m' a b
    by (rule same_map_trans [OF sc that])
  show ?thesis
  proof (cases "pos_of (ringBuffer m) ts key = -1")
    case True
    obtain m' where "keep_chain (if isAdd then [key] else []) (if isAdd then w + 1 else w) (compressHash ?m key)
        (count_scan w (if isAdd then w + 1 else w) ?m) = Some m'" "same_map (count_scan w (if isAdd then w + 1 else w) ?m) m'"
      using keep_chain_same [OF gen] by blast
    then show ?thesis using f True tr unfolding find_node_def Let_def by auto
  next
    case False
    obtain m' where "keep_chain [] w (compressHash ?m key) (count_scan w w ?m) = Some m'" "same_map (count_scan w w ?m) m'"
      using keep_chain_same [OF gen] by blast
    then show ?thesis using f False tr unfolding find_node_def Let_def by auto
  qed
qed

end
