(* ===== verification/Lru_Laws.thy ===== *)
theory Lru_Laws
  imports Lru_Lists
begin

text \<open>
  Removing, updating and adding nodes of \<open>U64_Lru\<close> keeps the invariant, and what it does to the
  entries by age. From this the operations of the map refine those of a list.
\<close>

section \<open>Frames\<close>

lemma time_list_frame:
  assumes "time_list r h t ts" "\<And>i. i \<in> set ts \<Longrightarrow> tn r' i = tn r i \<and> tp r' i = tp r i \<and> valid r' i = valid r i"
  shows "time_list r' h t ts"
proof -
  have "links (tn r') (tp r') (-1) ts (-1) \<longleftrightarrow> links (tn r) (tp r) (-1) ts (-1)" using assms(2) by (intro links_cong) auto
  then show ?thesis using assms by (simp add: time_list_def)
qed

lemma coll_chains_frame:
  assumes "coll_chains r heads hs"
    and "\<And>s i. s < length heads \<Longrightarrow> i \<in> set (hs s) \<Longrightarrow> hn r' i = hn r i \<and> hp r' i = hp r i \<and> valid r' i = valid r i"
  shows "coll_chains r' heads hs"
proof -
  have "links (hn r') (hp r') (-1) (hs s) (-1) \<longleftrightarrow> links (hn r) (hp r) (-1) (hs s) (-1)" if "s < length heads" for s
    using assms(2) that by (intro links_cong) auto
  then show ?thesis using assms by (simp add: coll_chains_def coll_chain_def)
qed

lemma entries_frame: "(\<And>i. i \<in> set ts \<Longrightarrow> ky r' i = ky r i \<and> vl r' i = vl r i) \<Longrightarrow> entries r' ts = entries r ts"
  by (simp add: entries_def)

lemma ring_get_frame:
  assumes "ring_get r' i = ring_get r i"
  shows "tn r' i = tn r i" "tp r' i = tp r i" "hn r' i = hn r i" "hp r' i = hp r i" "ky r' i = ky r i" "vl r' i = vl r i" "valid r' i = valid r i"
  using assms by (simp_all add: node_fields valid_def)

text \<open>The lists over a store, with the chain of each slot made of the nodes that hash to it.\<close>

definition lists_ok :: "(u64 \<Rightarrow> int) \<Rightarrow> 'v ring \<Rightarrow> int \<Rightarrow> int \<Rightarrow> int list \<Rightarrow> int list \<Rightarrow> (nat \<Rightarrow> int list) \<Rightarrow> bool" where
  "lists_ok c r h t heads ts hs \<longleftrightarrow> time_list r h t ts \<and> coll_chains r heads hs \<and> inj_on (ky r) (set ts) \<and>
     (\<forall>s<length heads. set (hs s) = {i \<in> set ts. c (ky r i) = int s})"

lemma lru_ok_lists:
  "lru_ok m ts hs \<longleftrightarrow> lists_ok (compressHash m) (ringBuffer m) (timeListHead m) (timeListTail m) (hashSlotHead m) ts hs \<and>
     layout m (set ts) \<and> slots_ok m"
  by (auto simp: lru_ok_def lists_ok_def chains_of_def)

lemma lists_frame:
  assumes "lists_ok c r h t heads ts hs" "\<And>i. i \<in> set ts \<Longrightarrow> ring_get r' i = ring_get r i"
  shows "lists_ok c r' h t heads ts hs"
proof -
  have f: "tn r' i = tn r i \<and> tp r' i = tp r i \<and> valid r' i = valid r i" "hn r' i = hn r i \<and> hp r' i = hp r i \<and> valid r' i = valid r i"
    "ky r' i = ky r i" if "i \<in> set ts" for i
    using ring_get_frame [OF assms(2) [OF that]] by simp_all
  have l: "time_list r h t ts" "coll_chains r heads hs" "inj_on (ky r) (set ts)"
    and hs: "\<forall>s<length heads. set (hs s) = {i \<in> set ts. c (ky r i) = int s}" using assms(1) by (simp_all add: lists_ok_def)
  have "time_list r' h t ts" using f(1) by (rule time_list_frame [OF l(1)])
  moreover have "coll_chains r' heads hs" by (rule coll_chains_frame [OF l(2)], rule f(2)) (use hs in auto)
  moreover have "inj_on (ky r') (set ts)" using l(3) f(3) by (simp cong: inj_on_cong)
  moreover have "{i \<in> set ts. c (ky r' i) = int s} = {i \<in> set ts. c (ky r i) = int s}" for s using f(3) by auto
  ultimately show ?thesis using hs by (simp add: lists_ok_def)
qed

lemma lists_outside: "lists_ok c r h t heads ts hs \<Longrightarrow> valid r x \<Longrightarrow> x \<notin> set ts \<Longrightarrow> lists_ok c (ring_set x n r) h t heads ts hs"
  by (rule lists_frame) (auto simp: ring_get_set)

lemma hash_change_time: "hash_change r r' \<Longrightarrow> time_list r h t ts \<Longrightarrow> time_list r' h t ts"
  by (rule time_list_frame [of r]) (auto simp: hash_change_def same_store_def)

lemma time_change_chains: "time_change r r' \<Longrightarrow> coll_chains r heads hs \<Longrightarrow> coll_chains r' heads hs"
  by (rule coll_chains_frame [of r]) (auto simp: time_change_def same_store_def)

lemma chain_member:
  assumes "lists_ok c r h t heads ts hs" "x \<in> set ts" "c (ky r x) = int s" "s < length heads"
  obtains cs ds where "hs s = cs @ x # ds"
proof -
  have "x \<in> set (hs s)" using assms by (simp add: lists_ok_def)
  then show thesis using that by (meson split_list)
qed

section \<open>Removing\<close>

lemma unlink_spec:
  assumes l: "lists_ok (compressHash m) (ringBuffer m) (timeListHead m) (timeListTail m) (hashSlotHead m) (as @ x # bs) hs"
    and s: "slots_ok m"
  shows "\<exists>m1 r h t heads hs'. removeNodeFromHashList x (hn (ringBuffer m) x) (hp (ringBuffer m) x) m = Some m1 \<and>
    (\<exists>nd. getNode m1 x = Some nd \<and>
      removeNodeFromTimeList x (timeListNext nd) (timeListPrev nd) m1 =
        Some (m\<lparr>ringBuffer := r, hashSlotHead := heads, timeListHead := h, timeListTail := t\<rparr>)) \<and>
    lists_ok (compressHash m) r h t heads (as @ bs) hs' \<and> length heads = length (hashSlotHead m) \<and>
    same_store (ringBuffer m) r \<and> ky r = ky (ringBuffer m) \<and> vl r = vl (ringBuffer m)"
proof -
  let ?r = "ringBuffer m" and ?ts = "as @ x # bs"
  have tl: "time_list ?r (timeListHead m) (timeListTail m) ?ts" and cc: "coll_chains ?r (hashSlotHead m) hs"
    and inj: "inj_on (ky ?r) (set ?ts)" and co: "\<forall>s<length (hashSlotHead m). set (hs s) = {i \<in> set ?ts. compressHash m (ky ?r i) = int s}"
    using l by (auto simp: lists_ok_def)
  obtain sl where sl: "sl < length (hashSlotHead m)" "compressHash m (ky ?r x) = int sl" using compressHash_range [OF s] by blast
  obtain cs ds where hs: "hs sl = cs @ x # ds" using chain_member [OF l _ sl(2,1)] by auto
  obtain r1 heads where r1: "removeNodeFromHashList x (hn ?r x) (hp ?r x) m = Some (m\<lparr>ringBuffer := r1, hashSlotHead := heads\<rparr>)"
    "length heads = length (hashSlotHead m)" "coll_chains r1 heads (hs(sl := cs @ ds))" "hash_change ?r r1"
    using removeHash_delete [OF cc sl(1) hs sl(2)] by blast
  define m1 where "m1 = m\<lparr>ringBuffer := r1, hashSlotHead := heads\<rparr>"
  have tl1: "time_list (ringBuffer m1) (timeListHead m1) (timeListTail m1) ?ts"
    using hash_change_time [OF r1(4) tl] by (simp add: m1_def)
  obtain r h t where r: "removeNodeFromTimeList x (tn r1 x) (tp r1 x) m1 = Some (m1\<lparr>ringBuffer := r, timeListHead := h, timeListTail := t\<rparr>)"
    "time_list r h t (as @ bs)" "time_change r1 r"
    using removeTime_delete [OF tl1] by (auto simp: m1_def)
  have "valid r1 x" using tl1 by (simp add: time_list_def m1_def)
  then obtain nd where nd: "getNode m1 x = Some nd" "timeListNext nd = tn r1 x" "timeListPrev nd = tp r1 x"
    by (auto simp: valid_def getNode_def m1_def node_fields)
  have k: "ky r = ky ?r" "vl r = vl ?r" using r1(4) r(3) by (simp_all add: hash_change_def time_change_def)
  have d: "distinct ?ts" "distinct (hs sl)" using tl cc sl(1) by (auto simp: time_list_def coll_chains_def coll_chain_def)
  have "set ((hs(sl := cs @ ds)) s) = {i \<in> set (as @ bs). compressHash m (ky r i) = int s}" if "s < length heads" for s
  proof (cases "s = sl")
    case True
    have "set (cs @ ds) = set (hs sl) - {x}" using d(2) hs by auto
    also have "\<dots> = {i \<in> set ?ts. compressHash m (ky ?r i) = int sl} - {x}" using co sl(1) by simp
    also have "\<dots> = {i \<in> set (as @ bs). compressHash m (ky ?r i) = int sl}" using d(1) by auto
    finally show ?thesis using True by (simp add: k)
  next
    case False
    have "set (hs s) = {i \<in> set ?ts. compressHash m (ky ?r i) = int s}" using co that r1(2) by simp
    then show ?thesis using False sl(2) by (auto simp: k)
  qed
  moreover have "inj_on (ky r) (set (as @ bs))" unfolding k using inj by (rule inj_on_subset) auto
  ultimately have "lists_ok (compressHash m) r h t heads (as @ bs) (hs(sl := cs @ ds))"
    using r(2) time_change_chains [OF r(3) r1(3)] by (simp add: lists_ok_def)
  moreover have "same_store ?r r" using r1(4) r(3) same_store_trans by (auto simp: hash_change_def time_change_def)
  moreover have "m1\<lparr>ringBuffer := r, timeListHead := h, timeListTail := t\<rparr> =
      m\<lparr>ringBuffer := r, hashSlotHead := heads, timeListHead := h, timeListTail := t\<rparr>" by (simp add: m1_def)
  moreover have "removeNodeFromHashList x (hn ?r x) (hp ?r x) m = Some m1" unfolding m1_def by (rule r1(1))
  ultimately show ?thesis using r1(2) r(1) nd k by metis
qed

text \<open>Position \<open>y\<close> moves to the free position \<open>x\<close>.\<close>

lemma move_spec:
  assumes l: "lists_ok (compressHash m) (ringBuffer m) (timeListHead m) (timeListTail m) (hashSlotHead m) (as @ y # bs) hs"
    and s: "slots_ok m" and x: "valid (ringBuffer m) x" "x \<notin> set (as @ y # bs)" "x \<noteq> -1" and y: "bufferStartIndex m = y"
  shows "\<exists>r h t heads hs'. fill_place x m = Some (m\<lparr>ringBuffer := r, hashSlotHead := heads, timeListHead := h, timeListTail := t\<rparr>) \<and>
    lists_ok (compressHash m) r h t heads (as @ x # bs) hs' \<and> length heads = length (hashSlotHead m) \<and>
    same_store (ringBuffer m) r \<and> entries r (as @ x # bs) = entries (ringBuffer m) (as @ y # bs)"
proof -
  let ?r = "ringBuffer m" and ?ts = "as @ y # bs" and ?c = "compressHash m"
  have xy: "x \<noteq> y" using x(2) by auto
  have "time_list ?r (timeListHead m) (timeListTail m) ?ts" using l by (simp add: lists_ok_def)
  then have vy: "valid ?r y" "y \<noteq> -1" and d: "distinct ?ts" by (auto simp: time_list_def)
  obtain nd where nd: "ring_get ?r y = Some nd" using vy(1) by (auto simp: valid_def)
  define r1 where "r1 = ring_set x nd ?r"
  define m1 where "m1 = m\<lparr>ringBuffer := r1\<rparr>"
  have l1: "lists_ok ?c r1 (timeListHead m) (timeListTail m) (hashSlotHead m) ?ts hs"
    unfolding r1_def by (rule lists_outside [OF l x(1,2)])
  have g1: "ring_get r1 j = (if j = x then Some nd else ring_get ?r j)" for j unfolding r1_def by (rule ring_get_set [OF x(1)])
  have st1: "same_store ?r r1" unfolding r1_def by (rule same_store_set [OF x(1)])
  have eq: "hn r1 x = hn r1 y" "hp r1 x = hp r1 y" "tn r1 x = tn r1 y" "tp r1 x = tp r1 y" "ky r1 x = ky r1 y" "vl r1 x = vl r1 y"
    using nd xy by (simp_all add: node_fields g1)
  have vx: "valid r1 x" by (simp add: valid_def g1)
  have c1: "compressHash m1 = ?c" "slots_ok m1" using s by (simp_all add: m1_def compressHash_def slots_ok_def fun_eq_iff)
  have lp: "time_list r1 (timeListHead m) (timeListTail m) ?ts" "coll_chains r1 (hashSlotHead m) hs" "inj_on (ky r1) (set ?ts)"
    "\<forall>s<length (hashSlotHead m). set (hs s) = {i \<in> set ?ts. ?c (ky r1 i) = int s}" using l1 by (simp_all add: lists_ok_def)
  obtain sl where sl: "sl < length (hashSlotHead m)" "?c (ky r1 y) = int sl" using compressHash_range [OF s] by blast
  obtain cs ds where hs: "hs sl = cs @ y # ds" using chain_member [OF l1 _ sl(2,1)] by auto
  have out: "x \<notin> set (hs s')" if "s' < length (hashSlotHead m)" for s' using lp(4) that x(2) by auto
  obtain r2 heads where r2: "removeNodeFromHashList y x x m1 = Some (m1\<lparr>ringBuffer := r2, hashSlotHead := heads\<rparr>)"
    "length heads = length (hashSlotHead m)" "coll_chains r2 heads (hs(sl := cs @ x # ds))" "hash_change r1 r2"
    using removeHash_replace [of m1 hs sl cs y ds x] lp(2) sl hs c1(1) vx x(3) out eq(1,2) by (auto simp: m1_def)
  define m2 where "m2 = m1\<lparr>ringBuffer := r2, hashSlotHead := heads\<rparr>"
  have h2: "valid r2 = valid r1" "tn r2 = tn r1" "tp r2 = tp r1" "ky r2 = ky r1" "vl r2 = vl r1" "same_store r1 r2"
    using r2(4) by (simp_all add: hash_change_def same_store_def)
  have tl2: "time_list (ringBuffer m2) (timeListHead m2) (timeListTail m2) ?ts"
    using hash_change_time [OF r2(4) lp(1)] by (simp add: m2_def m1_def)
  obtain r3 h t where r3: "removeNodeFromTimeList y x x m2 = Some (m2\<lparr>ringBuffer := r3, timeListHead := h, timeListTail := t\<rparr>)"
    "time_list r3 h t (as @ x # bs)" "time_change r2 r3"
    using removeTime_replace [OF tl2, of x] vx x(2,3) eq(3,4) h2(1-3) by (auto simp: m2_def)
  have h3: "valid r3 = valid r2" "ky r3 = ky r1" "vl r3 = vl r1" "same_store r2 r3"
    using r3(3) h2(4,5) by (simp_all add: time_change_def same_store_def)
  have cc3: "coll_chains r3 heads (hs(sl := cs @ x # ds))" by (rule time_change_chains [OF r3(3) r2(3)])
  have dh: "distinct (hs sl)" using lp(2) sl(1) by (auto simp: coll_chains_def coll_chain_def)
  have sx: "?c (ky r1 x) = int sl" by (simp only: eq(5) sl(2))
  have sets: "set ((hs(sl := cs @ x # ds)) s) = {i \<in> set (as @ x # bs). ?c (ky r3 i) = int s}" if "s < length heads" for s
  proof (cases "s = sl")
    case True
    have "set (cs @ x # ds) = insert x (set (hs sl) - {y})" using dh hs by auto
    also have "\<dots> = insert x ({i \<in> set ?ts. ?c (ky r1 i) = int sl} - {y})" using lp(4) sl(1) by simp
    also have "\<dots> = {i \<in> set (as @ x # bs). ?c (ky r1 i) = int sl}" using d sx by auto
    finally show ?thesis using True by (simp add: h3)
  next
    case False
    have e: "set (hs s) = {i \<in> set ?ts. ?c (ky r1 i) = int s}" using lp(4) [rule_format, of s] that by (simp only: r2(2))
    have e1: "{i \<in> set ?ts. ?c (ky r1 i) = int s} = {i \<in> set (as @ bs). ?c (ky r1 i) = int s}" using sl(2) False by auto
    have e2: "{i \<in> set (as @ x # bs). ?c (ky r1 i) = int s} = {i \<in> set (as @ bs). ?c (ky r1 i) = int s}" using sx False by auto
    show ?thesis by (simp only: fun_upd_other [OF False] h3(2) e e1 e2)
  qed
  have "inj_on (ky r1) (insert x (set (as @ bs)))"
  proof -
    have y': "set ?ts = insert y (set (as @ bs))" "y \<notin> set (as @ bs)" "x \<notin> set (as @ bs)" using d x(2) by auto
    have "inj_on (ky r1) (set (as @ bs))" "ky r1 y \<notin> ky r1 ` set (as @ bs)"
      using lp(3) unfolding y'(1) inj_on_insert using y'(2) by (auto simp: Diff_insert0)
    moreover have "set (as @ bs) - {x} = set (as @ bs)" using y'(3) by auto
    ultimately show ?thesis unfolding inj_on_insert eq(5) by simp
  qed
  then have "lists_ok ?c r3 h t heads (as @ x # bs) (hs(sl := cs @ x # ds))"
    using r3(2) cc3 sets by (simp add: lists_ok_def h3)
  moreover have vy3: "valid r3 y" using vy(1) st1 h2(1) h3(1) by (simp add: same_store_def)
  moreover have ny: "y \<notin> set (as @ x # bs)" using d xy by auto
  ultimately have "lists_ok ?c (ring_set y blankU64LRUNodeForInit r3) h t heads (as @ x # bs) (hs(sl := cs @ x # ds))"
    by (intro lists_outside)
  moreover have "fill_place x m = Some (m\<lparr>ringBuffer := ring_set y blankU64LRUNodeForInit r3, hashSlotHead := heads, timeListHead := h, timeListTail := t\<rparr>)"
  proof -
    have a: "upd x (\<lambda>_. nd) m = Some m1" using x(1) by (simp add: upd_ok m1_def r1_def)
    have b: "bufferStartIndex m1 = y" "bufferStartIndex m2 = y" by (simp_all add: m1_def m2_def y)
    have c: "removeNodeFromHashList y x x m1 = Some m2" unfolding m2_def by (rule r2(1))
    have "upd y (\<lambda>_. blankU64LRUNodeForInit) (m2\<lparr>ringBuffer := r3, timeListHead := h, timeListTail := t\<rparr>) =
      Some (m\<lparr>ringBuffer := ring_set y blankU64LRUNodeForInit r3, hashSlotHead := heads, timeListHead := h, timeListTail := t\<rparr>)"
      using vy3 by (simp add: upd_ok m2_def m1_def)
    then show ?thesis using xy nd by (simp add: fill_place_def y getNode_def a b c r3(1))
  qed
  moreover have "same_store ?r (ring_set y blankU64LRUNodeForInit r3)"
    by (rule same_store_trans [OF st1 same_store_trans [OF h2(6) same_store_trans [OF h3(4) same_store_set [OF vy3]]]])
  moreover have "entries (ring_set y blankU64LRUNodeForInit r3) (as @ x # bs) = entries ?r ?ts"
  proof -
    let ?R = "ring_set y blankU64LRUNodeForInit r3"
    have a: "ky ?R i = ky r1 i \<and> vl ?R i = vl r1 i" if "i \<noteq> y" for i using that vy3 by (simp add: node_set h3)
    have b: "ky r1 i = ky ?r i \<and> vl r1 i = vl ?r i" if "i \<noteq> x" for i using that by (simp add: node_fields g1)
    have f: "entries ?R us = entries ?r us" if "x \<notin> set us" "y \<notin> set us" for us
      by (rule entries_frame) (use a b that in metis)
    have "(ky ?R x, vl ?R x) = (ky ?r y, vl ?r y)"
      using a [OF xy] b [OF xy [symmetric]] eq(5,6) by simp
    then show ?thesis using f [of as] f [of bs] x(2) d by (simp add: entries_def)
  qed
  ultimately show ?thesis using r2(2) by blast
qed

lemma fill_spec:
  assumes l: "lists_ok (compressHash m) (ringBuffer m) (timeListHead m) (timeListTail m) (hashSlotHead m) us hs"
    and s: "slots_ok m" and x: "valid (ringBuffer m) x" "x \<notin> set us" "x \<noteq> -1" and y: "bufferStartIndex m \<in> insert x (set us)"
  shows "\<exists>r h t heads us' hs'. fill_place x m = Some (m\<lparr>ringBuffer := r, hashSlotHead := heads, timeListHead := h, timeListTail := t\<rparr>) \<and>
    lists_ok (compressHash m) r h t heads us' hs' \<and> length heads = length (hashSlotHead m) \<and>
    same_store (ringBuffer m) r \<and> entries r us' = entries (ringBuffer m) us \<and> set us' = insert x (set us) - {bufferStartIndex m}"
proof (cases "bufferStartIndex m = x")
  case True
  let ?r = "ring_set x blankU64LRUNodeForInit (ringBuffer m)"
  have "fill_place x m = Some (m\<lparr>ringBuffer := ?r, hashSlotHead := hashSlotHead m, timeListHead := timeListHead m, timeListTail := timeListTail m\<rparr>)"
    using True x(1) by (simp add: fill_place_def upd_ok)
  moreover have "lists_ok (compressHash m) ?r (timeListHead m) (timeListTail m) (hashSlotHead m) us hs"
    by (rule lists_outside [OF l x(1,2)])
  moreover have "entries ?r us = entries (ringBuffer m) us"
    by (rule entries_frame) (use x in \<open>auto simp: node_set\<close>)
  moreover have "set us = insert x (set us) - {bufferStartIndex m}" using True x(2) by auto
  ultimately show ?thesis using same_store_set [OF x(1)] by blast
next
  case False
  then obtain as bs where us: "us = as @ bufferStartIndex m # bs" using y by (meson insertE split_list)
  have "distinct us" using l by (simp add: lists_ok_def time_list_def)
  then have "set (as @ x # bs) = insert x (set us) - {bufferStartIndex m}" using us x(2) by auto
  then show ?thesis
    using move_spec [OF l [unfolded us] s x(1) x(2) [unfolded us] x(3) refl] unfolding us by blast
qed

lemma release_simps:
  "bufferStartIndex (release_first m) = incIndex m (bufferStartIndex m)" "bufferEndIndex (release_first m) = bufferEndIndex m"
  "lru_size (release_first m) = lru_size m - 1" "lru_capacity (release_first m) = lru_capacity m"
  "hashSlots (release_first m) = hashSlots m" "hashSlotHead (release_first m) = hashSlotHead m"
  "timeListHead (release_first m) = timeListHead m" "timeListTail (release_first m) = timeListTail m"
  "length (ringBuffer (release_first m)) = length (ringBuffer m)" "ring_total (release_first m) = ring_total m"
  "slots_ok (release_first m) = slots_ok m" "compressHash (release_first m) = compressHash m"
  by (simp_all add: release_first_def Let_def ring_total_def slots_ok_def compressHash_def fun_eq_iff)

lemma blocks_ok_release: "blocks_ok (ringBuffer m) \<Longrightarrow> blocks_ok (ringBuffer (release_first m))"
  by (auto simp: release_first_def Let_def blocks_ok_def dest!: set_update_subset_insert [THEN subsetD])

lemma layout_shift:
  assumes "n < (T :: int)" "0 < n"
  shows "(\<lambda>k. (s + k) mod T) ` {0..<n} - {s mod T} = (\<lambda>k. ((s + 1) mod T + k) mod T) ` {0..<n - 1}"
proof -
  let ?R = "(\<lambda>k. (s + (k + 1)) mod T) ` {0..<n - 1}"
  have "{0..<n} = insert 0 ((\<lambda>k. k + 1) ` {0..<n - 1})" using assms(2) by auto
  then have "(\<lambda>k. (s + k) mod T) ` {0..<n} = insert (s mod T) ?R" by (simp only: image_insert image_image add_0_right)
  moreover have "s mod T \<notin> ?R"
  proof
    assume "s mod T \<in> ?R"
    then obtain k where k: "0 \<le> k" "k < n - 1" "(s + 0) mod T = (s + (k + 1)) mod T" by auto
    have "0 = k + 1" using k(1,2) assms by (intro ring_pos_inj [OF _ _ _ _ k(3)]) auto
    with k(1) show False by simp
  qed
  moreover have "(\<lambda>k. ((s + 1) mod T + k) mod T) = (\<lambda>k. (s + (k + 1)) mod T)" by (simp add: fun_eq_iff mod_simps ac_simps)
  ultimately show ?thesis by (simp only: insert_Diff_single Diff_insert_absorb insert_Diff_if) simp
qed

lemma layout_release:
  assumes "layout m L" "0 < lru_size m"
  shows "layout (release_first m) (L - {bufferStartIndex m})"
proof -
  let ?T = "ring_total m" and ?s = "bufferStartIndex m" and ?n = "lru_size m"
  have b: "0 \<le> ?s" "?s < ?T" "0 \<le> ?n" "?n < ?T" and L: "L = (\<lambda>k. (?s + k) mod ?T) ` {0..<?n}" and e: "bufferEndIndex m = (?s + ?n) mod ?T"
    using assms(1) by (auto simp: layout_def BLOCK_SIZE_def)
  have i: "incIndex m ?s = (?s + 1) mod ?T" using b by (intro incIndex_eq)
  have "L - {?s} = (\<lambda>k. ((?s + 1) mod ?T + k) mod ?T) ` {0..<?n - 1}"
    using layout_shift [OF b(4) assms(2), of ?s] b(1,2) by (simp add: L)
  moreover have "bufferEndIndex m = ((?s + 1) mod ?T + (?n - 1)) mod ?T" by (simp add: e mod_add_left_eq)
  ultimately show ?thesis
    using assms b pos_mod_bound [of ?T "?s + 1"] pos_mod_sign [of ?T "?s + 1"]
    unfolding layout_def release_simps i by (simp add: blocks_ok_release release_simps)
qed

lemma ring_wrap:
  fixes s T k :: int
  assumes "0 \<le> s" "s < T" "0 \<le> k" "k \<le> T"
  shows "(s + k) mod T = (if s + k < T then s + k else s + k - T)"
  using assms mod_pos_pos_trivial [of "s + k - T" T] by auto

lemma release_get:
  assumes "layout m L" "i \<in> L - {bufferStartIndex m}"
  shows "ring_get (ringBuffer (release_first m)) i = ring_get (ringBuffer m) i"
proof (cases "bufferStartIndex m mod BLOCK_SIZE = BLOCK_SIZE - 1")
  case True
  let ?T = "ring_total m" and ?s = "bufferStartIndex m"
  obtain k where k: "0 < k" "k < lru_size m" "i = (?s + k) mod ?T"
  proof -
    from assms obtain k where k: "0 \<le> k" "k < lru_size m" "i = (?s + k) mod ?T" "0 \<le> ?s" "?s < ?T" "i \<noteq> ?s"
      by (auto simp: layout_def)
    then have "k \<noteq> 0" by auto
    then show thesis using that [of k] k by simp
  qed
  have b: "0 \<le> ?s" "?s < ?T" "lru_size m \<le> lru_capacity m" "lru_capacity m + BLOCK_SIZE < ?T" using assms(1) by (auto simp: layout_def)
  have i: "i = ?s + k \<or> i = ?s + k - ?T" "0 \<le> i" "i < ?T"
    using ring_wrap [of ?s ?T k] k b by (auto simp: BLOCK_SIZE_def split: if_splits)
  have "i div BLOCK_SIZE \<noteq> ?s div BLOCK_SIZE"
  proof
    assume "i div BLOCK_SIZE = ?s div BLOCK_SIZE"
    then have "i - i mod 256 = ?s - ?s mod 256" by (simp add: BLOCK_SIZE_def minus_mod_eq_mult_div)
    moreover have "0 \<le> i mod 256" "i mod 256 < 256" by simp_all
    ultimately show False using True i(1) k(1,2) b unfolding BLOCK_SIZE_def by linarith
  qed
  moreover have "0 \<le> ?s div BLOCK_SIZE" using b(1) by (simp add: BLOCK_SIZE_def)
  ultimately show ?thesis by (auto simp: release_first_def Let_def ring_get_def)
qed (simp add: release_first_def Let_def)

lemma layout_store:
  assumes "layout m L" "same_store (ringBuffer m) r"
  shows "layout (m\<lparr>ringBuffer := r, hashSlotHead := heads, timeListHead := h, timeListTail := t\<rparr>) L"
  using assms by (simp add: layout_def same_store_def ring_total_def)

lemma slots_store: "length heads = length (hashSlotHead m) \<Longrightarrow>
    slots_ok (m\<lparr>ringBuffer := r, hashSlotHead := heads, timeListHead := h, timeListTail := t\<rparr>) = slots_ok m"
  "compressHash (m\<lparr>ringBuffer := r, hashSlotHead := heads, timeListHead := h, timeListTail := t\<rparr>) = compressHash m"
  by (simp_all add: slots_ok_def compressHash_def fun_eq_iff)

lemma layout_start: "layout m L \<Longrightarrow> 0 < lru_size m \<Longrightarrow> bufferStartIndex m \<in> L"
  by (auto simp: layout_def intro: image_eqI [of _ _ 0])

lemma release_spec:
  assumes l: "lists_ok (compressHash m) (ringBuffer m) (timeListHead m) (timeListTail m) (hashSlotHead m) us hs"
    and "layout m L" "0 < lru_size m" "slots_ok m" "set us = L - {bufferStartIndex m}"
  shows "lru_ok (release_first m) us hs" "entries (ringBuffer (release_first m)) us = entries (ringBuffer m) us"
proof -
  have g: "ring_get (ringBuffer (release_first m)) i = ring_get (ringBuffer m) i" if "i \<in> set us" for i
    using release_get [OF assms(2)] that assms(5) by simp
  have "lists_ok (compressHash m) (ringBuffer (release_first m)) (timeListHead m) (timeListTail m) (hashSlotHead m) us hs"
    by (rule lists_frame [OF l g])
  then show "lru_ok (release_first m) us hs"
    using layout_release [OF assms(2,3)] assms(4,5) by (simp add: lru_ok_lists release_simps)
  show "entries (ringBuffer (release_first m)) us = entries (ringBuffer m) us"
    using ring_get_frame(5,6) [OF g] by (intro entries_frame) auto
qed

theorem removeNode_spec:
  assumes ok: "lru_ok m (as @ x # bs) hs"
  shows "\<exists>m' us hs'. removeNode x m = Some m' \<and> lru_ok m' us hs' \<and> entries (ringBuffer m') us = entries (ringBuffer m) (as @ bs) \<and>
    lru_capacity m' = lru_capacity m \<and> lru_size m' = lru_size m - 1"
proof -
  let ?c = "compressHash m" and ?ts = "as @ x # bs"
  have l: "lists_ok ?c (ringBuffer m) (timeListHead m) (timeListTail m) (hashSlotHead m) ?ts hs"
    and lay: "layout m (set ?ts)" and s: "slots_ok m" using ok by (simp_all add: lru_ok_lists)
  have v: "valid (ringBuffer m) x" "x \<noteq> -1" "x \<notin> set (as @ bs)" using ok by (auto simp: lru_ok_def time_list_def)
  obtain nd where nd: "getNode m x = Some nd" "hashListNext nd = hn (ringBuffer m) x" "hashListPrev nd = hp (ringBuffer m) x"
    using v(1) by (auto simp: valid_def getNode_def node_fields)
  obtain m1 r h t heads hs1 nd1 where u: "removeNodeFromHashList x (hn (ringBuffer m) x) (hp (ringBuffer m) x) m = Some m1"
    "getNode m1 x = Some nd1"
    "removeNodeFromTimeList x (timeListNext nd1) (timeListPrev nd1) m1 =
        Some (m\<lparr>ringBuffer := r, hashSlotHead := heads, timeListHead := h, timeListTail := t\<rparr>)"
    "lists_ok ?c r h t heads (as @ bs) hs1" "length heads = length (hashSlotHead m)"
    "same_store (ringBuffer m) r" "ky r = ky (ringBuffer m)" "vl r = vl (ringBuffer m)"
    using unlink_spec [OF l s] by blast
  define m2 where "m2 = m\<lparr>ringBuffer := r, hashSlotHead := heads, timeListHead := h, timeListTail := t\<rparr>"
  have size: "0 < lru_size m" using lru_size_eq [OF ok] by simp
  have m2: "bufferStartIndex m2 = bufferStartIndex m" "ringBuffer m2 = r" "timeListHead m2 = h" "timeListTail m2 = t" "hashSlotHead m2 = heads"
    "compressHash m2 = ?c" "slots_ok m2" "layout m2 (set ?ts)" "lru_size m2 = lru_size m" "lru_capacity m2 = lru_capacity m"
    using slots_store(1) [OF u(5)] slots_store(2) s layout_store [OF lay u(6)] by (simp_all add: m2_def)
  have start: "bufferStartIndex m \<in> insert x (set (as @ bs))" using layout_start [OF lay size] by simp
  have "valid r x" using u(6) v(1) by (simp add: same_store_def)
  then obtain r' h' t' heads' us hs' where f: "fill_place x m2 = Some (m2\<lparr>ringBuffer := r', hashSlotHead := heads', timeListHead := h', timeListTail := t'\<rparr>)"
    "lists_ok ?c r' h' t' heads' us hs'" "length heads' = length heads" "same_store r r'" "entries r' us = entries r (as @ bs)"
    "set us = insert x (set (as @ bs)) - {bufferStartIndex m}"
    using fill_spec [of m2 "as @ bs" hs1 x] u(4) m2 v(2,3) start by auto
  define m3 where "m3 = m2\<lparr>ringBuffer := r', hashSlotHead := heads', timeListHead := h', timeListTail := t'\<rparr>"
  have c3: "compressHash m3 = ?c" unfolding m3_def slots_store(2) by (rule m2(6))
  have m3: "layout m3 (set ?ts)" "slots_ok m3" "bufferStartIndex m3 = bufferStartIndex m" "lru_size m3 = lru_size m"
    "ringBuffer m3 = r'" "timeListHead m3 = h'" "timeListTail m3 = t'" "hashSlotHead m3 = heads'" "lru_capacity m3 = lru_capacity m"
    using layout_store [OF m2(8), of r'] slots_store(1) [of heads' m2] f(3,4) m2 by (simp_all add: m3_def)
  have "lru_ok (release_first m3) us hs'" "entries (ringBuffer (release_first m3)) us = entries r' us"
    using release_spec [of m3 us hs' "set ?ts"] f(2,6) size m3 c3 by simp_all
  moreover have "removeNode x m = Some (release_first m3)"
    by (simp only: removeNode_def nd u(1-3) m2_def [symmetric] f(1) m3_def [symmetric] Option.bind.simps)
  moreover have "entries r (as @ bs) = entries (ringBuffer m) (as @ bs)" by (simp add: entries_def u(7,8))
  moreover have "lru_capacity (release_first m3) = lru_capacity m" "lru_size (release_first m3) = lru_size m - 1"
    by (simp_all add: release_simps m3)
  ultimately show ?thesis using f(5) by metis
qed

section \<open>Updating and adding\<close>

lemma lists_value:
  assumes "lists_ok c r h t heads ts hs" "valid r x"
  shows "lists_ok c (ring_set x ((the (ring_get r x))\<lparr>nd_value := v\<rparr>) r) h t heads ts hs"
proof -
  let ?r = "ring_set x ((the (ring_get r x))\<lparr>nd_value := v\<rparr>) r"
  have e: "tn ?r = tn r" "tp ?r = tp r" "hn ?r = hn r" "hp ?r = hp r" "ky ?r = ky r"
    by (simp_all add: node_set [OF assms(2)]) (simp_all add: node_fields fun_eq_iff)
  have v: "valid ?r = valid r" using same_store_set [OF assms(2)] by (simp add: same_store_def)
  show ?thesis using assms(1) unfolding lists_ok_def time_list_def coll_chains_def coll_chain_def e v .
qed

lemma lists_reorder:
  assumes "lists_ok c r h t heads ts hs" "time_change r r'" "time_list r' h' t' ts'" "set ts' = set ts"
  shows "lists_ok c r' h' t' heads ts' hs"
  using assms time_change_chains [OF assms(2), of heads hs] by (simp add: lists_ok_def time_change_def)

lemma to_front:
  assumes ok: "lru_ok m (as @ x # bs) hs"
  shows "\<exists>r h t. (if x \<noteq> timeListHead m then do {
            node \<leftarrow> getNode m x;
            m \<leftarrow> removeNodeFromTimeList x (timeListNext node) (timeListPrev node) m;
            pushNodeToTimeList x m
          } else Some m) = Some (m\<lparr>ringBuffer := r, hashSlotHead := hashSlotHead m, timeListHead := h, timeListTail := t\<rparr>) \<and>
    lists_ok (compressHash m) r h t (hashSlotHead m) (x # as @ bs) hs \<and> time_change (ringBuffer m) r"
proof -
  have l: "lists_ok (compressHash m) (ringBuffer m) (timeListHead m) (timeListTail m) (hashSlotHead m) (as @ x # bs) hs"
    using ok by (simp add: lru_ok_lists)
  then have tl: "time_list (ringBuffer m) (timeListHead m) (timeListTail m) (as @ x # bs)" by (simp add: lists_ok_def)
  show ?thesis
  proof (cases "x = timeListHead m")
    case True
    have "as = []" using tl True by (cases as) (auto simp: time_list_def)
    then show ?thesis using l True by (intro exI [of _ "ringBuffer m"] exI [of _ "timeListHead m"] exI [of _ "timeListTail m"]) simp
  next
    case False
    have v: "valid (ringBuffer m) x" "x \<noteq> -1" "x \<notin> set (as @ bs)" using tl by (auto simp: time_list_def)
    obtain nd where nd: "getNode m x = Some nd" "timeListNext nd = tn (ringBuffer m) x" "timeListPrev nd = tp (ringBuffer m) x"
      using v(1) by (auto simp: valid_def getNode_def node_fields)
    obtain r1 h1 t1 where r1: "removeNodeFromTimeList x (tn (ringBuffer m) x) (tp (ringBuffer m) x) m =
        Some (m\<lparr>ringBuffer := r1, timeListHead := h1, timeListTail := t1\<rparr>)"
      "time_list r1 h1 t1 (as @ bs)" "time_change (ringBuffer m) r1"
      using removeTime_delete [OF tl] by blast
    define m1 where "m1 = m\<lparr>ringBuffer := r1, timeListHead := h1, timeListTail := t1\<rparr>"
    have "valid r1 x" using v(1) r1(3) by (simp add: time_change_def same_store_def)
    then obtain r h t where r: "pushNodeToTimeList x m1 = Some (m1\<lparr>ringBuffer := r, timeListHead := h, timeListTail := t\<rparr>)"
      "time_list r h t (x # as @ bs)" "time_change r1 r"
      using pushTime [of m1 "as @ bs" x] r1(2) v(2,3) by (auto simp: m1_def)
    have tc: "time_change (ringBuffer m) r" using r1(3) r(3) same_store_trans by (auto simp: time_change_def)
    have "lists_ok (compressHash m) r h t (hashSlotHead m) (x # as @ bs) hs"
      by (rule lists_reorder [OF l tc r(2)]) auto
    moreover have "m1\<lparr>ringBuffer := r, timeListHead := h, timeListTail := t\<rparr> =
        m\<lparr>ringBuffer := r, hashSlotHead := hashSlotHead m, timeListHead := h, timeListTail := t\<rparr>" by (simp add: m1_def)
    ultimately show ?thesis using False nd r1(1) r(1) tc by (auto simp: m1_def [symmetric])
  qed
qed

theorem updateNode_spec:
  assumes ok: "lru_ok m (as @ x # bs) hs"
  shows "\<exists>m'. updateNode x v m = Some m' \<and> lru_ok m' (x # as @ bs) hs \<and>
    entries (ringBuffer m') (x # as @ bs) = (ky (ringBuffer m) x, v) # entries (ringBuffer m) (as @ bs) \<and>
    lru_capacity m' = lru_capacity m \<and> lru_size m' = lru_size m"
proof -
  obtain r h t where f: "(if x \<noteq> timeListHead m then do {
            node \<leftarrow> getNode m x;
            m \<leftarrow> removeNodeFromTimeList x (timeListNext node) (timeListPrev node) m;
            pushNodeToTimeList x m
          } else Some m) = Some (m\<lparr>ringBuffer := r, hashSlotHead := hashSlotHead m, timeListHead := h, timeListTail := t\<rparr>)"
    "lists_ok (compressHash m) r h t (hashSlotHead m) (x # as @ bs) hs" "time_change (ringBuffer m) r"
    using to_front [OF ok] by blast
  have vx: "valid r x" using f(2) by (simp add: lists_ok_def time_list_def)
  define r' where "r' = ring_set x ((the (ring_get r x))\<lparr>nd_value := v\<rparr>) r"
  define m' where "m' = m\<lparr>ringBuffer := r', hashSlotHead := hashSlotHead m, timeListHead := h, timeListTail := t\<rparr>"
  have ss: "same_store (ringBuffer m) r'"
    using f(3) same_store_trans [OF _ same_store_set [OF vx]] by (simp add: r'_def time_change_def)
  have "updateNode x v m = Some m'"
    unfolding updateNode_def f(1) Option.bind.simps using vx by (simp add: upd_ok m'_def r'_def)
  moreover have "lists_ok (compressHash m) r' h t (hashSlotHead m) (x # as @ bs) hs"
    unfolding r'_def by (rule lists_value [OF f(2) vx])
  moreover have "layout m' (set (x # as @ bs))"
    unfolding m'_def by (rule layout_store [OF _ ss]) (use ok in \<open>simp add: lru_ok_def\<close>)
  moreover have "slots_ok m'" "compressHash m' = compressHash m" "timeListHead m' = h" "timeListTail m' = t" "ringBuffer m' = r'"
    "hashSlotHead m' = hashSlotHead m"
    using ok unfolding m'_def slots_store(2) slots_store(1) [OF refl] by (simp_all add: lru_ok_def)
  moreover have "x \<notin> set (as @ bs)" using f(2) by (simp add: lists_ok_def time_list_def)
  moreover have "ky r' = ky (ringBuffer m)" "vl r' = (vl (ringBuffer m))(x := v)"
    using f(3) by (simp_all add: r'_def node_set [OF vx] time_change_def) (simp_all add: node_fields fun_eq_iff)
  ultimately show ?thesis
    by (intro exI [of _ m']) (auto simp: lru_ok_lists entries_def m'_def)
qed

text \<open>The row of the end position is there after the allocation, and no node in use changes.\<close>

lemma alloc_ok:
  assumes lay: "layout m L" and fresh: "int (length fresh) = BLOCK_SIZE" and v: "\<And>i. i \<in> L \<Longrightarrow> valid (ringBuffer m) i"
  shows "\<exists>r. alloc_row fresh (bufferEndIndex m div BLOCK_SIZE) m = Some (m\<lparr>ringBuffer := r\<rparr>) \<and>
    (\<forall>i\<in>L. ring_get r i = ring_get (ringBuffer m) i) \<and> valid r (bufferEndIndex m) \<and> blocks_ok r \<and> length r = length (ringBuffer m)"
proof -
  let ?e = "bufferEndIndex m" and ?r = "ringBuffer m"
  let ?row = "?e div BLOCK_SIZE"
  have e: "0 \<le> ?e" "?e < ring_total m" using layout_card [OF lay] by simp_all
  have row: "0 \<le> ?row" "?row < int (length ?r)" using e unfolding ring_total_def BLOCK_SIZE_def by linarith+
  have bl: "blocks_ok ?r" using lay by (simp add: layout_def)
  have col: "0 \<le> ?e mod BLOCK_SIZE" "?e mod BLOCK_SIZE < BLOCK_SIZE" by (simp_all add: BLOCK_SIZE_def)
  show ?thesis
  proof (cases "?r ! nat ?row")
    case None
    have g: "ring_get (?r[nat ?row := Some fresh]) i = ring_get ?r i" if "i \<in> L" for i
      using v [OF that] None row by (cases "i div BLOCK_SIZE = ?row") (auto simp: valid_def ring_get_def Let_def)
    have "valid (?r[nat ?row := Some fresh]) ?e" using row col fresh by (simp add: valid_def ring_get_def Let_def)
    moreover have "blocks_ok (?r[nat ?row := Some fresh])"
      using bl fresh unfolding blocks_ok_def by (auto dest!: set_update_subset_insert [THEN subsetD])
    ultimately show ?thesis using g None row
      by (intro exI [of _ "?r[nat ?row := Some fresh]"]) (simp add: alloc_row_def)
  next
    case (Some blk)
    have "int (length blk) = BLOCK_SIZE" using bl Some row unfolding blocks_ok_def by (metis nth_mem nat_less_iff)
    then have "valid ?r ?e" using row col Some by (simp add: valid_def ring_get_def Let_def)
    then show ?thesis using Some row bl by (intro exI [of _ ?r]) (simp add: alloc_row_def)
  qed
qed

lemma layout_grow:
  assumes "layout m L" "lru_size m < lru_capacity m" "ring_total m' = ring_total m" "blocks_ok (ringBuffer m')"
    "lru_capacity m' = lru_capacity m" "bufferStartIndex m' = bufferStartIndex m" "lru_size m' = lru_size m + 1"
    "bufferEndIndex m' = incIndex m' (bufferEndIndex m)"
  shows "layout m' (insert (bufferEndIndex m) L)"
proof -
  let ?T = "ring_total m" and ?s = "bufferStartIndex m" and ?n = "lru_size m"
  have b: "0 \<le> ?n" "0 \<le> bufferEndIndex m" "bufferEndIndex m < ?T" and L: "L = (\<lambda>k. (?s + k) mod ?T) ` {0..<?n}"
    and e: "bufferEndIndex m = (?s + ?n) mod ?T"
    using assms(1) layout_card [OF assms(1)] by (auto simp: layout_def)
  have "incIndex m' (bufferEndIndex m) = (bufferEndIndex m + 1) mod ?T"
    using incIndex_eq [of "bufferEndIndex m" m'] b assms(3) by simp
  also have "\<dots> = (?s + (?n + 1)) mod ?T" unfolding e by (simp add: mod_simps ac_simps)
  finally have e': "bufferEndIndex m' = (?s + (?n + 1)) mod ?T" using assms(8) by simp
  have "{0..<?n + 1} = insert ?n {0..<?n}" using b(1) by auto
  then have "insert (bufferEndIndex m) L = (\<lambda>k. (?s + k) mod ?T) ` {0..<?n + 1}" by (simp only: e L image_insert)
  then show ?thesis using assms(1,2) e' b(1) unfolding layout_def assms(3,5,6,7) by (simp add: assms(4))
qed

lemma lists_insert:
  assumes l: "lists_ok c r h t heads ts hs" and x: "valid r x" "x \<notin> set ts"
    and s: "s < length heads" "c key = int s" and key: "key \<notin> ky r ` set ts" and len: "length heads' = length heads"
    and cc: "coll_chains r' heads' (hs(s := x # hs s))" and tl: "time_list r' h' t' (x # ts)" and ky: "ky r' = ky r" and v: "valid r' x"
    and n: "nd_key n = key" "nd_value n = v" "hashListNext n = hn r' x" "hashListPrev n = hp r' x" "timeListNext n = tn r' x" "timeListPrev n = tp r' x"
  shows "lists_ok c (ring_set x n r') h' t' heads' (x # ts) (hs(s := x # hs s))"
proof -
  let ?r = "ring_set x n r'"
  have e: "tn ?r = tn r'" "tp ?r = tp r'" "hn ?r = hn r'" "hp ?r = hp r'" by (simp_all add: node_set [OF v] n)
  have k: "ky ?r = (ky r)(x := key)" by (simp add: node_set [OF v] n ky)
  have vs: "valid ?r = valid r'" using same_store_set [OF v] by (simp add: same_store_def)
  have co: "\<forall>s<length heads. set (hs s) = {i \<in> set ts. c (ky r i) = int s}" and inj: "inj_on (ky r) (set ts)"
    using l by (simp_all add: lists_ok_def)
  have f: "(ky ?r) i = ky r i" if "i \<in> set ts" for i using that x(2) by (auto simp: k)
  have kx: "ky ?r x = key" by (simp add: k)
  have "set ((hs(s := x # hs s)) s') = {i \<in> set (x # ts). c (ky ?r i) = int s'}" if "s' < length heads'" for s'
  proof -
    have a: "{i \<in> set ts. c (ky ?r i) = int s'} = set (hs s')" using co that len f by auto
    have "{i \<in> set (x # ts). c (ky ?r i) = int s'} = (if s' = s then {x} else {}) \<union> {i \<in> set ts. c (ky ?r i) = int s'}"
      using kx s(2) by auto
    then show ?thesis unfolding a by simp
  qed
  moreover have "inj_on (ky ?r) (set (x # ts))"
  proof -
    have "ky ?r ` set ts = ky r ` set ts" using f by auto
    moreover have "inj_on (ky ?r) (set ts)" using inj f by (simp cong: inj_on_cong)
    moreover have "set ts - {x} = set ts" using x(2) by simp
    ultimately show ?thesis using key by (simp add: kx)
  qed
  moreover have "time_list ?r h' t' (x # ts)" using tl unfolding time_list_def e vs .
  moreover have "coll_chains ?r heads' (hs(s := x # hs s))" using cc unfolding coll_chains_def coll_chain_def e vs .
  ultimately show ?thesis unfolding lists_ok_def by blast
qed

lemma newNode_grow:
  assumes ok: "lru_ok m ts hs" and size: "lru_size m < lru_capacity m" and key: "key \<notin> ky (ringBuffer m) ` set ts"
    and fresh: "int (length fresh) = BLOCK_SIZE"
  shows "\<exists>m' us hs'. newNode fresh key v m = Some m' \<and> lru_ok m' us hs' \<and>
    entries (ringBuffer m') us = (key, v) # entries (ringBuffer m) ts \<and>
    lru_capacity m' = lru_capacity m \<and> lru_size m' = lru_size m + 1"
proof -
  let ?c = "compressHash m" and ?e = "bufferEndIndex m"
  have l: "lists_ok ?c (ringBuffer m) (timeListHead m) (timeListTail m) (hashSlotHead m) ts hs" and lay: "layout m (set ts)" and so: "slots_ok m"
    using ok by (simp_all add: lru_ok_lists)
  have vs: "valid (ringBuffer m) i" if "i \<in> set ts" for i using l that by (simp add: lists_ok_def time_list_def)
  have e: "?e \<notin> set ts" "?e \<noteq> -1" using layout_card [OF lay] by auto
  obtain r0 where a: "alloc_row fresh (?e div BLOCK_SIZE) m = Some (m\<lparr>ringBuffer := r0\<rparr>)"
    "\<And>i. i \<in> set ts \<Longrightarrow> ring_get r0 i = ring_get (ringBuffer m) i" "valid r0 ?e" "blocks_ok r0" "length r0 = length (ringBuffer m)"
    using alloc_ok [OF lay fresh vs] by blast
  have l0: "lists_ok ?c r0 (timeListHead m) (timeListTail m) (hashSlotHead m) ts hs" by (rule lists_frame [OF l a(2)])
  have key0: "key \<notin> ky r0 ` set ts" using key ring_get_frame(5) [OF a(2)] by auto
  define m0 where "m0 = m\<lparr>ringBuffer := r0, lru_size := lru_size m + 1\<rparr>"
  have c0: "compressHash m0 = ?c" by (simp add: m0_def compressHash_def fun_eq_iff)
  obtain s where s: "s < length (hashSlotHead m)" "?c key = int s" using compressHash_range [OF so] by blast
  have out: "?e \<notin> set (hs s')" if "s' < length (hashSlotHead m)" for s' using l0 that e(1) by (auto simp: lists_ok_def)
  obtain r1 heads where r1: "pushNodeToHashList ?e (int s) m0 = Some (m0\<lparr>ringBuffer := r1, hashSlotHead := heads\<rparr>)"
    "length heads = length (hashSlotHead m)" "coll_chains r1 heads (hs(s := ?e # hs s))" "hash_change r0 r1"
    using pushHash [of m0 hs s ?e] l0 s(1) a(3) e(2) out by (auto simp: m0_def lists_ok_def)
  define m1 where "m1 = m0\<lparr>ringBuffer := r1, hashSlotHead := heads\<rparr>"
  have v1: "valid r1 ?e" using r1(4) a(3) by (simp add: hash_change_def same_store_def)
  have "time_list r1 (timeListHead m) (timeListTail m) ts" using hash_change_time [OF r1(4)] l0 by (simp add: lists_ok_def)
  then obtain r2 h t where r2: "pushNodeToTimeList ?e m1 = Some (m1\<lparr>ringBuffer := r2, timeListHead := h, timeListTail := t\<rparr>)"
    "time_list r2 h t (?e # ts)" "time_change r1 r2"
    using pushTime [of m1 ts ?e] v1 e by (auto simp: m1_def m0_def)
  define n where "n = (the (ring_get r2 ?e))\<lparr>nd_key := key, nd_value := v\<rparr>"
  define r3 where "r3 = ring_set ?e n r2"
  define m3 where "m3 = m1\<lparr>ringBuffer := r3, timeListHead := h, timeListTail := t\<rparr>"
  define m4 where "m4 = m3\<lparr>bufferEndIndex := incIndex m3 ?e\<rparr>"
  have v2: "valid r2 ?e" using r2(3) v1 by (simp add: time_change_def same_store_def)
  have k: "ky r2 = ky r0" "vl r2 = vl r0" using r1(4) r2(3) by (simp_all add: hash_change_def time_change_def)
  have "newNode fresh key v m = Some m4"
  proof -
    have "upd ?e (\<lambda>n. n\<lparr>nd_key := key, nd_value := v\<rparr>) (m1\<lparr>ringBuffer := r2, timeListHead := h, timeListTail := t\<rparr>) = Some m3"
      using v2 by (simp add: upd_ok m3_def r3_def n_def)
    moreover have "m\<lparr>ringBuffer := r0\<rparr>\<lparr>lru_size := lru_size (m\<lparr>ringBuffer := r0\<rparr>) + 1\<rparr> = m0" by (simp add: m0_def)
    ultimately show ?thesis using size
      by (simp only: newNode_def not_le [symmetric] if_False Let_def a(1) Option.bind.simps c0 s(2) r1(1) m1_def [symmetric] r2(1) m4_def)
  qed
  moreover have "lru_ok m4 (?e # ts) (hs(s := ?e # hs s))"
  proof -
    have "lists_ok ?c r3 h t heads (?e # ts) (hs(s := ?e # hs s))" unfolding r3_def
      by (rule lists_insert [OF l0 a(3) e(1) s key0 r1(2) time_change_chains [OF r2(3) r1(3)] r2(2) k(1) v2])
        (simp_all add: n_def node_fields)
    moreover have ss: "same_store r0 r3"
      using r1(4) r2(3) same_store_set [OF v2, of n] by (auto simp: r3_def hash_change_def time_change_def intro: same_store_trans)
    moreover have "layout m4 (insert ?e (set ts))"
      by (rule layout_grow [OF lay size]) (use ss a(4,5) in \<open>simp_all add: m4_def m3_def m1_def m0_def ring_total_def incIndex_def same_store_def\<close>)
    moreover have "slots_ok m4" "compressHash m4 = ?c"
      using so r1(2) by (simp_all add: m4_def m3_def m1_def m0_def slots_ok_def compressHash_def fun_eq_iff)
    ultimately show ?thesis by (simp add: lru_ok_lists m4_def m3_def m1_def)
  qed
  moreover have "entries (ringBuffer m4) (?e # ts) = (key, v) # entries (ringBuffer m) ts"
  proof -
    have "ky r3 = (ky r0)(?e := key)" "vl r3 = (vl r0)(?e := v)" by (simp_all add: r3_def node_set [OF v2] n_def k)
    moreover have "entries r3 ts = entries (ringBuffer m) ts"
      by (rule entries_frame) (use calculation e(1) ring_get_frame(5,6) [OF a(2)] in auto)
    ultimately show ?thesis by (simp add: m4_def m3_def entries_def)
  qed
  moreover have "lru_capacity m4 = lru_capacity m" "lru_size m4 = lru_size m + 1" by (simp_all add: m4_def m3_def m1_def m0_def)
  ultimately show ?thesis by blast
qed

end
