(* ===== verification/Lru_Map.thy ===== *)
theory Lru_Map
  imports Lru_Laws
begin

text \<open>
  The LRU map of \<open>U64_Lru\<close> as its clients see it: a list of entries, the one used last first. The interface \<open>lru_cache\<close>
  states what each operation does to the list, and has what follows for any sequence of operations; it is
  interpreted on the operations of the model.
\<close>

section \<open>The abstract cache\<close>

type_synonym ('k, 'v) cache = "('k \<times> 'v) list"

definition without :: "'k \<Rightarrow> ('k, 'v) cache \<Rightarrow> ('k, 'v) cache" where
  "without k es = filter (\<lambda>e. fst e \<noteq> k) es"

definition cache_add :: "nat \<Rightarrow> 'k \<Rightarrow> 'v \<Rightarrow> ('k, 'v) cache \<Rightarrow> ('k, 'v) cache" where
  "cache_add cap k v es = (if k \<in> fst ` set es then (k, v) # without k es else (k, v) # take (cap - 1) es)"

definition cache_touch :: "'k \<Rightarrow> ('k, 'v) cache \<Rightarrow> ('k, 'v) cache" where
  "cache_touch k es = (case map_of es k of None \<Rightarrow> es | Some v \<Rightarrow> (k, v) # without k es)"

text \<open>What a client calls, and what the abstract cache does and answers.\<close>

datatype ('k, 'v) lru_call = CallAdd 'k 'v | CallGet 'k | CallPeek 'k | CallRemove 'k

fun cache_call :: "nat \<Rightarrow> ('k, 'v) lru_call \<Rightarrow> ('k, 'v) cache \<Rightarrow> 'v option \<times> ('k, 'v) cache" where
  "cache_call cap (CallAdd k v) es = (None, cache_add cap k v es)"
| "cache_call cap (CallGet k) es = (map_of es k, cache_touch k es)"
| "cache_call cap (CallPeek k) es = (map_of es k, es)"
| "cache_call cap (CallRemove k) es = (None, without k es)"

fun cache_run :: "nat \<Rightarrow> ('k, 'v) lru_call list \<Rightarrow> ('k, 'v) cache \<Rightarrow> 'v option list \<times> ('k, 'v) cache" where
  "cache_run cap [] es = ([], es)"
| "cache_run cap (c # cs) es =
     (let (a, es) = cache_call cap c es; (as, es) = cache_run cap cs es in (a # as, es))"

definition cache_ok :: "nat \<Rightarrow> ('k, 'v) cache \<Rightarrow> bool" where
  "cache_ok cap es \<longleftrightarrow> distinct (map fst es) \<and> length es \<le> cap"

lemma without_simps [simp]:
  "without k [] = []" "without k (e # es) = (if fst e = k then without k es else e # without k es)"
  "k \<notin> fst ` set es \<Longrightarrow> without k es = es" "without k (xs @ ys) = without k xs @ without k ys"
  by (auto simp: without_def filter_id_conv)

lemma set_without: "set (without k es) = {e \<in> set es. fst e \<noteq> k}" by (simp add: without_def)

lemma map_of_without: "map_of (without k es) j = (if j = k then None else map_of es j)"
  by (induction es) auto

lemma without_split: "distinct (map fst (as @ (k, v) # bs)) \<Longrightarrow> without k (as @ (k, v) # bs) = as @ bs"
  by (auto simp: image_iff)

lemma length_without: "length (without k es) \<le> length es" "k \<in> fst ` set es \<Longrightarrow> length (without k es) < length es"
  by (auto simp: without_def intro: length_filter_less)

lemma distinct_without: "distinct (map fst es) \<Longrightarrow> distinct (map fst (without k es))"
  by (simp add: without_def distinct_map_filter)

lemma cache_front_ok: "cache_ok cap es \<Longrightarrow> k \<in> fst ` set es \<Longrightarrow> cache_ok cap ((k, v) # without k es)"
  using length_without(2) [of k es] by (auto simp: cache_ok_def distinct_without set_without)

lemma cache_call_ok:
  assumes "cache_ok cap es" "0 < cap"
  shows "cache_ok cap (snd (cache_call cap c es))"
proof (cases c)
  case (CallAdd k v)
  have "distinct (map fst (take (cap - 1) es))" using assms(1) by (simp add: cache_ok_def take_map [symmetric])
  moreover have "k \<notin> fst ` set (take (cap - 1) es)" if "k \<notin> fst ` set es" using that by (auto dest: in_set_takeD)
  ultimately have "cache_ok cap ((k, v) # take (cap - 1) es)" if "k \<notin> fst ` set es"
    using that assms by (auto simp: cache_ok_def)
  then show ?thesis using cache_front_ok [OF assms(1)] CallAdd by (simp add: cache_add_def)
next
  case (CallGet k)
  have "k \<in> fst ` set es" if "map_of es k = Some v" for v using that by (metis map_of_SomeD fst_conv image_eqI)
  then show ?thesis using assms(1) cache_front_ok [OF assms(1)] CallGet by (simp add: cache_touch_def split: option.split)
next
  case (CallRemove k)
  then show ?thesis using assms length_without(1) [of k es] by (simp add: cache_ok_def distinct_without)
qed (use assms in simp)

text \<open>An entry is dropped only when as many other keys were used since.\<close>

definition call_key :: "('k, 'v) lru_call \<Rightarrow> 'k" where
  "call_key c = (case c of CallAdd k v \<Rightarrow> k | CallGet k \<Rightarrow> k | CallPeek k \<Rightarrow> k | CallRemove k \<Rightarrow> k)"

definition holds_before :: "'k \<Rightarrow> 'v \<Rightarrow> 'k set \<Rightarrow> ('k, 'v) cache \<Rightarrow> bool" where
  "holds_before k v K es \<longleftrightarrow> (\<exists>as bs. es = as @ (k, v) # bs \<and> fst ` set as \<subseteq> K)"

lemma holds_lookup:
  assumes "cache_ok cap es" "holds_before k v K es"
  shows "map_of es k = Some v"
proof -
  have "distinct (map fst es)" using assms(1) by (simp add: cache_ok_def)
  then show ?thesis using assms(2) by (auto simp: holds_before_def image_iff map_add_def map_of_eq_None_iff split: option.splits)
qed

lemma holds_call:
  assumes ok: "cache_ok cap es" and h: "holds_before k v K es" and c: "call_key c \<noteq> k"
    and K: "call_key c \<in> K" "finite K" "card K < cap" "k \<notin> K"
  shows "holds_before k v K (snd (cache_call cap c es))"
proof -
  obtain as bs where es: "es = as @ (k, v) # bs" "fst ` set as \<subseteq> K" using h by (auto simp: holds_before_def)
  have w: "holds_before k v K (without j es)" if "j \<noteq> k" for j
    unfolding holds_before_def using that es by (intro exI [of _ "without j as"] exI [of _ "without j bs"]) (auto simp: set_without)
  have cons: "holds_before k v K ((j, u) # xs)" if "j \<in> K" "holds_before k v K xs" for j u xs
    using that unfolding holds_before_def by (metis append_Cons image_insert insert_subset list.simps(15) fst_conv)
  show ?thesis
  proof (cases c)
    case (CallAdd j u)
    have "holds_before k v K (take (cap - 1) es)" if "j \<notin> fst ` set es"
    proof -
      have "distinct (map fst as)" using ok es(1) by (simp add: cache_ok_def)
      then have "length as = card (fst ` set as)" by (metis distinct_card length_map list.set_map)
      also have "fst ` set as \<subseteq> K - {j}" using es that by auto
      then have "card (fst ` set as) \<le> card (K - {j})" using K(2) by (simp add: card_mono)
      also have "\<dots> < card K" using K(1,2) CallAdd by (intro card_Diff1_less) (simp_all add: call_key_def)
      finally have "length as < cap - 1" using K(3) by simp
      then obtain n where "cap - 1 - length as = Suc n" by (metis Suc_pred zero_less_diff)
      then have "take (cap - 1) es = as @ (k, v) # take n bs" using es(1) by simp
      then show ?thesis using es(2) unfolding holds_before_def by blast
    qed
    then show ?thesis using CallAdd w [of j] cons K(1) c by (simp add: cache_add_def call_key_def)
  next
    case (CallGet j)
    then show ?thesis using w [of j] cons K(1) c h by (auto simp: cache_touch_def call_key_def split: option.splits)
  next
    case (CallPeek j)
    then show ?thesis using h by simp
  next
    case (CallRemove j)
    then show ?thesis using w [of j] c by (simp add: call_key_def)
  qed
qed

lemma holds_run:
  assumes "cache_ok cap es" "holds_before k v K es" "call_key ` set cs \<subseteq> K" "finite K" "card K < cap" "k \<notin> K"
  shows "holds_before k v K (snd (cache_run cap cs es)) \<and> cache_ok cap (snd (cache_run cap cs es))"
  using assms
proof (induction cs arbitrary: es)
  case (Cons c cs)
  have "holds_before k v K (snd (cache_call cap c es))" "cache_ok cap (snd (cache_call cap c es))"
    using Cons.prems holds_call [of cap es k v K c] cache_call_ok [of cap es c] by auto
  then show ?case using Cons.IH [of "snd (cache_call cap c es)"] Cons.prems by (auto simp: split_beta Let_def)
qed simp

section \<open>The interface\<close>

text \<open>Calls of a client, each with the block the pool would hand out to it.\<close>

fun do_call :: "('f \<Rightarrow> 'k \<Rightarrow> 'v \<Rightarrow> 'm \<Rightarrow> 'm option) \<Rightarrow> ('k \<Rightarrow> bool \<Rightarrow> 'm \<Rightarrow> ('v option \<times> 'm) option) \<Rightarrow> ('k \<Rightarrow> 'm \<Rightarrow> 'm option) \<Rightarrow>
    'f \<Rightarrow> ('k, 'v) lru_call \<Rightarrow> 'm \<Rightarrow> ('v option \<times> 'm) option" where
  "do_call add get rem f (CallAdd k v) m = map_option (\<lambda>m. (None, m)) (add f k v m)"
| "do_call add get rem f (CallGet k) m = get k False m"
| "do_call add get rem f (CallPeek k) m = get k True m"
| "do_call add get rem f (CallRemove k) m = map_option (\<lambda>m. (None, m)) (rem k m)"

fun run_calls :: "('f \<Rightarrow> 'k \<Rightarrow> 'v \<Rightarrow> 'm \<Rightarrow> 'm option) \<Rightarrow> ('k \<Rightarrow> bool \<Rightarrow> 'm \<Rightarrow> ('v option \<times> 'm) option) \<Rightarrow> ('k \<Rightarrow> 'm \<Rightarrow> 'm option) \<Rightarrow>
    ('f \<times> ('k, 'v) lru_call) list \<Rightarrow> 'm \<Rightarrow> ('v option list \<times> 'm) option" where
  "run_calls add get rem [] m = Some ([], m)"
| "run_calls add get rem ((f, c) # cs) m = do {
     (a, m) \<leftarrow> do_call add get rem f c m;
     (as, m) \<leftarrow> run_calls add get rem cs m;
     Some (a # as, m)
   }"

locale lru_cache =
  fixes inv :: "'m \<Rightarrow> bool" and es :: "'m \<Rightarrow> ('k, 'v) cache" and cap :: "'m \<Rightarrow> nat" and block :: "'f \<Rightarrow> bool"
    and add :: "'f \<Rightarrow> 'k \<Rightarrow> 'v \<Rightarrow> 'm \<Rightarrow> 'm option" and get :: "'k \<Rightarrow> bool \<Rightarrow> 'm \<Rightarrow> ('v option \<times> 'm) option"
    and rem :: "'k \<Rightarrow> 'm \<Rightarrow> 'm option"
  assumes inv_ok: "inv m \<Longrightarrow> cache_ok (cap m) (es m) \<and> 0 < cap m"
    and add_law: "inv m \<Longrightarrow> block f \<Longrightarrow> \<exists>m'. add f k v m = Some m' \<and> inv m' \<and> cap m' = cap m \<and> es m' = cache_add (cap m) k v (es m)"
    and get_law: "inv m \<Longrightarrow> \<exists>m'. get k peek m = Some (map_of (es m) k, m') \<and> inv m' \<and> cap m' = cap m \<and>
      es m' = (if peek then es m else cache_touch k (es m))"
    and rem_law: "inv m \<Longrightarrow> \<exists>m'. rem k m = Some m' \<and> inv m' \<and> cap m' = cap m \<and> es m' = without k (es m)"
begin

lemma call_refines:
  assumes "inv m" "block f"
  shows "\<exists>a m'. do_call add get rem f c m = Some (a, m') \<and> inv m' \<and> cap m' = cap m \<and> cache_call (cap m) c (es m) = (a, es m')"
proof (cases c)
  case (CallAdd k v)
  then show ?thesis using add_law [OF assms, of k v] by auto
next
  case (CallGet k)
  then show ?thesis using get_law [OF assms(1), of k False] by auto
next
  case (CallPeek k)
  then show ?thesis using get_law [OF assms(1), of k True] by auto
next
  case (CallRemove k)
  then show ?thesis using rem_law [OF assms(1), of k] by auto
qed

lemma run_refines:
  assumes "inv m" "\<forall>fc\<in>set cs. block (fst fc)"
  shows "\<exists>as m'. run_calls add get rem cs m = Some (as, m') \<and> inv m' \<and> cap m' = cap m \<and>
    cache_run (cap m) (map snd cs) (es m) = (as, es m')"
  using assms
proof (induction cs arbitrary: m)
  case (Cons fc cs)
  obtain f c where fc: "fc = (f, c)" by (cases fc)
  obtain a m1 where 1: "do_call add get rem f c m = Some (a, m1)" "inv m1" "cap m1 = cap m" "cache_call (cap m) c (es m) = (a, es m1)"
    using call_refines [of m f c] Cons.prems fc by auto
  obtain as m2 where 2: "run_calls add get rem cs m1 = Some (as, m2)" "inv m2" "cap m2 = cap m1"
    "cache_run (cap m1) (map snd cs) (es m1) = (as, es m2)"
    using Cons.IH [OF 1(2)] Cons.prems(2) by auto
  then show ?case using 1 by (simp add: fc)
qed simp

lemma recent_kept:
  assumes "inv m" "block f" "\<forall>fc\<in>set cs. block (fst fc)" "\<forall>fc\<in>set cs. call_key (snd fc) \<noteq> k"
    and "card (call_key ` snd ` set cs) < cap m"
  shows "\<exists>m1 as m2 m3. add f k v m = Some m1 \<and> run_calls add get rem cs m1 = Some (as, m2) \<and> get k peek m2 = Some (Some v, m3)"
proof -
  let ?K = "call_key ` snd ` set cs"
  obtain m1 where 1: "add f k v m = Some m1" "inv m1" "cap m1 = cap m" "es m1 = cache_add (cap m) k v (es m)"
    using add_law [OF assms(1,2)] by blast
  obtain as m2 where 2: "run_calls add get rem cs m1 = Some (as, m2)" "inv m2" "cap m2 = cap m1"
    "cache_run (cap m1) (map snd cs) (es m1) = (as, es m2)"
    using run_refines [OF 1(2) assms(3)] by blast
  obtain bs where "es m1 = [] @ (k, v) # bs" by (cases "k \<in> fst ` set (es m)") (simp_all add: 1(4) cache_add_def)
  then have "holds_before k v ?K (es m1)" unfolding holds_before_def by (metis empty_subsetI image_empty list.set(1))
  then have "holds_before k v ?K (es m2)" "cache_ok (cap m1) (es m2)"
    using holds_run [of "cap m1" "es m1" k v ?K "map snd cs"] inv_ok [OF 1(2)] 2(4) 1(3) assms(4,5) by auto
  then have "map_of (es m2) k = Some v" by (intro holds_lookup)
  then show ?thesis using 1(1) 2(1) get_law [OF 2(2), of k peek] by auto
qed

end

section \<open>The operations of the model\<close>

theorem newNode_spec:
  assumes ok: "lru_ok m ts hs" and cap: "0 < lru_capacity m" and key: "key \<notin> ky (ringBuffer m) ` set ts"
    and fresh: "int (length fresh) = BLOCK_SIZE"
  shows "\<exists>m' us hs'. newNode fresh key v m = Some m' \<and> lru_ok m' us hs' \<and> lru_capacity m' = lru_capacity m \<and>
    entries (ringBuffer m') us = (key, v) # take (nat (lru_capacity m) - 1) (entries (ringBuffer m) ts)"
proof (cases "lru_size m < lru_capacity m")
  case True
  have "take (nat (lru_capacity m) - 1) (entries (ringBuffer m) ts) = entries (ringBuffer m) ts"
    using True lru_size_eq [OF ok] by (simp add: entries_def)
  then show ?thesis using newNode_grow [OF ok True key fresh, of v] by auto
next
  case False
  then have size: "lru_size m = lru_capacity m" using ok by (simp add: lru_ok_def layout_def)
  then have "ts \<noteq> []" using lru_size_eq [OF ok] cap by auto
  then obtain as x where ts: "ts = as @ [x]" by (metis rev_exhaust)
  have tail: "timeListTail m = x" using ok ts by (simp add: lru_ok_def time_list_def final_def)
  obtain m1 us hs1 where 1: "removeNode x m = Some m1" "lru_ok m1 us hs1" "entries (ringBuffer m1) us = entries (ringBuffer m) as"
    "lru_capacity m1 = lru_capacity m" "lru_size m1 = lru_size m - 1"
    using removeNode_spec [of m as x "[]" hs] ok ts by auto
  have size1: "lru_size m1 < lru_capacity m1" using 1(4,5) size by simp
  have "newNode fresh key v m = newNode fresh key v m1"
    using False size1 by (simp add: newNode_def tail 1(1))
  moreover have "ky (ringBuffer m1) ` set us = ky (ringBuffer m) ` set as"
    using arg_cong [OF 1(3), of "\<lambda>es. fst ` set es"] by (simp add: entries_def image_image)
  then have "key \<notin> ky (ringBuffer m1) ` set us" using key by (simp add: ts)
  moreover have "take (nat (lru_capacity m) - 1) (entries (ringBuffer m) ts) = entries (ringBuffer m) as"
    using size lru_size_eq [OF ok] by (simp add: ts entries_def)
  ultimately show ?thesis using newNode_grow [OF 1(2) size1 _ fresh, of key v] 1(3,4) by auto
qed

definition lru_inv :: "'v U64LRU \<Rightarrow> bool" where
  "lru_inv m \<longleftrightarrow> (\<exists>ts hs. lru_ok m ts hs) \<and> 0 < lru_capacity m"

text \<open>The entries are those that \<^verbatim>\<open>Walk\<close> passes to its callback.\<close>

definition lru_entries :: "'v U64LRU \<Rightarrow> (u64, 'v option) cache" where
  "lru_entries m = the (Lru_Walk m)"

lemma lru_entries_eq: "lru_ok m ts hs \<Longrightarrow> lru_entries m = entries (ringBuffer m) ts"
  by (simp add: lru_entries_def Lru_Walk_entries)

lemma lru_okD: "lru_ok m ts hs \<Longrightarrow> 0 < lru_capacity m \<Longrightarrow> lru_inv m \<and> lru_entries m = entries (ringBuffer m) ts"
  using lru_entries_eq unfolding lru_inv_def by blast

lemma fst_entries: "map fst (entries r ts) = map (ky r) ts" "fst ` set (entries r ts) = ky r ` set ts"
  by (simp_all add: entries_def image_image)

lemma entries_append: "entries r (xs @ ys) = entries r xs @ entries r ys" "entries r (x # xs) = (ky r x, vl r x) # entries r xs"
  by (simp_all add: entries_def)

lemma lru_inv_cache:
  assumes "lru_inv m"
  shows "cache_ok (nat (lru_capacity m)) (lru_entries m)" "lru_size m = int (length (lru_entries m))" "Lru_Walk m = Some (lru_entries m)"
proof -
  obtain ts hs where ok: "lru_ok m ts hs" using assms by (auto simp: lru_inv_def)
  then have "distinct ts" "inj_on (ky (ringBuffer m)) (set ts)" "lru_size m \<le> lru_capacity m"
    by (auto simp: lru_ok_def time_list_def layout_def)
  moreover have "lru_size m = int (length ts)" using lru_size_eq [OF ok] by simp
  ultimately show "cache_ok (nat (lru_capacity m)) (lru_entries m)" "lru_size m = int (length (lru_entries m))"
    "Lru_Walk m = Some (lru_entries m)"
    using ok by (simp_all add: lru_entries_eq Lru_Walk_entries cache_ok_def fst_entries distinct_map entries_def o_def nat_le_iff le_nat_iff)
qed

text \<open>A key is found at its entry, or not there.\<close>

lemma lru_lookup:
  assumes ok: "lru_ok m ts hs"
  obtains (absent) "pos_of (ringBuffer m) ts key = -1" "key \<notin> fst ` set (entries (ringBuffer m) ts)"
      "key \<notin> ky (ringBuffer m) ` set ts" "map_of (entries (ringBuffer m) ts) key = None"
    | (present) as i bs where "pos_of (ringBuffer m) ts key = i" "i \<noteq> -1" "ts = as @ i # bs" "ky (ringBuffer m) i = key"
      "key \<in> fst ` set (entries (ringBuffer m) ts)"
      "map_of (entries (ringBuffer m) ts) key = Some (vl (ringBuffer m) i)"
      "without key (entries (ringBuffer m) ts) = entries (ringBuffer m) (as @ bs)"
proof -
  let ?r = "ringBuffer m"
  have inj: "inj_on (ky ?r) (set ts)" "-1 \<notin> set ts" and d: "distinct ts" using ok by (auto simp: lru_ok_def time_list_def)
  consider "pos_of ?r ts key = -1" "key \<notin> ky ?r ` set ts"
    | "pos_of ?r ts key \<in> set ts" "pos_of ?r ts key \<noteq> -1" "ky ?r (pos_of ?r ts key) = key"
    using pos_of_cases [OF inj, of key] by blast
  then show thesis
  proof cases
    case 1
    then show thesis using absent by (simp add: fst_entries map_of_eq_None_iff)
  next
    case 2
    define i where "i = pos_of ?r ts key"
    have ki: "ky ?r i = key" "i \<noteq> -1" unfolding i_def by (rule 2(3), rule 2(2))
    obtain as bs where ts: "ts = as @ i # bs" using 2(1) by (auto simp: i_def dest: split_list)
    have e: "entries ?r ts = entries ?r as @ (key, vl ?r i) # entries ?r bs" using ki unfolding ts by (simp add: entries_append)
    have "distinct (map fst (entries ?r ts))" using inj(1) d by (simp add: fst_entries(1) distinct_map)
    then have dk: "distinct (map fst (entries ?r as @ (key, vl ?r i) # entries ?r bs))" by (simp only: e)
    have "without key (entries ?r ts) = entries ?r (as @ bs)" using without_split [OF dk] by (simp add: e entries_append)
    moreover have "map_of (entries ?r ts) key = Some (vl ?r i)" using map_of_eq_Some_iff [OF dk] by (simp add: e)
    moreover have "key \<in> fst ` set (entries ?r ts)" by (simp add: e)
    ultimately show thesis using present [OF i_def [symmetric] ki(2) ts ki(1)] by blast
  qed
qed

lemma Lru_Add_law:
  assumes "lru_inv m" "int (length fresh) = BLOCK_SIZE"
  shows "\<exists>m'. Lru_Add fresh key v m = Some m' \<and> lru_inv m' \<and> lru_capacity m' = lru_capacity m \<and>
    lru_entries m' = cache_add (nat (lru_capacity m)) key v (lru_entries m)"
proof -
  obtain ts hs where ok: "lru_ok m ts hs" and cap: "0 < lru_capacity m" using assms(1) by (auto simp: lru_inv_def)
  obtain m1 where f: "find_node key True m = Some (pos_of (ringBuffer m) ts key, m1)" and sm: "same_map m m1"
    using find_node_spec [OF ok] by blast
  note eq = same_map_ok [OF sm]
  have ok1: "lru_ok m1 ts hs" using ok eq(1) by simp
  show ?thesis
  proof (cases rule: lru_lookup [OF ok, of key, case_names absent present])
    case absent
    obtain m' us hs' where "newNode fresh key v m1 = Some m'" "lru_ok m' us hs'" "lru_capacity m' = lru_capacity m"
      "entries (ringBuffer m') us = (key, v) # take (nat (lru_capacity m) - 1) (entries (ringBuffer m) ts)"
      using newNode_spec [OF ok1 _ _ assms(2), of key v] cap absent(3) by (auto simp: eq)
    then show ?thesis using absent f lru_okD [of m' us hs'] cap
      by (simp add: Lru_Add_def lru_entries_eq [OF ok] cache_add_def)
  next
    case (present as i bs)
    obtain m' where "updateNode i v m1 = Some m'" "lru_ok m' (i # as @ bs) hs" "lru_capacity m' = lru_capacity m"
      "entries (ringBuffer m') (i # as @ bs) = (key, v) # entries (ringBuffer m) (as @ bs)"
      using updateNode_spec [of m1 as i bs hs v] ok1 present(3,4) by (auto simp: eq)
    then show ?thesis using present f lru_okD [of m' "i # as @ bs" hs] cap
      by (simp add: Lru_Add_def lru_entries_eq [OF ok] cache_add_def)
  qed
qed

lemma Lru_Get_law:
  assumes "lru_inv m"
  shows "\<exists>m'. Lru_Get key peek m = Some (map_of (lru_entries m) key, m') \<and> lru_inv m' \<and> lru_capacity m' = lru_capacity m \<and>
    lru_entries m' = (if peek then lru_entries m else cache_touch key (lru_entries m))"
proof -
  obtain ts hs where ok: "lru_ok m ts hs" and cap: "0 < lru_capacity m" using assms(1) by (auto simp: lru_inv_def)
  obtain m1 where f: "find_node key False m = Some (pos_of (ringBuffer m) ts key, m1)" and sm: "same_map m m1"
    using find_node_spec [OF ok] by blast
  note eq = same_map_ok [OF sm]
  have ok1: "lru_ok m1 ts hs" using ok eq(1) by simp
  have e1: "lru_entries m1 = lru_entries m" using lru_entries_eq [OF ok] lru_entries_eq [OF ok1] eq(2) by simp
  have i1: "lru_inv m1" using ok1 cap eq(3) by (auto simp: lru_inv_def)
  show ?thesis
  proof (cases rule: lru_lookup [OF ok, of key, case_names absent present])
    case absent
    then show ?thesis using f i1 e1 eq(3) by (simp add: Lru_Get_def lru_entries_eq [OF ok] cache_touch_def)
  next
    case (present as i bs)
    have "valid (ringBuffer m) i" using ok present(3) by (simp add: lru_ok_def time_list_def)
    then obtain nd where nd: "getNode m1 i = Some nd" "nd_value nd = vl (ringBuffer m) i"
      by (auto simp: valid_def getNode_def eq node_fields)
    show ?thesis
    proof (cases peek)
      case True
      then show ?thesis using present f nd i1 e1 eq(3) by (simp add: Lru_Get_def lru_entries_eq [OF ok])
    next
      case False
      obtain m' where u: "updateNode i (nd_value nd) m1 = Some m'" "lru_ok m' (i # as @ bs) hs" "lru_capacity m' = lru_capacity m"
        "entries (ringBuffer m') (i # as @ bs) = (key, nd_value nd) # entries (ringBuffer m) (as @ bs)"
        using updateNode_spec [of m1 as i bs hs "nd_value nd"] ok1 present(3,4) by (auto simp: eq)
      have "valid (ringBuffer m') i" using u(2) by (simp add: lru_ok_def time_list_def)
      then obtain nd' where nd': "getNode m' i = Some nd'" "nd_value nd' = nd_value nd"
        using u(4) by (auto simp: valid_def getNode_def entries_append node_fields)
      have "Lru_Get key peek m = Some (map_of (lru_entries m) key, m')"
        using present f nd nd' u(1) False by (simp add: Lru_Get_def lru_entries_eq [OF ok])
      moreover have "lru_entries m' = cache_touch key (lru_entries m)"
        using u(4) present(6,7) nd(2) by (simp add: lru_entries_eq [OF u(2)] lru_entries_eq [OF ok] cache_touch_def)
      ultimately show ?thesis using False u(2,3) lru_okD [OF u(2)] cap by simp
    qed
  qed
qed

lemma Lru_Remove_law:
  assumes "lru_inv m"
  shows "\<exists>m'. Lru_Remove key m = Some m' \<and> lru_inv m' \<and> lru_capacity m' = lru_capacity m \<and> lru_entries m' = without key (lru_entries m)"
proof -
  obtain ts hs where ok: "lru_ok m ts hs" and cap: "0 < lru_capacity m" using assms(1) by (auto simp: lru_inv_def)
  obtain h w where f: "slot_head m (compressHash m key) = Some h" "find_loop m key 0 h = Some (pos_of (ringBuffer m) ts key, w)"
    using slot_find [OF ok, of key] by blast
  show ?thesis
  proof (cases rule: lru_lookup [OF ok, of key, case_names absent present])
    case absent
    then show ?thesis using f assms by (simp add: Lru_Remove_def lru_entries_eq [OF ok])
  next
    case (present as i bs)
    obtain m' us hs' where "removeNode i m = Some m'" "lru_ok m' us hs'" "lru_capacity m' = lru_capacity m"
      "entries (ringBuffer m') us = entries (ringBuffer m) (as @ bs)"
      using removeNode_spec [of m as i bs hs] ok present(3) by auto
    then show ?thesis using present f lru_okD [of m' us hs'] cap
      by (simp add: Lru_Remove_def lru_entries_eq [OF ok])
  qed
qed

interpretation u64: lru_cache lru_inv lru_entries "\<lambda>m. nat (lru_capacity m)" "\<lambda>f. int (length f) = BLOCK_SIZE" Lru_Add Lru_Get Lru_Remove
proof
  show "cache_ok (nat (lru_capacity m)) (lru_entries m) \<and> 0 < nat (lru_capacity m)" if "lru_inv m" for m :: "'a U64LRU"
    using lru_inv_cache(1) [OF that] that by (simp add: lru_inv_def)
qed (use Lru_Add_law Lru_Get_law Lru_Remove_law in \<open>metis (no_types)\<close>)+

section \<open>A new map and an emptied one\<close>

lemma minPowerOfTwo_slots: "\<exists>k<30. fst (minPowerOfTwo v) = 2 ^ k"
proof (cases "find (\<lambda>i. v \<le> 2 ^ i) [0..<30]")
  case None
  then show ?thesis by (intro exI [of _ 0]) (simp add: minPowerOfTwo_def)
next
  case (Some i)
  then have "i < 30" by (auto simp: find_Some_iff)
  then show ?thesis using Some by (intro exI [of _ i]) (simp add: minPowerOfTwo_def)
qed

lemma empty_lru_ok:
  assumes "ringBuffer m = replicate n None" "bufferStartIndex m = 0" "bufferEndIndex m = 0" "timeListHead m = -1" "timeListTail m = -1"
    "hashSlotHead m = replicate k (-1)" "lru_size m = 0" "0 \<le> lru_capacity m" "lru_capacity m + BLOCK_SIZE < int n * BLOCK_SIZE" "slots_ok m"
  shows "lru_ok m [] (\<lambda>_. [])"
  using assms by (simp add: lru_ok_def time_list_def coll_chains_def coll_chain_def chains_of_def layout_def blocks_ok_def ring_total_def BLOCK_SIZE_def)

lemma New_ok:
  assumes "0 < capacity"
  shows "lru_ok (NewU64LRUNoStats slots capacity :: 'v U64LRU) [] (\<lambda>_. [])" "lru_capacity (NewU64LRUNoStats slots capacity :: 'v U64LRU) = capacity"
proof -
  obtain k where k: "k < 30" "fst (minPowerOfTwo slots) = 2 ^ k" using minPowerOfTwo_slots by blast
  show cap: "lru_capacity (NewU64LRUNoStats slots capacity :: 'v U64LRU) = capacity" by (simp add: NewU64LRUNoStats_def split_beta)
  have "slots_ok (NewU64LRUNoStats slots capacity :: 'v U64LRU)"
    using k by (auto simp: slots_ok_def NewU64LRUNoStats_def split_beta nat_power_eq)
  moreover have "capacity + 256 < int (nat ((capacity + 256) div 256 + 1)) * 256" using assms by simp
  ultimately show "lru_ok (NewU64LRUNoStats slots capacity :: 'v U64LRU) [] (\<lambda>_. [])" using assms
    by (intro empty_lru_ok [of _ "nat ((capacity + 256) div 256 + 1)" "nat (2 ^ k)"])
      (simp_all add: NewU64LRUNoStats_def split_beta k(2) BLOCK_SIZE_def)
qed

lemma New_inv:
  assumes "0 < capacity"
  shows "lru_inv (NewU64LRUNoStats slots capacity :: 'v U64LRU)" "lru_entries (NewU64LRUNoStats slots capacity :: 'v U64LRU) = []"
  using lru_okD [OF New_ok(1) [OF assms, where 'v = 'v], of slots] New_ok(2) [OF assms, where 'v = 'v] assms
  by (simp_all add: entries_def)

lemma Clear_inv:
  assumes "lru_inv m"
  shows "lru_inv (Lru_Clear m)" "lru_entries (Lru_Clear m) = []" "lru_capacity (Lru_Clear m) = lru_capacity m"
proof -
  have cap: "0 < lru_capacity m" and lay: "lru_capacity m + BLOCK_SIZE < ring_total m" "slots_ok m"
    using assms by (auto simp: lru_inv_def lru_ok_def layout_def)
  show c: "lru_capacity (Lru_Clear m) = lru_capacity m" by (simp add: Lru_Clear_def)
  have "lru_ok (Lru_Clear m) [] (\<lambda>_. [])"
    using lay cap by (intro empty_lru_ok [of _ "length (ringBuffer m)" "length (hashSlotHead m)"])
      (simp_all add: Lru_Clear_def ring_total_def slots_ok_def map_replicate_const)
  from lru_okD [OF this] show "lru_inv (Lru_Clear m)" "lru_entries (Lru_Clear m) = []" using cap c by (simp_all add: entries_def)
qed

section \<open>Properties\<close>

lemma run_calls_append:
  "run_calls add get rem (xs @ ys) m =
     (case run_calls add get rem xs m of None \<Rightarrow> None
      | Some (as, m) \<Rightarrow> map_option (\<lambda>(bs, m). (as @ bs, m)) (run_calls add get rem ys m))"
proof (induction xs arbitrary: m)
  case Nil
  show ?case by (simp add: option.map_ident_strong split_beta)
next
  case (Cons x xs)
  show ?case by (cases x) (auto simp: Cons.IH split: option.splits bind_splits)
qed

text \<open>
  C3: From a new map with positive capacity every sequence of \<^verbatim>\<open>Add\<close>, \<^verbatim>\<open>Get\<close> (with and without \<^verbatim>\<open>peek\<close>) and \<^verbatim>\<open>Remove\<close> calls
  returns, whatever blocks the pool hands out, with the answers of the abstract cache: \<^verbatim>\<open>Add\<close> puts its entry in front and drops the
  one used longest ago when the map is full, \<^verbatim>\<open>Get\<close> finds the last value added and moves the entry to the front, and
  \<^verbatim>\<open>Remove\<close> takes exactly its key out. \<^verbatim>\<open>Walk\<close> then visits the entries of that cache in their order, and \<^verbatim>\<open>Size\<close> is their
  number, never above the capacity.
\<close>

theorem lru_refines_cache:
  fixes cs :: "('v u64LRUNode list \<times> (u64, 'v option) lru_call) list"
  assumes "0 < capacity" "\<forall>fc\<in>set cs. int (length (fst fc)) = BLOCK_SIZE"
  shows "\<exists>as m. run_calls Lru_Add Lru_Get Lru_Remove cs (NewU64LRUNoStats slots capacity) = Some (as, m) \<and>
    fst (cache_run (nat capacity) (map snd cs) []) = as \<and>
    Lru_Walk m = Some (snd (cache_run (nat capacity) (map snd cs) [])) \<and>
    lru_size m = int (length (snd (cache_run (nat capacity) (map snd cs) []))) \<and> lru_size m \<le> capacity"
proof -
  let ?m = "NewU64LRUNoStats slots capacity :: 'v U64LRU"
  obtain as m where r: "run_calls Lru_Add Lru_Get Lru_Remove cs ?m = Some (as, m)" "lru_inv m" "nat (lru_capacity m) = nat (lru_capacity ?m)"
    "cache_run (nat (lru_capacity ?m)) (map snd cs) (lru_entries ?m) = (as, lru_entries m)"
    using u64.run_refines [OF New_inv(1) [OF assms(1)] assms(2)] by blast
  then show ?thesis using lru_inv_cache [OF r(2)] New_inv(2) [OF assms(1), where 'v = 'v] New_ok(2) [OF assms(1), where 'v = 'v] assms(1)
    by (intro exI [of _ as] exI [of _ m]) (simp add: cache_ok_def le_nat_iff)
qed

theorem lru_refines_cache_witness:
  "\<exists>as m. run_calls Lru_Add Lru_Get Lru_Remove
      (map (Pair (replicate 256 blankU64LRUNodeForInit)) [CallAdd 1 (Some 10), CallAdd 2 (Some 20), CallGet 1, CallAdd 3 (Some 30), CallPeek 2])
      (NewU64LRUNoStats 4 2 :: nat U64LRU) = Some (as, m) \<and>
    as = [None, None, Some (Some 10), None, None] \<and> Lru_Walk m = Some [(3, Some 30), (1, Some 10)] \<and> lru_size m = 2 \<and> lru_size m \<le> 2"
  using lru_refines_cache [of 2 "map (Pair (replicate 256 blankU64LRUNodeForInit))
    [CallAdd 1 (Some (10 :: nat)), CallAdd 2 (Some 20), CallGet 1, CallAdd 3 (Some 30), CallPeek 2]" 4]
  by (simp add: BLOCK_SIZE_def cache_add_def cache_touch_def)

text \<open>
  C26: An added value is not lost too early: after \<^verbatim>\<open>Add(k, v)\<close>, calls on other keys, fewer distinct ones than the
  capacity, leave it in the map, and \<^verbatim>\<open>Get(k)\<close> returns it. This holds at any point of the life of the map.
\<close>

theorem lru_keeps_recent:
  fixes cs :: "('v u64LRUNode list \<times> (u64, 'v option) lru_call) list"
  assumes "0 < capacity" "\<forall>fc\<in>set (cs @ ds). int (length (fst fc)) = BLOCK_SIZE" "int (length f) = BLOCK_SIZE"
    and "\<forall>fc\<in>set ds. call_key (snd fc) \<noteq> k" "card (call_key ` snd ` set ds) < nat capacity"
  shows "\<exists>as m. run_calls Lru_Add Lru_Get Lru_Remove (cs @ (f, CallAdd k v) # ds @ [(f, CallGet k)]) (NewU64LRUNoStats slots capacity) = Some (as, m) \<and>
    last as = Some v"
proof -
  let ?m = "NewU64LRUNoStats slots capacity :: 'v U64LRU" and ?run = "run_calls Lru_Add Lru_Get Lru_Remove"
  obtain as m where r: "?run cs ?m = Some (as, m)" "lru_inv m" "nat (lru_capacity m) = nat (lru_capacity ?m)"
    using u64.run_refines [OF New_inv(1) [OF assms(1)], of cs slots] assms(2) by auto
  obtain m1 bs m2 m3 where "Lru_Add f k v m = Some m1" "?run ds m1 = Some (bs, m2)" "Lru_Get k False m2 = Some (Some v, m3)"
    using u64.recent_kept [OF r(2) assms(3) _ assms(4), of v False] assms(2,5) r(3) New_ok(2) [OF assms(1), where 'v = 'v] by auto
  then show ?thesis using r(1) by (simp add: run_calls_append)
qed

theorem lru_keeps_recent_witness:
  "\<exists>as m. run_calls Lru_Add Lru_Get Lru_Remove
      ([] @ (replicate 256 blankU64LRUNodeForInit, CallAdd 7 (Some 1)) # map (Pair (replicate 256 blankU64LRUNodeForInit)) [CallAdd 8 None, CallRemove 8, CallAdd 8 None] @
        [(replicate 256 blankU64LRUNodeForInit, CallGet 7)])
      (NewU64LRUNoStats 1 2 :: nat U64LRU) = Some (as, m) \<and> last as = Some (Some 1)"
  by (rule lru_keeps_recent) (simp_all add: BLOCK_SIZE_def call_key_def)

text \<open>With capacity 0 the first \<^verbatim>\<open>Add\<close> panics: it evicts the tail of an empty list, position \<open>-1\<close> of the ring.\<close>

theorem lru_capacity_zero_panics: "Lru_Add fresh key v (NewU64LRUNoStats slots 0) = None"
proof -
  let ?m = "NewU64LRUNoStats slots 0 :: 'a U64LRU"
  obtain k where k: "k < 30" "fst (minPowerOfTwo slots) = 2 ^ k" using minPowerOfTwo_slots by blast
  have "lru_ok ?m [] (\<lambda>_. [])"
    using k by (intro empty_lru_ok [of _ 2 "nat (2 ^ k)"])
      (auto simp: NewU64LRUNoStats_def split_beta BLOCK_SIZE_def slots_ok_def nat_power_eq numeral_2_eq_2)
  from find_node_spec [OF this] obtain m1 where m1: "find_node key True ?m = Some (-1, m1)" "same_map ?m m1"
    by (auto simp: pos_of_def)
  then have "newNode fresh key v m1 = None"
    by (auto simp: same_map_def newNode_def removeNode_def getNode_def ring_get_def NewU64LRUNoStats_def split_beta BLOCK_SIZE_def)
  then show ?thesis using m1(1) by (simp add: Lru_Add_def)
qed

end
