(* ===== verification/U128_Lru.thy ===== *)
theory U128_Lru
  imports U64_Lru
begin

text \<open>
  \<^verbatim>\<open>hmap/lru/u128_lru.go\<close>: the LRU map with a key of two integers. Its nodes are linked by pointers instead of
  positions, and a node keeps its own position. A pointer is the number of a block and a column of it; the
  blocks handed out by the pool are arguments. Reading through nil, or beyond an array, is \<open>None\<close>.
\<close>

unbundle bit_operations_syntax

definition Jenkins128 :: "u64 \<Rightarrow> u64 \<Rightarrow> i32" where
  "Jenkins128 k0 k1 = Jenkins k0 XOR Jenkins k1"

section \<open>State\<close>

type_synonym ptr = "nat \<times> nat"

record 'v u128LRUNode =
  key0 :: u64
  key1 :: u64
  n_value :: "'v option"
  n_hashListNext :: "ptr option"
  n_hashListPrev :: "ptr option"
  n_timeListNext :: "ptr option"
  n_timeListPrev :: "ptr option"
  n_hash :: int
  n_index :: int

definition blankU128LRUNodeForInit :: "'v u128LRUNode" where
  "blankU128LRUNodeForInit = \<lparr>key0 = 0, key1 = 0, n_value = None, n_hashListNext = None, n_hashListPrev = None,
     n_timeListNext = None, n_timeListPrev = None, n_hash = 0, n_index = 0\<rparr>"

record 'v U128LRU =
  blocks :: "nat \<Rightarrow> nat \<Rightarrow> 'v u128LRUNode"
  rows :: "nat option list"
  startIndex :: int
  endIndex :: int
  slots128 :: int
  slotHead :: "ptr option list"
  timeHead :: "ptr option"
  timeTail :: "ptr option"
  capacity128 :: int
  size128 :: int
  counter128 :: LruCounter
  threshold128 :: u32
  chain128 :: "bytes option"
  chainRead128 :: bool

definition U128_incIndex :: "'v U128LRU \<Rightarrow> int \<Rightarrow> int" where
  "U128_incIndex m i = (if (i + 1) div BLOCK_SIZE \<ge> int (length (rows m)) then 0 else i + 1)"

definition U128_decIndex :: "'v U128LRU \<Rightarrow> int \<Rightarrow> int" where
  "U128_decIndex m i = (if i \<le> 0 then int (length (rows m)) * BLOCK_SIZE - 1 else i - 1)"

definition U128_getNode :: "'v U128LRU \<Rightarrow> int \<Rightarrow> ptr option" where
  "U128_getNode m i =
     (let row = i div BLOCK_SIZE in
      if row < 0 \<or> row \<ge> int (length (rows m)) then None
      else map_option (\<lambda>b. (b, nat (i mod BLOCK_SIZE))) (rows m ! nat row))"

definition load :: "'v U128LRU \<Rightarrow> ptr \<Rightarrow> 'v u128LRUNode" where
  "load m p = blocks m (fst p) (snd p)"

definition store :: "ptr \<Rightarrow> 'v u128LRUNode \<Rightarrow> 'v U128LRU \<Rightarrow> 'v U128LRU" where
  "store p n m = m\<lparr>blocks := (blocks m)(fst p := (blocks m (fst p))(snd p := n))\<rparr>"

definition set_head :: "int \<Rightarrow> ptr option \<Rightarrow> 'v U128LRU \<Rightarrow> 'v U128LRU option" where
  "set_head s p m =
     (if 0 \<le> s \<and> s < int (length (slotHead m)) then Some (m\<lparr>slotHead := (slotHead m)[nat s := p]\<rparr>) else None)"

definition get_head :: "'v U128LRU \<Rightarrow> int \<Rightarrow> ptr option option" where
  "get_head m s = (if 0 \<le> s \<and> s < int (length (slotHead m)) then Some (slotHead m ! nat s) else None)"

section \<open>List operations\<close>



definition U128_removeNodeFromHashList :: "ptr \<Rightarrow> ptr option \<Rightarrow> ptr option \<Rightarrow> 'v U128LRU \<Rightarrow> 'v U128LRU option" where
  "U128_removeNodeFromHashList node newNext newPrev m = do {
     m \<leftarrow> (case n_hashListPrev (load m node) of
            Some p \<Rightarrow> Some (store p ((load m p)\<lparr>n_hashListNext := newNext\<rparr>) m)
          | None \<Rightarrow> set_head (n_hash (load m node)) newNext m);
     Some (case n_hashListNext (load m node) of
            Some p \<Rightarrow> store p ((load m p)\<lparr>n_hashListPrev := newPrev\<rparr>) m
          | None \<Rightarrow> m)
   }"

definition U128_removeNodeFromTimeList :: "ptr \<Rightarrow> ptr option \<Rightarrow> ptr option \<Rightarrow> 'v U128LRU \<Rightarrow> 'v U128LRU" where
  "U128_removeNodeFromTimeList node newNext newPrev m =
     (let m = (case n_timeListPrev (load m node) of
                 Some p \<Rightarrow> store p ((load m p)\<lparr>n_timeListNext := newNext\<rparr>) m
               | None \<Rightarrow> m\<lparr>timeHead := newNext\<rparr>)
      in case n_timeListNext (load m node) of
           Some p \<Rightarrow> store p ((load m p)\<lparr>n_timeListPrev := newPrev\<rparr>) m
         | None \<Rightarrow> m\<lparr>timeTail := newPrev\<rparr>)"

section \<open>Nodes\<close>

text \<open>The whole of the first node is copied, its position included.\<close>

definition U128_fill_place :: "ptr \<Rightarrow> 'v U128LRU \<Rightarrow> 'v U128LRU option" where
  "U128_fill_place node m =
     (if n_index (load m node) \<noteq> startIndex m then do {
        firstNode \<leftarrow> U128_getNode m (startIndex m);
        let m = store node (load m firstNode) m;
        m \<leftarrow> U128_removeNodeFromHashList firstNode (Some node) (Some node) m;
        let m = U128_removeNodeFromTimeList firstNode (Some node) (Some node) m;
        Some (store firstNode blankU128LRUNodeForInit m)
      } else Some (store node blankU128LRUNodeForInit m))"

definition U128_removeNode :: "ptr \<Rightarrow> 'v U128LRU \<Rightarrow> 'v U128LRU option" where
  "U128_removeNode node m = do {
     m \<leftarrow> U128_removeNodeFromHashList node (n_hashListNext (load m node)) (n_hashListPrev (load m node)) m;
     let m = U128_removeNodeFromTimeList node (n_timeListNext (load m node)) (n_timeListPrev (load m node)) m;
     m \<leftarrow> U128_fill_place node m;
     let start = startIndex m;
     let m = (if start mod BLOCK_SIZE = BLOCK_SIZE - 1 then m\<lparr>rows := (rows m)[nat (start div BLOCK_SIZE) := None]\<rparr> else m);
     Some (m\<lparr>startIndex := U128_incIndex m start, size128 := size128 m - 1\<rparr>)
   }"



section \<open>Operations\<close>

definition U128_compressHash :: "'v U128LRU \<Rightarrow> u64 \<Rightarrow> u64 \<Rightarrow> int" where
  "U128_compressHash m k0 k1 = sint (Jenkins128 k0 k1 AND of_int (slots128 m - 1))"

definition U128_GetCounter :: "'v U128LRU \<Rightarrow> LruCounter \<times> 'v U128LRU" where
  "U128_GetCounter m =
     (let c = counter128 m;
          c = (if lc_scanTimes c \<noteq> 0 then c\<lparr>lc_AvgScan := lc_totalScan c div lc_scanTimes c\<rparr> else c)
      in (c\<lparr>lc_Size := size128 m\<rparr>, m\<lparr>counter128 := LruCounter_zero\<rparr>))"



text \<open>The node found, if any, and the number of nodes seen.\<close>

partial_function (option) U128_find_loop :: "'v U128LRU \<Rightarrow> u64 \<Rightarrow> u64 \<Rightarrow> nat \<Rightarrow> ptr option \<Rightarrow> (ptr option \<times> nat) option" where
  "U128_find_loop m k0 k1 width p =
     (case p of None \<Rightarrow> Some (None, width)
      | Some node \<Rightarrow>
          if key0 (load m node) = k0 \<and> key1 (load m node) = k1 then Some (Some node, width + 1)
          else U128_find_loop m k0 k1 (width + 1) (n_hashListNext (load m node)))"





definition U128_Remove :: "u64 \<Rightarrow> u64 \<Rightarrow> 'v U128LRU \<Rightarrow> 'v U128LRU option" where
  "U128_Remove k0 k1 m = do {
     head \<leftarrow> get_head m (U128_compressHash m k0 k1);
     (p, _) \<leftarrow> U128_find_loop m k0 k1 0 head;
     case p of Some node \<Rightarrow> U128_removeNode node m | None \<Rightarrow> Some m
   }"


definition U128_Clear :: "'v U128LRU \<Rightarrow> 'v U128LRU" where
  "U128_Clear m =
     m\<lparr>blocks := (\<lambda>b c. if Some b \<in> set (rows m) then (blocks m b c)\<lparr>n_value := None\<rparr> else blocks m b c),
           rows := map (\<lambda>_. None) (rows m), startIndex := 0, endIndex := 0, slotHead := map (\<lambda>_. None) (slotHead m),
           timeHead := None, timeTail := None, size128 := 0, chainRead128 := True\<rparr>"

definition U128_GetCollisionChain :: "'v U128LRU \<Rightarrow> bytes option \<times> 'v U128LRU" where
  "U128_GetCollisionChain m = (if chainRead128 m then (None, m) else (chain128 m, m\<lparr>chainRead128 := True\<rparr>))"

definition U128_SetCollisionChainDebugThreshold :: "int \<Rightarrow> 'v U128LRU \<Rightarrow> 'v U128LRU" where
  "U128_SetCollisionChainDebugThreshold t m =
     (let m = m\<lparr>threshold128 := of_int t\<rparr> in if t > 0 then m\<lparr>chainRead128 := True\<rparr> else m)"




section \<open>Laws\<close>

















section \<open>Properties\<close>



end
