(* ===== verification/Possible_Host.thy ===== *)
theory Possible_Host
  imports Lru_Map
begin

text \<open>
  \<^verbatim>\<open>possible/host.go\<close>, a client of the LRU map of \<open>Lru_Map\<close>: the hosts seen lately, by address and EPC. The locks only
  serialise the calls. \<^verbatim>\<open>GetIpHash\<close> (\<^verbatim>\<open>utils/utils.go\<close>) reads words in the byte order of a little endian machine.
\<close>

unbundle bit_operations_syntax

fun GetIpHash :: "bytes \<Rightarrow> u32" where
  "GetIpHash [] = 0"
| "GetIpHash ip = get_le (take 4 ip) XOR GetIpHash (drop 4 ip)"

definition host_key :: "u32 \<Rightarrow> i32 \<Rightarrow> u64" where
  "host_key host epcId = push_bit 32 (ucast (epcId AND 0xffff)) OR ucast host"

definition host_key6 :: "bytes \<Rightarrow> i32 \<Rightarrow> u64" where
  "host_key6 host epcId = push_bit 48 1 OR push_bit 32 (ucast (epcId AND 0xffff)) OR ucast (GetIpHash host)"

definition NewPossibleHost :: "int \<Rightarrow> bool U64LRU" where
  "NewPossibleHost capacity = NewU64LRUNoStats (capacity div 8) capacity"

definition PossibleHost_Add :: "bool u64LRUNode list \<Rightarrow> u32 \<Rightarrow> i32 \<Rightarrow> bool U64LRU \<Rightarrow> bool U64LRU option" where
  "PossibleHost_Add fresh host epcId p = Lru_Add fresh (host_key host epcId) (Some True) p"

definition PossibleHost_Add6 :: "bool u64LRUNode list \<Rightarrow> bytes \<Rightarrow> i32 \<Rightarrow> bool U64LRU \<Rightarrow> bool U64LRU option" where
  "PossibleHost_Add6 fresh host epcId p = Lru_Add fresh (host_key6 host epcId) (Some True) p"

definition PossibleHost_Check :: "u32 \<Rightarrow> i32 \<Rightarrow> bool U64LRU \<Rightarrow> (bool \<times> bool U64LRU) option" where
  "PossibleHost_Check host epcId p = map_option (\<lambda>(v, p). (v \<noteq> None, p)) (Lru_Get (host_key host epcId) True p)"

definition PossibleHost_Check6 :: "bytes \<Rightarrow> i32 \<Rightarrow> bool U64LRU \<Rightarrow> (bool \<times> bool U64LRU) option" where
  "PossibleHost_Check6 host epcId p = map_option (\<lambda>(v, p). (v \<noteq> None, p)) (Lru_Get (host_key6 host epcId) True p)"

section \<open>Keys\<close>

lemma bit_low16: "bit ((e :: i32) AND 0xffff) n \<longleftrightarrow> n < 16 \<and> bit e n"
proof -
  have "e AND 0xffff = take_bit 16 e" by (simp add: take_bit_eq_mask mask_eq_exp_minus_1)
  then show ?thesis by (simp add: bit_take_bit_iff)
qed

lemma bit_family: "bit (0x1000000000000 :: int) n \<longleftrightarrow> n = 48"
  using bit_exp_iff [where 'a = int, of 48 n] by simp

lemma bit_host_key:
  "bit (host_key h e) n \<longleftrightarrow> (if n < 32 then bit h n else n < 48 \<and> bit e (n - 32))"
  "bit (host_key6 ip e) n \<longleftrightarrow> (if n < 32 then bit (GetIpHash ip) n else if n < 48 then bit e (n - 32) else n = 48)"
  by (auto simp: host_key_def host_key6_def bit_or_iff bit_push_bit_iff bit_low16 bit_family unsigned_push_bit_eq
      bit_unsigned_iff not_less dest: bit_imp_le_length)

lemma host_key_eq: "host_key h e = host_key h' e' \<longleftrightarrow> h = h' \<and> e AND 0xffff = e' AND 0xffff"
proof
  assume a: "host_key h e = host_key h' e'"
  have b: "(if n < 32 then bit h n else n < 48 \<and> bit e (n - 32)) = (if n < 32 then bit h' n else n < 48 \<and> bit e' (n - 32))" for n
    using a bit_host_key(1) by metis
  have "h = h'"
  proof (rule bit_word_eqI)
    fix n
    assume "n < LENGTH(32)"
    then show "bit h n = bit h' n" using b [of n] by simp
  qed
  moreover have "e AND 0xffff = e' AND 0xffff"
  proof (rule bit_word_eqI)
    fix n
    show "bit (e AND 0xffff) n = bit (e' AND 0xffff) n" using b [of "n + 32"] by (auto simp: bit_low16)
  qed
  ultimately show "h = h' \<and> e AND 0xffff = e' AND 0xffff" ..
qed (simp add: host_key_def)

lemma host_key_v6: "host_key h e \<noteq> host_key6 ip e'"
proof
  assume "host_key h e = host_key6 ip e'"
  then have "bit (host_key h e) 48 = bit (host_key6 ip e') 48" by simp
  then show False by (simp add: bit_host_key)
qed

section \<open>What is remembered\<close>

datatype host_call = HostAdd u32 i32 | HostAdd6 bytes i32

fun host_call_key :: "host_call \<Rightarrow> u64" where
  "host_call_key (HostAdd h e) = host_key h e"
| "host_call_key (HostAdd6 ip e) = host_key6 ip e"

fun run_hosts :: "(bool u64LRUNode list \<times> host_call) list \<Rightarrow> bool U64LRU \<Rightarrow> bool U64LRU option" where
  "run_hosts [] p = Some p"
| "run_hosts ((f, HostAdd h e) # cs) p = PossibleHost_Add f h e p \<bind> run_hosts cs"
| "run_hosts ((f, HostAdd6 ip e) # cs) p = PossibleHost_Add6 f ip e p \<bind> run_hosts cs"

lemma run_hosts_calls:
  "map_option snd (run_calls Lru_Add Lru_Get Lru_Remove (map (\<lambda>(f, c). (f, CallAdd (host_call_key c) (Some True))) cs) p) = run_hosts cs p"
proof (induction cs p rule: run_hosts.induct)
  case (2 f h e cs p)
  show ?case using 2 by (cases "Lru_Add f (host_key h e) (Some True) p")
      (auto simp: PossibleHost_Add_def split_beta map_option_case split: option.splits bind_splits)
next
  case (3 f ip e cs p)
  show ?case using 3 by (cases "Lru_Add f (host_key6 ip e) (Some True) p")
      (auto simp: PossibleHost_Add6_def split_beta map_option_case split: option.splits bind_splits)
qed simp

text \<open>The keys, the last one added first, each once.\<close>

definition recency :: "'k list \<Rightarrow> 'k list" where
  "recency ks = rev (remdups ks)"

lemma recency_snoc: "recency (ks @ [k]) = k # filter (\<lambda>j. j \<noteq> k) (recency ks)"
proof -
  have "remdups (ks @ [k]) = filter (\<lambda>j. j \<noteq> k) (remdups ks) @ [k]" by (induction ks) auto
  then show ?thesis by (simp add: recency_def rev_filter)
qed

lemma take_filter_absent: "k \<notin> set (take n xs) \<Longrightarrow> take n (filter (\<lambda>j. j \<noteq> k) xs) = take n xs"
  by (induction xs arbitrary: n) (auto simp: take_Cons split: nat.splits)

lemma take_filter_present:
  "distinct xs \<Longrightarrow> k \<in> set (take (Suc n) xs) \<Longrightarrow> take n (filter (\<lambda>j. j \<noteq> k) xs) = filter (\<lambda>j. j \<noteq> k) (take (Suc n) xs)"
proof (induction xs arbitrary: n)
  case (Cons x xs)
  show ?case
  proof (cases "x = k")
    case True
    then have "filter (\<lambda>j. j \<noteq> k) xs = xs" "filter (\<lambda>j. j \<noteq> k) (take n xs) = take n xs"
      using Cons.prems(1) by (auto simp: filter_id_conv dest: in_set_takeD)
    then show ?thesis using True by simp
  next
    case False
    then obtain n' where "n = Suc n'" using Cons.prems(2) by (cases n) auto
    then show ?thesis using Cons False by simp
  qed
qed simp

lemma without_keys: "map fst (without k es) = filter (\<lambda>j. j \<noteq> k) (map fst es)"
  by (induction es) auto

lemma adds_recency:
  assumes "0 < cap"
  shows "map fst (snd (cache_run cap (map (\<lambda>k. CallAdd k v) ks) [])) = take cap (recency ks)"
proof -
  have run: "snd (cache_run cap (map (\<lambda>k. CallAdd k v) js @ [CallAdd k v]) es) =
      cache_add cap k v (snd (cache_run cap (map (\<lambda>k. CallAdd k v) js) es))" for js k es
    by (induction js arbitrary: es) (simp_all add: split_beta)
  show ?thesis
  proof (induction ks rule: rev_induct)
    case Nil
    show ?case by (simp add: recency_def)
  next
    case (snoc k ks)
    let ?es = "snd (cache_run cap (map (\<lambda>k. CallAdd k v) ks) [])"
    have n: "take cap (x # xs) = x # take (cap - 1) xs" for x :: 'a and xs using assms by (cases cap) auto
    have d: "distinct (recency ks)" by (simp add: recency_def)
    have f: "fst ` set ?es = set (take cap (recency ks))" using arg_cong [OF snoc.IH, of set] by simp
    show ?case
    proof (cases "k \<in> set (take cap (recency ks))")
      case True
      then have "take (cap - 1) (filter (\<lambda>j. j \<noteq> k) (recency ks)) = filter (\<lambda>j. j \<noteq> k) (take cap (recency ks))"
        using take_filter_present [OF d, of k "cap - 1"] assms by simp
      then show ?thesis using True snoc.IH by (simp add: run cache_add_def f recency_snoc without_keys n)
    next
      case False
      then have "k \<notin> set (take (cap - 1) (recency ks))" using set_take_subset_set_take [of "cap - 1" cap "recency ks"] by auto
      then have "take (cap - 1) (filter (\<lambda>j. j \<noteq> k) (recency ks)) = take (cap - 1) (recency ks)" by (rule take_filter_absent)
      then show ?thesis using False snoc.IH by (simp add: run cache_add_def f recency_snoc n take_map [symmetric])
    qed
  qed
qed

text \<open>
  C27: From a new object every sequence of \<^verbatim>\<open>Add\<close> and \<^verbatim>\<open>Add6\<close> returns, and then \<^verbatim>\<open>Check\<close> answers whether the key of its host and EPC
  is among the last distinct keys added, as many as the capacity. The answer for an IPv4 host is accurate: it is true only when
  the same address was added, with an EPC that has the same low 16 bits, and never because of an IPv6 host.
\<close>

theorem possible_host_exact:
  assumes "0 < capacity" "\<forall>fc\<in>set cs. int (length (fst fc)) = BLOCK_SIZE"
  shows "\<exists>p ok p'. run_hosts cs (NewPossibleHost capacity) = Some p \<and> PossibleHost_Check host epc p = Some (ok, p') \<and>
    (ok \<longleftrightarrow> host_key host epc \<in> set (take (nat capacity) (recency (map (host_call_key \<circ> snd) cs)))) \<and>
    (ok \<longrightarrow> (\<exists>f epc'. (f, HostAdd host epc') \<in> set cs \<and> epc' AND 0xffff = epc AND 0xffff))"
proof -
  let ?calls = "map (\<lambda>(f, c). (f, CallAdd (host_call_key c) (Some True))) cs" and ?new = "NewPossibleHost capacity"
  have new: "lru_inv ?new" "lru_entries ?new = []" "lru_capacity ?new = capacity"
    using New_inv [OF assms(1)] New_ok(2) [OF assms(1)] by (simp_all add: NewPossibleHost_def)
  have blk: "\<forall>fc\<in>set ?calls. int (length (fst fc)) = BLOCK_SIZE" using assms(2) by (simp add: split_beta)
  obtain as p where r: "run_calls Lru_Add Lru_Get Lru_Remove ?calls ?new = Some (as, p)" "lru_inv p"
    "cache_run (nat capacity) (map snd ?calls) [] = (as, lru_entries p)"
    using u64.run_refines [OF new(1) blk] unfolding new(2,3) by blast
  have p: "run_hosts cs ?new = Some p" using run_hosts_calls [of cs ?new] r(1) by simp
  have "map snd ?calls = map (\<lambda>k. CallAdd k (Some True)) (map (host_call_key \<circ> snd) cs)" by (simp add: split_beta)
  from r(3) [unfolded this] have keys: "map fst (lru_entries p) = take (nat capacity) (recency (map (host_call_key \<circ> snd) cs))"
    using adds_recency [of "nat capacity" "Some True" "map (host_call_key \<circ> snd) cs"] assms(1) by (simp only: snd_conv zero_less_nat_eq)
  obtain p' where g: "Lru_Get (host_key host epc) True p = Some (map_of (lru_entries p) (host_key host epc), p')"
    using Lru_Get_law [OF r(2)] by blast
  let ?ok = "map_of (lru_entries p) (host_key host epc) \<noteq> None"
  have ok: "?ok \<longleftrightarrow> host_key host epc \<in> set (take (nat capacity) (recency (map (host_call_key \<circ> snd) cs)))"
    using keys by (metis map_of_eq_None_iff list.set_map)
  have "\<exists>f epc'. (f, HostAdd host epc') \<in> set cs \<and> epc' AND 0xffff = epc AND 0xffff" if "?ok"
  proof -
    have "host_key host epc \<in> (host_call_key \<circ> snd) ` set cs"
      using ok that by (auto simp: recency_def dest!: in_set_takeD)
    then obtain f c where c: "(f, c) \<in> set cs" "host_call_key c = host_key host epc" by auto
    then obtain epc' where "c = HostAdd host epc'" "epc' AND 0xffff = epc AND 0xffff"
      using host_key_v6 by (cases c) (auto simp: host_key_eq, metis)
    then show ?thesis using c(1) by blast
  qed
  then show ?thesis using p g ok unfolding PossibleHost_Check_def by auto
qed

theorem possible_host_exact_witness:
  "\<exists>p ok p'. run_hosts [(replicate 256 blankU64LRUNodeForInit, HostAdd 0x0a000001 7)] (NewPossibleHost 16) = Some p \<and>
    PossibleHost_Check 0x0a000001 (7 + 0x10000) p = Some (ok, p') \<and> ok"
  using possible_host_exact [of 16 "[(replicate 256 blankU64LRUNodeForInit, HostAdd 0x0a000001 7)]" "0x0a000001" "7 + 0x10000"]
  by (auto simp: BLOCK_SIZE_def recency_def host_key_def)

end
