(* ===== verification/Decapsulate.thy ===== *)
theory Decapsulate
  imports Go_Prelude
begin

text \<open>
  Tunnel headers, \<^verbatim>\<open>datatype/decapsulate.go\<close> with the offsets of \<^verbatim>\<open>datatype/const.go\<close>. A packet is its bytes, which some
  tunnels rewrite in place; the slice of the network layer starts at \<open>l2Len\<close>. \<open>None\<close> is an index beyond a slice: a panic, or a read
  through an unsafe pointer that leaves the slice.
\<close>

unbundle bit_operations_syntax

section \<open>Tunnel types\<close>

definition TUNNEL_TYPE_NONE :: u8 where "TUNNEL_TYPE_NONE = 0"
definition TUNNEL_TYPE_VXLAN :: u8 where "TUNNEL_TYPE_VXLAN = 1"
definition TUNNEL_TYPE_IPIP :: u8 where "TUNNEL_TYPE_IPIP = 2"
definition TUNNEL_TYPE_TENCENT_GRE :: u8 where "TUNNEL_TYPE_TENCENT_GRE = 3"
definition TUNNEL_TYPE_ERSPAN_OR_TEB :: u8 where "TUNNEL_TYPE_ERSPAN_OR_TEB = TUNNEL_TYPE_TENCENT_GRE + 1"

lemmas tunnel_type_defs = TUNNEL_TYPE_NONE_def TUNNEL_TYPE_VXLAN_def TUNNEL_TYPE_IPIP_def TUNNEL_TYPE_TENCENT_GRE_def TUNNEL_TYPE_ERSPAN_OR_TEB_def

definition NewTunnelTypeBitmap :: "u8 list \<Rightarrow> u16" where
  "NewTunnelTypeBitmap items = fold (\<lambda>item bitmap. bitmap OR push_bit (unat item) 1) items 0"

definition Bitmap_Add :: "u8 \<Rightarrow> u16 \<Rightarrow> u16" where
  "Bitmap_Add tunnelType b = b OR push_bit (unat tunnelType) 1"

definition Bitmap_Has :: "u16 \<Rightarrow> u8 \<Rightarrow> bool" where
  "Bitmap_Has b tunnelType \<longleftrightarrow> b AND push_bit (unat tunnelType) 1 \<noteq> 0"

definition Bitmap_IsEmpty :: "u16 \<Rightarrow> bool" where
  "Bitmap_IsEmpty b \<longleftrightarrow> b = 0"

record TunnelInfo =
  ti_Src :: u32
  ti_Dst :: u32
  ti_MacSrc :: u32
  ti_MacDst :: u32
  ti_Id :: u32
  ti_Type :: u8
  ti_Tier :: u8
  ti_IsIPv6 :: bool

definition TunnelInfo_Valid :: "TunnelInfo \<Rightarrow> bool" where
  "TunnelInfo_Valid t \<longleftrightarrow> ti_Type t \<noteq> TUNNEL_TYPE_NONE"

section \<open>Reading and writing\<close>

definition byte_at :: "bytes \<Rightarrow> nat \<Rightarrow> u8 option" where
  "byte_at p i = (if i < length p then Some (p ! i) else None)"

definition be_at :: "nat \<Rightarrow> bytes \<Rightarrow> nat \<Rightarrow> 'a::len word option" where
  "be_at n p i = (if i + n \<le> length p then Some (get_be (take n (drop i p))) else None)"

definition le16_at :: "bytes \<Rightarrow> nat \<Rightarrow> u16 option" where
  "le16_at p i = (if i + 2 \<le> length p then Some (get_le (take 2 (drop i p))) else None)"

text \<open>\<^verbatim>\<open>copy(p[i:], src)\<close>\<close>

definition copy_at :: "int \<Rightarrow> bytes \<Rightarrow> bytes \<Rightarrow> bytes option" where
  "copy_at i src p =
     (if i < 0 \<or> i > int (length p) then None
      else let k = nat i; n = min (length src) (length p - k) in Some (take k p @ take n src @ drop (k + n) p))"

text \<open>\<^verbatim>\<open>BigEndian.PutUint16(p[i:], v)\<close>\<close>

definition put_be16_at :: "int \<Rightarrow> u16 \<Rightarrow> bytes \<Rightarrow> bytes option" where
  "put_be16_at i v p = (if i < 0 \<or> i + 2 > int (length p) then None else copy_at i (put_be 2 v) p)"

text \<open>\<^verbatim>\<open>packet[l2Len:]\<close>\<close>

definition l3_of :: "nat \<Rightarrow> bytes \<Rightarrow> bytes option" where
  "l3_of l2Len packet = (if l2Len \<le> length packet then Some (drop l2Len packet) else None)"

text \<open>The addresses and the type of the outermost tunnel, from the offsets of the addresses in the network layer.\<close>

definition save_outer :: "nat \<Rightarrow> nat \<Rightarrow> u8 \<Rightarrow> bytes \<Rightarrow> bytes \<Rightarrow> TunnelInfo \<Rightarrow> TunnelInfo option" where
  "save_outer sip dip ty l3Packet packet t = do {
     src \<leftarrow> be_at 4 l3Packet sip;
     dst \<leftarrow> be_at 4 l3Packet dip;
     macSrc \<leftarrow> be_at 4 packet 8;
     macDst \<leftarrow> be_at 4 packet 2;
     Some (t\<lparr>ti_Src := src, ti_Dst := dst, ti_MacSrc := macSrc, ti_MacDst := macDst, ti_Type := ty\<rparr>)
   }"

definition next_tier :: "TunnelInfo \<Rightarrow> TunnelInfo" where
  "next_tier t = t\<lparr>ti_Tier := ti_Tier t + 1\<rparr>"

type_synonym decap_result = "(int \<times> bytes \<times> TunnelInfo) option"

section \<open>VXLAN\<close>

definition is_vxlan_port :: "u16 \<Rightarrow> bool" where
  "is_vxlan_port p \<longleftrightarrow> p = 0xB512 \<or> p = 0x1821 \<or> p = 0x801A"

definition DecapsulateVxlan :: "bytes \<Rightarrow> nat \<Rightarrow> TunnelInfo \<Rightarrow> decap_result" where
  "DecapsulateVxlan packet l2Len t = do {
     l3Packet \<leftarrow> l3_of l2Len packet;
     if length l3Packet < 42 + 8 then Some (0, packet, t)
     else do {
       dstPort \<leftarrow> le16_at l3Packet (36 - 14);
       if \<not> is_vxlan_port dstPort then Some (0, packet, t)
       else do {
         flags \<leftarrow> byte_at l3Packet (42 - 14);
         if flags \<noteq> 8 then Some (0, packet, t)
         else do {
           t \<leftarrow> (if ti_Tier t = 0 then do {
                  t \<leftarrow> save_outer (26 - 14) (30 - 14) TUNNEL_TYPE_VXLAN l3Packet packet t;
                  vni \<leftarrow> be_at 4 l3Packet (46 - 14);
                  Some (t\<lparr>ti_Id := drop_bit 8 vni\<rparr>)
                } else Some t);
           Some (42 - 14 + 8, packet, next_tier t)
         }
       }
     }
   }"

definition Decapsulate6Vxlan :: "bytes \<Rightarrow> nat \<Rightarrow> TunnelInfo \<Rightarrow> decap_result" where
  "Decapsulate6Vxlan packet l2Len t = do {
     l3Packet \<leftarrow> l3_of l2Len packet;
     if length l3Packet < 42 + 8 then Some (0, packet, t)
     else do {
       dstPort \<leftarrow> le16_at l3Packet (40 + 2);
       if \<not> is_vxlan_port dstPort then Some (0, packet, t)
       else do {
         flags \<leftarrow> byte_at l3Packet (40 + 8 + 0);
         if flags \<noteq> 8 then Some (0, packet, t)
         else do {
           t \<leftarrow> (if ti_Tier t = 0 then do {
                  t \<leftarrow> save_outer 20 36 TUNNEL_TYPE_VXLAN l3Packet packet t;
                  vni \<leftarrow> be_at 4 l3Packet (40 + 8 + 4);
                  Some (t\<lparr>ti_Id := drop_bit 8 vni, ti_IsIPv6 := True\<rparr>)
                } else Some t);
           Some (40 + 8 + 8, packet, next_tier t)
         }
       }
     }
   }"

section \<open>GRE\<close>

definition calcGreOptionSize :: "u16 \<Rightarrow> nat" where
  "calcGreOptionSize flags =
     (if bit flags 13 then 4 else 0) + (if bit flags 12 then 4 else 0) + (if bit flags 15 then 4 else 0)"

definition DecapsulateErspan :: "bytes \<Rightarrow> nat \<Rightarrow> u16 \<Rightarrow> u16 \<Rightarrow> nat \<Rightarrow> TunnelInfo \<Rightarrow> decap_result" where
  "DecapsulateErspan packet l2Len flags greProtocolType ipHeaderSize t = do {
     l3Packet \<leftarrow> l3_of l2Len packet;
     let greHeaderSize = 4 + calcGreOptionSize flags;
     if greProtocolType = 0xBE88 then
       if flags = 0 then do {
         t \<leftarrow> (if ti_Tier t = 0 then save_outer (26 - 14) (30 - 14) TUNNEL_TYPE_ERSPAN_OR_TEB l3Packet packet t else Some t);
         Some (int (ipHeaderSize + 4 + 0), packet, next_tier t)
       } else do {
         t \<leftarrow> (if ti_Tier t = 0 then do {
                t \<leftarrow> save_outer (26 - 14) (30 - 14) TUNNEL_TYPE_ERSPAN_OR_TEB l3Packet packet t;
                x \<leftarrow> be_at 4 l3Packet (ipHeaderSize + greHeaderSize + 0);
                Some (t\<lparr>ti_Id := x AND 0x3ff\<rparr>)
              } else Some t);
         Some (int (ipHeaderSize + greHeaderSize + 8), packet, next_tier t)
       }
     else if greProtocolType = 0xEB22 then do {
       t \<leftarrow> (if ti_Tier t = 0 then do {
              t \<leftarrow> save_outer (26 - 14) (30 - 14) TUNNEL_TYPE_ERSPAN_OR_TEB l3Packet packet t;
              x \<leftarrow> be_at 4 l3Packet (ipHeaderSize + greHeaderSize + 0);
              Some (t\<lparr>ti_Id := x AND 0x3ff\<rparr>)
            } else Some t);
       let t = next_tier t;
       oFlag \<leftarrow> byte_at l3Packet (ipHeaderSize + greHeaderSize + 11);
       if oFlag AND 1 = 0 then Some (int (ipHeaderSize + greHeaderSize + 12), packet, t)
       else Some (int (ipHeaderSize + greHeaderSize + 12 + 8), packet, t)
     }
     else Some (0, packet, t)
   }"

definition IsGrePseudoInnerMac :: "u64 \<Rightarrow> bool" where
  "IsGrePseudoInnerMac mac \<longleftrightarrow> drop_bit 16 mac = 0"

text \<open>The offset of the key is that of the first option, behind the checksum if there is one.\<close>

definition gre_key_offset :: "u16 \<Rightarrow> nat" where
  "gre_key_offset flags = (if bit flags 15 then 4 + 4 else 4)"

text \<open>A link layer header is written over the end of the GRE header; \<open>at\<close> counts in the whole packet.\<close>

definition fake_l2 :: "int \<Rightarrow> bytes \<Rightarrow> bytes \<Rightarrow> bool \<Rightarrow> nat \<Rightarrow> bytes \<Rightarrow> bytes option" where
  "fake_l2 overlayOffset srcMacSuffix dstMacSuffix v4 l2Len packet =
     (if overlayOffset < 0 then None
      else do {
        let at = int l2Len + overlayOffset;
        packet \<leftarrow> copy_at at [0, 0, 0, 0] packet;
        packet \<leftarrow> copy_at (at + 4) dstMacSuffix packet;
        packet \<leftarrow> copy_at (at + 6) [0, 0, 0, 0] packet;
        packet \<leftarrow> copy_at (at + 6 + 4) srcMacSuffix packet;
        copy_at (at + 6 * 2) (if v4 then [0x8, 0x0] else [0x86, 0xdd]) packet
      })"

definition DecapsulateTencentGre :: "bytes \<Rightarrow> nat \<Rightarrow> u16 \<Rightarrow> u16 \<Rightarrow> nat \<Rightarrow> TunnelInfo \<Rightarrow> decap_result" where
  "DecapsulateTencentGre packet l2Len flags greProtocolType ipHeaderSize t =
     (if flags AND 7 > 1 \<or> \<not> bit flags 13 then Some (0, packet, t)
      else do {
        let greHeaderSize = 4 + calcGreOptionSize flags;
        let greKeyOffset = gre_key_offset flags;
        l3Packet \<leftarrow> l3_of l2Len packet;
        t \<leftarrow> (if ti_Tier t = 0 then do {
               t \<leftarrow> save_outer (26 - 14) (30 - 14) TUNNEL_TYPE_TENCENT_GRE l3Packet packet t;
               key \<leftarrow> be_at 4 l3Packet (ipHeaderSize + greKeyOffset);
               Some (t\<lparr>ti_Id := key\<rparr>)
             } else Some t);
        let t = next_tier t;
        let overlayOffset = int (greHeaderSize + ipHeaderSize) - 14;
        suffixes \<leftarrow> (if ipHeaderSize + greKeyOffset + 4 \<le> length l3Packet then Some (take 4 (drop (ipHeaderSize + greKeyOffset) l3Packet)) else None);
        packet \<leftarrow> fake_l2 overlayOffset (take 2 suffixes) (drop 2 suffixes) (greProtocolType = 0x0008) l2Len packet;
        Some (overlayOffset, packet, t)
      })"

definition DecapsulateTeb :: "bytes \<Rightarrow> nat \<Rightarrow> u16 \<Rightarrow> u16 \<Rightarrow> nat \<Rightarrow> TunnelInfo \<Rightarrow> decap_result" where
  "DecapsulateTeb packet l2Len flags greProtocolType ipHeaderSize t =
     (if flags AND 7 \<noteq> 0 \<or> \<not> bit flags 13 then Some (0, packet, t)
      else do {
        let greHeaderSize = 4 + calcGreOptionSize flags;
        let greKeyOffset = gre_key_offset flags;
        l3Packet \<leftarrow> l3_of l2Len packet;
        t \<leftarrow> (if ti_Tier t = 0 then do {
               t \<leftarrow> save_outer (26 - 14) (30 - 14) TUNNEL_TYPE_ERSPAN_OR_TEB l3Packet packet t;
               key \<leftarrow> be_at 4 l3Packet (ipHeaderSize + greKeyOffset);
               Some (t\<lparr>ti_Id := key\<rparr>)
             } else Some t);
        Some (int (greHeaderSize + ipHeaderSize), packet, next_tier t)
      })"

text \<open>The length of the IP header, from its low four bits.\<close>

definition ihl :: "u8 \<Rightarrow> nat" where
  "ihl b = unat (push_bit 2 (b AND 0xf))"

definition DecapsulateGre :: "bytes \<Rightarrow> nat \<Rightarrow> u16 \<Rightarrow> TunnelInfo \<Rightarrow> decap_result" where
  "DecapsulateGre packet l2Len tunnelTypeBitmap t = do {
     l3Packet \<leftarrow> l3_of l2Len packet;
     b \<leftarrow> byte_at l3Packet 0;
     let ipHeaderSize = ihl b;
     flags \<leftarrow> be_at 2 l3Packet (ipHeaderSize + 0);
     greProtocolType \<leftarrow> le16_at l3Packet (ipHeaderSize + 2);
     if Bitmap_Has tunnelTypeBitmap TUNNEL_TYPE_ERSPAN_OR_TEB \<and> (greProtocolType = 0xBE88 \<or> greProtocolType = 0xEB22)
     then DecapsulateErspan packet l2Len flags greProtocolType ipHeaderSize t
     else if Bitmap_Has tunnelTypeBitmap TUNNEL_TYPE_TENCENT_GRE \<and> (greProtocolType = 0x0008 \<or> greProtocolType = 0xDD86)
     then DecapsulateTencentGre packet l2Len flags greProtocolType ipHeaderSize t
     else if Bitmap_Has tunnelTypeBitmap TUNNEL_TYPE_ERSPAN_OR_TEB \<and> greProtocolType = 0x5865
     then DecapsulateTeb packet l2Len flags greProtocolType ipHeaderSize t
     else Some (0, packet, t)
   }"

section \<open>IP in IP\<close>

definition DecapsulateIPIP :: "bytes \<Rightarrow> nat \<Rightarrow> bool \<Rightarrow> bool \<Rightarrow> TunnelInfo \<Rightarrow> decap_result" where
  "DecapsulateIPIP packet l2Len underlayIpv6 overlayIpv6 t = do {
     l3Packet \<leftarrow> l3_of l2Len packet;
     b \<leftarrow> byte_at l3Packet 0;
     let underlayIpHeaderSize = (if underlayIpv6 then 40 else ihl b);
     t \<leftarrow> (if ti_Tier t = 0 then
            if underlayIpv6 then map_option (\<lambda>t. t\<lparr>ti_Id := 0, ti_IsIPv6 := True\<rparr>) (save_outer 20 36 TUNNEL_TYPE_IPIP l3Packet packet t)
            else map_option (\<lambda>t. t\<lparr>ti_Id := 0\<rparr>) (save_outer (26 - 14) (30 - 14) TUNNEL_TYPE_IPIP l3Packet packet t)
          else Some t);
     let start = underlayIpHeaderSize;
     packet \<leftarrow> copy_at (int start) (take l2Len packet) packet;
     packet \<leftarrow> put_be16_at (int start + int l2Len - 2) (if \<not> overlayIpv6 then 0x0800 else 0x86dd) packet;
     Some (int start - int l2Len, packet, next_tier t)
   }"

section \<open>Dispatch\<close>

definition TUNNEL_TIER_LIMIT :: u8 where "TUNNEL_TIER_LIMIT = 2"

definition Decapsulate :: "bytes \<Rightarrow> nat \<Rightarrow> u16 \<Rightarrow> TunnelInfo \<Rightarrow> decap_result" where
  "Decapsulate packet l2Len tunnelTypeBitmap t =
     (if Bitmap_IsEmpty tunnelTypeBitmap then Some (0, packet, t)
      else if ti_Tier t = TUNNEL_TIER_LIMIT then Some (0, packet, t)
      else do {
        l3Packet \<leftarrow> l3_of l2Len packet;
        if length l3Packet < 20 + 4 + 12 + 8 then Some (0, packet, t)
        else do {
          protocol \<leftarrow> byte_at l3Packet (23 - 14);
          if protocol = 17 then
            if Bitmap_Has tunnelTypeBitmap TUNNEL_TYPE_VXLAN then DecapsulateVxlan packet l2Len t else Some (0, packet, t)
          else if protocol = 47 then DecapsulateGre packet l2Len tunnelTypeBitmap t
          else if protocol = 4 then
            if Bitmap_Has tunnelTypeBitmap TUNNEL_TYPE_IPIP then DecapsulateIPIP packet l2Len False False t else Some (0, packet, t)
          else if protocol = 41 then
            if Bitmap_Has tunnelTypeBitmap TUNNEL_TYPE_IPIP then DecapsulateIPIP packet l2Len False True t else Some (0, packet, t)
          else Some (0, packet, t)
        }
      })"

definition Decapsulate6 :: "bytes \<Rightarrow> nat \<Rightarrow> u16 \<Rightarrow> TunnelInfo \<Rightarrow> decap_result" where
  "Decapsulate6 packet l2Len tunnelTypeBitmap t =
     (if Bitmap_IsEmpty tunnelTypeBitmap then Some (0, packet, t)
      else if ti_Tier t = TUNNEL_TIER_LIMIT then Some (0, packet, t)
      else do {
        l3Packet \<leftarrow> l3_of l2Len packet;
        if length l3Packet < 40 + 4 + 12 + 8 then Some (0, packet, t)
        else do {
          protocol \<leftarrow> byte_at l3Packet 6;
          if protocol = 17 then
            if Bitmap_Has tunnelTypeBitmap TUNNEL_TYPE_VXLAN then Decapsulate6Vxlan packet l2Len t else Some (0, packet, t)
          else if protocol = 4 then
            if Bitmap_Has tunnelTypeBitmap TUNNEL_TYPE_IPIP then DecapsulateIPIP packet l2Len True False t else Some (0, packet, t)
          else if protocol = 41 then
            if Bitmap_Has tunnelTypeBitmap TUNNEL_TYPE_IPIP then DecapsulateIPIP packet l2Len True True t else Some (0, packet, t)
          else Some (0, packet, t)
        }
      })"

section \<open>Laws\<close>

lemma copy_at_Some: "copy_at i src p = Some q \<Longrightarrow> length q = length p"
  by (auto simp: copy_at_def Let_def split: if_splits)

lemma copy_at_ok: "0 \<le> i \<Longrightarrow> i \<le> int (length p) \<Longrightarrow> \<exists>q. copy_at i src p = Some q \<and> length q = length p"
  by (auto simp: copy_at_def Let_def)

lemma put_be16_at_Some: "put_be16_at i v p = Some q \<Longrightarrow> length q = length p"
  by (auto simp: put_be16_at_def copy_at_Some split: if_splits)

lemma put_be16_at_ok: "0 \<le> i \<Longrightarrow> i + 2 \<le> int (length p) \<Longrightarrow> \<exists>q. put_be16_at i v p = Some q \<and> length q = length p"
  using copy_at_ok [of i p "put_be 2 v"] by (simp add: put_be16_at_def)

lemma read_ok:
  "i < length p \<Longrightarrow> byte_at p i = Some (p ! i)"
  "i + n \<le> length p \<Longrightarrow> be_at n p i = Some (get_be (take n (drop i p)))"
  "i + 2 \<le> length p \<Longrightarrow> le16_at p i = Some (get_le (take 2 (drop i p)))"
  "l2Len \<le> length p \<Longrightarrow> l3_of l2Len p = Some (drop l2Len p)"
  by (simp_all add: byte_at_def be_at_def le16_at_def l3_of_def)

lemma save_outer_ok:
  assumes "sip + 4 \<le> length l3" "dip + 4 \<le> length l3" "12 \<le> length packet"
  shows "\<exists>t'. save_outer sip dip ty l3 packet t = Some t'"
  using assms by (simp add: save_outer_def read_ok)

lemma save_outer_Some: "save_outer sip dip ty l3 packet t = Some t' \<Longrightarrow> ti_Tier t' = ti_Tier t \<and> ti_Type t' = ty"
  by (auto simp: save_outer_def split: bind_splits)

lemma fake_l2_Some: "fake_l2 off s d v4 l2Len packet = Some q \<Longrightarrow> length q = length packet"
  by (auto simp: fake_l2_def Let_def split: if_splits bind_splits dest!: copy_at_Some)

lemma fake_l2_ok:
  assumes "0 \<le> off" "int l2Len + off + 12 \<le> int (length packet)"
  shows "\<exists>q. fake_l2 off s d v4 l2Len packet = Some q"
proof -
  let ?at = "int l2Len + off"
  obtain q1 where q1: "copy_at ?at [0, 0, 0, 0] packet = Some q1" "length q1 = length packet" using copy_at_ok [of ?at packet] assms by auto
  obtain q2 where q2: "copy_at (?at + 4) d q1 = Some q2" "length q2 = length packet" using copy_at_ok [of "?at + 4" q1] assms q1(2) by auto
  obtain q3 where q3: "copy_at (?at + 6) [0, 0, 0, 0] q2 = Some q3" "length q3 = length packet" using copy_at_ok [of "?at + 6" q2] assms q2(2) by auto
  obtain q4 where q4: "copy_at (?at + 6 + 4) s q3 = Some q4" "length q4 = length packet" using copy_at_ok [of "?at + 6 + 4" q3] assms q3(2) by auto
  obtain q5 where "copy_at (?at + 6 * 2) (if v4 then [0x8, 0x0] else [0x86, 0xdd]) q4 = Some q5"
    using copy_at_ok [of "?at + 6 * 2" q4] assms q4(2) by auto
  then show ?thesis using assms(1) q1(1) q2(1) q3(1) q4(1) by (simp add: fake_l2_def)
qed

lemma ihl_bounds: "ihl b \<le> 60" "ihl b = 4 * unat (b AND 0xf)"
proof -
  have l: "unat (b AND 0xf) < 16"
  proof -
    have "b AND 0xf = take_bit 4 b" by (simp add: take_bit_eq_mask mask_eq_exp_minus_1)
    then show ?thesis by (simp add: unsigned_take_bit_eq take_bit_nat_less_exp [of 4, simplified])
  qed
  then show "ihl b = 4 * unat (b AND 0xf)"
    unfolding ihl_def unsigned_push_bit_eq by (simp add: push_bit_eq_mult take_bit_nat_eq_self)
  with l show "ihl b \<le> 60" by simp
qed

text \<open>What a step leaves: nothing, or one more tier, with only the outermost tunnel recorded.\<close>

definition one_tier :: "bytes \<Rightarrow> TunnelInfo \<Rightarrow> int \<times> bytes \<times> TunnelInfo \<Rightarrow> bool" where
  "one_tier packet t r \<longleftrightarrow> (case r of (off, p, t') \<Rightarrow>
     length p = length packet \<and>
     (off = 0 \<and> p = packet \<and> t' = t \<or>
      ti_Tier t' = ti_Tier t + 1 \<and> (if ti_Tier t = 0 then ti_Type t' \<noteq> TUNNEL_TYPE_NONE else t' = next_tier t)))"

lemma Vxlan_one_tier: "DecapsulateVxlan packet l2Len t = Some r \<Longrightarrow> one_tier packet t r"
  by (auto simp: DecapsulateVxlan_def one_tier_def next_tier_def tunnel_type_defs split: if_splits bind_splits dest!: save_outer_Some)

lemma Vxlan6_one_tier: "Decapsulate6Vxlan packet l2Len t = Some r \<Longrightarrow> one_tier packet t r"
  by (auto simp: Decapsulate6Vxlan_def one_tier_def next_tier_def tunnel_type_defs split: if_splits bind_splits dest!: save_outer_Some)

lemma Erspan_one_tier: "DecapsulateErspan packet l2Len flags ty h t = Some r \<Longrightarrow> one_tier packet t r"
  by (auto simp: DecapsulateErspan_def one_tier_def next_tier_def tunnel_type_defs Let_def split: if_splits bind_splits dest!: save_outer_Some)

lemma Tencent_one_tier: "DecapsulateTencentGre packet l2Len flags ty h t = Some r \<Longrightarrow> one_tier packet t r"
  by (auto simp: DecapsulateTencentGre_def one_tier_def next_tier_def tunnel_type_defs Let_def fake_l2_Some split: if_splits bind_splits dest!: save_outer_Some)

lemma Teb_one_tier: "DecapsulateTeb packet l2Len flags ty h t = Some r \<Longrightarrow> one_tier packet t r"
  by (auto simp: DecapsulateTeb_def one_tier_def next_tier_def tunnel_type_defs Let_def split: if_splits bind_splits dest!: save_outer_Some)

lemma IPIP_one_tier: "DecapsulateIPIP packet l2Len u ov t = Some r \<Longrightarrow> one_tier packet t r"
  by (auto simp: DecapsulateIPIP_def one_tier_def next_tier_def tunnel_type_defs Let_def split: if_splits bind_splits
      dest!: save_outer_Some copy_at_Some put_be16_at_Some)

lemma nothing_one_tier: "one_tier packet t (0, packet, t)" by (simp add: one_tier_def)

lemmas one_tier_rules = Vxlan_one_tier Vxlan6_one_tier Erspan_one_tier Tencent_one_tier Teb_one_tier IPIP_one_tier

lemma Gre_one_tier: "DecapsulateGre packet l2Len bm t = Some r \<Longrightarrow> one_tier packet t r"
  by (auto simp: DecapsulateGre_def Let_def nothing_one_tier split: if_splits bind_splits intro: one_tier_rules)

lemma Decapsulate_one_tier:
  "Decapsulate packet l2Len bm t = Some r \<Longrightarrow> one_tier packet t r"
  "Decapsulate6 packet l2Len bm t = Some r \<Longrightarrow> one_tier packet t r"
  by (auto simp: Decapsulate_def Decapsulate6_def nothing_one_tier split: if_splits bind_splits intro: one_tier_rules Gre_one_tier)

lemma tier_kept:
  assumes "ti_Tier t = 2"
  shows "Decapsulate packet l2Len bm t = Some (0, packet, t)" "Decapsulate6 packet l2Len bm t = Some (0, packet, t)"
  using assms by (simp_all add: Decapsulate_def Decapsulate6_def TUNNEL_TIER_LIMIT_def)

text \<open>Reading is safe in a network layer with room behind its IP header.\<close>

lemma option_size: "calcGreOptionSize flags \<le> 12" "bit flags 13 \<Longrightarrow> 4 \<le> calcGreOptionSize flags" "gre_key_offset flags \<le> 8"
  by (simp_all add: calcGreOptionSize_def gre_key_offset_def)

lemma outer_ok: "12 \<le> l2Len \<Longrightarrow> l2Len \<le> length packet \<Longrightarrow> 44 \<le> length (drop l2Len packet) \<Longrightarrow>
    \<exists>t'. save_outer (26 - 14) (30 - 14) ty (drop l2Len packet) packet t = Some t'"
  by (rule save_outer_ok [of "26 - 14" "drop l2Len packet" "30 - 14" packet ty t]) auto

lemma Vxlan_ok:
  assumes "12 \<le> l2Len" "l2Len \<le> length packet" "44 \<le> length (drop l2Len packet)"
  shows "DecapsulateVxlan packet l2Len t \<noteq> None"
proof -
  obtain t' where "save_outer (26 - 14) (30 - 14) TUNNEL_TYPE_VXLAN (drop l2Len packet) packet t = Some t'" using outer_ok assms by blast
  then show ?thesis using assms by (simp add: DecapsulateVxlan_def read_ok)
qed

lemma Erspan_ok:
  assumes "12 \<le> l2Len" "l2Len \<le> length packet" "44 \<le> length (drop l2Len packet)" "h + 28 \<le> length (drop l2Len packet)"
  shows "DecapsulateErspan packet l2Len flags ty h t \<noteq> None"
proof -
  obtain t' where "save_outer (26 - 14) (30 - 14) TUNNEL_TYPE_ERSPAN_OR_TEB (drop l2Len packet) packet t = Some t'" using outer_ok assms by blast
  moreover define g where "g = 4 + calcGreOptionSize flags"
  moreover have "h + g + 12 \<le> length (drop l2Len packet)" using assms(4) option_size(1) [of flags] by (simp add: g_def)
  ultimately show ?thesis using assms(2) by (simp add: DecapsulateErspan_def read_ok flip: g_def) (simp add: Let_def)
qed

lemma Tencent_ok:
  assumes "12 \<le> l2Len" "l2Len \<le> length packet" "44 \<le> length (drop l2Len packet)" "h + 28 \<le> length (drop l2Len packet)" "8 \<le> h"
  shows "DecapsulateTencentGre packet l2Len flags ty h t \<noteq> None"
proof (cases "flags AND 7 > 1 \<or> \<not> bit flags 13")
  case False
  obtain t' where s: "save_outer (26 - 14) (30 - 14) TUNNEL_TYPE_TENCENT_GRE (drop l2Len packet) packet t = Some t'" using outer_ok assms by blast
  have k: "h + gre_key_offset flags + 4 \<le> length (drop l2Len packet)" using assms(4) option_size(3) [of flags] by simp
  let ?off = "int (4 + calcGreOptionSize flags + h) - 14"
  have "fake_l2 ?off a b v4 l2Len packet \<noteq> None" for a b v4
  proof (rule fake_l2_ok [of ?off l2Len packet a b v4, THEN not_None_eq [THEN iffD2]])
    show "0 \<le> ?off" using assms(5) option_size(2) [of flags] False by simp
    show "int l2Len + ?off + 12 \<le> int (length packet)" using assms(2,4) option_size(1) [of flags] by simp
  qed
  then show ?thesis using False s k assms(2)
    by (simp add: DecapsulateTencentGre_def read_ok Let_def Option.bind_eq_None_conv del: not_None_eq)
qed (simp add: DecapsulateTencentGre_def)

lemma Teb_ok:
  assumes "12 \<le> l2Len" "l2Len \<le> length packet" "44 \<le> length (drop l2Len packet)" "h + 28 \<le> length (drop l2Len packet)"
  shows "DecapsulateTeb packet l2Len flags ty h t \<noteq> None"
proof -
  obtain t' where "save_outer (26 - 14) (30 - 14) TUNNEL_TYPE_ERSPAN_OR_TEB (drop l2Len packet) packet t = Some t'" using outer_ok assms by blast
  moreover have "h + gre_key_offset flags + 4 \<le> length (drop l2Len packet)" using assms(4) option_size(3) [of flags] by simp
  ultimately show ?thesis using assms(2) by (simp add: DecapsulateTeb_def read_ok Let_def)
qed

lemma IPIP_ok:
  assumes "12 \<le> l2Len" "l2Len \<le> length packet" "44 \<le> length (drop l2Len packet)"
    and "(if u then 40 else ihl (drop l2Len packet ! 0)) \<le> length (drop l2Len packet)"
  shows "DecapsulateIPIP packet l2Len u ov t \<noteq> None"
proof -
  let ?l3 = "drop l2Len packet"
  define h where "h = (if u then 40 else ihl (packet ! l2Len))"
  have h: "h + l2Len \<le> length packet" using assms(2,4) by (cases u) (simp_all add: h_def)
  have b: "byte_at ?l3 0 = Some (packet ! l2Len)" using assms(2,3) by (simp add: read_ok)
  obtain t1 where 1: "save_outer (26 - 14) (30 - 14) TUNNEL_TYPE_IPIP ?l3 packet t = Some t1" using outer_ok assms by blast
  obtain t2 where 2: "save_outer 20 36 TUNNEL_TYPE_IPIP ?l3 packet t = Some t2"
    using save_outer_ok [of 20 ?l3 36 packet TUNNEL_TYPE_IPIP t] assms by auto
  obtain q where q: "copy_at (int h) (take l2Len packet) packet = Some q" "length q = length packet"
    using copy_at_ok [of "int h" packet "take l2Len packet"] h by auto
  obtain q' where "put_be16_at (int h + int l2Len - 2) (if \<not> ov then 0x0800 else 0x86dd) q = Some q'"
    using put_be16_at_ok [of "int h + int l2Len - 2" q] assms(1) h q(2) by auto
  then show ?thesis unfolding DecapsulateIPIP_def read_ok(4) [OF assms(2)] b Option.bind.bind_lunit Let_def h_def [symmetric]
    using 1 2 q(1) by simp
qed

lemma Gre_ok:
  assumes "12 \<le> l2Len" "l2Len \<le> length packet" "44 \<le> length (drop l2Len packet)"
    and "8 \<le> ihl (packet ! l2Len)" "ihl (packet ! l2Len) + 28 \<le> length (drop l2Len packet)"
  shows "DecapsulateGre packet l2Len bm t \<noteq> None"
proof -
  have b: "byte_at (drop l2Len packet) 0 = Some (packet ! l2Len)" using assms(2,3) by (simp add: read_ok)
  obtain flags :: u16 and ty where r: "be_at 2 (drop l2Len packet) (ihl (packet ! l2Len) + 0) = Some flags"
    "le16_at (drop l2Len packet) (ihl (packet ! l2Len) + 2) = Some ty"
    using assms(5) by (simp add: read_ok)
  note ok = Erspan_ok [OF assms(1-3,5)] Tencent_ok [OF assms(1-3,5,4)] Teb_ok [OF assms(1-3,5)]
  show ?thesis
    unfolding DecapsulateGre_def read_ok(4) [OF assms(2)] b Option.bind.bind_lunit Let_def r
    by (simp only: ok option.simps simp_thms split: if_split)
qed

lemma Decapsulate_ok:
  assumes "12 \<le> l2Len" "l2Len \<le> length packet" "8 \<le> ihl (packet ! l2Len)" "ihl (packet ! l2Len) + 28 \<le> length packet - l2Len"
  shows "Decapsulate packet l2Len bm t \<noteq> None"
proof (cases "44 \<le> length (drop l2Len packet)")
  case True
  note ok = Vxlan_ok [OF assms(1,2) True] Gre_ok [OF assms(1,2) True] IPIP_ok [OF assms(1,2) True, of False]
  show ?thesis using ok assms True by (auto simp: Decapsulate_def read_ok simp del: not_None_eq)
next
  case False
  then show ?thesis using assms(2) by (simp add: Decapsulate_def read_ok)
qed

lemma Vxlan6_ok:
  assumes "12 \<le> l2Len" "l2Len \<le> length packet" "64 \<le> length (drop l2Len packet)"
  shows "Decapsulate6Vxlan packet l2Len t \<noteq> None"
proof -
  obtain t' where "save_outer 20 36 TUNNEL_TYPE_VXLAN (drop l2Len packet) packet t = Some t'"
    using save_outer_ok [of 20 "drop l2Len packet" 36 packet TUNNEL_TYPE_VXLAN t] assms by auto
  then show ?thesis using assms by (simp add: Decapsulate6Vxlan_def read_ok)
qed

lemma Decapsulate6_ok:
  assumes "12 \<le> l2Len" "l2Len \<le> length packet"
  shows "Decapsulate6 packet l2Len bm t \<noteq> None"
proof (cases "64 \<le> length (drop l2Len packet)")
  case True
  then have "44 \<le> length (drop l2Len packet)" by simp
  note ok = Vxlan6_ok [OF assms True] IPIP_ok [OF assms this, of True]
  show ?thesis using ok assms True by (auto simp: Decapsulate6_def read_ok simp del: not_None_eq)
next
  case False
  then show ?thesis using assms(2) by (simp add: Decapsulate6_def read_ok)
qed

section \<open>Properties\<close>

text \<open>C19: Removing the tunnel of a packet never indexes outside it, for IPv6 behind every link layer header of 12 bytes or
  more and whatever the packet holds, and for IPv4 when the IP header is at least 8 bytes long (a legal one has 20) and 28
  bytes follow it, the longest GRE and ERSPAN headers read there.\<close>

theorem decapsulate_safe:
  assumes "12 \<le> l2Len" "l2Len \<le> length packet"
  shows "Decapsulate6 packet l2Len bm t \<noteq> None \<and>
    (8 \<le> ihl (packet ! l2Len) \<and> ihl (packet ! l2Len) + 28 \<le> length packet - l2Len \<longrightarrow> Decapsulate packet l2Len bm t \<noteq> None)"
  using Decapsulate6_ok [OF assms] Decapsulate_ok [OF assms] by blast

definition no_tunnel :: TunnelInfo where
  "no_tunnel = \<lparr>ti_Src = 0, ti_Dst = 0, ti_MacSrc = 0, ti_MacDst = 0, ti_Id = 0, ti_Type = 0, ti_Tier = 0, ti_IsIPv6 = False\<rparr>"

theorem decapsulate_safe_witness:
  "Decapsulate6 (replicate 14 0) 14 30 no_tunnel \<noteq> None \<and>
   Decapsulate (replicate 14 0 @ 0x45 # replicate 47 0) 14 30 no_tunnel \<noteq> None"
  using decapsulate_safe [of 14 "replicate 14 0" 30 no_tunnel]
    decapsulate_safe [of 14 "replicate 14 0 @ 0x45 # replicate 47 0" 30 no_tunnel]
  by (simp add: nth_append ihl_bounds(2))

text \<open>C38: The length test of IPv4 decapsulation, 44 bytes of network layer, does not prevent that. Every GRE packet that passes it
  makes the code index past its end when fewer than 4 bytes follow the IP header, and also when an ERSPAN type III header is
  announced, that tunnel is wanted, and fewer than 12 bytes follow the IP header and the GRE header with its options.
  The first needs a long IP header, the second happens behind an ordinary one of 20 bytes.\<close>

theorem decapsulate_overruns_guard:
  assumes "\<not> Bitmap_IsEmpty bm" "ti_Tier t \<noteq> 2" "l2Len \<le> length packet" "44 \<le> length packet - l2Len" "packet ! (l2Len + 9) = 47"
    and "h = ihl (packet ! l2Len)" "gre = drop (l2Len + h) packet"
    and "length gre < 4 \<or> Bitmap_Has bm TUNNEL_TYPE_ERSPAN_OR_TEB \<and> take 2 (drop 2 gre) = [0x22, 0xeb] \<and>
      length gre < 4 + calcGreOptionSize (get_be (take 2 gre)) + 12"
  shows "Decapsulate packet l2Len bm t = None"
proof -
  let ?l3 = "drop l2Len packet"
  have b: "byte_at ?l3 0 = Some (packet ! l2Len)" "byte_at ?l3 (23 - 14) = Some 47" "l3_of l2Len packet = Some ?l3"
    using assms(3,4,5) by (simp_all add: byte_at_def l3_of_def)
  have "DecapsulateGre packet l2Len bm t = None"
  proof (cases "length gre < 4")
    case True
    then have "le16_at ?l3 (h + 2) = None" using assms(3,7) by (simp add: le16_at_def)
    then show ?thesis by (simp add: DecapsulateGre_def b Let_def assms(6) [symmetric] split: bind_split)
  next
    case False
    with assms(8) have e: "Bitmap_Has bm TUNNEL_TYPE_ERSPAN_OR_TEB" "take 2 (drop 2 gre) = [0x22, 0xeb]"
      "length gre < 4 + calcGreOptionSize (get_be (take 2 gre)) + 12" by auto
    have n: "h + 4 \<le> length ?l3" using False assms(7) by simp
    have g: "drop h ?l3 = gre" "drop (h + 2) ?l3 = drop 2 gre" by (simp_all add: assms(7) ac_simps)
    have ty: "be_at 2 ?l3 (h + 0) = Some (get_be (take 2 gre) :: u16)" "le16_at ?l3 (h + 2) = Some 0xEB22"
      using n e(2) by (simp_all only: read_ok add_0_right g get_le.simps) simp_all
    have "byte_at ?l3 (h + (4 + calcGreOptionSize (get_be (take 2 gre))) + 11) = None"
      using e(3) assms(7) by (simp add: byte_at_def)
    then have "DecapsulateErspan packet l2Len (get_be (take 2 gre)) 0xEB22 h t = None"
      by (simp add: DecapsulateErspan_def b Let_def split: bind_split)
    then show ?thesis using e(1) ty by (simp add: DecapsulateGre_def b Let_def assms(6) [symmetric])
  qed
  then show ?thesis using assms(1,2,4) b by (simp add: Decapsulate_def TUNNEL_TIER_LIMIT_def)
qed

theorem decapsulate_overruns_guard_witness:
  "Decapsulate (replicate 14 0 @ [0x4f, 0, 0, 0, 0, 0, 0, 0, 0, 47] @ replicate 34 0) 14 16 no_tunnel = None \<and>
   Decapsulate (replicate 14 0 @ [0x45, 0, 0, 0, 0, 0, 0, 0, 0, 47] @ replicate 10 0 @ [0xb0, 0, 0x22, 0xeb] @ replicate 20 0) 14 16 no_tunnel = None"
proof (rule conjI)
  show "Decapsulate (replicate 14 0 @ [0x4f, 0, 0, 0, 0, 0, 0, 0, 0, 47] @ replicate 34 0) 14 16 no_tunnel = None"
    by (rule decapsulate_overruns_guard [OF _ _ _ _ _ refl refl]) code_simp+
  show "Decapsulate (replicate 14 0 @ [0x45, 0, 0, 0, 0, 0, 0, 0, 0, 47] @ replicate 10 0 @ [0xb0, 0, 0x22, 0xeb] @ replicate 20 0) 14 16 no_tunnel = None"
    by (rule decapsulate_overruns_guard [OF _ _ _ _ _ refl refl]) code_simp+
qed

text \<open>C31: One call strips at most one tunnel: it leaves packet and tunnel record alone, or counts one more tier and either
  records the outermost tunnel or keeps what was recorded of it. The length of the packet never changes, a tier of two
  stays, so repeated calls stop, and the tier never passes two.\<close>

theorem decapsulate_outermost:
  assumes "Decapsulate packet l2Len bm t = Some (off, p, t') \<or> Decapsulate6 packet l2Len bm t = Some (off, p, t')" "ti_Tier t \<le> 2"
  shows "length p = length packet \<and> ti_Tier t' \<le> 2 \<and>
    (off = 0 \<and> p = packet \<and> t' = t \<or>
     ti_Tier t < 2 \<and> ti_Tier t' = ti_Tier t + 1 \<and>
     (if ti_Tier t = 0 then TunnelInfo_Valid t' else t' = t\<lparr>ti_Tier := ti_Tier t + 1\<rparr>))"
proof -
  have o: "one_tier packet t (off, p, t')" using assms(1) Decapsulate_one_tier by blast
  have two: "ti_Tier t = 2 \<Longrightarrow> off = 0 \<and> p = packet \<and> t' = t" using assms(1) tier_kept [of t packet l2Len bm] by auto
  have "ti_Tier t < 2 \<or> ti_Tier t = 2" using assms(2) by auto
  moreover have "x + 1 \<le> 2" if "x < 2" for x :: u8 using that by (simp add: word_less_nat_alt word_le_nat_alt unat_word_ariths)
  ultimately have "length p = length packet \<and> ti_Tier t' \<le> 2" using o two assms(2) by (auto simp: one_tier_def)
  moreover have "off = 0 \<and> p = packet \<and> t' = t \<or> ti_Tier t < 2 \<and> ti_Tier t' = ti_Tier t + 1 \<and>
      (if ti_Tier t = 0 then TunnelInfo_Valid t' else t' = t\<lparr>ti_Tier := ti_Tier t + 1\<rparr>)"
    using o two \<open>ti_Tier t < 2 \<or> ti_Tier t = 2\<close> by (auto simp: one_tier_def TunnelInfo_Valid_def next_tier_def)
  ultimately show ?thesis by blast
qed

theorem decapsulate_outermost_witness:
  "\<exists>p t'. Decapsulate (replicate 14 0 @ 0x45 # replicate 8 0 @ 4 # replicate 34 1) 14 4 no_tunnel = Some (6, p, t') \<and>
     length p = 58 \<and> ti_Tier t' = 1 \<and> TunnelInfo_Valid t'"
proof -
  let ?p = "replicate 14 0 @ 0x45 # replicate 8 0 @ 4 # replicate 34 1 :: bytes"
  have "map_option fst (Decapsulate ?p 14 4 no_tunnel) = Some 6" by code_simp
  then obtain p t' where r: "Decapsulate ?p 14 4 no_tunnel = Some (6, p, t')" by auto
  have z: "ti_Tier no_tunnel = 0" by (simp add: no_tunnel_def)
  from decapsulate_outermost [of ?p 14 4 no_tunnel 6 p t'] r z
  have "length p = 58 \<and> ti_Tier t' = 1 \<and> TunnelInfo_Valid t'" by simp
  with r show ?thesis by blast
qed

end
