(* ===== verification/Tap_Port.thy ===== *)
theory Tap_Port
  imports Policy_Data Meter_Spec Decapsulate
begin

text \<open>
  The capture port of \<^verbatim>\<open>datatype/tap_port.go\<close>, a word with the origin in its four high bits, a reserved part, the tunnel
  type and the address. The names of the tunnel types are those of \<^verbatim>\<open>datatype/decapsulate.go\<close>.
\<close>

unbundle bit_operations_syntax

definition TAPPORT_FROM_LOCAL_MAC :: u64 where "TAPPORT_FROM_LOCAL_MAC = 0"
definition TAPPORT_FROM_GATEWAY_MAC :: u64 where "TAPPORT_FROM_GATEWAY_MAC = 1"
definition TAPPORT_FROM_TUNNEL_IPV4 :: u64 where "TAPPORT_FROM_TUNNEL_IPV4 = 2"
definition TAPPORT_FROM_TUNNEL_IPV6 :: u64 where "TAPPORT_FROM_TUNNEL_IPV6 = 3"
definition TAPPORT_FROM_ID :: u64 where "TAPPORT_FROM_ID = 4"
definition TAPPORT_FROM_NETFLOW :: u64 where "TAPPORT_FROM_NETFLOW = 5"
definition TAPPORT_FROM_SFLOW :: u64 where "TAPPORT_FROM_SFLOW = 6"
definition TAPPORT_FROM_EBPF :: u64 where "TAPPORT_FROM_EBPF = 7"
definition TAPPORT_FROM_OTEL :: u64 where "TAPPORT_FROM_OTEL = 8"

lemmas tapport_from_defs = TAPPORT_FROM_LOCAL_MAC_def TAPPORT_FROM_GATEWAY_MAC_def TAPPORT_FROM_TUNNEL_IPV4_def
  TAPPORT_FROM_TUNNEL_IPV6_def TAPPORT_FROM_ID_def TAPPORT_FROM_NETFLOW_def TAPPORT_FROM_SFLOW_def
  TAPPORT_FROM_EBPF_def TAPPORT_FROM_OTEL_def

definition FromLocalMAC :: "u8 \<Rightarrow> u32 \<Rightarrow> u64" where
  "FromLocalMAC tunnelType mac = ucast mac OR push_bit 32 (ucast tunnelType) OR push_bit 60 TAPPORT_FROM_LOCAL_MAC"

definition FromNetFlow :: "u32 \<Rightarrow> u64" where
  "FromNetFlow mac = ucast mac OR push_bit 60 TAPPORT_FROM_NETFLOW"

definition FromSFlow :: "u32 \<Rightarrow> u64" where
  "FromSFlow mac = ucast mac OR push_bit 60 TAPPORT_FROM_SFLOW"

definition FromGatewayMAC :: "u8 \<Rightarrow> u32 \<Rightarrow> u64" where
  "FromGatewayMAC tunnelType mac = ucast mac OR push_bit 32 (ucast tunnelType) OR push_bit 60 TAPPORT_FROM_GATEWAY_MAC"

definition FromTunnelIP :: "u32 \<Rightarrow> bool \<Rightarrow> u64" where
  "FromTunnelIP ip isIPv6 = ucast ip OR push_bit 60 (if \<not> isIPv6 then TAPPORT_FROM_TUNNEL_IPV4 else TAPPORT_FROM_TUNNEL_IPV6)"

text \<open>The identifier is a Go \<^verbatim>\<open>int\<close>; nothing keeps it below 32 bits.\<close>

definition FromID :: "u8 \<Rightarrow> i64 \<Rightarrow> u64" where
  "FromID tunnelType i = i OR push_bit 32 (ucast tunnelType) OR push_bit 60 TAPPORT_FROM_ID"

definition SplitToPortTypeTunnel :: "u64 \<Rightarrow> u32 \<times> u8 \<times> u8" where
  "SplitToPortTypeTunnel p = (ucast p, ucast (drop_bit 60 p), ucast (drop_bit 32 p))"

definition SetU16IntoReservedBytes :: "u16 \<Rightarrow> u64 \<Rightarrow> u64" where
  "SetU16IntoReservedBytes v p = p OR push_bit 40 (ucast v)"

section \<open>Text\<close>

text \<open>Hexadecimal digits, and the verb \<^verbatim>\<open>%0nx\<close>.\<close>

fun hexdigits :: "nat \<Rightarrow> bytes" where
  "hexdigits n = (let d = n mod 16; c = (if d < 10 then of_nat (48 + d) else of_nat (87 + d))
     in if n < 16 then [c] else hexdigits (n div 16) @ [c])"

declare hexdigits.simps [simp del]

definition hex_padded :: "nat \<Rightarrow> nat \<Rightarrow> bytes" where
  "hex_padded w n = replicate (w - length (hexdigits n)) 48 @ hexdigits n"

definition tunnelTypeTips :: "bytes list" where
  "tunnelTypeTips = [str ''none'', str ''VXLAN'', str ''IPIP'', str ''GRE'', str ''ERSPAN_TEB'']"

definition TunnelType_String :: "u8 \<Rightarrow> bytes option" where
  "TunnelType_String t = (if unat t < length tunnelTypeTips then Some (tunnelTypeTips ! unat t) else None)"

text \<open>The verb \<^verbatim>\<open>%s\<close> calls the method and prints its panic, an index out of range, instead of failing.\<close>

definition TunnelType_s :: "u8 \<Rightarrow> bytes" where
  "TunnelType_s t = (case TunnelType_String t of
     Some s \<Rightarrow> s
   | None \<Rightarrow> str ''%!s(PANIC=String method: runtime error: index out of range ['' @ decimal (unat t) @ str ''] with length '' @
       decimal (length tunnelTypeTips) @ str '')'')"

definition mac_text :: "u32 \<Rightarrow> bytes" where
  "mac_text p = Join [58] (map (\<lambda>k. hex_padded 2 (unat (ucast (drop_bit k p) :: u8))) [24, 16, 8, 0])"

definition ipv4_text :: "u32 \<Rightarrow> bytes" where
  "ipv4_text p = Join [46] (map (\<lambda>b. decimal (unat b)) (IpFromUint32 p))"

definition Bitmap_String :: "u16 \<Rightarrow> bytes" where
  "Bitmap_String b = concat (map (\<lambda>i. if Bitmap_Has b (of_nat i) then tunnelTypeTips ! i else []) [0..<unat TUNNEL_TYPE_ERSPAN_OR_TEB + 1])"

definition TunnelInfo_String :: "TunnelInfo \<Rightarrow> bytes" where
  "TunnelInfo_String t = str ''type: '' @ TunnelType_s (ti_Type t) @
     str '', src: '' @ ipv4_text (ti_Src t) @ str '' '' @ hex_padded 8 (unat (ti_MacSrc t)) @
     str '', dst: '' @ ipv4_text (ti_Dst t) @ str '' '' @ hex_padded 8 (unat (ti_MacDst t)) @
     str '', id: '' @ decimal (unat (ti_Id t)) @ str '', tier: '' @ decimal (unat (ti_Tier t))"

text \<open>\<open>None\<close> is the panic of an origin without a text.\<close>

definition TapPort_String :: "u64 \<Rightarrow> bytes option" where
  "TapPort_String p =
     (let (tapPort, tapPortType, tunnelType) = SplitToPortTypeTunnel p; ty = ucast tapPortType in
      if ty = TAPPORT_FROM_LOCAL_MAC then Some (str ''LMAC@'' @ TunnelType_s tunnelType @ str ''@'' @ mac_text tapPort)
      else if ty = TAPPORT_FROM_GATEWAY_MAC then Some (str ''GMAC@'' @ TunnelType_s tunnelType @ str ''@'' @ mac_text tapPort)
      else if ty = TAPPORT_FROM_TUNNEL_IPV4 then Some (str ''IPv4@'' @ ipv4_text tapPort)
      else if ty = TAPPORT_FROM_TUNNEL_IPV6 then Some (str ''IPv6@0x'' @ hex_padded 8 (unat tapPort))
      else if ty = TAPPORT_FROM_ID then Some (str ''ID@'' @ TunnelType_s tunnelType @ str ''@'' @ decimal (unat tapPort))
      else if ty = TAPPORT_FROM_NETFLOW then Some (str ''NetFlow@'' @ decimal (unat tapPort))
      else if ty = TAPPORT_FROM_SFLOW then Some (str ''SFlow@'' @ decimal (unat tapPort))
      else None)"

section \<open>Laws\<close>

text \<open>A port built from an origin below 16, a tunnel type and an address of 32 bits.\<close>

definition port_of :: "u64 \<Rightarrow> u8 \<Rightarrow> u32 \<Rightarrow> u64" where
  "port_of from tunnelType a = ucast a OR push_bit 32 (ucast tunnelType) OR push_bit 60 from"

lemma bit_port_of:
  "bit (port_of from tt a) n \<longleftrightarrow> n < 32 \<and> bit a n \<or> 32 \<le> n \<and> n < 40 \<and> bit tt (n - 32) \<or> 60 \<le> n \<and> n < 64 \<and> bit from (n - 60)"
  by (auto simp: port_of_def bit_or_iff bit_push_bit_iff bit_unsigned_iff dest: bit_imp_le_length)

lemma split_port_of:
  assumes "from < 16"
  shows "SplitToPortTypeTunnel (port_of from tt a) = (a, ucast from, tt)"
proof -
  have lo: "n < 4" if "bit from n" for n
  proof -
    have "take_bit 4 from = from" using assms by (simp add: take_bit_eq_self_unat word_less_nat_alt)
    then show ?thesis using that by (metis bit_take_bit_iff)
  qed
  have "ucast (port_of from tt a) = a"
    by (rule bit_word_eqI) (simp add: bit_unsigned_iff bit_port_of)
  moreover have "ucast (drop_bit 60 (port_of from tt a)) = (ucast from :: u8)"
    by (rule bit_word_eqI) (use lo in \<open>auto simp: bit_unsigned_iff bit_drop_bit_eq bit_port_of\<close>)
  moreover have "ucast (drop_bit 32 (port_of from tt a)) = tt"
    by (rule bit_word_eqI) (auto simp: bit_unsigned_iff bit_drop_bit_eq bit_port_of)
  ultimately show ?thesis by (simp add: SplitToPortTypeTunnel_def)
qed

lemma from_port_of:
  "FromLocalMAC tt a = port_of 0 tt a" "FromGatewayMAC tt a = port_of 1 tt a" "FromNetFlow a = port_of 5 0 a" "FromSFlow a = port_of 6 0 a"
  "FromTunnelIP a v6 = port_of (if v6 then 3 else 2) 0 a"
  by (simp_all add: FromLocalMAC_def FromGatewayMAC_def FromNetFlow_def FromSFlow_def FromTunnelIP_def port_of_def tapport_from_defs)

lemma FromID_port_of: "unat i < 2 ^ 32 \<Longrightarrow> FromID tt i = port_of 4 tt (ucast i)"
proof -
  assume "unat i < 2 ^ 32"
  then have "ucast (ucast i :: u32) = i" by (simp add: word_unat_eq_iff unsigned_ucast_eq unsigned_take_bit_eq take_bit_nat_eq_self)
  then show ?thesis by (simp add: FromID_def port_of_def tapport_from_defs)
qed

lemma no_bit_20: "\<not> bit (v :: u16) (20 + n)"
  by (auto dest: bit_imp_le_length)

lemma split_reserved: "SplitToPortTypeTunnel (SetU16IntoReservedBytes v p) = SplitToPortTypeTunnel p"
  by (auto simp: SplitToPortTypeTunnel_def SetU16IntoReservedBytes_def bit_unsigned_iff bit_or_iff bit_push_bit_iff bit_drop_bit_eq no_bit_20
      intro!: bit_word_eqI dest: bit_imp_le_length)

text \<open>The text exists exactly for the origins up to sFlow, whatever the other bits are.\<close>

lemma TapPort_String_iff: "TapPort_String p \<noteq> None \<longleftrightarrow> drop_bit 60 p < 7"
proof -
  let ?o = "drop_bit 60 p"
  have "unat p < 2 ^ 64" using unsigned_less [of p, where 'a = nat] by simp
  then have "?o < 16" unfolding word_less_nat_alt unsigned_drop_bit_eq by (simp add: take_bit_nat_eq_self drop_bit_nat_def div_less_iff_less_mult)
  then have "ucast (ucast ?o :: u8) = ?o"
    by (simp add: word_unat_eq_iff unsigned_ucast_eq unsigned_take_bit_eq word_less_nat_alt take_bit_nat_eq_self)
  moreover have "x < 7 \<longleftrightarrow> x = 0 \<or> x = 1 \<or> x = 2 \<or> x = 3 \<or> x = 4 \<or> x = 5 \<or> x = 6" for x :: u64
    by (auto simp: word_less_nat_alt word_unat_eq_iff)
  ultimately show ?thesis by (simp add: TapPort_String_def SplitToPortTypeTunnel_def Let_def tapport_from_defs)
qed

section \<open>Properties\<close>

text \<open>Splitting a capture port gives back the address, the origin and the tunnel type it was built from, for every
  constructor, an identifier of 32 bits, and whatever is stored in the reserved bits.\<close>

theorem tap_port_round_trip:
  "unat i < 2 ^ 32 \<Longrightarrow>
   (\<forall>v. map (\<lambda>p. SplitToPortTypeTunnel (SetU16IntoReservedBytes v p))
      [FromLocalMAC tt a, FromGatewayMAC tt a, FromTunnelIP a v6, FromID tt i, FromNetFlow a, FromSFlow a] =
      [(a, 0, tt), (a, 1, tt), (a, if v6 then 3 else 2, 0), (ucast i, 4, tt), (a, 5, 0), (a, 6, 0)])"
  by (simp add: split_reserved from_port_of FromID_port_of split_port_of)

theorem tap_port_round_trip_witness:
  "SplitToPortTypeTunnel (SetU16IntoReservedBytes 0xffff (FromID 3 77)) = (77, 4, 3)"
  using tap_port_round_trip [of 77 3 0 False] by simp

end
