(* ===== verification/Doc_Tag.thy ===== *)
theory Doc_Tag
  imports Meter Stats_Message Tap_Port
begin

text \<open>
  The tags of \<^verbatim>\<open>zerodoc/tag.go\<close>: which fields a tag has (\<^verbatim>\<open>Code\<close>), the tables they select, the columns of those tables
  and the row of a tag. The fields of the two ends of a path, which the source tells apart by a final \<^verbatim>\<open>1\<close>, are one
  record used twice. An address that is nil is the empty list.
\<close>

unbundle bit_operations_syntax

section \<open>Codes\<close>

datatype CodeBit =
    IP | L3EpcID | L3Device | SubnetID | RegionID | PodNodeID | HostID | AZID | PodGroupID | PodNSID | PodID | MAC | PodClusterID | ServiceID | Resource
  | IPPath | L3EpcIDPath | L3DevicePath | SubnetIDPath | RegionIDPath | PodNodeIDPath | HostIDPath | AZIDPath | PodGroupIDPath | PodNSIDPath | PodIDPath | MACPath | PodClusterIDPath | ServiceIDPath | ResourcePath
  | Direction | ACLGID | Protocol | ServerPort | TAPType | VTAPID | TAPSide | TAPPort | IsKeyService | L7Protocol | TagType | TagValue

fun code_shift :: "CodeBit \<Rightarrow> nat" where
  "code_shift IP = 0"
| "code_shift L3EpcID = 1"
| "code_shift L3Device = 2"
| "code_shift SubnetID = 3"
| "code_shift RegionID = 4"
| "code_shift PodNodeID = 5"
| "code_shift HostID = 6"
| "code_shift AZID = 7"
| "code_shift PodGroupID = 8"
| "code_shift PodNSID = 9"
| "code_shift PodID = 10"
| "code_shift MAC = 11"
| "code_shift PodClusterID = 12"
| "code_shift ServiceID = 13"
| "code_shift Resource = 14"
| "code_shift IPPath = 20"
| "code_shift L3EpcIDPath = 21"
| "code_shift L3DevicePath = 22"
| "code_shift SubnetIDPath = 23"
| "code_shift RegionIDPath = 24"
| "code_shift PodNodeIDPath = 25"
| "code_shift HostIDPath = 26"
| "code_shift AZIDPath = 27"
| "code_shift PodGroupIDPath = 28"
| "code_shift PodNSIDPath = 29"
| "code_shift PodIDPath = 30"
| "code_shift MACPath = 31"
| "code_shift PodClusterIDPath = 32"
| "code_shift ServiceIDPath = 33"
| "code_shift ResourcePath = 34"
| "code_shift Direction = 40"
| "code_shift ACLGID = 41"
| "code_shift Protocol = 42"
| "code_shift ServerPort = 43"
| "code_shift TAPType = 45"
| "code_shift VTAPID = 47"
| "code_shift TAPSide = 48"
| "code_shift TAPPort = 49"
| "code_shift IsKeyService = 50"
| "code_shift L7Protocol = 51"
| "code_shift TagType = 62"
| "code_shift TagValue = 63"

definition Code :: "CodeBit \<Rightarrow> u64" where
  "Code k = push_bit (code_shift k) 1"

text \<open>\<^verbatim>\<open>code & k != 0\<close>, and the codes of several fields together.\<close>

definition has :: "u64 \<Rightarrow> CodeBit \<Rightarrow> bool" where
  "has code k \<longleftrightarrow> code AND Code k \<noteq> 0"

definition codes :: "CodeBit list \<Rightarrow> u64" where
  "codes ks = fold (\<lambda>k c. c OR Code k) ks 0"

definition HasEdgeTagField :: "u64 \<Rightarrow> bool" where
  "HasEdgeTagField c \<longleftrightarrow> c AND 0xfffff00000 \<noteq> 0"

section \<open>Directions and capture sides\<close>

definition NodeSide :: u8 where "NodeSide = 8"
definition HypervisorSide :: u8 where "HypervisorSide = 16"
definition GatewayHypervisorSide :: u8 where "GatewayHypervisorSide = 24"
definition GatewaySide :: u8 where "GatewaySide = 32"
definition ProcessSide :: u8 where "ProcessSide = 40"

definition ClientToServer :: u8 where "ClientToServer = 1"
definition ServerToClient :: u8 where "ServerToClient = 2"
definition LocalToLocal :: u8 where "LocalToLocal = 4"

definition IsClientToServer :: "u8 \<Rightarrow> bool" where
  "IsClientToServer d \<longleftrightarrow> d AND 7 = ClientToServer"

definition IsServerToClient :: "u8 \<Rightarrow> bool" where
  "IsServerToClient d \<longleftrightarrow> d AND 7 = ServerToClient"

definition IsGateway :: "u8 \<Rightarrow> bool" where
  "IsGateway d \<longleftrightarrow> (d AND 0xf8) AND (GatewaySide OR GatewayHypervisorSide) \<noteq> 0"

definition ToTAPSide :: "u8 \<Rightarrow> u8" where
  "ToTAPSide d = d"

text \<open>The names of the capture sides; the indexes between them hold empty strings.\<close>

definition TAPSideEnumsString :: "bytes list" where
  "TAPSideEnumsString =
     fold (\<lambda>(i, s) xs. xs[i := str s])
       [(0, ''rest''), (1, ''c''), (2, ''s''), (4, ''local''), (9, ''c-nd''), (10, ''s-nd''), (17, ''c-hv''), (18, ''s-hv''),
        (25, ''c-gw-hv''), (26, ''s-gw-hv''), (33, ''c-gw''), (34, ''s-gw''), (41, ''c-p''), (42, ''s-p'')]
       (replicate 43 [])"

definition TAPSide_String :: "u8 \<Rightarrow> bytes option" where
  "TAPSide_String s = (if unat s < length TAPSideEnumsString then Some (TAPSideEnumsString ! unat s) else None)"

definition TAG_TYPE_TUNNEL_IP_ID :: u8 where "TAG_TYPE_TUNNEL_IP_ID = 4"

section \<open>Fields and tags\<close>

record FieldSide =
  tf_IP6 :: bytes
  tf_MAC :: u64
  tf_IP :: u32
  tf_L3EpcID :: i16
  tf_L3DeviceID :: u32
  tf_L3DeviceType :: u8
  tf_RegionID :: u16
  tf_SubnetID :: u16
  tf_HostID :: u16
  tf_PodNodeID :: u32
  tf_AZID :: u16
  tf_PodGroupID :: u32
  tf_PodNSID :: u16
  tf_PodID :: u32
  tf_PodClusterID :: u16
  tf_ServiceID :: u32
  tf_ResourceGl0ID :: u32
  tf_ResourceGl0Type :: u8
  tf_ResourceGl1ID :: u32
  tf_ResourceGl1Type :: u8
  tf_ResourceGl2ID :: u32
  tf_ResourceGl2Type :: u8

record zFieldRest =
  tf_GlobalThreadID :: u8
  tf_ACLGID :: u16
  tf_Direction :: u8
  tf_Protocol :: u8
  tf_ServerPort :: u16
  tf_VTAPID :: u16
  tf_TAPPort :: u64
  tf_TAPSide :: u8
  tf_TAPType :: u8
  tf_IsIPv6 :: u8
  tf_IsKeyService :: u8
  tf_L7Protocol :: u8
  tf_TagType :: u8
  tf_TagValue :: u16

record zField = zFieldRest +
  side0 :: FieldSide
  side1 :: FieldSide

record zTag =
  tag_Field :: zField
  tag_Code :: u64
  tag_id :: bytes

section \<open>Columns\<close>

definition opt :: "bool \<Rightarrow> 'a list \<Rightarrow> 'a list" where
  "opt c xs = (if c then xs else [])"

text \<open>The comments are an argument, by the name of the column.\<close>

definition tcol :: "(string \<Rightarrow> bytes) \<Rightarrow> string \<Rightarrow> ColumnType \<Rightarrow> Column" where
  "tcol cm n t = SetComment (cm n) (NewColumnWithGroupBy (str n) t)"

definition tag_columns_head :: "(string \<Rightarrow> bytes) \<Rightarrow> u64 \<Rightarrow> Column list" where
  "tag_columns_head cm code =
     [NewColumnWithGroupBy (str ''time'') CT_DateTime, SetIndex IndexNone (SetComment (cm ''_tid'') (NewColumn (str ''_tid'') CT_UInt8))]
     @ opt (has code ACLGID) [tcol cm ''acl_gid'' CT_UInt16]
     @ opt (has code AZID) [tcol cm ''az_id'' CT_UInt16]
     @ opt (has code AZIDPath) [tcol cm ''az_id_0'' CT_UInt16, tcol cm ''az_id_1'' CT_UInt16]
     @ opt (has code Direction) [tcol cm ''direction'' CT_LowCardinalityString]
     @ opt (has code HostID) [tcol cm ''host_id'' CT_UInt16]
     @ opt (has code HostIDPath) [tcol cm ''host_id_0'' CT_UInt16, tcol cm ''host_id_1'' CT_UInt16]
     @ opt (has code IP) [tcol cm ''ip4'' CT_IPv4, tcol cm ''ip6'' CT_IPv6, SetComment (cm ''is_ipv4'') (SetIndex IndexMinmax (NewColumnWithGroupBy (str ''is_ipv4'') CT_UInt8))]
     @ opt (has code IPPath) [NewColumnWithGroupBy (str ''ip4_0'') CT_IPv4, NewColumnWithGroupBy (str ''ip4_1'') CT_IPv4,
       NewColumnWithGroupBy (str ''ip6_0'') CT_IPv6, NewColumnWithGroupBy (str ''ip6_1'') CT_IPv6,
       SetIndex IndexMinmax (NewColumnWithGroupBy (str ''is_ipv4'') CT_UInt8)]"

definition tag_columns_mid :: "(string \<Rightarrow> bytes) \<Rightarrow> u64 \<Rightarrow> Column list" where
  "tag_columns_mid cm code =
     opt (has code IsKeyService) [SetIndex IndexMinmax (tcol cm ''is_key_service'' CT_UInt8)]
     @ opt (has code L3Device) [tcol cm ''l3_device_id'' CT_UInt32, tcol cm ''l3_device_type'' CT_UInt8]
     @ opt (has code L3DevicePath) [tcol cm ''l3_device_id_0'' CT_UInt32, tcol cm ''l3_device_id_1'' CT_UInt32, tcol cm ''l3_device_type_0'' CT_UInt8, tcol cm ''l3_device_type_1'' CT_UInt8]
     @ opt (has code L3EpcID) [tcol cm ''l3_epc_id'' CT_Int32]
     @ opt (has code L3EpcIDPath) [tcol cm ''l3_epc_id_0'' CT_Int32, tcol cm ''l3_epc_id_1'' CT_Int32]
     @ opt (has code L7Protocol) [tcol cm ''l7_protocol'' CT_UInt8]
     @ opt (has code PodClusterID) [tcol cm ''pod_cluster_id'' CT_UInt16]
     @ opt (has code PodClusterIDPath) [tcol cm ''pod_cluster_id_0'' CT_UInt16, tcol cm ''pod_cluster_id_1'' CT_UInt16]
     @ opt (has code PodGroupID) [tcol cm ''pod_group_id'' CT_UInt32]
     @ opt (has code PodGroupIDPath) [tcol cm ''pod_group_id_0'' CT_UInt32, tcol cm ''pod_group_id_1'' CT_UInt32]
     @ opt (has code PodID) [tcol cm ''pod_id'' CT_UInt32]
     @ opt (has code PodIDPath) [tcol cm ''pod_id_0'' CT_UInt32, tcol cm ''pod_id_1'' CT_UInt32]
     @ opt (has code PodNodeID) [tcol cm ''pod_node_id'' CT_UInt32]
     @ opt (has code PodNodeIDPath) [tcol cm ''pod_node_id_0'' CT_UInt32, tcol cm ''pod_node_id_1'' CT_UInt32]
     @ opt (has code PodNSID) [tcol cm ''pod_ns_id'' CT_UInt16]
     @ opt (has code PodNSIDPath) [tcol cm ''pod_ns_id_0'' CT_UInt16, tcol cm ''pod_ns_id_1'' CT_UInt16]
     @ opt (has code Protocol) [tcol cm ''protocol'' CT_UInt8]
     @ opt (has code RegionID) [tcol cm ''region_id'' CT_UInt16]
     @ opt (has code RegionIDPath) [tcol cm ''region_id_0'' CT_UInt16, tcol cm ''region_id_1'' CT_UInt16]"

definition tag_columns_tail :: "(string \<Rightarrow> bytes) \<Rightarrow> u64 \<Rightarrow> Column list" where
  "tag_columns_tail cm code =
     opt (has code Resource) [tcol cm ''resource_gl0_id'' CT_UInt32, tcol cm ''resource_gl0_type'' CT_UInt8, tcol cm ''resource_gl1_id'' CT_UInt32, tcol cm ''resource_gl1_type'' CT_UInt8, tcol cm ''resource_gl2_id'' CT_UInt32, tcol cm ''resource_gl2_type'' CT_UInt8]
     @ opt (has code ResourcePath) [tcol cm ''resource_gl0_id_0'' CT_UInt32, tcol cm ''resource_gl0_type_0'' CT_UInt8, tcol cm ''resource_gl1_id_0'' CT_UInt32, tcol cm ''resource_gl1_type_0'' CT_UInt8, tcol cm ''resource_gl2_id_0'' CT_UInt32, tcol cm ''resource_gl2_type_0'' CT_UInt8, tcol cm ''resource_gl0_id_1'' CT_UInt32, tcol cm ''resource_gl0_type_1'' CT_UInt8, tcol cm ''resource_gl1_id_1'' CT_UInt32, tcol cm ''resource_gl1_type_1'' CT_UInt8, tcol cm ''resource_gl2_id_1'' CT_UInt32, tcol cm ''resource_gl2_type_1'' CT_UInt8]
     @ opt (has code ServiceID) [tcol cm ''service_id'' CT_UInt32]
     @ opt (has code ServiceIDPath) [tcol cm ''service_id_0'' CT_UInt32, tcol cm ''service_id_1'' CT_UInt32]
     @ opt (has code ServerPort) [SetComment (cm ''server_port'') (SetIndex IndexSet (NewColumnWithGroupBy (str ''server_port'') CT_UInt16))]
     @ opt (has code SubnetID) [tcol cm ''subnet_id'' CT_UInt16]
     @ opt (has code SubnetIDPath) [tcol cm ''subnet_id_0'' CT_UInt16, tcol cm ''subnet_id_1'' CT_UInt16]
     @ opt (has code TagType \<and> has code TagValue) [tcol cm ''tag_type'' CT_UInt8, tcol cm ''tag_value'' CT_LowCardinalityString]
     @ opt (has code TAPPort) [SetComment (cm ''tap_port_type'') (SetIndex IndexNone (NewColumnWithGroupBy (str ''tap_port_type'') CT_UInt8)),
       SetComment (cm ''tunnel_type'') (SetIndex IndexNone (NewColumnWithGroupBy (str ''tunnel_type'') CT_UInt8)),
       SetComment (cm ''tap_port'') (SetIndex IndexNone (NewColumnWithGroupBy (str ''tap_port'') CT_UInt32))]
     @ opt (has code TAPSide) [tcol cm ''tap_side'' CT_LowCardinalityString]
     @ opt (has code TAPType) [tcol cm ''tap_type'' CT_UInt8]
     @ opt (has code VTAPID) [tcol cm ''vtap_id'' CT_UInt16]"

definition GenTagColumns :: "(string \<Rightarrow> bytes) \<Rightarrow> u64 \<Rightarrow> Column list" where
  "GenTagColumns cm code = tag_columns_head cm code @ tag_columns_mid cm code @ tag_columns_tail cm code"

section \<open>Rows\<close>

definition marshalInt32WithSpecialID :: "i16 \<Rightarrow> i32" where
  "marshalInt32WithSpecialID v = (if v = -1 \<or> v = -2 then scast v else ucast v)"

definition unmarshalInt32WithSpecialID :: "i32 \<Rightarrow> i16" where
  "unmarshalInt32WithSpecialID v = ucast v"

definition ip6_or_zero :: "bytes \<Rightarrow> bytes" where
  "ip6_or_zero ip = (if ip = [] then replicate 16 0 else ip)"

text \<open>Several writes, each returning its error at once.\<close>

definition write_all :: "('b Block \<Rightarrow> 'e option \<times> 'b Block) list \<Rightarrow> 'b Block \<Rightarrow> 'e option \<times> 'b Block" where
  "write_all ws = write_each (\<lambda>w. w) ws"

text \<open>
  The writes of a tag, in stages: a missing IPv6 address of the tag is replaced by zero on the way, and the name of
  the capture side is looked up only when it is reached.
\<close>

definition tag_writes_head :: "('e, 'b) column_append \<Rightarrow> u32 \<Rightarrow> u64 \<Rightarrow> zField \<Rightarrow> ('b Block \<Rightarrow> 'e option \<times> 'b Block) list" where
  "tag_writes_head app time code f =
     [Block_WriteDateTime app time, Block_WriteUInt8 app (tf_GlobalThreadID f)]
     @ opt (has code ACLGID) [Block_WriteUInt16 app (tf_ACLGID f)]
     @ opt (has code AZID) [Block_WriteUInt16 app (tf_AZID (side0 f))]
     @ opt (has code AZIDPath) [Block_WriteUInt16 app (tf_AZID (side0 f)), Block_WriteUInt16 app (tf_AZID (side1 f))]
     @ opt (has code Direction) [Block_WriteString app (if IsClientToServer (tf_Direction f) then str ''c2s'' else str ''s2c'')]
     @ opt (has code HostID) [Block_WriteUInt16 app (tf_HostID (side0 f))]
     @ opt (has code HostIDPath) [Block_WriteUInt16 app (tf_HostID (side0 f)), Block_WriteUInt16 app (tf_HostID (side1 f))]
     @ opt (has code IP) [Block_WriteIPv4 app (tf_IP (side0 f))]"

definition tag_writes_ip :: "('e, 'b) column_append \<Rightarrow> u64 \<Rightarrow> zField \<Rightarrow> ('b Block \<Rightarrow> 'e option \<times> 'b Block) list" where
  "tag_writes_ip app code f =
     opt (has code IP) [Block_WriteIPv6 app (tf_IP6 (side0 f)), Block_WriteUInt8 app (1 - tf_IsIPv6 f)]
     @ opt (has code IPPath) [Block_WriteIPv4 app (tf_IP (side0 f)), Block_WriteIPv4 app (tf_IP (side1 f))]"

definition tag_writes_mid :: "('e, 'b) column_append \<Rightarrow> u64 \<Rightarrow> zField \<Rightarrow> ('b Block \<Rightarrow> 'e option \<times> 'b Block) list" where
  "tag_writes_mid app code f =
     opt (has code IPPath) [Block_WriteIPv6 app (tf_IP6 (side1 f)), Block_WriteUInt8 app (1 - tf_IsIPv6 f)]
     @ opt (has code IsKeyService) [Block_WriteUInt8 app (tf_IsKeyService f)]
     @ opt (has code L3Device) [Block_WriteUInt32 app (tf_L3DeviceID (side0 f)), Block_WriteUInt8 app (tf_L3DeviceType (side0 f))]
     @ opt (has code L3DevicePath) [Block_WriteUInt32 app (tf_L3DeviceID (side0 f)), Block_WriteUInt32 app (tf_L3DeviceID (side1 f)), Block_WriteUInt8 app (tf_L3DeviceType (side0 f)), Block_WriteUInt8 app (tf_L3DeviceType (side1 f))]
     @ opt (has code L3EpcID) [Block_WriteInt32 app (marshalInt32WithSpecialID (tf_L3EpcID (side0 f)))]
     @ opt (has code L3EpcIDPath) [Block_WriteInt32 app (marshalInt32WithSpecialID (tf_L3EpcID (side0 f))), Block_WriteInt32 app (marshalInt32WithSpecialID (tf_L3EpcID (side1 f)))]
     @ opt (has code L7Protocol) [Block_WriteUInt8 app (tf_L7Protocol f)]
     @ opt (has code PodClusterID) [Block_WriteUInt16 app (tf_PodClusterID (side0 f))]
     @ opt (has code PodClusterIDPath) [Block_WriteUInt16 app (tf_PodClusterID (side0 f)), Block_WriteUInt16 app (tf_PodClusterID (side1 f))]
     @ opt (has code PodGroupID) [Block_WriteUInt32 app (tf_PodGroupID (side0 f))]
     @ opt (has code PodGroupIDPath) [Block_WriteUInt32 app (tf_PodGroupID (side0 f)), Block_WriteUInt32 app (tf_PodGroupID (side1 f))]
     @ opt (has code PodID) [Block_WriteUInt32 app (tf_PodID (side0 f))]
     @ opt (has code PodIDPath) [Block_WriteUInt32 app (tf_PodID (side0 f)), Block_WriteUInt32 app (tf_PodID (side1 f))]
     @ opt (has code PodNodeID) [Block_WriteUInt32 app (tf_PodNodeID (side0 f))]
     @ opt (has code PodNodeIDPath) [Block_WriteUInt32 app (tf_PodNodeID (side0 f)), Block_WriteUInt32 app (tf_PodNodeID (side1 f))]
     @ opt (has code PodNSID) [Block_WriteUInt16 app (tf_PodNSID (side0 f))]
     @ opt (has code PodNSIDPath) [Block_WriteUInt16 app (tf_PodNSID (side0 f)), Block_WriteUInt16 app (tf_PodNSID (side1 f))]
     @ opt (has code Protocol) [Block_WriteUInt8 app (tf_Protocol f)]
     @ opt (has code RegionID) [Block_WriteUInt16 app (tf_RegionID (side0 f))]
     @ opt (has code RegionIDPath) [Block_WriteUInt16 app (tf_RegionID (side0 f)), Block_WriteUInt16 app (tf_RegionID (side1 f))]"

definition tag_writes_tail :: "('e, 'b) column_append \<Rightarrow> u64 \<Rightarrow> zField \<Rightarrow> ('b Block \<Rightarrow> 'e option \<times> 'b Block) list" where
  "tag_writes_tail app code f =
     opt (has code Resource \<or> has code ResourcePath) [Block_WriteUInt32 app (tf_ResourceGl0ID (side0 f)), Block_WriteUInt8 app (tf_ResourceGl0Type (side0 f)), Block_WriteUInt32 app (tf_ResourceGl1ID (side0 f)), Block_WriteUInt8 app (tf_ResourceGl1Type (side0 f)), Block_WriteUInt32 app (tf_ResourceGl2ID (side0 f)), Block_WriteUInt8 app (tf_ResourceGl2Type (side0 f))]
     @ opt (has code ResourcePath) [Block_WriteUInt32 app (tf_ResourceGl0ID (side1 f)), Block_WriteUInt8 app (tf_ResourceGl0Type (side1 f)), Block_WriteUInt32 app (tf_ResourceGl1ID (side1 f)), Block_WriteUInt8 app (tf_ResourceGl1Type (side1 f)), Block_WriteUInt32 app (tf_ResourceGl2ID (side1 f)), Block_WriteUInt8 app (tf_ResourceGl2Type (side1 f))]
     @ opt (has code ServiceID) [Block_WriteUInt32 app (tf_ServiceID (side0 f))]
     @ opt (has code ServiceIDPath) [Block_WriteUInt32 app (tf_ServiceID (side0 f)), Block_WriteUInt32 app (tf_ServiceID (side1 f))]
     @ opt (has code ServerPort) [Block_WriteUInt16 app (tf_ServerPort f)]
     @ opt (has code SubnetID) [Block_WriteUInt16 app (tf_SubnetID (side0 f))]
     @ opt (has code SubnetIDPath) [Block_WriteUInt16 app (tf_SubnetID (side0 f)), Block_WriteUInt16 app (tf_SubnetID (side1 f))]
     @ opt (has code TagType \<and> has code TagValue) [Block_WriteUInt8 app (tf_TagType f)]
     @ opt (has code TagType \<and> has code TagValue \<and> tf_TagType f = TAG_TYPE_TUNNEL_IP_ID) [Block_WriteString app (FormatUint (ucast (tf_TagValue f)))]
     @ (let (tapPort, tapPortType, tunnelType) = SplitToPortTypeTunnel (tf_TAPPort f) in
        opt (has code TAPPort) [Block_WriteUInt8 app tapPortType, Block_WriteUInt8 app tunnelType, Block_WriteUInt32 app tapPort])"

definition tag_writes_end :: "('e, 'b) column_append \<Rightarrow> u64 \<Rightarrow> zField \<Rightarrow> ('b Block \<Rightarrow> 'e option \<times> 'b Block) list" where
  "tag_writes_end app code f =
     opt (has code TAPType) [Block_WriteUInt8 app (tf_TAPType f)]
     @ opt (has code VTAPID) [Block_WriteUInt16 app (tf_VTAPID f)]"

definition fill0 :: "zField \<Rightarrow> zField" where
  "fill0 f = f\<lparr>side0 := (side0 f)\<lparr>tf_IP6 := ip6_or_zero (tf_IP6 (side0 f))\<rparr>\<rparr>"

definition fill1 :: "zField \<Rightarrow> zField" where
  "fill1 f = f\<lparr>side1 := (side1 f)\<lparr>tf_IP6 := ip6_or_zero (tf_IP6 (side1 f))\<rparr>\<rparr>"

text \<open>A stage that may have written, followed by what depends on the fields.\<close>

definition on_ok :: "'e option \<times> 'b Block \<Rightarrow> zField \<Rightarrow> ('b Block \<Rightarrow> ('e option \<times> 'b Block \<times> zField) option)
    \<Rightarrow> ('e option \<times> 'b Block \<times> zField) option" where
  "on_ok r f k = (case r of (Some er, b) \<Rightarrow> Some (Some er, b, f) | (None, b) \<Rightarrow> k b)"

definition Tag_WriteBlock :: "('e, 'b) column_append \<Rightarrow> u32 \<Rightarrow> zTag \<Rightarrow> 'b Block \<Rightarrow> ('e option \<times> 'b Block \<times> zTag) option" where
  "Tag_WriteBlock app time t b =
     (let code = tag_Code t; f = tag_Field t;
          f0 = (if has code IP then fill0 f else f);
          f1 = (if has code IPPath then fill0 f0 else f0);
          f2 = (if has code IPPath then fill1 f1 else f1)
      in map_option (\<lambda>(er, b, f). (er, b, t\<lparr>tag_Field := f\<rparr>))
        (on_ok (write_all (tag_writes_head app time code f) b) f (\<lambda>b.
         on_ok (write_all (tag_writes_ip app code f0) b) f0 (\<lambda>b.
         on_ok (write_all (opt (has code IPPath) [Block_WriteIPv6 app (tf_IP6 (side0 f1))]) b) f1 (\<lambda>b.
         on_ok (write_all (tag_writes_mid app code f2 @ tag_writes_tail app code f2) b) f2 (\<lambda>b.
           if has code TAPSide then
             case TAPSide_String (tf_TAPSide f2) of
               None \<Rightarrow> None
             | Some s \<Rightarrow> on_ok (Block_WriteString app s b) f2 (\<lambda>b.
                 case write_all (tag_writes_end app code f2) b of (er, b) \<Rightarrow> Some (er, b, f2))
           else (case write_all (tag_writes_end app code f2) b of (er, b) \<Rightarrow> Some (er, b, f2))))))))"

text \<open>The values of the row.\<close>

definition tag_row_head :: "u32 \<Rightarrow> u64 \<Rightarrow> zField \<Rightarrow> ck_value list" where
  "tag_row_head time code f =
     [CkTime (uint time), CkUInt8 (tf_GlobalThreadID f)]
     @ opt (has code ACLGID) [CkUInt16 (tf_ACLGID f)]
     @ opt (has code AZID) [CkUInt16 (tf_AZID (side0 f))]
     @ opt (has code AZIDPath) [CkUInt16 (tf_AZID (side0 f)), CkUInt16 (tf_AZID (side1 f))]
     @ opt (has code Direction) [CkString (if IsClientToServer (tf_Direction f) then str ''c2s'' else str ''s2c'')]
     @ opt (has code HostID) [CkUInt16 (tf_HostID (side0 f))]
     @ opt (has code HostIDPath) [CkUInt16 (tf_HostID (side0 f)), CkUInt16 (tf_HostID (side1 f))]
     @ opt (has code IP) [CkIP (IpFromUint32 (tf_IP (side0 f)))]"

definition tag_row_ip :: "u64 \<Rightarrow> zField \<Rightarrow> ck_value list" where
  "tag_row_ip code f =
     opt (has code IP) [CkIP (ip6_or_zero (tf_IP6 (side0 f))), CkUInt8 (1 - tf_IsIPv6 f)]
     @ opt (has code IPPath) [CkIP (IpFromUint32 (tf_IP (side0 f))), CkIP (IpFromUint32 (tf_IP (side1 f)))]
     @ opt (has code IPPath) [CkIP (ip6_or_zero (tf_IP6 (side0 f)))]"

definition tag_row_mid :: "u64 \<Rightarrow> zField \<Rightarrow> ck_value list" where
  "tag_row_mid code f =
     opt (has code IPPath) [CkIP (ip6_or_zero (tf_IP6 (side1 f))), CkUInt8 (1 - tf_IsIPv6 f)]
     @ opt (has code IsKeyService) [CkUInt8 (tf_IsKeyService f)]
     @ opt (has code L3Device) [CkUInt32 (tf_L3DeviceID (side0 f)), CkUInt8 (tf_L3DeviceType (side0 f))]
     @ opt (has code L3DevicePath) [CkUInt32 (tf_L3DeviceID (side0 f)), CkUInt32 (tf_L3DeviceID (side1 f)), CkUInt8 (tf_L3DeviceType (side0 f)), CkUInt8 (tf_L3DeviceType (side1 f))]
     @ opt (has code L3EpcID) [CkInt32 (marshalInt32WithSpecialID (tf_L3EpcID (side0 f)))]
     @ opt (has code L3EpcIDPath) [CkInt32 (marshalInt32WithSpecialID (tf_L3EpcID (side0 f))), CkInt32 (marshalInt32WithSpecialID (tf_L3EpcID (side1 f)))]
     @ opt (has code L7Protocol) [CkUInt8 (tf_L7Protocol f)]
     @ opt (has code PodClusterID) [CkUInt16 (tf_PodClusterID (side0 f))]
     @ opt (has code PodClusterIDPath) [CkUInt16 (tf_PodClusterID (side0 f)), CkUInt16 (tf_PodClusterID (side1 f))]
     @ opt (has code PodGroupID) [CkUInt32 (tf_PodGroupID (side0 f))]
     @ opt (has code PodGroupIDPath) [CkUInt32 (tf_PodGroupID (side0 f)), CkUInt32 (tf_PodGroupID (side1 f))]
     @ opt (has code PodID) [CkUInt32 (tf_PodID (side0 f))]
     @ opt (has code PodIDPath) [CkUInt32 (tf_PodID (side0 f)), CkUInt32 (tf_PodID (side1 f))]
     @ opt (has code PodNodeID) [CkUInt32 (tf_PodNodeID (side0 f))]
     @ opt (has code PodNodeIDPath) [CkUInt32 (tf_PodNodeID (side0 f)), CkUInt32 (tf_PodNodeID (side1 f))]
     @ opt (has code PodNSID) [CkUInt16 (tf_PodNSID (side0 f))]
     @ opt (has code PodNSIDPath) [CkUInt16 (tf_PodNSID (side0 f)), CkUInt16 (tf_PodNSID (side1 f))]
     @ opt (has code Protocol) [CkUInt8 (tf_Protocol f)]
     @ opt (has code RegionID) [CkUInt16 (tf_RegionID (side0 f))]
     @ opt (has code RegionIDPath) [CkUInt16 (tf_RegionID (side0 f)), CkUInt16 (tf_RegionID (side1 f))]"

definition tag_row_tail :: "u64 \<Rightarrow> zField \<Rightarrow> ck_value list" where
  "tag_row_tail code f =
     opt (has code Resource \<or> has code ResourcePath) [CkUInt32 (tf_ResourceGl0ID (side0 f)), CkUInt8 (tf_ResourceGl0Type (side0 f)), CkUInt32 (tf_ResourceGl1ID (side0 f)), CkUInt8 (tf_ResourceGl1Type (side0 f)), CkUInt32 (tf_ResourceGl2ID (side0 f)), CkUInt8 (tf_ResourceGl2Type (side0 f))]
     @ opt (has code ResourcePath) [CkUInt32 (tf_ResourceGl0ID (side1 f)), CkUInt8 (tf_ResourceGl0Type (side1 f)), CkUInt32 (tf_ResourceGl1ID (side1 f)), CkUInt8 (tf_ResourceGl1Type (side1 f)), CkUInt32 (tf_ResourceGl2ID (side1 f)), CkUInt8 (tf_ResourceGl2Type (side1 f))]
     @ opt (has code ServiceID) [CkUInt32 (tf_ServiceID (side0 f))]
     @ opt (has code ServiceIDPath) [CkUInt32 (tf_ServiceID (side0 f)), CkUInt32 (tf_ServiceID (side1 f))]
     @ opt (has code ServerPort) [CkUInt16 (tf_ServerPort f)]
     @ opt (has code SubnetID) [CkUInt16 (tf_SubnetID (side0 f))]
     @ opt (has code SubnetIDPath) [CkUInt16 (tf_SubnetID (side0 f)), CkUInt16 (tf_SubnetID (side1 f))]
     @ opt (has code TagType \<and> has code TagValue) [CkUInt8 (tf_TagType f)]
     @ opt (has code TagType \<and> has code TagValue \<and> tf_TagType f = TAG_TYPE_TUNNEL_IP_ID) [CkString (FormatUint (ucast (tf_TagValue f)))]
     @ (let (tapPort, tapPortType, tunnelType) = SplitToPortTypeTunnel (tf_TAPPort f) in
        opt (has code TAPPort) [CkUInt8 tapPortType, CkUInt8 tunnelType, CkUInt32 tapPort])"

definition tag_row_end :: "u64 \<Rightarrow> zField \<Rightarrow> ck_value list" where
  "tag_row_end code f =
     opt (has code TAPType) [CkUInt8 (tf_TAPType f)]
     @ opt (has code VTAPID) [CkUInt16 (tf_VTAPID f)]"

lemma Code_iff: "has c k \<longleftrightarrow> bit c (code_shift k)"
  by (simp add: has_def Code_def push_bit_of_1 and_exp_eq_0_iff_not_bit)

end
