(* ===== verification/Doc_Tables.thy ===== *)
theory Doc_Tables
  imports Doc_Tag
begin

text \<open>
  The metrics tables of \<^verbatim>\<open>zerodoc/tag.go\<close> and the tables a tag selects, with the laws of the rows: what
  \<open>Tag_WriteBlock\<close> writes is one value per column of \<open>GenTagColumns\<close>, of the type of the column.
\<close>

unbundle bit_operations_syntax

section \<open>Tables\<close>

definition VTAP_FLOW_PORT_1M :: nat where "VTAP_FLOW_PORT_1M = 0"
definition VTAP_FLOW_EDGE_PORT_1M :: nat where "VTAP_FLOW_EDGE_PORT_1M = 1"
definition VTAP_APP_PORT_1M :: nat where "VTAP_APP_PORT_1M = 2"
definition VTAP_APP_EDGE_PORT_1M :: nat where "VTAP_APP_EDGE_PORT_1M = 3"
definition VTAP_ACL_1M :: nat where "VTAP_ACL_1M = 4"
definition VTAP_FLOW_PORT_1S :: nat where "VTAP_FLOW_PORT_1S = 5"
definition VTAP_APP_EDGE_PORT_1S :: nat where "VTAP_APP_EDGE_PORT_1S = 8"
definition VTAP_TABLE_ID_MAX :: nat where "VTAP_TABLE_ID_MAX = 9"

lemmas table_id_defs = VTAP_FLOW_PORT_1M_def VTAP_FLOW_EDGE_PORT_1M_def VTAP_APP_PORT_1M_def VTAP_APP_EDGE_PORT_1M_def VTAP_ACL_1M_def
  VTAP_FLOW_PORT_1S_def VTAP_APP_EDGE_PORT_1S_def VTAP_TABLE_ID_MAX_def

definition BaseCode :: "CodeBit list" where
  "BaseCode = [AZID, HostID, IP, L3Device, L3EpcID, PodClusterID, PodGroupID, PodID, PodNodeID, PodNSID, RegionID, SubnetID, TAPType,
     VTAPID, ServiceID, Resource]"

definition BasePathCode :: "CodeBit list" where
  "BasePathCode = [AZIDPath, HostIDPath, IPPath, L3DevicePath, L3EpcIDPath, PodClusterIDPath, PodGroupIDPath, PodIDPath,
     PodNodeIDPath, PodNSIDPath, RegionIDPath, SubnetIDPath, TAPSide, TAPType, VTAPID, ServiceIDPath, ResourcePath]"

definition BasePortCode :: "CodeBit list" where
  "BasePortCode = [Protocol, ServerPort, IsKeyService]"

definition VTAP_FLOW_PORT :: u64 where
  "VTAP_FLOW_PORT = codes (BaseCode @ BasePortCode @ [Direction])"

definition VTAP_FLOW_EDGE_PORT :: u64 where
  "VTAP_FLOW_EDGE_PORT = codes (BasePathCode @ BasePortCode @ [TAPPort])"

definition VTAP_APP_PORT :: u64 where
  "VTAP_APP_PORT = codes (BaseCode @ BasePortCode @ [Direction, L7Protocol])"

definition VTAP_APP_EDGE_PORT :: u64 where
  "VTAP_APP_EDGE_PORT = codes (BasePathCode @ BasePortCode @ [TAPPort, L7Protocol])"

definition metricsTableCodes :: "u64 list" where
  "metricsTableCodes = [VTAP_FLOW_PORT, VTAP_FLOW_EDGE_PORT, VTAP_APP_PORT, VTAP_APP_EDGE_PORT, codes [ACLGID, TagType, TagValue, VTAPID],
     VTAP_FLOW_PORT, VTAP_FLOW_EDGE_PORT, VTAP_APP_PORT, VTAP_APP_EDGE_PORT]"

definition metricsTableNames :: "bytes list" where
  "metricsTableNames = [str ''vtap_flow_port.1m'', str ''vtap_flow_edge_port.1m'', str ''vtap_app_port.1m'', str ''vtap_app_edge_port.1m'',
     str ''vtap_acl.1m'', str ''vtap_flow_port.1s'', str ''vtap_flow_edge_port.1s'', str ''vtap_app_port.1s'', str ''vtap_app_edge_port.1s'']"

text \<open>The indexing of the two slices panics beyond them.\<close>

definition TableName :: "nat \<Rightarrow> bytes option" where
  "TableName i = (if i < length metricsTableNames then Some (metricsTableNames ! i) else None)"

definition TableCode :: "nat \<Rightarrow> u64 option" where
  "TableCode i = (if i < length metricsTableCodes then Some (metricsTableCodes ! i) else None)"

primrec name_index :: "bytes list \<Rightarrow> nat \<Rightarrow> bytes \<Rightarrow> nat" where
  "name_index [] i name = VTAP_TABLE_ID_MAX"
| "name_index (n # ns) i name = (if n = name then i else name_index ns (i + 1) name)"

definition MetricsTableNameToID :: "bytes \<Rightarrow> nat" where
  "MetricsTableNameToID name = name_index metricsTableNames 0 name"

definition order_keys :: "u64 \<Rightarrow> bytes list" where
  "order_keys code =
     (if has code L3EpcID then [str ''l3_epc_id'', str ''ip4'', str ''ip6'']
      else if has code L3EpcIDPath then [str ''l3_epc_id_1'', str ''ip4_1'', str ''ip6_1'', str ''l3_epc_id_0'', str ''ip4_0'', str ''ip6_0'']
      else if has code ACLGID then [str ''acl_gid'']
      else [])
     @ opt (has code ServerPort) [str ''server_port''] @ [str ''time'']"

definition meter_columns :: "(string \<Rightarrow> bytes) \<Rightarrow> nat \<Rightarrow> Column list" where
  "meter_columns cm i =
     (if i = VTAP_FLOW_PORT_1M \<or> i = VTAP_FLOW_EDGE_PORT_1M then FlowMeterColumns cm
      else if i = VTAP_ACL_1M then UsageMeterColumns cm
      else if i = VTAP_APP_PORT_1M \<or> i = VTAP_APP_EDGE_PORT_1M then AppMeterColumns cm
      else [])"

definition newMetricsMinuteTable :: "(string \<Rightarrow> bytes) \<Rightarrow> nat \<Rightarrow> EngineType \<Rightarrow> bytes \<Rightarrow> Table option" where
  "newMetricsMinuteTable cm i engine version = do {
     code \<leftarrow> TableCode i;
     name \<leftarrow> TableName i;
     Some \<lparr>tbl_Version = version, tbl_ID = of_nat i, tbl_Database = str ''flow_metrics'', tbl_LocalName = name @ str ''_local'',
       tbl_GlobalName = name, tbl_Columns = GenTagColumns cm code @ meter_columns cm i, tbl_TimeKey = str ''time'', tbl_TTL = 7,
       tbl_PartitionFunc = TimeFuncTwelveHour,
       tbl_Cluster = (if engine = ReplicatedMergeTree then DF_REPLICATED_CLUSTER else DF_CLUSTER), tbl_Engine = engine,
       tbl_OrderKeys = order_keys code, tbl_PrimaryKeyCount = length (order_keys code)\<rparr>
   }"

definition newMetricsSecondTable :: "Table \<Rightarrow> Table option" where
  "newMetricsSecondTable t = (let i = tbl_ID t + of_nat VTAP_FLOW_PORT_1S in
     map_option (\<lambda>name. t\<lparr>tbl_ID := i, tbl_LocalName := name @ str ''_local'', tbl_GlobalName := name, tbl_TTL := 1,
       tbl_PartitionFunc := TimeFuncFourHour, tbl_Engine := MergeTree, tbl_Cluster := DF_CLUSTER\<rparr>) (TableName (unat i)))"

text \<open>The loops of \<^verbatim>\<open>GetMetricsTables\<close>; the tables are kept in a package variable, \<open>None\<close> before the first call.\<close>

primrec collect :: "('a \<Rightarrow> 'b option) \<Rightarrow> 'a list \<Rightarrow> 'b list option" where
  "collect f [] = Some []"
| "collect f (x # xs) = do { y \<leftarrow> f x; ys \<leftarrow> collect f xs; Some (y # ys) }"

definition GetMetricsTables :: "(string \<Rightarrow> bytes) \<Rightarrow> EngineType \<Rightarrow> bytes \<Rightarrow> Table list option \<Rightarrow> Table list option" where
  "GetMetricsTables cm engine version metricsTables = (case metricsTables of
     Some ts \<Rightarrow> Some ts
   | None \<Rightarrow> do {
       minuteTables \<leftarrow> collect (\<lambda>i. newMetricsMinuteTable cm i engine version) [VTAP_FLOW_PORT_1M..<VTAP_ACL_1M + 1];
       secondTables \<leftarrow> collect (\<lambda>i. newMetricsSecondTable (minuteTables ! (i - VTAP_FLOW_PORT_1S))) [VTAP_FLOW_PORT_1S..<VTAP_APP_EDGE_PORT_1S + 1];
       Some (minuteTables @ secondTables)
     })"

section \<open>The table of a tag\<close>

primrec code_index :: "u64 list \<Rightarrow> nat \<Rightarrow> u64 \<Rightarrow> nat option" where
  "code_index [] i c = None"
| "code_index (x # xs) i c = (if c = x then Some i else code_index xs (i + 1) c)"

text \<open>\<open>None\<close> is the error of a code without a table.\<close>

definition Tag_TableID :: "bool \<Rightarrow> zTag \<Rightarrow> u8 option" where
  "Tag_TableID isSecond t =
     map_option (\<lambda>i. if isSecond then of_nat i + of_nat VTAP_FLOW_PORT_1S else of_nat i)
       (code_index metricsTableCodes 0 (tag_Code t AND NOT (Code MAC) AND NOT (Code MACPath)))"

section \<open>Other operations of a tag\<close>

definition DatabaseSuffixID :: "zTag \<Rightarrow> nat" where
  "DatabaseSuffixID t = (if has (tag_Code t) ACLGID then 1 else 0) + (if HasEdgeTagField (tag_Code t) then 2 else 0)
     + (if has (tag_Code t) ServerPort then 4 else 0)"

definition DatabaseSuffixes :: "bytes list" where
  "DatabaseSuffixes = map str ['''', ''_acl'', ''_edge'', ''_acl_edge'', ''_port'', ''_acl_port'', ''_edge_port'', ''_acl_edge_port'']"

definition DatabaseSuffix :: "zTag \<Rightarrow> bytes" where
  "DatabaseSuffix t = DatabaseSuffixes ! DatabaseSuffixID t"

definition Tag_SetID :: "bytes \<Rightarrow> zTag \<Rightarrow> zTag" where
  "Tag_SetID i t = t\<lparr>tag_id := i\<rparr>"

definition Tag_GetCode :: "zTag \<Rightarrow> u64" where
  "Tag_GetCode t = tag_Code t"

definition Tag_SetCode :: "u64 \<Rightarrow> zTag \<Rightarrow> zTag" where
  "Tag_SetCode c t = t\<lparr>tag_Code := c\<rparr>"

definition Tag_SetTID :: "u8 \<Rightarrow> zTag \<Rightarrow> zTag" where
  "Tag_SetTID tid t = t\<lparr>tag_Field := (tag_Field t)\<lparr>tf_GlobalThreadID := tid\<rparr>\<rparr>"

definition Tag_GetTAPType :: "zTag \<Rightarrow> u8" where
  "Tag_GetTAPType t = tf_TAPType (tag_Field t)"

definition NewTag :: "u64 \<Rightarrow> zField \<Rightarrow> zTag" where
  "NewTag c f = \<lparr>tag_Field = f, tag_Code = c, tag_id = []\<rparr>"

section \<open>Laws of rows\<close>

definition tag_row_side :: "u64 \<Rightarrow> zField \<Rightarrow> ck_value list" where
  "tag_row_side code f = opt (has code TAPSide) [CkString (the (TAPSide_String (tf_TAPSide f)))]"

definition tag_row :: "u32 \<Rightarrow> zTag \<Rightarrow> ck_value list" where
  "tag_row time t = (let code = tag_Code t; f = tag_Field t in
     tag_row_head time code f @ tag_row_ip code f @ tag_row_mid code f @ tag_row_tail code f @ tag_row_side code f @ tag_row_end code f)"

lemma map_opt: "map g (opt c xs) = opt c (map g xs)"
  by (simp add: opt_def)

lemma opt_join: "opt c xs @ opt c ys @ zs = opt c (xs @ ys) @ zs"
  by (simp add: opt_def)

lemma opt_either: "\<not> (a \<and> b) \<Longrightarrow> opt (a \<or> b) xs @ opt b ys @ zs = opt a xs @ opt b (xs @ ys) @ zs"
  by (auto simp: opt_def)

lemma write_all_values: "write_all (map (block_append app) vs) = write_each (block_append app) vs"
  by (simp add: write_all_def write_each_map)

lemmas block_write_defs = Block_WriteUInt8_def Block_WriteUInt16_def Block_WriteUInt32_def Block_WriteInt32_def Block_WriteString_def
  Block_WriteIPv4_def Block_WriteIPv6_def Block_WriteDateTime_def

lemma tag_writes_head_row: "tag_writes_head app time code f = map (block_append app) (tag_row_head time code f)"
  by (simp add: tag_writes_head_def tag_row_head_def map_opt block_write_defs)

lemma fill_simps [simp]:
  "side0 (fill1 f) = side0 f" "side1 (fill0 f) = side1 f"
  "tf_IP6 (side0 (fill0 f)) = ip6_or_zero (tf_IP6 (side0 f))" "tf_IP6 (side1 (fill1 f)) = ip6_or_zero (tf_IP6 (side1 f))"
  "ip6_or_zero (ip6_or_zero ip) = ip6_or_zero ip"
  by (simp_all add: fill0_def fill1_def ip6_or_zero_def)

lemma fill_rows:
  "tag_row_mid code (fill0 f) = tag_row_mid code f" "tag_row_mid code (fill1 f) = tag_row_mid code f"
  "tag_row_tail code (fill0 f) = tag_row_tail code f" "tag_row_tail code (fill1 f) = tag_row_tail code f"
  "tag_row_side code (fill0 f) = tag_row_side code f" "tag_row_side code (fill1 f) = tag_row_side code f"
  "tag_row_end code (fill0 f) = tag_row_end code f" "tag_row_end code (fill1 f) = tag_row_end code f"
  "tf_TAPSide (fill0 f) = tf_TAPSide f" "tf_TAPSide (fill1 f) = tf_TAPSide f"
  by (simp_all add: tag_row_mid_def tag_row_tail_def tag_row_side_def tag_row_end_def fill0_def fill1_def ip6_or_zero_def)

lemma tag_writes_ip_row:
  "tag_writes_ip app code (if has code IP then fill0 f else f) = map (block_append app)
     (opt (has code IP) [CkIP (ip6_or_zero (tf_IP6 (side0 f))), CkUInt8 (1 - tf_IsIPv6 f)]
      @ opt (has code IPPath) [CkIP (IpFromUint32 (tf_IP (side0 f))), CkIP (IpFromUint32 (tf_IP (side1 f)))])"
  by (simp add: tag_writes_ip_def map_opt block_write_defs fill0_def opt_def)

lemma tag_writes_mid_row:
  "(has code IPPath \<Longrightarrow> ip6_or_zero (tf_IP6 (side1 f)) = tf_IP6 (side1 f)) \<Longrightarrow>
   tag_writes_mid app code f = map (block_append app) (tag_row_mid code f)"
  by (cases "has code IPPath") (simp_all add: tag_writes_mid_def tag_row_mid_def map_opt block_write_defs opt_def [of False] opt_def [of True])

lemma tag_writes_tail_row: "tag_writes_tail app code f = map (block_append app) (tag_row_tail code f)"
  by (simp add: tag_writes_tail_def tag_row_tail_def map_opt block_write_defs SplitToPortTypeTunnel_def)

lemma tag_writes_end_row: "tag_writes_end app code f = map (block_append app) (tag_row_end code f)"
  by (simp add: tag_writes_end_def tag_row_end_def map_opt block_write_defs)

definition outcome :: "('e option \<times> 'b Block \<times> 'f) option \<Rightarrow> ('e option \<times> 'b Block) option" where
  "outcome = map_option (\<lambda>(er, b, f). (er, b))"

lemma outcome_simps [simp]:
  "outcome (Some (er, b, f)) = Some (er, b)"
  "outcome (map_option (\<lambda>(er, b, f). (er, b, g f)) r) = outcome r"
  by (simp_all add: outcome_def option.map_comp comp_def case_prod_unfold)

lemma outcome_on_ok:
  assumes "\<And>b. outcome (k b) = Some (write_each w ys b)"
  shows "outcome (on_ok (write_each w xs b) f k) = Some (write_each w (xs @ ys) b)"
  by (simp add: on_ok_def write_each_append and_then_def assms split: prod.split option.split)

lemma outcome_last: "outcome (case write_each w xs b of (er, b) \<Rightarrow> Some (er, b, f)) = Some (write_each w xs b)"
  by (simp split: prod.split)

lemma Tag_WriteBlock_row:
  assumes "has (tag_Code t) TAPSide \<Longrightarrow> TAPSide_String (tf_TAPSide (tag_Field t)) \<noteq> None"
  shows "outcome (Tag_WriteBlock app time t b) = Some (write_each (block_append app) (tag_row time t) b)"
proof -
  define code f where "code = tag_Code t" and "f = tag_Field t"
  define f0 where "f0 = (if has code IP then fill0 f else f)"
  define f1 where "f1 = (if has code IPPath then fill0 f0 else f0)"
  define f2 where "f2 = (if has code IPPath then fill1 f1 else f1)"
  have rows: "tag_row_mid code f2 = tag_row_mid code f" "tag_row_tail code f2 = tag_row_tail code f" "tag_row_end code f2 = tag_row_end code f"
    "tag_row_side code f2 = tag_row_side code f" "tf_TAPSide f2 = tf_TAPSide f"
    by (simp_all add: f2_def f1_def f0_def fill_rows)
  have mid: "tag_writes_mid app code f2 = map (block_append app) (tag_row_mid code f)"
    using tag_writes_mid_row [of code f2 app] by (simp add: rows) (simp add: f2_def)
  define ip1 ip2 where "ip1 = opt (has code IP) [CkIP (ip6_or_zero (tf_IP6 (side0 f))), CkUInt8 (1 - tf_IsIPv6 f)]
      @ opt (has code IPPath) [CkIP (IpFromUint32 (tf_IP (side0 f))), CkIP (IpFromUint32 (tf_IP (side1 f)))]"
    and "ip2 = opt (has code IPPath) [CkIP (ip6_or_zero (tf_IP6 (side0 f)))]"
  have ip: "tag_writes_ip app code f0 = map (block_append app) ip1"
      "opt (has code IPPath) [Block_WriteIPv6 app (tf_IP6 (side0 f1))] = map (block_append app) ip2"
    unfolding f0_def tag_writes_ip_row ip1_def by (simp_all add: f1_def f0_def ip2_def map_opt block_write_defs opt_def)
  have row: "tag_row time t = tag_row_head time code f @ ip1 @ ip2 @ (tag_row_mid code f @ tag_row_tail code f) @ tag_row_side code f @ tag_row_end code f"
    by (simp add: tag_row_def code_def f_def ip1_def ip2_def tag_row_ip_def Let_def)
  have last: "outcome (if has code TAPSide then
             case TAPSide_String (tf_TAPSide f2) of
               None \<Rightarrow> None
             | Some s \<Rightarrow> on_ok (Block_WriteString app s b) f2 (\<lambda>b.
                 case write_all (tag_writes_end app code f2) b of (er, b) \<Rightarrow> Some (er, b, f2))
           else (case write_all (tag_writes_end app code f2) b of (er, b) \<Rightarrow> Some (er, b, f2)))
      = Some (write_each (block_append app) (tag_row_side code f @ tag_row_end code f) b)" for b
  proof (cases "has code TAPSide")
    case True
    then obtain s where s: "TAPSide_String (tf_TAPSide f) = Some s" using assms by (auto simp: code_def f_def)
    have "Block_WriteString app s = write_each (block_append app) [CkString s]"
      by (rule ext) (simp add: Block_WriteString_def and_then_def split: prod.split option.split)
    then show ?thesis using True s
      by (simp add: rows tag_writes_end_row write_all_values outcome_on_ok [OF outcome_last] tag_row_side_def opt_def del: write_each.simps)
  next
    case False
    then show ?thesis by (simp add: rows tag_writes_end_row write_all_values outcome_last tag_row_side_def opt_def)
  qed
  show ?thesis
    unfolding Tag_WriteBlock_def Let_def code_def [symmetric] f_def [symmetric] f0_def [symmetric] f1_def [symmetric] f2_def [symmetric]
      outcome_simps tag_writes_head_row ip mid tag_writes_tail_row rows map_append [symmetric] write_all_values row
    by (intro outcome_on_ok last [unfolded rows])
qed

text \<open>A capture side without a name stops the program when the row is reached.\<close>

lemma TAPSide_String_None: "TAPSide_String s = None \<longleftrightarrow> 43 \<le> s"
  by (simp add: TAPSide_String_def TAPSideEnumsString_def word_le_nat_alt not_less)

section \<open>Rows and columns\<close>

text \<open>The values a column takes.\<close>

fun accepts :: "ColumnType \<Rightarrow> ck_value \<Rightarrow> bool" where
  "accepts CT_LowCardinalityString v \<longleftrightarrow> (\<exists>s. v = CkString s)"
| "accepts CT_DateTime v \<longleftrightarrow> (\<exists>s. v = CkTime s)"
| "accepts CT_IPv4 v \<longleftrightarrow> (\<exists>ip. v = CkIP ip \<and> length ip = 4)"
| "accepts CT_IPv6 v \<longleftrightarrow> (\<exists>ip. v = CkIP ip \<and> length ip = 16)"
| "accepts CT_DateTime64us v \<longleftrightarrow> (\<exists>i. v = CkInt64 i)"
| "accepts CT_UInt64Nullable v \<longleftrightarrow> (\<exists>x. v = CkUInt64Nullable x)"
| "accepts CT_Int64Nullable v \<longleftrightarrow> (\<exists>x. v = CkInt64Nullable x)"
| "accepts CT_Int16Nullable v \<longleftrightarrow> (\<exists>x. v = CkInt16Nullable x)"
| "accepts CT_ArrayString v \<longleftrightarrow> (\<exists>xs. v = CkArrayString xs)"
| "accepts ct v \<longleftrightarrow> value_type v = Some ct"

definition row_fits :: "Column list \<Rightarrow> ck_value list \<Rightarrow> bool" where
  "row_fits cs vs \<longleftrightarrow> list_all2 (\<lambda>c v. accepts (col_Type c) v) cs vs"

lemma row_fits_append: "row_fits a b \<Longrightarrow> row_fits c d \<Longrightarrow> row_fits (a @ c) (b @ d)"
  by (simp add: row_fits_def list_all2_appendI)

lemma row_fits_opt: "(c \<Longrightarrow> row_fits xs ys) \<Longrightarrow> row_fits (opt c xs) (opt c ys)"
  by (simp add: opt_def row_fits_def)

lemma row_fits_simps [simp]:
  "row_fits [] []" "row_fits (c # cs) (v # vs) \<longleftrightarrow> accepts (col_Type c) v \<and> row_fits cs vs"
  by (simp_all add: row_fits_def)

lemma tcol_Type [simp]: "col_Type (tcol cm n ct) = ct" "col_Type (SetComment s c) = col_Type c" "col_Type (SetIndex i c) = col_Type c"
  "col_Type (NewColumnWithGroupBy s ct) = ct" "col_Type (NewColumn s ct) = ct"
  by (simp_all add: tcol_def NewColumnWithGroupBy_def SetComment_def SetIndex_def SetGroupBy_def NewColumn_def Let_def)

lemma address_length [simp]: "length (IpFromUint32 x) = 4"
  by (simp add: IpFromUint32_def)

definition ip6_ok :: "bytes \<Rightarrow> bool" where
  "ip6_ok ip \<longleftrightarrow> ip = [] \<or> length ip = 16"

lemma ip6_or_zero_length: "ip6_ok ip \<Longrightarrow> length (ip6_or_zero ip) = 16"
  by (auto simp: ip6_ok_def ip6_or_zero_def)

lemma accepts_type: "value_type v = Some ct \<Longrightarrow> accepts ct v"
  by (cases v) auto

lemma row_fits_types: "map value_type vs = map (Some \<circ> col_Type) cs \<Longrightarrow> row_fits cs vs"
proof (induction vs arbitrary: cs)
  case (Cons v vs)
  then show ?case by (cases cs) (simp_all add: accepts_type)
qed simp

lemma tag_row_fits:
  assumes ip: "ip6_ok (tf_IP6 (side0 (tag_Field t)))" "ip6_ok (tf_IP6 (side1 (tag_Field t)))"
    and res: "\<not> (has (tag_Code t) Resource \<and> has (tag_Code t) ResourcePath)"
    and val: "has (tag_Code t) TagType \<and> has (tag_Code t) TagValue \<Longrightarrow> tf_TagType (tag_Field t) = TAG_TYPE_TUNNEL_IP_ID"
  shows "row_fits (GenTagColumns cm (tag_Code t)) (tag_row time t)"
proof -
  define code f where "code = tag_Code t" and "f = tag_Field t"
  have tv: "has code TagType \<and> has code TagValue \<and> tf_TagType f = TAG_TYPE_TUNNEL_IP_ID \<longleftrightarrow> has code TagType \<and> has code TagValue"
    using val by (auto simp: code_def f_def)
  note ip' = ip [folded f_def, THEN ip6_or_zero_length]
  note res' = res [folded code_def]
  show ?thesis
    unfolding GenTagColumns_def tag_columns_head_def tag_columns_mid_def tag_columns_tail_def
      tag_row_def Let_def code_def [symmetric] f_def [symmetric] tag_row_head_def tag_row_ip_def tag_row_mid_def tag_row_tail_def
      tag_row_side_def tag_row_end_def append_assoc tv opt_either [OF res'] opt_join SplitToPortTypeTunnel_def prod.case
    by (intro row_fits_append row_fits_opt) (simp_all add: ip')
qed

section \<open>Tables and codes\<close>

lemma bit_Code: "bit (Code k) n \<longleftrightarrow> n < 64 \<and> n = code_shift k"
  by (auto simp: Code_def push_bit_of_1 bit_exp_iff)

lemma has_masked:
  assumes "k \<noteq> MAC" "k \<noteq> MACPath"
  shows "has (c AND NOT (Code MAC) AND NOT (Code MACPath)) k \<longleftrightarrow> has c k"
proof -
  have "code_shift k \<noteq> 11 \<and> code_shift k \<noteq> 31 \<and> code_shift k < 64" using assms by (cases k) simp_all
  then show ?thesis by (simp add: Code_iff bit_and_iff bit_not_iff bit_Code)
qed

lemma GenTagColumns_masked: "GenTagColumns cm (c AND NOT (Code MAC) AND NOT (Code MACPath)) = GenTagColumns cm c"
  unfolding GenTagColumns_def tag_columns_head_def tag_columns_mid_def tag_columns_tail_def by (simp only: has_masked CodeBit.distinct not_False_eq_True)

lemma code_index_Some: "code_index cs i c = Some j \<Longrightarrow> i \<le> j \<and> j < i + length cs \<and> cs ! (j - i) = c"
proof (induction cs arbitrary: i)
  case (Cons x xs)
  show ?case
  proof (cases "c = x")
    case False
    with Cons show ?thesis by (fastforce simp: Suc_diff_Suc nth_Cons')
  qed (use Cons.prems in simp)
qed simp

text \<open>The codes of the second tables are those of the minute tables, which are found first.\<close>

lemma code_index_minute: "code_index metricsTableCodes 0 c = Some j \<Longrightarrow> j < 5"
  by (auto simp: metricsTableCodes_def split: if_splits)

definition all_codes :: "CodeBit list" where
  "all_codes = [IP, L3EpcID, L3Device, SubnetID, RegionID, PodNodeID, HostID, AZID, PodGroupID, PodNSID, PodID, MAC, PodClusterID, ServiceID,
     Resource, IPPath, L3EpcIDPath, L3DevicePath, SubnetIDPath, RegionIDPath, PodNodeIDPath, HostIDPath, AZIDPath, PodGroupIDPath,
     PodNSIDPath, PodIDPath, MACPath, PodClusterIDPath, ServiceIDPath, ResourcePath, Direction, ACLGID, Protocol, ServerPort, TAPType,
     VTAPID, TAPSide, TAPPort, IsKeyService, L7Protocol, TagType, TagValue]"

lemma all_codes: "k \<in> set all_codes"
  by (cases k) (simp_all add: all_codes_def)

lemma code_shift_inject: "code_shift a = code_shift b \<longleftrightarrow> a = b"
proof -
  have "distinct (map code_shift all_codes)" by (simp add: all_codes_def)
  then have "inj_on code_shift (set all_codes)" by (simp add: distinct_map)
  then show ?thesis using all_codes by (auto dest: inj_onD)
qed

lemma code_shift_less: "code_shift k < 64"
  by (cases k) simp_all

lemma has_codes: "has (codes ks) k \<longleftrightarrow> k \<in> set ks"
proof -
  have "bit (fold (\<lambda>k c. c OR Code k) ks c) n \<longleftrightarrow> bit c n \<or> (\<exists>k\<in>set ks. bit (Code k) n)" for c n
    by (induction ks arbitrary: c) (auto simp: bit_or_iff)
  then show ?thesis by (auto simp: codes_def Code_iff bit_Code code_shift_less code_shift_inject)
qed

lemmas table_code_defs = metricsTableCodes_def VTAP_FLOW_PORT_def VTAP_FLOW_EDGE_PORT_def VTAP_APP_PORT_def VTAP_APP_EDGE_PORT_def
  BaseCode_def BasePathCode_def BasePortCode_def

lemma table_codes:
  "list_all (\<lambda>c. \<not> (has c Resource \<and> has c ResourcePath)) metricsTableCodes"
  "list_all (\<lambda>i. has (metricsTableCodes ! i) TagType \<longleftrightarrow> i = 4) [0, 1, 2, 3, 4]"
  by (simp_all add: table_code_defs has_codes)

lemma GetMetricsTables_tables:
  "\<exists>ts. GetMetricsTables cm engine version None = Some ts \<and> length ts = 9 \<and>
     (\<forall>i<9. tbl_ID (ts ! i) = of_nat i \<and> tbl_GlobalName (ts ! i) = metricsTableNames ! i \<and>
        tbl_Columns (ts ! i) = GenTagColumns cm (metricsTableCodes ! i) @ meter_columns cm (i mod 5))"
proof -
  have r: "[VTAP_FLOW_PORT_1M..<VTAP_ACL_1M + 1] = [0, 1, 2, 3, 4]" "[VTAP_FLOW_PORT_1S..<VTAP_APP_EDGE_PORT_1S + 1] = [5, 6, 7, 8]"
    by code_simp+
  have all: "(\<forall>i<9. P i) \<longleftrightarrow> list_all P [0..<9]" for P :: "nat \<Rightarrow> bool" by (auto simp: list_all_iff)
  have n: "[0..<9] = [0, 1, 2, 3, 4, 5, 6, 7, 8 :: nat]" by code_simp
  show ?thesis
    unfolding GetMetricsTables_def r all n
    by (simp add: newMetricsMinuteTable_def newMetricsSecondTable_def TableCode_def TableName_def metricsTableNames_def metricsTableCodes_def
        VTAP_FLOW_PORT_1S_def)
qed

end
