(* ===== verification/Mini_Tag.thy ===== *)
theory Mini_Tag
  imports Doc_Tag Codec_Messages
begin

text \<open>
  The tag an agent fills, \<^verbatim>\<open>zerodoc/tag_mini.go\<close>, its protobuf form (\<^verbatim>\<open>MiniField\<close> and \<^verbatim>\<open>MiniTag\<close> of
  \<^verbatim>\<open>metric.proto\<close>) and how \<^verbatim>\<open>Tag.ReadFromPB\<close> of \<^verbatim>\<open>zerodoc/tag.go\<close> reads that into the tag of the server. A bytes field of
  a message is a slice without spare capacity. The pools of fields and tags return zeroed objects.
\<close>

unbundle bit_operations_syntax

section \<open>The tag of an agent\<close>

definition MINI_FIELD_FULL_CODES :: u64 where
  "MINI_FIELD_FULL_CODES = codes [IP, IPPath, L3EpcID, L3EpcIDPath, VTAPID, Protocol, ServerPort, MAC, MACPath, Direction, TAPType,
     ACLGID, L7Protocol, TagType, TagValue]"

record MiniField =
  mf_rawIP :: bytes
  mf_rawIP1 :: bytes
  mf_GlobalThreadID :: u8
  mf_IsIPv6 :: u8
  mf_L3EpcID :: i16
  mf_L3EpcID1 :: i16
  mf_MAC :: u64
  mf_MAC1 :: u64
  mf_Direction :: u8
  mf_Protocol :: u8
  mf_ACLGID :: u16
  mf_ServerPort :: u16
  mf_VTAPID :: u16
  mf_TAPPort :: u64
  mf_TAPType :: u8
  mf_L7Protocol :: u8
  mf_TagType :: u8
  mf_TagValue :: u16

record MiniTag =
  mt_Field :: MiniField
  mt_Code :: u64
  mt_id :: bytes

text \<open>\<^verbatim>\<open>copy(dst, src)\<close> into a slice that keeps its length.\<close>

definition overwrite :: "bytes \<Rightarrow> bytes \<Rightarrow> bytes" where
  "overwrite dst src = take (length dst) src @ drop (length src) dst"

definition Mini_IP :: "MiniField \<Rightarrow> bytes" where
  "Mini_IP f = (if mf_IsIPv6 f \<noteq> 0 then take 16 (mf_rawIP f) else take 4 (mf_rawIP f))"

definition Mini_SetIP :: "bytes \<Rightarrow> MiniField \<Rightarrow> MiniField" where
  "Mini_SetIP ip f = f\<lparr>mf_rawIP := overwrite (mf_rawIP f) ip\<rparr>"

definition Mini_IP1 :: "MiniField \<Rightarrow> bytes" where
  "Mini_IP1 f = (if mf_IsIPv6 f \<noteq> 0 then take 16 (mf_rawIP1 f) else take 4 (mf_rawIP1 f))"

definition Mini_SetIP1 :: "bytes \<Rightarrow> MiniField \<Rightarrow> MiniField" where
  "Mini_SetIP1 ip f = f\<lparr>mf_rawIP1 := overwrite (mf_rawIP1 f) ip\<rparr>"

definition Mini_SetID :: "bytes \<Rightarrow> MiniTag \<Rightarrow> MiniTag" where
  "Mini_SetID i t = t\<lparr>mt_id := i\<rparr>"

definition Mini_GetCode :: "MiniTag \<Rightarrow> u64" where
  "Mini_GetCode t = mt_Code t"

definition Mini_SetCode :: "u64 \<Rightarrow> MiniTag \<Rightarrow> MiniTag" where
  "Mini_SetCode c t = t\<lparr>mt_Code := c AND MINI_FIELD_FULL_CODES\<rparr>"

definition Mini_SetTID :: "u8 \<Rightarrow> MiniTag \<Rightarrow> MiniTag" where
  "Mini_SetTID tid t = t\<lparr>mt_Field := (mt_Field t)\<lparr>mf_GlobalThreadID := tid\<rparr>\<rparr>"

definition Mini_GetTAPType :: "MiniTag \<Rightarrow> u8" where
  "Mini_GetTAPType t = mf_TAPType (mt_Field t)"

text \<open>A field as the pool returns it, and as \<^verbatim>\<open>ReleaseMiniField\<close> leaves it; the two raw addresses are arrays of 16 bytes.\<close>

definition MiniField_zero :: MiniField where
  "MiniField_zero = \<lparr>mf_rawIP = replicate 16 0, mf_rawIP1 = replicate 16 0, mf_GlobalThreadID = 0, mf_IsIPv6 = 0, mf_L3EpcID = 0,
     mf_L3EpcID1 = 0, mf_MAC = 0, mf_MAC1 = 0, mf_Direction = 0, mf_Protocol = 0, mf_ACLGID = 0, mf_ServerPort = 0, mf_VTAPID = 0,
     mf_TAPPort = 0, mf_TAPType = 0, mf_L7Protocol = 0, mf_TagType = 0, mf_TagValue = 0\<rparr>"

definition CloneMiniField :: "MiniField \<Rightarrow> MiniField" where
  "CloneMiniField f = f"

definition CloneMiniTag :: "MiniTag \<Rightarrow> MiniTag" where
  "CloneMiniTag t = \<lparr>mt_Field = CloneMiniField (mt_Field t), mt_Code = mt_Code t, mt_id = mt_id t\<rparr>"

definition mini_ok :: "MiniField \<Rightarrow> bool" where
  "mini_ok f \<longleftrightarrow> length (mf_rawIP f) = 16 \<and> length (mf_rawIP1 f) = 16"

lemma overwrite_length [simp]: "length (overwrite dst src) = length dst"
  by (simp add: overwrite_def)

lemma mini_ok_ops: "mini_ok MiniField_zero" "mini_ok f \<Longrightarrow> mini_ok (Mini_SetIP ip f)" "mini_ok f \<Longrightarrow> mini_ok (Mini_SetIP1 ip f)"
  by (simp_all add: mini_ok_def MiniField_zero_def Mini_SetIP_def Mini_SetIP1_def)

section \<open>Messages\<close>

record pb_MiniField =
  pbmf_Ip :: bytes
  pbmf_Ip1 :: bytes
  pbmf_GlobalThreadId :: u32
  pbmf_IsIpv6 :: u32
  pbmf_L3EpcId :: i32
  pbmf_L3EpcId1 :: i32
  pbmf_Mac :: u64
  pbmf_Mac1 :: u64
  pbmf_Direction :: u32
  pbmf_TapSide :: u32
  pbmf_Protocol :: u32
  pbmf_AclGid :: u32
  pbmf_ServerPort :: u32
  pbmf_VtapId :: u32
  pbmf_TapPort :: u64
  pbmf_TapType :: u32
  pbmf_L7Protocol :: u32
  pbmf_TagType :: u32
  pbmf_TagValue :: u32

record pb_MiniTag =
  pbmt_Field :: "pb_MiniField option"
  pbmt_Code :: u64

definition pb_MiniField_zero :: pb_MiniField where
  "pb_MiniField_zero = \<lparr>pbmf_Ip = [], pbmf_Ip1 = [], pbmf_GlobalThreadId = 0, pbmf_IsIpv6 = 0, pbmf_L3EpcId = 0, pbmf_L3EpcId1 = 0,
     pbmf_Mac = 0, pbmf_Mac1 = 0, pbmf_Direction = 0, pbmf_TapSide = 0, pbmf_Protocol = 0, pbmf_AclGid = 0, pbmf_ServerPort = 0,
     pbmf_VtapId = 0, pbmf_TapPort = 0, pbmf_TapType = 0, pbmf_L7Protocol = 0, pbmf_TagType = 0, pbmf_TagValue = 0\<rparr>"

definition MiniField_WriteToPB :: "MiniField \<Rightarrow> pb_MiniField \<Rightarrow> pb_MiniField" where
  "MiniField_WriteToPB f p = p\<lparr>pbmf_Ip := mf_rawIP f, pbmf_Ip1 := mf_rawIP1 f, pbmf_GlobalThreadId := ucast (mf_GlobalThreadID f),
     pbmf_IsIpv6 := ucast (mf_IsIPv6 f), pbmf_L3EpcId := scast (mf_L3EpcID f), pbmf_L3EpcId1 := scast (mf_L3EpcID1 f),
     pbmf_Mac := mf_MAC f, pbmf_Mac1 := mf_MAC1 f,
     pbmf_Direction := ucast (mf_Direction f), pbmf_TapSide := ucast (ToTAPSide (mf_Direction f)), pbmf_Protocol := ucast (mf_Protocol f),
     pbmf_AclGid := ucast (mf_ACLGID f), pbmf_ServerPort := ucast (mf_ServerPort f), pbmf_VtapId := ucast (mf_VTAPID f),
     pbmf_TapPort := mf_TAPPort f, pbmf_TapType := ucast (mf_TAPType f), pbmf_L7Protocol := ucast (mf_L7Protocol f),
     pbmf_TagType := ucast (mf_TagType f), pbmf_TagValue := ucast (mf_TagValue f)\<rparr>"

definition pb_code :: "u64 \<Rightarrow> u64" where
  "pb_code code = (if has code Direction \<and> HasEdgeTagField code then (code OR Code TAPSide) AND NOT (Code Direction) else code)"

definition MiniTag_WriteToPB :: "MiniTag \<Rightarrow> pb_MiniTag \<Rightarrow> pb_MiniTag" where
  "MiniTag_WriteToPB t p = p\<lparr>pbmt_Field := write_part pb_MiniField_zero (MiniField_WriteToPB (mt_Field t)) (pbmt_Field p),
     pbmt_Code := pb_code (mt_Code t)\<rparr>"

section \<open>Reading into the tag of the server\<close>

text \<open>\<^verbatim>\<open>ip[:n]\<close>\<close>

definition prefix_of :: "nat \<Rightarrow> bytes \<Rightarrow> bytes option" where
  "prefix_of n ip = (if n \<le> length ip then Some (take n ip) else None)"

text \<open>\<^verbatim>\<open>if ip6 == nil { ip6 = make([]byte, 16) }; copy(ip6, ip[:16])\<close>\<close>

definition read_ip6 :: "bytes \<Rightarrow> FieldSide \<Rightarrow> FieldSide option" where
  "read_ip6 ip s = map_option (\<lambda>src. s\<lparr>tf_IP6 := overwrite (if tf_IP6 s = [] then replicate 16 0 else tf_IP6 s) src\<rparr>) (prefix_of 16 ip)"

definition read_ip4 :: "bytes \<Rightarrow> FieldSide \<Rightarrow> FieldSide option" where
  "read_ip4 ip s = map_option (\<lambda>src. s\<lparr>tf_IP := get_be src\<rparr>) (prefix_of 4 ip)"

definition Tag_ReadFromPB :: "pb_MiniTag \<Rightarrow> zTag \<Rightarrow> zTag option" where
  "Tag_ReadFromPB p t = do {
     let code = pbmt_Code p;
     f \<leftarrow> pbmt_Field p;
     let isIPv6 = ucast (pbmf_IsIpv6 f);
     let s0 = side0 (tag_Field t);
     let s1 = side1 (tag_Field t);
     s0 \<leftarrow> (if isIPv6 \<noteq> 0 then read_ip6 (pbmf_Ip f) s0 else read_ip4 (pbmf_Ip f) s0);
     s1 \<leftarrow> (if has code IPPath then if isIPv6 \<noteq> 0 then read_ip6 (pbmf_Ip1 f) s1 else read_ip4 (pbmf_Ip1 f) s1 else Some s1);
     Some (t\<lparr>tag_Code := code, tag_Field := (tag_Field t)\<lparr>tf_IsIPv6 := isIPv6,
       side0 := s0\<lparr>tf_MAC := pbmf_Mac f, tf_L3EpcID := ucast (pbmf_L3EpcId f)\<rparr>,
       side1 := s1\<lparr>tf_MAC := pbmf_Mac1 f, tf_L3EpcID := ucast (pbmf_L3EpcId1 f)\<rparr>,
       tf_Direction := ucast (pbmf_Direction f), tf_TAPSide := ucast (pbmf_TapSide f), tf_Protocol := ucast (pbmf_Protocol f),
       tf_ACLGID := ucast (pbmf_AclGid f), tf_ServerPort := ucast (pbmf_ServerPort f), tf_VTAPID := ucast (pbmf_VtapId f),
       tf_TAPPort := pbmf_TapPort f, tf_TAPType := ucast (pbmf_TapType f), tf_L7Protocol := ucast (pbmf_L7Protocol f),
       tf_TagType := ucast (pbmf_TagType f), tf_TagValue := ucast (pbmf_TagValue f)\<rparr>\<rparr>)
   }"

definition FieldSide_zero :: FieldSide where
  "FieldSide_zero = \<lparr>tf_IP6 = [], tf_MAC = 0, tf_IP = 0, tf_L3EpcID = 0, tf_L3DeviceID = 0, tf_L3DeviceType = 0, tf_RegionID = 0,
     tf_SubnetID = 0, tf_HostID = 0, tf_PodNodeID = 0, tf_AZID = 0, tf_PodGroupID = 0, tf_PodNSID = 0, tf_PodID = 0, tf_PodClusterID = 0,
     tf_ServiceID = 0, tf_ResourceGl0ID = 0, tf_ResourceGl0Type = 0, tf_ResourceGl1ID = 0, tf_ResourceGl1Type = 0, tf_ResourceGl2ID = 0,
     tf_ResourceGl2Type = 0\<rparr>"

definition Field_zero :: zField where
  "Field_zero = \<lparr>tf_GlobalThreadID = 0, tf_ACLGID = 0, tf_Direction = 0, tf_Protocol = 0, tf_ServerPort = 0, tf_VTAPID = 0,
     tf_TAPPort = 0, tf_TAPSide = 0, tf_TAPType = 0, tf_IsIPv6 = 0, tf_IsKeyService = 0, tf_L7Protocol = 0, tf_TagType = 0,
     tf_TagValue = 0, side0 = FieldSide_zero, side1 = FieldSide_zero\<rparr>"

definition CloneField :: "zField \<Rightarrow> zField" where
  "CloneField f = f"

definition CloneTag :: "zTag \<Rightarrow> zTag" where
  "CloneTag t = \<lparr>tag_Field = CloneField (tag_Field t), tag_Code = tag_Code t, tag_id = tag_id t\<rparr>"

section \<open>Laws\<close>

text \<open>What the server should have of the tag of an agent: the addresses and identifiers, and the side for a path.\<close>

definition side_of_mini :: "bool \<Rightarrow> bool \<Rightarrow> bytes \<Rightarrow> u64 \<Rightarrow> i16 \<Rightarrow> FieldSide" where
  "side_of_mini here v6 ip mac epc = FieldSide_zero\<lparr>
     tf_IP6 := (if here \<and> v6 then ip else []), tf_IP := (if here \<and> \<not> v6 then get_be (take 4 ip) else 0), tf_MAC := mac, tf_L3EpcID := epc\<rparr>"

definition field_of_mini :: "u64 \<Rightarrow> MiniField \<Rightarrow> zField" where
  "field_of_mini code f = Field_zero\<lparr>
     side0 := side_of_mini True (mf_IsIPv6 f \<noteq> 0) (mf_rawIP f) (mf_MAC f) (mf_L3EpcID f),
     side1 := side_of_mini (has code IPPath) (mf_IsIPv6 f \<noteq> 0) (mf_rawIP1 f) (mf_MAC1 f) (mf_L3EpcID1 f),
     tf_IsIPv6 := mf_IsIPv6 f, tf_Direction := mf_Direction f, tf_TAPSide := mf_Direction f, tf_Protocol := mf_Protocol f,
     tf_ACLGID := mf_ACLGID f, tf_ServerPort := mf_ServerPort f, tf_VTAPID := mf_VTAPID f, tf_TAPPort := mf_TAPPort f,
     tf_TAPType := mf_TAPType f, tf_L7Protocol := mf_L7Protocol f, tf_TagType := mf_TagType f, tf_TagValue := mf_TagValue f\<rparr>"

lemma widen_back [simp]:
  "ucast (ucast (a :: u8) :: u32) = a" "ucast (ucast (b :: u16) :: u32) = b" "ucast (scast (c :: i16) :: i32) = c"
  by (rule bit_word_eqI, simp add: bit_unsigned_iff bit_signed_iff)+

lemma pb_code_IPPath: "has (pb_code c) IPPath \<longleftrightarrow> has c IPPath"
  by (simp add: pb_code_def Code_iff Code_def bit_or_iff bit_and_iff bit_not_iff bit_push_bit_iff)

lemma read_ip6_zero: "length ip = 16 \<Longrightarrow> read_ip6 ip FieldSide_zero = Some (FieldSide_zero\<lparr>tf_IP6 := ip\<rparr>)"
  by (simp add: read_ip6_def prefix_of_def overwrite_def FieldSide_zero_def)

lemma read_ip4_zero: "length ip = 16 \<Longrightarrow> read_ip4 ip FieldSide_zero = Some (FieldSide_zero\<lparr>tf_IP := get_be (take 4 ip)\<rparr>)"
  by (simp add: read_ip4_def prefix_of_def)

lemma MiniTag_pb:
  assumes "mini_ok (mt_Field t)"
  shows "Tag_ReadFromPB (MiniTag_WriteToPB t p) \<lparr>tag_Field = Field_zero, tag_Code = 0, tag_id = i\<rparr> =
    Some \<lparr>tag_Field = field_of_mini (mt_Code t) (mt_Field t), tag_Code = pb_code (mt_Code t), tag_id = i\<rparr>"
  using assms
  by (simp add: Tag_ReadFromPB_def MiniTag_WriteToPB_def write_part_def MiniField_WriteToPB_def ToTAPSide_def pb_code_IPPath mini_ok_def
      Field_zero_def read_ip6_zero read_ip4_zero field_of_mini_def side_of_mini_def)
    (simp add: FieldSide_zero_def)

end
