(* ===== verification/Documents.thy ===== *)
theory Documents
  imports Doc_Tables Mini_Tag
begin

text \<open>
  Documents, \<^verbatim>\<open>app/document.go\<close> and \<^verbatim>\<open>app/codec.go\<close>: a tag and a meter with a time. An agent encodes a document with the small
  tag into a protobuf message that it reuses; the server decodes it into a document with the full tag, finds its table and
  writes its row. The generated marshalling is an argument, as in the codec; so are the meters the pools return. \<open>None\<close> is a
  panic: a nil part that is used or a tag of the other type.
\<close>

unbundle bit_operations_syntax

section \<open>Documents\<close>

datatype Tagger = T_Tag zTag | T_MiniTag MiniTag

record Document =
  doc_refs :: ReferenceCount
  doc_Timestamp :: u32
  doc_Tagger :: "Tagger option"
  doc_Meter :: "Meter option"
  doc_Flags :: u32

definition Document_zero :: Document where
  "Document_zero = \<lparr>doc_refs = 0, doc_Timestamp = 0, doc_Tagger = None, doc_Meter = None, doc_Flags = 0\<rparr>"

definition FLAG_PER_SECOND_METRICS :: u32 where "FLAG_PER_SECOND_METRICS = 1"

definition AcquireDocument :: Document where
  "AcquireDocument = Document_zero\<lparr>doc_refs := ReferenceCount_Reset 0\<rparr>"

text \<open>Whether the document went back to the pool, and what is left of it.\<close>

definition ReleaseDocument :: "Document \<Rightarrow> bool \<times> Document" where
  "ReleaseDocument d = (let (used, r) = SubReferenceCount (doc_refs d) in
     if used then (False, d\<lparr>doc_refs := r\<rparr>) else (True, Document_zero))"

fun Tagger_Clone :: "Tagger \<Rightarrow> Tagger" where
  "Tagger_Clone (T_Tag t) = T_Tag (CloneTag t)"
| "Tagger_Clone (T_MiniTag t) = T_MiniTag (CloneMiniTag t)"

text \<open>The clone of a meter is a copy of it.\<close>

definition CloneDocument :: "Document \<Rightarrow> Document option" where
  "CloneDocument d = do {
     tg \<leftarrow> doc_Tagger d;
     m \<leftarrow> doc_Meter d;
     Some (AcquireDocument\<lparr>doc_Timestamp := doc_Timestamp d, doc_Tagger := Some (Tagger_Clone tg), doc_Meter := Some m, doc_Flags := doc_Flags d\<rparr>)
   }"

definition PseudoCloneDocument :: "Document \<Rightarrow> Document" where
  "PseudoCloneDocument d = d\<lparr>doc_refs := AddReferenceCount (doc_refs d)\<rparr>"

section \<open>Encoding\<close>

record pb_Meter =
  pbm_MeterId :: u32
  pbm_Flow :: "pb_FlowMeter option"
  pbm_Usage :: "pb_UsageMeter option"
  pbm_App :: "pb_AppMeter option"

record pb_Document =
  pbd_Timestamp :: u32
  pbd_Tag :: "pb_MiniTag option"
  pbd_Meter :: "pb_Meter option"
  pbd_Flags :: u32

definition pb_MiniTag_zero :: pb_MiniTag where
  "pb_MiniTag_zero = \<lparr>pbmt_Field = None, pbmt_Code = 0\<rparr>"

definition pb_FlowMeter_zero :: pb_FlowMeter where
  "pb_FlowMeter_zero = \<lparr>pbfm_Traffic = None, pbfm_Latency = None, pbfm_Performance = None, pbfm_Anomaly = None, pbfm_FlowLoad = None\<rparr>"

definition pb_UsageMeter_zero :: pb_UsageMeter where
  "pb_UsageMeter_zero = \<lparr>pbus_PacketTx = 0, pbus_PacketRx = 0, pbus_ByteTx = 0, pbus_ByteRx = 0, pbus_L3ByteTx = 0, pbus_L3ByteRx = 0,
     pbus_L4ByteTx = 0, pbus_L4ByteRx = 0\<rparr>"

definition pb_AppMeter_zero :: pb_AppMeter where
  "pb_AppMeter_zero = \<lparr>pbam_Traffic = None, pbam_Latency = None, pbam_Anomaly = None\<rparr>"

definition pb_Meter_zero :: pb_Meter where
  "pb_Meter_zero = \<lparr>pbm_MeterId = 0, pbm_Flow = None, pbm_Usage = None, pbm_App = None\<rparr>"

definition pb_Document_zero :: pb_Document where
  "pb_Document_zero = \<lparr>pbd_Timestamp = 0, pbd_Tag = None, pbd_Meter = None, pbd_Flags = 0\<rparr>"

text \<open>The switch over the identifier of the meter; the three meters are all there are, so its error is never reached.\<close>

fun write_meter :: "Meter \<Rightarrow> pb_Meter \<Rightarrow> pb_Meter" where
  "write_meter (M_Flow m) q = q\<lparr>pbm_MeterId := ucast FLOW_ID,
     pbm_Flow := write_part pb_FlowMeter_zero (FlowMeter_WriteToPB m) (pbm_Flow q), pbm_Usage := None, pbm_App := None\<rparr>"
| "write_meter (M_Usage m) q = q\<lparr>pbm_MeterId := ucast ACL_ID,
     pbm_Usage := write_part pb_UsageMeter_zero (UsageMeter_WriteToPB m) (pbm_Usage q), pbm_Flow := None, pbm_App := None\<rparr>"
| "write_meter (M_App m) q = q\<lparr>pbm_MeterId := ucast APP_ID,
     pbm_App := write_part pb_AppMeter_zero (AppMeter_WriteToPB m) (pbm_App q), pbm_Usage := None, pbm_Flow := None\<rparr>"

definition Document_WriteToPB :: "Document \<Rightarrow> pb_Document \<Rightarrow> pb_Document option" where
  "Document_WriteToPB d p = (case (doc_Tagger d, doc_Meter d) of
     (Some (T_MiniTag t), Some m) \<Rightarrow> Some (p\<lparr>pbd_Timestamp := doc_Timestamp d,
       pbd_Tag := write_part pb_MiniTag_zero (MiniTag_WriteToPB t) (pbd_Tag p),
       pbd_Meter := write_part pb_Meter_zero (write_meter m) (pbd_Meter p),
       pbd_Flags := doc_Flags d\<rparr>)
   | _ \<Rightarrow> None)"

text \<open>The parts of the message that the meter did not need are put back for the next document.\<close>

definition or_else :: "'a option \<Rightarrow> 'a option \<Rightarrow> 'a option" where
  "or_else x y = (if x = None then y else x)"

definition put_back :: "pb_Meter \<Rightarrow> pb_Meter \<Rightarrow> pb_Meter" where
  "put_back q m = m\<lparr>pbm_Flow := or_else (pbm_Flow m) (pbm_Flow q), pbm_App := or_else (pbm_App m) (pbm_App q),
     pbm_Usage := or_else (pbm_Usage m) (pbm_Usage q)\<rparr>"

definition Document_EncodePB :: "pb_Document PBCodec \<Rightarrow> Document \<Rightarrow> pb_Document \<Rightarrow> SimpleEncoder \<Rightarrow> (SimpleEncoder \<times> pb_Document) option" where
  "Document_EncodePB pb d p e = do {
     let q = (case pbd_Meter p of None \<Rightarrow> pb_Meter_zero | Some q \<Rightarrow> q);
     p \<leftarrow> Document_WriteToPB d (p\<lparr>pbd_Meter := Some q\<rparr>);
     e \<leftarrow> WritePB pb p e;
     Some (e, p\<lparr>pbd_Meter := map_option (put_back q) (pbd_Meter p)\<rparr>)
   }"

section \<open>Decoding\<close>

datatype doc_error = No_Input_Decoder | Decode_Failed | Unknown_Meter u8

text \<open>The meter of a message: \<open>Some None\<close> for an unknown identifier.\<close>

definition read_meter :: "FlowMeter \<times> UsageMeter \<times> AppMeter \<Rightarrow> pb_Meter \<Rightarrow> Meter option option" where
  "read_meter = (\<lambda>(fm, um, am) q. (let meterID = ucast (pbm_MeterId q) in
     if meterID = FLOW_ID then do { f \<leftarrow> pbm_Flow q; m \<leftarrow> FlowMeter_ReadFromPB f fm; Some (Some (M_Flow m)) }
     else if meterID = ACL_ID then do { u \<leftarrow> pbm_Usage q; Some (Some (M_Usage (UsageMeter_ReadFromPB u um))) }
     else if meterID = APP_ID then do { a \<leftarrow> pbm_App q; m \<leftarrow> AppMeter_ReadFromPB a am; Some (Some (M_App m)) }
     else Some None))"

definition zero_tag :: zTag where
  "zero_tag = \<lparr>tag_Field = Field_zero, tag_Code = 0, tag_id = []\<rparr>"

definition DecodePB :: "pb_Document PBCodec \<Rightarrow> FlowMeter \<times> UsageMeter \<times> AppMeter \<Rightarrow> SimpleDecoder option \<Rightarrow> pb_Document
    \<Rightarrow> ((doc_error + Document) \<times> SimpleDecoder option \<times> pb_Document) option" where
  "DecodePB pb got decoder pbDoc = (case decoder of
     None \<Rightarrow> Some (Inl No_Input_Decoder, None, pbDoc)
   | Some d \<Rightarrow> (case ReadPB pb pbDoc d of ((er, p), d) \<Rightarrow>
       if Failed d \<or> er \<noteq> None then Some (Inl Decode_Failed, Some d, p)
       else do {
         tagPB \<leftarrow> pbd_Tag p;
         t \<leftarrow> Tag_ReadFromPB tagPB zero_tag;
         q \<leftarrow> pbd_Meter p;
         m \<leftarrow> read_meter got q;
         Some (case m of
             None \<Rightarrow> Inl (Unknown_Meter (ucast (pbm_MeterId q)))
           | Some m \<Rightarrow> Inr (AcquireDocument\<lparr>doc_Timestamp := pbd_Timestamp p, doc_Tagger := Some (T_Tag t), doc_Meter := Some m,
               doc_Flags := pbd_Flags p\<rparr>),
           Some d, p)
       }))"

definition DecodeForQueueMonitor :: "pb_Document PBCodec \<Rightarrow> FlowMeter \<times> UsageMeter \<times> AppMeter \<Rightarrow> SimpleDecoder
    \<Rightarrow> ((doc_error + Document) \<times> SimpleDecoder) option" where
  "DecodeForQueueMonitor pb got decoder = (case ReadPB pb pb_Document_zero decoder of ((_, p), d) \<Rightarrow>
     if Failed d then Some (Inl Decode_Failed, d)
     else do {
       tagPB \<leftarrow> pbd_Tag p;
       t \<leftarrow> Tag_ReadFromPB tagPB zero_tag;
       q \<leftarrow> pbd_Meter p;
       m \<leftarrow> read_meter got q;
       Some (Inr (Document_zero\<lparr>doc_Timestamp := pbd_Timestamp p, doc_Tagger := Some (T_Tag t), doc_Meter := m, doc_Flags := pbd_Flags p\<rparr>), d)
     })"

section \<open>Storing\<close>

definition Document_WriteBlock :: "('e, 'b) column_append \<Rightarrow> Document \<Rightarrow> 'b Block \<Rightarrow> ('e option \<times> 'b Block) option" where
  "Document_WriteBlock app d b = (case doc_Tagger d of
     Some (T_Tag t) \<Rightarrow> (case Tag_WriteBlock app (doc_Timestamp d) t b of
       None \<Rightarrow> None
     | Some (Some er, b, _) \<Rightarrow> Some (Some er, b)
     | Some (None, b, _) \<Rightarrow> map_option (\<lambda>m. Meter_WriteBlock app m b) (doc_Meter d))
   | _ \<Rightarrow> None)"

definition Document_TableID :: "Document \<Rightarrow> u8 option option" where
  "Document_TableID d = (case doc_Tagger d of
     Some (T_Tag t) \<Rightarrow> Some (Tag_TableID (doc_Flags d AND FLAG_PER_SECOND_METRICS = 1) t)
   | _ \<Rightarrow> None)"

section \<open>Laws\<close>

text \<open>Every field of a message is written, so what it held before does not matter.\<close>

definition fills :: "('p \<Rightarrow> 'p) \<Rightarrow> bool" where
  "fills w \<longleftrightarrow> (\<forall>p q. w p = w q)"

lemma fillsI: "(\<And>p q. w p = w q) \<Longrightarrow> fills w"
  by (simp add: fills_def)

lemma fills_part: "fills w \<Longrightarrow> write_part z w x = Some (w z)"
  unfolding write_part_def fills_def by (rule arg_cong [of _ _ Some]) blast

lemma basic_fills:
  "fills (Traffic_WriteToPB tr)" "fills (Latency_WriteToPB la)" "fills (Performance_WriteToPB pe)" "fills (Anomaly_WriteToPB an)"
  "fills (FlowLoad_WriteToPB fl)" "fills (AppTraffic_WriteToPB atr)" "fills (AppLatency_WriteToPB ala)" "fills (AppAnomaly_WriteToPB aan)"
  "fills (UsageMeter_WriteToPB u)" "fills (MiniField_WriteToPB mf)"
  by (rule fillsI, rule pb_Traffic.equality pb_Latency.equality pb_Performance.equality pb_Anomaly.equality pb_FlowLoad.equality
      pb_AppTraffic.equality pb_AppLatency.equality pb_AppAnomaly.equality pb_UsageMeter.equality pb_MiniField.equality;
      simp add: Traffic_WriteToPB_def Latency_WriteToPB_def Performance_WriteToPB_def Anomaly_WriteToPB_def FlowLoad_WriteToPB_def
        AppTraffic_WriteToPB_def AppLatency_WriteToPB_def AppAnomaly_WriteToPB_def UsageMeter_WriteToPB_def MiniField_WriteToPB_def)+

lemma meter_fills: "fills (FlowMeter_WriteToPB f)" "fills (AppMeter_WriteToPB a)" "fills (MiniTag_WriteToPB t)"
  by (rule fillsI, rule pb_FlowMeter.equality pb_AppMeter.equality pb_MiniTag.equality;
      simp add: FlowMeter_WriteToPB_def AppMeter_WriteToPB_def MiniTag_WriteToPB_def basic_fills [THEN fills_part])+

lemma write_meter_fills: "fills (write_meter m)"
  by (rule fillsI, rule pb_Meter.equality; cases m; simp add: basic_fills [THEN fills_part] meter_fills [THEN fills_part])

lemmas part_fills = basic_fills [THEN fills_part] meter_fills [THEN fills_part] write_meter_fills [THEN fills_part]

lemma Document_WriteToPB_any: "Document_WriteToPB d p = Document_WriteToPB d q"
proof -
  have "p\<lparr>pbd_Timestamp := a, pbd_Tag := b, pbd_Meter := c, pbd_Flags := e\<rparr> = q\<lparr>pbd_Timestamp := a, pbd_Tag := b, pbd_Meter := c, pbd_Flags := e\<rparr>" for a b c e
    by (rule pb_Document.equality) simp_all
  then show ?thesis by (simp add: Document_WriteToPB_def part_fills split: option.split Tagger.split)
qed

lemma meter_ids [simp]: "ucast (ucast FLOW_ID :: u32) = FLOW_ID" "ucast (ucast ACL_ID :: u32) = ACL_ID" "ucast (ucast APP_ID :: u32) = APP_ID"
  "FLOW_ID \<noteq> ACL_ID" "FLOW_ID \<noteq> APP_ID" "ACL_ID \<noteq> APP_ID" "ACL_ID \<noteq> FLOW_ID" "APP_ID \<noteq> FLOW_ID" "APP_ID \<noteq> ACL_ID"
  by (simp_all add: FLOW_ID_def ACL_ID_def APP_ID_def)

lemma read_write_meter: "read_meter got (write_meter m q) = Some (Some m)"
  by (cases got; cases m) (simp_all add: read_meter_def Let_def part_fills FlowMeter_pb AppMeter_pb)

text \<open>The document the server should have of the document of an agent.\<close>

definition received :: "Document \<Rightarrow> MiniTag \<Rightarrow> Document" where
  "received d t = d\<lparr>doc_refs := 1, doc_Tagger := Some (T_Tag \<lparr>tag_Field = field_of_mini (mt_Code t) (mt_Field t),
     tag_Code = pb_code (mt_Code t), tag_id = []\<rparr>)\<rparr>"

lemma DecodePB_written:
  assumes "doc_Tagger d = Some (T_MiniTag t)" "doc_Meter d = Some m" "mini_ok (mt_Field t)"
    and "Document_WriteToPB d p = Some p'" "ReadPB pb pbDoc dec = ((None, p'), dec')" "\<not> Failed dec'"
  shows "DecodePB pb got (Some dec) pbDoc = Some (Inr (received d t), Some dec', p')"
proof -
  have tg: "Tag_ReadFromPB (MiniTag_WriteToPB t q) zero_tag =
      Some \<lparr>tag_Field = field_of_mini (mt_Code t) (mt_Field t), tag_Code = pb_code (mt_Code t), tag_id = []\<rparr>" for q
    unfolding zero_tag_def by (rule MiniTag_pb [OF assms(3)])
  have p': "pbd_Timestamp p' = doc_Timestamp d" "pbd_Tag p' = Some (MiniTag_WriteToPB t pb_MiniTag_zero)"
      "pbd_Meter p' = Some (write_meter m pb_Meter_zero)" "pbd_Flags p' = doc_Flags d"
    using assms(1,2,4) by (auto simp: Document_WriteToPB_def part_fills)
  have "AcquireDocument\<lparr>doc_Timestamp := pbd_Timestamp p', doc_Tagger := Some (T_Tag x), doc_Meter := Some m, doc_Flags := pbd_Flags p'\<rparr>
      = d\<lparr>doc_refs := 1, doc_Tagger := Some (T_Tag x)\<rparr>" for x
    by (rule Document.equality) (simp_all add: AcquireDocument_def ReferenceCount_Reset_def Document_zero_def p' assms(2))
  then show ?thesis using assms(5,6) p' by (simp add: DecodePB_def tg read_write_meter received_def)
qed

lemma EncodePB_written:
  assumes "Document_WriteToPB d pb_Document_zero = Some v"
  shows "Document_EncodePB pb d p e = map_option (\<lambda>e'. (e', v\<lparr>pbd_Meter := map_option (put_back (case pbd_Meter p of None \<Rightarrow> pb_Meter_zero
    | Some q \<Rightarrow> q)) (pbd_Meter v)\<rparr>)) (WritePB pb v e)"
  using Document_WriteToPB_any [of d _ pb_Document_zero] assms
  by (simp add: Document_EncodePB_def Let_def map_option_bind map_option_case split: option.split bind_split)

text \<open>The parts a message needs for its document to be read.\<close>

definition has_flow :: "pb_FlowMeter \<Rightarrow> bool" where
  "has_flow f \<longleftrightarrow> pbfm_Traffic f \<noteq> None \<and> pbfm_Latency f \<noteq> None \<and> pbfm_Performance f \<noteq> None \<and> pbfm_Anomaly f \<noteq> None \<and> pbfm_FlowLoad f \<noteq> None"

definition has_app :: "pb_AppMeter \<Rightarrow> bool" where
  "has_app a \<longleftrightarrow> pbam_Traffic a \<noteq> None \<and> pbam_Latency a \<noteq> None \<and> pbam_Anomaly a \<noteq> None"

definition meter_complete :: "pb_Meter \<Rightarrow> bool" where
  "meter_complete q \<longleftrightarrow> (let i = ucast (pbm_MeterId q) in
     (i = FLOW_ID \<longrightarrow> (\<exists>f. pbm_Flow q = Some f \<and> has_flow f)) \<and> (i = ACL_ID \<longrightarrow> pbm_Usage q \<noteq> None) \<and>
     (i = APP_ID \<longrightarrow> (\<exists>a. pbm_App q = Some a \<and> has_app a)))"

definition tag_complete :: "pb_MiniTag \<Rightarrow> bool" where
  "tag_complete p \<longleftrightarrow> (\<exists>f. pbmt_Field p = Some f \<and> (let n = (if (ucast (pbmf_IsIpv6 f) :: u8) \<noteq> 0 then 16 else 4) in
     n \<le> length (pbmf_Ip f) \<and> (has (pbmt_Code p) IPPath \<longrightarrow> n \<le> length (pbmf_Ip1 f))))"

lemma read_meter_None: "read_meter got q = None \<longleftrightarrow> \<not> meter_complete q"
  by (cases got) (auto simp: read_meter_def meter_complete_def Let_def FlowMeter_ReadFromPB_def AppMeter_ReadFromPB_def has_flow_def has_app_def
      split: bind_splits)

lemma read_meter_kind:
  assumes "read_meter got q = Some r"
  shows "case r of None \<Rightarrow> ucast (pbm_MeterId q) \<notin> {FLOW_ID, ACL_ID, APP_ID}
    | Some m \<Rightarrow> ucast (pbm_MeterId q) = (case m of M_Flow _ \<Rightarrow> FLOW_ID | M_Usage _ \<Rightarrow> ACL_ID | M_App _ \<Rightarrow> APP_ID)"
  using assms by (cases got) (auto simp: read_meter_def Let_def split: if_splits bind_splits)

lemma Tag_ReadFromPB_None: "Tag_ReadFromPB p t = None \<longleftrightarrow> \<not> tag_complete p"
  by (cases "pbmt_Field p") (auto simp: Tag_ReadFromPB_def tag_complete_def Let_def read_ip6_def read_ip4_def prefix_of_def split: bind_splits if_splits)

section \<open>Rows of documents\<close>

text \<open>The meters of a table.\<close>

fun table_meter :: "nat \<Rightarrow> Meter \<Rightarrow> bool" where
  "table_meter i (M_Flow _) \<longleftrightarrow> i mod 5 \<in> {VTAP_FLOW_PORT_1M, VTAP_FLOW_EDGE_PORT_1M}"
| "table_meter i (M_App _) \<longleftrightarrow> i mod 5 \<in> {VTAP_APP_PORT_1M, VTAP_APP_EDGE_PORT_1M}"
| "table_meter i (M_Usage _) \<longleftrightarrow> i mod 5 = VTAP_ACL_1M"

lemma table_meter_columns: "table_meter i m \<Longrightarrow> meter_columns cm (i mod 5) = Meter_Columns cm m"
  by (cases m) (auto simp: meter_columns_def table_id_defs)

text \<open>What the table of a tag says about its code.\<close>

lemma TableID_code:
  assumes "Tag_TableID second t = Some i" "i < 9"
  obtains j where "j < 5" "metricsTableCodes ! j = tag_Code t AND NOT (Code MAC) AND NOT (Code MACPath)"
    "unat i = (if second then j + 5 else j)" "metricsTableCodes ! unat i = metricsTableCodes ! j"
proof -
  obtain j where j: "code_index metricsTableCodes 0 (tag_Code t AND NOT (Code MAC) AND NOT (Code MACPath)) = Some j"
    "i = (if second then of_nat j + of_nat VTAP_FLOW_PORT_1S else of_nat j)"
    using assms(1) by (auto simp: Tag_TableID_def)
  have less: "j < 5" using code_index_minute [OF j(1)] .
  have u: "unat i = (if second then j + 5 else j)" using less unfolding j(2) VTAP_FLOW_PORT_1S_def
    by (auto simp: unat_of_nat unat_word_ariths)
  have "metricsTableCodes ! (j + 5) = metricsTableCodes ! j" if "j < 4"
    using that by (auto simp: metricsTableCodes_def less_Suc_eq numeral_eq_Suc)
  moreover have "unat i < 9" using assms(2) by (simp add: word_less_nat_alt)
  ultimately have "metricsTableCodes ! unat i = metricsTableCodes ! j" using u less by (auto split: if_splits)
  then show thesis using that less u code_index_Some [OF j(1)] by simp
qed

lemma TableID_fits:
  assumes "Tag_TableID second t = Some i" "i < 9" "ip6_ok (tf_IP6 (side0 (tag_Field t)))" "ip6_ok (tf_IP6 (side1 (tag_Field t)))"
    and "has (tag_Code t) TagType \<Longrightarrow> tf_TagType (tag_Field t) = TAG_TYPE_TUNNEL_IP_ID"
  shows "row_fits (GenTagColumns cm (metricsTableCodes ! unat i)) (tag_row time t)"
proof -
  obtain j where j: "j < 5" "metricsTableCodes ! j = tag_Code t AND NOT (Code MAC) AND NOT (Code MACPath)"
    "metricsTableCodes ! unat i = metricsTableCodes ! j"
    using TableID_code [OF assms(1,2)] by metis
  have "\<not> (has (metricsTableCodes ! j) Resource \<and> has (metricsTableCodes ! j) ResourcePath)"
    using table_codes(1) j(1) by (simp add: list_all_length metricsTableCodes_def)
  then have "\<not> (has (tag_Code t) Resource \<and> has (tag_Code t) ResourcePath)" by (simp add: j(2) has_masked)
  from tag_row_fits [OF assms(3,4) this] assms(5) show ?thesis by (simp add: j(2,3) GenTagColumns_masked)
qed

lemma Document_WriteBlock_row:
  assumes "doc_Tagger d = Some (T_Tag t)" "doc_Meter d = Some m"
    and "has (tag_Code t) TAPSide \<Longrightarrow> TAPSide_String (tf_TAPSide (tag_Field t)) \<noteq> None"
  shows "Document_WriteBlock app d b = Some (write_each (block_append app) (tag_row (doc_Timestamp d) t @ Meter_row m) b)"
proof -
  obtain er b' t' where w: "Tag_WriteBlock app (doc_Timestamp d) t b = Some (er, b', t')"
    "write_each (block_append app) (tag_row (doc_Timestamp d) t) b = (er, b')"
    using Tag_WriteBlock_row [OF assms(3), of app "doc_Timestamp d" b] by (auto simp: outcome_def)
  have "Meter_WriteBlock app m = write_each (block_append app) (Meter_row m)"
    using Meter_WriteBlock_row by (simp add: writes_def)
  then show ?thesis using w assms(1,2)
    by (simp add: Document_WriteBlock_def write_each_append and_then_def split: option.split)
qed

section \<open>Properties\<close>

text \<open>C2: A document an agent encodes, into a message used before or not, is decoded by the server to the same time, flags and
  meter, and to a full tag with the addresses, hardware addresses, ports, types and other fields of the small one, its direction also
  as capture side, and its code with the capture side in place of the direction for edges, whatever meters the pools return.
  One field is lost: \<^verbatim>\<open>GlobalThreadID\<close>, which tells the agents and their threads apart, is in the message and is not
  read, so the received tag has 0 there. The generated code is assumed to marshal the message to bytes that it unmarshals to the
  same message.\<close>

theorem document_round_trip:
  assumes "doc_Tagger d = Some (T_MiniTag t)" "doc_Meter d = Some m" "mini_ok (mt_Field t)"
    and "Document_WriteToPB d pb_Document_zero = Some v" "marshals_to pb v w" "pb_Unmarshal pb q w = Some v" "length w < 2 ^ 32"
  shows "\<exists>e' p'. Document_EncodePB pb d p e = Some (e', p') \<and>
    DecodePB pb got (Some ((Decoder_Init (Encoder_Bytes e') spare dec)\<lparr>dec_offset := length (enc_buf e)\<rparr>)) q =
      Some (Inr (received d t), Some ((Decoder_Init (Encoder_Bytes e') spare dec)\<lparr>dec_offset := length (Encoder_Bytes e')\<rparr>), v) \<and>
    (\<exists>tp f. pbd_Tag v = Some tp \<and> pbmt_Field tp = Some f \<and> pbmf_GlobalThreadId f = ucast (mf_GlobalThreadID (mt_Field t))) \<and>
    (\<exists>g. doc_Tagger (received d t) = Some (T_Tag g) \<and> tf_GlobalThreadID (tag_Field g) = 0)"
proof -
  let ?e = "append_buf (put_le 4 (of_nat (length w) :: u32) @ w) e"
  let ?d = "(Decoder_Init (Encoder_Bytes ?e) spare dec)\<lparr>dec_offset := length (enc_buf e)\<rparr>"
  let ?d' = "(Decoder_Init (Encoder_Bytes ?e) spare dec)\<lparr>dec_offset := length (Encoder_Bytes ?e)\<rparr>"
  have "at ?d ((put_le 4 (of_nat (length w) :: u32) @ w) @ [])"
    by (simp add: at_def Decoder_Init_def Encoder_Bytes_def)
  from ReadPB_wire [OF this assms(7,6)] have "ReadPB pb q ?d = ((None, v), ?d')"
    by (simp add: advance_def Encoder_Bytes_def add.commute add.left_commute)
  moreover have "\<not> Failed ?d'" by (simp add: Failed_def Decoder_Init_def)
  ultimately have "DecodePB pb got (Some ?d) q = Some (Inr (received d t), Some ?d', v)"
    by (rule DecodePB_written [OF assms(1-4)])
  moreover obtain p' where "Document_EncodePB pb d p e = Some (?e, p')"
    using EncodePB_written [OF assms(4), of pb p e] WritePB_wire [OF assms(5), of e] by simp
  moreover have "\<exists>tp f. pbd_Tag v = Some tp \<and> pbmt_Field tp = Some f \<and> pbmf_GlobalThreadId f = ucast (mf_GlobalThreadID (mt_Field t))"
    using assms(1,2,4) by (auto simp: Document_WriteToPB_def part_fills MiniTag_WriteToPB_def MiniField_WriteToPB_def)
  moreover have "tf_GlobalThreadID (field_of_mini c f) = 0" for c f by (simp add: field_of_mini_def Field_zero_def)
  ultimately show ?thesis by (simp add: received_def)
qed

definition sample_document :: Document where
  "sample_document = Document_zero\<lparr>doc_Timestamp := 60,
     doc_Tagger := Some (T_MiniTag \<lparr>mt_Field = MiniField_zero\<lparr>mf_VTAPID := 3\<rparr>, mt_Code = codes [VTAPID], mt_id = []\<rparr>),
     doc_Meter := Some (M_Usage \<lparr>us_PacketTx = 1, us_PacketRx = 2, us_ByteTx = 3, us_ByteRx = 4, us_L3ByteTx = 5, us_L3ByteRx = 6,
       us_L4ByteTx = 7, us_L4ByteRx = 8\<rparr>)\<rparr>"

theorem document_round_trip_witness:
  "let v = the (Document_WriteToPB sample_document pb_Document_zero);
       pb = \<lparr>pb_Size = (\<lambda>_. 1), pb_MarshalTo = (\<lambda>x buf. case buf of [] \<Rightarrow> None | _ # r \<Rightarrow> Some (42 # r, 1)),
         pb_Unmarshal = (\<lambda>x w. if w = [42] then Some v else None)\<rparr>;
       e = \<lparr>enc_buf = [9], enc_refs = 1\<rparr>; dec = \<lparr>dec_buf = [], dec_spare = [], dec_offset = 0, dec_err = 0\<rparr>
   in \<forall>got. \<exists>e' p'. Document_EncodePB pb sample_document pb_Document_zero e = Some (e', p') \<and>
     (\<exists>doc r. DecodePB pb got (Some ((Decoder_Init (Encoder_Bytes e') [] dec)\<lparr>dec_offset := 1\<rparr>)) pb_Document_zero = Some (Inr doc, r) \<and>
        doc_Timestamp doc = 60 \<and> doc_Meter doc = doc_Meter sample_document)"
proof -
  let ?v = "the (Document_WriteToPB sample_document pb_Document_zero)"
  let ?pb = "\<lparr>pb_Size = (\<lambda>_. 1), pb_MarshalTo = (\<lambda>x buf. case buf of [] \<Rightarrow> None | _ # r \<Rightarrow> Some (42 # r, 1)),
         pb_Unmarshal = (\<lambda>x w. if w = [42] then Some ?v else None)\<rparr> :: pb_Document PBCodec"
  have a: "doc_Tagger sample_document = Some (T_MiniTag \<lparr>mt_Field = MiniField_zero\<lparr>mf_VTAPID := 3\<rparr>, mt_Code = codes [VTAPID], mt_id = []\<rparr>)"
    "mini_ok (MiniField_zero\<lparr>mf_VTAPID := 3\<rparr>)"
    by (simp_all add: sample_document_def mini_ok_def MiniField_zero_def)
  have v: "Document_WriteToPB sample_document pb_Document_zero = Some ?v"
    by (simp add: sample_document_def Document_WriteToPB_def)
  have m: "marshals_to ?pb ?v [42]" by (auto simp: marshals_to_def split: list.split)
  have mt: "\<exists>m. doc_Meter sample_document = Some m" by (simp add: sample_document_def)
  then obtain m where m': "doc_Meter sample_document = Some m" by blast
  note round_trip = document_round_trip [OF a(1) m' _ v m, of pb_Document_zero pb_Document_zero "\<lparr>enc_buf = [9], enc_refs = 1\<rparr>" _ "[]"
      "\<lparr>dec_buf = [], dec_spare = [], dec_offset = 0, dec_err = 0\<rparr>"]
  show ?thesis unfolding Let_def
  proof (rule allI)
    fix got :: "FlowMeter \<times> UsageMeter \<times> AppMeter"
    from round_trip [of got] a(2) show "\<exists>e' p'. Document_EncodePB ?pb sample_document pb_Document_zero \<lparr>enc_buf = [9], enc_refs = 1\<rparr> = Some (e', p') \<and>
     (\<exists>doc r. DecodePB ?pb got (Some ((Decoder_Init (Encoder_Bytes e') [] \<lparr>dec_buf = [], dec_spare = [], dec_offset = 0, dec_err = 0\<rparr>)\<lparr>dec_offset := 1\<rparr>)) pb_Document_zero
         = Some (Inr doc, r) \<and> doc_Timestamp doc = 60 \<and> doc_Meter doc = doc_Meter sample_document)"
      by (auto simp: received_def) (simp add: sample_document_def)
  qed
qed

text \<open>C20: A message that is used again gives the same bytes as a new one. Afterwards it has the part of the meter just written as a
  new message would have it, and the parts of the other meters with the values they had before.\<close>

theorem document_message_reuse:
  "map_option fst (Document_EncodePB pb d p e) = map_option fst (Document_EncodePB pb d pb_Document_zero e) \<and>
   (case Document_EncodePB pb d p e of None \<Rightarrow> True
    | Some (e', p') \<Rightarrow> (let q = (case pbd_Meter p of None \<Rightarrow> pb_Meter_zero | Some q \<Rightarrow> q) in
        \<exists>q'. pbd_Meter p' = Some q' \<and>
          pbm_Flow q' = (case doc_Meter d of Some (M_Flow m) \<Rightarrow> Some (FlowMeter_WriteToPB m pb_FlowMeter_zero) | _ \<Rightarrow> pbm_Flow q) \<and>
          pbm_Usage q' = (case doc_Meter d of Some (M_Usage m) \<Rightarrow> Some (UsageMeter_WriteToPB m pb_UsageMeter_zero) | _ \<Rightarrow> pbm_Usage q) \<and>
          pbm_App q' = (case doc_Meter d of Some (M_App m) \<Rightarrow> Some (AppMeter_WriteToPB m pb_AppMeter_zero) | _ \<Rightarrow> pbm_App q)))"
proof (cases "Document_WriteToPB d pb_Document_zero")
  case None
  then have "Document_EncodePB pb d x e = None" for x
    using Document_WriteToPB_any [of d _ pb_Document_zero] by (simp add: Document_EncodePB_def Let_def)
  then show ?thesis by simp
next
  case (Some v)
  then obtain m where m: "doc_Meter d = Some m" "pbd_Meter v = Some (write_meter m pb_Meter_zero)"
    by (auto simp: Document_WriteToPB_def part_fills split: option.splits Tagger.splits)
  show ?thesis
    by (cases m) (auto simp: EncodePB_written [OF Some] m put_back_def or_else_def part_fills pb_Meter_zero_def option.map_comp comp_def
        split: option.split)
qed

text \<open>C22: What decoding gives, for every input. It panics exactly when the bytes are a message that lacks a part its kind of document
  needs: the tag and its field, an address of the length its family has (the second one for a path), the meter and the parts of the
  meter that its identifier names. A missing decoder, bytes that are cut or no message, and a complete message with the identifier of
  no meter give the errors for them; every other message gives a document with its time and flags and a meter of the kind
  the identifier names.\<close>

theorem document_decode_outcome:
  "DecodePB pb got None q = Some (Inl No_Input_Decoder, None, q) \<and>
   (case ReadPB pb q dec of ((er, p), dec') \<Rightarrow>
      if Failed dec' \<or> er \<noteq> None then DecodePB pb got (Some dec) q = Some (Inl Decode_Failed, Some dec', p)
      else case (pbd_Tag p, pbd_Meter p) of
          (Some tp, Some mp) \<Rightarrow> (let i = ucast (pbm_MeterId mp) in
            if \<not> (tag_complete tp \<and> meter_complete mp) then DecodePB pb got (Some dec) q = None
            else if i \<notin> {FLOW_ID, ACL_ID, APP_ID} then DecodePB pb got (Some dec) q = Some (Inl (Unknown_Meter i), Some dec', p)
            else \<exists>doc m. DecodePB pb got (Some dec) q = Some (Inr doc, Some dec', p) \<and> doc_Timestamp doc = pbd_Timestamp p \<and>
              doc_Flags doc = pbd_Flags p \<and> doc_Meter doc = Some m \<and>
              i = (case m of M_Flow _ \<Rightarrow> FLOW_ID | M_Usage _ \<Rightarrow> ACL_ID | M_App _ \<Rightarrow> APP_ID))
        | _ \<Rightarrow> DecodePB pb got (Some dec) q = None)"
proof -
  obtain er p dec' where r: "ReadPB pb q dec = ((er, p), dec')" by (metis surj_pair)
  have none: "DecodePB pb got None q = Some (Inl No_Input_Decoder, None, q)" by (simp add: DecodePB_def)
  show ?thesis
  proof (cases "Failed dec' \<or> er \<noteq> None")
    case True
    then show ?thesis using none by (auto simp: DecodePB_def r)
  next
    case False
    note ok = r False none
    show ?thesis
    proof (cases "pbd_Tag p"; cases "pbd_Meter p")
      fix tp mp assume pm: "pbd_Tag p = Some tp" "pbd_Meter p = Some mp"
      let ?i = "ucast (pbm_MeterId mp)"
      show ?thesis
      proof (cases "tag_complete tp \<and> meter_complete mp")
        case True
        then obtain t m where tm: "Tag_ReadFromPB tp zero_tag = Some t" "read_meter got mp = Some m"
          using Tag_ReadFromPB_None [of tp] read_meter_None [of got mp] by blast
        then show ?thesis using ok pm True read_meter_kind [OF tm(2)] by (cases m) (auto simp: DecodePB_def Let_def split: Meter.splits)
      qed (use ok pm in \<open>auto simp: DecodePB_def Let_def Option.bind_eq_None_conv Tag_ReadFromPB_None read_meter_None\<close>)
    qed (use ok in \<open>simp_all add: DecodePB_def Option.bind_eq_None_conv\<close>)
  qed
qed

definition unknown_message :: pb_Document where
  "unknown_message = pb_Document_zero\<lparr>pbd_Tag := Some \<lparr>pbmt_Field = Some (pb_MiniField_zero\<lparr>pbmf_Ip := replicate 4 0\<rparr>), pbmt_Code = 0\<rparr>,
     pbd_Meter := Some (pb_Meter_zero\<lparr>pbm_MeterId := 9\<rparr>)\<rparr>"

theorem document_decode_outcome_witness:
  "let pb = \<lparr>pb_Size = (\<lambda>_. 1), pb_MarshalTo = (\<lambda>_ _. None),
         pb_Unmarshal = (\<lambda>_ w. if w = [42] then Some unknown_message else Some pb_Document_zero)\<rparr>;
       dec = (\<lambda>bs. \<lparr>dec_buf = bs, dec_spare = [], dec_offset = 0, dec_err = 0\<rparr>)
   in \<forall>got. (\<exists>r. DecodePB pb got (Some (dec [1, 0, 0, 0, 42])) pb_Document_zero = Some (Inl (Unknown_Meter 9), r)) \<and>
     DecodePB pb got (Some (dec [1, 0, 0, 0, 43])) pb_Document_zero = None \<and>
     (\<exists>r. DecodePB pb got (Some (dec [1, 0, 0])) pb_Document_zero = Some (Inl Decode_Failed, r))"
  unfolding Let_def
proof (rule allI)
  fix got :: "FlowMeter \<times> UsageMeter \<times> AppMeter"
  let ?pb = "\<lparr>pb_Size = (\<lambda>_. 1), pb_MarshalTo = (\<lambda>_ _. None),
         pb_Unmarshal = (\<lambda>_ w. if w = [42] then Some unknown_message else Some pb_Document_zero)\<rparr> :: pb_Document PBCodec"
  let ?dec = "\<lambda>bs. \<lparr>dec_buf = bs, dec_spare = [], dec_offset = 0, dec_err = 0\<rparr>"
  have r: "ReadPB ?pb pb_Document_zero (?dec [1, 0, 0, 0, 42]) = ((None, unknown_message), advance 5 (?dec [1, 0, 0, 0, 42]))"
    "ReadPB ?pb pb_Document_zero (?dec [1, 0, 0, 0, 43]) = ((None, pb_Document_zero), advance 5 (?dec [1, 0, 0, 0, 43]))"
    "ReadPB ?pb pb_Document_zero (?dec [1, 0, 0]) = ((Some PB_OutOfBuf, pb_Document_zero), count_err (advance 4 (?dec [1, 0, 0])))"
    by (simp_all add: ReadPB_def advance_def overrun_def passed_def subslice_def)
  have c: "tag_complete \<lparr>pbmt_Field = Some (pb_MiniField_zero\<lparr>pbmf_Ip := replicate 4 0\<rparr>), pbmt_Code = 0\<rparr>"
    "meter_complete (pb_Meter_zero\<lparr>pbm_MeterId := 9\<rparr>)" "9 \<notin> {FLOW_ID, ACL_ID, APP_ID}"
    by (simp_all add: tag_complete_def pb_MiniField_zero_def meter_complete_def FLOW_ID_def ACL_ID_def APP_ID_def Code_iff)
  have f: "\<not> Failed (advance 5 (?dec bs))" "Failed (count_err (advance 4 (?dec bs)))" for bs by (simp_all add: Failed_def)
  note out = document_decode_outcome [of ?pb got pb_Document_zero]
  show "(\<exists>r. DecodePB ?pb got (Some (?dec [1, 0, 0, 0, 42])) pb_Document_zero = Some (Inl (Unknown_Meter 9), r)) \<and>
     DecodePB ?pb got (Some (?dec [1, 0, 0, 0, 43])) pb_Document_zero = None \<and>
     (\<exists>r. DecodePB ?pb got (Some (?dec [1, 0, 0])) pb_Document_zero = Some (Inl Decode_Failed, r))"
  proof (intro conjI)
    show "\<exists>r. DecodePB ?pb got (Some (?dec [1, 0, 0, 0, 42])) pb_Document_zero = Some (Inl (Unknown_Meter 9), r)"
      using out [of "?dec [1, 0, 0, 0, 42]"] unfolding r using c f by (simp add: unknown_message_def Let_def)
    show "DecodePB ?pb got (Some (?dec [1, 0, 0, 0, 43])) pb_Document_zero = None"
      using out [of "?dec [1, 0, 0, 0, 43]"] unfolding r using f by (simp add: pb_Document_zero_def)
    show "\<exists>r. DecodePB ?pb got (Some (?dec [1, 0, 0])) pb_Document_zero = Some (Inl Decode_Failed, r)"
      using out [of "?dec [1, 0, 0]"] unfolding r using f by simp
  qed
qed

definition acl_code :: u64 where
  "acl_code = codes [ACLGID, TagType, TagValue, VTAPID]"

lemma acl_code_TableID: "Tag_TableID second (NewTag acl_code f) = Some (if second then 9 else 4)"
proof -
  have m: "acl_code AND NOT (Code MAC) AND NOT (Code MACPath) = acl_code"
  proof (rule bit_word_eqI)
    fix n :: nat assume n: "n < LENGTH(64)"
    have "\<not> has acl_code MAC" "\<not> has acl_code MACPath" by (simp_all add: acl_code_def has_codes)
    then show "bit (acl_code AND NOT (Code MAC) AND NOT (Code MACPath)) n \<longleftrightarrow> bit acl_code n"
      using n by (auto simp: bit_and_iff bit_not_iff bit_Code Code_iff)
  qed
  have "acl_code \<noteq> c" if "c \<in> {VTAP_FLOW_PORT, VTAP_FLOW_EDGE_PORT, VTAP_APP_PORT, VTAP_APP_EDGE_PORT}" for c
  proof -
    have "\<not> has c ACLGID" using that by (auto simp: table_code_defs has_codes)
    then show ?thesis by (auto simp: acl_code_def has_codes)
  qed
  then show ?thesis by (simp add: Tag_TableID_def NewTag_def m metricsTableCodes_def flip: acl_code_def) (simp add: VTAP_FLOW_PORT_1S_def)
qed

text \<open>C11: The row of a document fills the table its code selects: given a driver that accepts and logs every value, writing it puts
  one value of the right type into every column of that table, consecutively from the current index, when its meter is of the
  kind of the table, its addresses are missing or have 16 bytes, its capture side has a name and its tag value the type that
  is stored.\<close>

theorem document_row_fits_table:
  assumes "\<And>i v b. \<exists>b'. app i v b = (None, b') \<and> logged b' = logged b @ [(i, v)]"
    and "doc_Tagger d = Some (T_Tag t)" "doc_Meter d = Some m" "Document_TableID d = Some (Some i)" "i < 9" "table_meter (unat i) m"
    and "ip6_ok (tf_IP6 (side0 (tag_Field t)))" "ip6_ok (tf_IP6 (side1 (tag_Field t)))"
    and "has (tag_Code t) TAPSide \<Longrightarrow> tf_TAPSide (tag_Field t) < 43"
    and "has (tag_Code t) TagType \<Longrightarrow> tf_TagType (tag_Field t) = TAG_TYPE_TUNNEL_IP_ID"
  shows "\<exists>ts b' vs. GetMetricsTables cm engine version None = Some ts \<and> tbl_ID (ts ! unat i) = i \<and>
    Document_WriteBlock app d b = Some (None, b') \<and> row_fits (tbl_Columns (ts ! unat i)) vs \<and>
    index b' = index b + length (tbl_Columns (ts ! unat i)) \<and> logged (Batch b') = logged (Batch b) @ zip [index b..<index b'] vs"
proof -
  have i: "unat i < 9" using assms(5) by (simp add: word_less_nat_alt)
  obtain ts where ts: "GetMetricsTables cm engine version None = Some ts" and all: "\<forall>i<9. tbl_ID (ts ! i) = of_nat i \<and>
      tbl_GlobalName (ts ! i) = metricsTableNames ! i \<and> tbl_Columns (ts ! i) = GenTagColumns cm (metricsTableCodes ! i) @ meter_columns cm (i mod 5)"
    using GetMetricsTables_tables [of cm engine version] by blast
  have tab: "tbl_ID (ts ! unat i) = i" "tbl_Columns (ts ! unat i) = GenTagColumns cm (metricsTableCodes ! unat i) @ Meter_Columns cm m"
    using all i table_meter_columns [OF assms(6)] by simp_all
  let ?vs = "tag_row (doc_Timestamp d) t @ Meter_row m"
  have "Tag_TableID (doc_Flags d AND FLAG_PER_SECOND_METRICS = 1) t = Some i" using assms(2,4) by (simp add: Document_TableID_def)
  from TableID_fits [OF this assms(5,7,8)] assms(10)
  have tag: "row_fits (GenTagColumns cm (metricsTableCodes ! unat i)) (tag_row (doc_Timestamp d) t)" by blast
  have fits: "row_fits (tbl_Columns (ts ! unat i)) ?vs"
    unfolding tab(2) by (rule row_fits_append [OF tag row_fits_types [OF Meter_row_types]])
  then have l: "length ?vs = length (tbl_Columns (ts ! unat i))" unfolding row_fits_def by (metis list_all2_lengthD)
  have "has (tag_Code t) TAPSide \<Longrightarrow> TAPSide_String (tf_TAPSide (tag_Field t)) \<noteq> None"
    using assms(9) unfolding TAPSide_String_None by simp
  note w = Document_WriteBlock_row [OF assms(2,3) this, of app b]
  obtain b' where b': "write_each (block_append app) ?vs b = (None, b')" "index b' = index b + length ?vs"
    "logged (Batch b') = logged (Batch b) @ zip [index b..<index b + length ?vs] ?vs"
    using write_each_log [of app logged ?vs b] assms(1) by blast
  show ?thesis
    by (rule exI [of _ ts], rule exI [of _ b'], rule exI [of _ ?vs]) (use ts tab(1) w b' fits l in simp)
qed

definition acl_document :: Document where
  "acl_document = Document_zero\<lparr>doc_Timestamp := 60, doc_Tagger := Some (T_Tag (NewTag acl_code (Field_zero\<lparr>tf_TagType := 4\<rparr>))),
     doc_Meter := Some (M_Usage \<lparr>us_PacketTx = 1, us_PacketRx = 2, us_ByteTx = 3, us_ByteRx = 4, us_L3ByteTx = 5, us_L3ByteRx = 6,
       us_L4ByteTx = 7, us_L4ByteRx = 8\<rparr>)\<rparr>"

theorem document_row_fits_table_witness:
  "\<exists>ts b' vs. GetMetricsTables (\<lambda>_. []) MergeTree [] None = Some ts \<and>
     Document_WriteBlock (\<lambda>i v b. (None :: unit option, b @ [(i, v)])) acl_document \<lparr>Batch = [], index = 0\<rparr> = Some (None, b') \<and>
     row_fits (tbl_Columns (ts ! 4)) vs \<and> Batch b' = zip [0..<length (tbl_Columns (ts ! 4))] vs"
proof -
  let ?t = "NewTag acl_code (Field_zero\<lparr>tf_TagType := 4\<rparr>)"
  have d: "doc_Tagger acl_document = Some (T_Tag ?t)" "\<exists>m. doc_Meter acl_document = Some m \<and> table_meter 4 m"
    "Document_TableID acl_document = Some (Some 4)"
    by (simp_all add: acl_document_def Document_TableID_def acl_code_TableID Document_zero_def FLAG_PER_SECOND_METRICS_def table_id_defs)
  have t: "tag_Field ?t = Field_zero\<lparr>tf_TagType := 4\<rparr>" "tag_Code ?t = acl_code" by (simp_all add: NewTag_def)
  obtain m where m: "doc_Meter acl_document = Some m" "table_meter 4 m" using d(2) by blast
  have c: "ip6_ok (tf_IP6 (side0 (tag_Field ?t)))" "ip6_ok (tf_IP6 (side1 (tag_Field ?t)))" "tf_TagType (tag_Field ?t) = TAG_TYPE_TUNNEL_IP_ID"
    "\<not> has (tag_Code ?t) TAPSide"
    unfolding t by (simp_all add: ip6_ok_def Field_zero_def FieldSide_zero_def TAG_TYPE_TUNNEL_IP_ID_def acl_code_def has_codes)
  have "unat (4 :: u8) = 4" by simp
  with document_row_fits_table [OF _ d(1) m(1) d(3) _ _ c(1,2), of "\<lambda>i v b. (None :: unit option, b @ [(i, v)])" id "\<lambda>_. []" MergeTree "[]"
      "\<lparr>Batch = [], index = 0\<rparr>"] m(2) c(3,4)
  obtain ts b' vs where "GetMetricsTables (\<lambda>_. []) MergeTree [] None = Some ts"
    "Document_WriteBlock (\<lambda>i v b. (None :: unit option, b @ [(i, v)])) acl_document \<lparr>Batch = [], index = 0\<rparr> = Some (None, b')"
    "row_fits (tbl_Columns (ts ! 4)) vs" "index b' = length (tbl_Columns (ts ! 4))" "Batch b' = zip [0..<index b'] vs"
    by auto
  then show ?thesis by (intro exI [of _ ts] exI [of _ b'] exI [of _ vs]) simp
qed

text \<open>C40: The tables a code can select end with the minute table of the access lists: its tags have no table by the second, yet asking
  for one returns the identifier behind the last table, without an error.\<close>

theorem acl_second_without_table:
  "Tag_TableID True (NewTag acl_code f) = Some 9 \<and> Tag_TableID False (NewTag acl_code f) = Some 4 \<and>
   TableName 4 = Some (str ''vtap_acl.1m'') \<and> TableName 9 = None \<and>
   (case GetMetricsTables cm engine version None of None \<Rightarrow> False | Some ts \<Rightarrow> list_all (\<lambda>tb. tbl_ID tb \<noteq> 9) ts)"
proof -
  obtain ts where ts: "GetMetricsTables cm engine version None = Some ts" "length ts = 9" "\<forall>i<9. tbl_ID (ts ! i) = of_nat i"
    using GetMetricsTables_tables [of cm engine version] by blast
  have "(of_nat i :: u8) \<noteq> 9" if "i < 9" for i
    using that by (simp add: word_unat_eq_iff unat_of_nat)
  then have "list_all (\<lambda>tb. tbl_ID tb \<noteq> 9) ts" using ts(2,3) by (simp add: list_all_length)
  then show ?thesis by (simp add: acl_code_TableID ts(1) TableName_def metricsTableNames_def)
qed

text \<open>C39: The row of an access list tag whose tag type is not the stored one has a value less than the table has columns, because only the
  type is written: the capture agent lands in the column of the tag value, which has another type, and all that follows is one column early.\<close>

theorem acl_tag_value_missing:
  assumes "tf_TagType f \<noteq> TAG_TYPE_TUNNEL_IP_ID"
  shows "tag_row time (NewTag acl_code f) = [CkTime (uint time), CkUInt8 (tf_GlobalThreadID f), CkUInt16 (tf_ACLGID f), CkUInt8 (tf_TagType f), CkUInt16 (tf_VTAPID f)] \<and>
    map col_Name (GenTagColumns cm acl_code) = map str [''time'', ''_tid'', ''acl_gid'', ''tag_type'', ''tag_value'', ''vtap_id''] \<and>
    col_Type (GenTagColumns cm acl_code ! 4) = CT_LowCardinalityString \<and>
    outcome (Tag_WriteBlock app time (NewTag acl_code f) b) = Some (write_each (block_append app) (tag_row time (NewTag acl_code f)) b)"
proof -
  have h: "has acl_code k \<longleftrightarrow> k \<in> {ACLGID, TagType, TagValue, VTAPID}" for k by (simp add: acl_code_def has_codes)
  have r: "tag_row time (NewTag acl_code f) = [CkTime (uint time), CkUInt8 (tf_GlobalThreadID f), CkUInt16 (tf_ACLGID f), CkUInt8 (tf_TagType f), CkUInt16 (tf_VTAPID f)]"
    using assms by (simp add: tag_row_def NewTag_def tag_row_head_def tag_row_ip_def tag_row_mid_def tag_row_tail_def tag_row_side_def tag_row_end_def h
        opt_def SplitToPortTypeTunnel_def)
  have c: "GenTagColumns cm acl_code = [NewColumnWithGroupBy (str ''time'') CT_DateTime, SetIndex IndexNone (SetComment (cm ''_tid'') (NewColumn (str ''_tid'') CT_UInt8)),
      tcol cm ''acl_gid'' CT_UInt16, tcol cm ''tag_type'' CT_UInt8, tcol cm ''tag_value'' CT_LowCardinalityString, tcol cm ''vtap_id'' CT_UInt16]"
    by (simp add: GenTagColumns_def tag_columns_head_def tag_columns_mid_def tag_columns_tail_def h opt_def)
  have n: "col_Name (NewColumnWithGroupBy s ct) = s" "col_Name (SetIndex x y) = col_Name y" "col_Name (SetComment u y) = col_Name y"
    "col_Name (NewColumn s ct) = s" "col_Name (tcol cm s' ct) = str s'" for s ct x y u s'
    by (simp_all add: tcol_def NewColumnWithGroupBy_def SetComment_def SetIndex_def SetGroupBy_def NewColumn_def Let_def)
  have "outcome (Tag_WriteBlock app time (NewTag acl_code f) b) = Some (write_each (block_append app) (tag_row time (NewTag acl_code f)) b)"
    by (rule Tag_WriteBlock_row) (simp add: NewTag_def h)
  then show ?thesis unfolding r by (simp add: c n)
qed

theorem acl_tag_value_missing_witness:
  "length (tag_row 60 (NewTag acl_code (Field_zero\<lparr>tf_TagType := 1\<rparr>))) = 5 \<and> length (GenTagColumns (\<lambda>_. []) acl_code) = 6"
  using acl_tag_value_missing [of "Field_zero\<lparr>tf_TagType := 1\<rparr>" 60 "\<lambda>_. []" "\<lambda>i v b. (None :: unit option, b)" "\<lparr>Batch = (), index = 0\<rparr>"]
  by (auto simp: TAG_TYPE_TUNNEL_IP_ID_def dest: arg_cong [of _ _ length])

end
