(* ===== verification/Doc_Text.thy ===== *)
theory Doc_Text
  imports Mini_Tag Doc_Tables
begin

text \<open>
  The text of tags: \<^verbatim>\<open>MarshalTo\<close>, \<^verbatim>\<open>ToKVString\<close> and \<^verbatim>\<open>String\<close> of \<^verbatim>\<open>zerodoc/tag.go\<close> and \<^verbatim>\<open>zerodoc/tag_mini.go\<close>, with the text
  of addresses (\<^verbatim>\<open>net.IP\<close> and \<^verbatim>\<open>net.HardwareAddr\<close>) and the conversions of identifiers that may be negative.
  Every \<^verbatim>\<open>offset += copy(b[offset:], s)\<close> is a piece of a list, printed one after the other by \<open>puts\<close>.
\<close>

unbundle bit_operations_syntax

section \<open>Numbers\<close>

definition num :: "'a::len word \<Rightarrow> bytes" where
  "num v = FormatUint (ucast v)"

definition marshalUint16WithSpecialID :: "i16 \<Rightarrow> bytes" where
  "marshalUint16WithSpecialID v = (if v = -1 \<or> v = -2 then format_int (sint v) else FormatUint (scast v AND 0xffff))"

text \<open>\<^verbatim>\<open>strconv.ParseInt(s, 10, 64)\<close>; \<open>None\<close> is its error.\<close>

fun parse_digits :: "nat \<Rightarrow> bytes \<Rightarrow> nat option" where
  "parse_digits n [] = Some n"
| "parse_digits n (c # cs) = (if 48 \<le> c \<and> c \<le> 57 then parse_digits (10 * n + unat (c - 48)) cs else None)"

definition parse_nat :: "bytes \<Rightarrow> nat option" where
  "parse_nat s = (if s = [] then None else parse_digits 0 s)"

definition ParseInt :: "bytes \<Rightarrow> i64 option" where
  "ParseInt s = (let neg = (s \<noteq> [] \<and> hd s = 45); ds = (if s \<noteq> [] \<and> (hd s = 45 \<or> hd s = 43) then tl s else s) in
     case parse_nat ds of
       None \<Rightarrow> None
     | Some n \<Rightarrow> if neg then (if n \<le> 2 ^ 63 then Some (- of_nat n) else None) else (if n < 2 ^ 63 then Some (of_nat n) else None))"

text \<open>On an error the Go functions also return a value, -1 here and the numbers read so far below.\<close>

definition unmarshalUint16WithSpecialID :: "bytes \<Rightarrow> i16 \<times> bool" where
  "unmarshalUint16WithSpecialID s = (case ParseInt s of None \<Rightarrow> (-1, False) | Some i \<Rightarrow> (ucast i, True))"

definition marshalUint16s :: "u16 list \<Rightarrow> bytes" where
  "marshalUint16s vs = concat (map (\<lambda>(i, v). num v @ (if i + 1 < length vs then str ''|'' else [])) (enumerate 0 vs))"

text \<open>\<^verbatim>\<open>strings.Split(s, "|")\<close>\<close>

fun split_on :: "u8 \<Rightarrow> bytes \<Rightarrow> bytes list" where
  "split_on c [] = [[]]"
| "split_on c (x # xs) = (if x = c then [] # split_on c xs else (case split_on c xs of p # ps \<Rightarrow> (x # p) # ps | [] \<Rightarrow> []))"

primrec parse_all :: "bytes list \<Rightarrow> u16 list \<Rightarrow> u16 list \<times> bool" where
  "parse_all [] acc = (acc, True)"
| "parse_all (v # vs) acc = (case ParseInt v of None \<Rightarrow> (acc, False) | Some i \<Rightarrow> parse_all vs (acc @ [ucast i]))"

definition unmarshalUint16s :: "bytes \<Rightarrow> u16 list \<times> bool" where
  "unmarshalUint16s s = parse_all (split_on 124 s) []"

section \<open>Addresses\<close>

definition To4 :: "bytes \<Rightarrow> bytes option" where
  "To4 ip = (if length ip = 4 then Some ip
     else if length ip = 16 \<and> take 10 ip = replicate 10 0 \<and> ip ! 10 = 0xff \<and> ip ! 11 = 0xff then Some (drop 12 ip) else None)"

definition ip_groups :: "bytes \<Rightarrow> nat list" where
  "ip_groups ip = map (\<lambda>i. 256 * unat (ip ! (2 * i)) + unat (ip ! (2 * i + 1))) [0..<8]"

text \<open>The first longest run of zero groups, as its start and its length.\<close>

definition zero_run :: "nat list \<Rightarrow> nat \<Rightarrow> nat" where
  "zero_run gs i = length (takeWhile (\<lambda>g. g = 0) (drop i gs))"

definition longest_run :: "nat list \<Rightarrow> nat \<times> nat" where
  "longest_run gs = fold (\<lambda>i (s, l). if l < zero_run gs i then (i, zero_run gs i) else (s, l)) [0..<length gs] (0, 0)"

definition ip6_text :: "nat list \<Rightarrow> bytes" where
  "ip6_text gs = (let (s, l) = longest_run gs in
     if l \<le> 1 then Join [58] (map hexdigits gs)
     else Join [58] (map hexdigits (take s gs)) @ str ''::'' @ Join [58] (map hexdigits (drop (s + l) gs)))"

definition IP_String :: "bytes \<Rightarrow> bytes" where
  "IP_String ip = (if ip = [] then str ''<nil>''
     else case To4 ip of
       Some p \<Rightarrow> Join [46] (map (\<lambda>b. decimal (unat b)) p)
     | None \<Rightarrow> if length ip \<noteq> 16 then str ''?'' @ concat (map (\<lambda>b. hex_padded 2 (unat b)) ip) else ip6_text (ip_groups ip))"

definition Uint64ToMac :: "u64 \<Rightarrow> bytes" where
  "Uint64ToMac v = drop 2 (put_be 8 v)"

definition HardwareAddr_String :: "bytes \<Rightarrow> bytes" where
  "HardwareAddr_String a = Join [58] (map (\<lambda>b. hex_padded 2 (unat b)) a)"

section \<open>Pieces\<close>

text \<open>The slice \<^verbatim>\<open>b[offset:]\<close> panics when the offset has left the buffer, which only the capture port can do.\<close>

fun puts :: "bytes list \<Rightarrow> filling \<Rightarrow> filling option" where
  "puts [] st = Some st"
| "puts (s # ss) st = (if snd st \<le> length (fst st) then puts ss (put s st) else None)"

definition TAP_PORT_STR_LEN :: nat where "TAP_PORT_STR_LEN = 8"

definition putTAPPort :: "u64 \<Rightarrow> filling \<Rightarrow> filling option" where
  "putTAPPort tapPort = (\<lambda>(b, offset).
     if length b < offset then None
     else let bs = overwrite (drop offset b) (str ''00000000''); s = hexdigits (unat tapPort) in
       if TAP_PORT_STR_LEN < length s \<or> length bs < TAP_PORT_STR_LEN - length s then None
       else let k = TAP_PORT_STR_LEN - length s in
         Some (take offset b @ take k bs @ overwrite (drop k bs) s, offset + TAP_PORT_STR_LEN))"

definition tap_side_piece :: "u8 \<Rightarrow> bytes list" where
  "tap_side_piece s =
     (if s = 0 then [str '',tap_side=rest''] else if s = 1 then [str '',tap_side=c''] else if s = 2 then [str '',tap_side=s'']
      else if s = 9 then [str '',tap_side=c-nd''] else if s = 10 then [str '',tap_side=s-nd'']
      else if s = 17 then [str '',tap_side=c-hv''] else if s = 18 then [str '',tap_side=s-hv'']
      else if s = 25 then [str '',tap_side=c-gw-hv''] else if s = 26 then [str '',tap_side=s-gw-hv'']
      else if s = 33 then [str '',tap_side=c-gw''] else if s = 34 then [str '',tap_side=s-gw''] else [])"

definition tag_pieces_head :: "u64 \<Rightarrow> zField \<Rightarrow> bytes list" where
  "tag_pieces_head code f =
     opt (tf_GlobalThreadID f \<noteq> 0) [str '',_tid='', num (tf_GlobalThreadID f)]
     @ opt (has code ACLGID) [str '',acl_gid='', num (tf_ACLGID f)]
     @ opt (has code AZID) [str '',az_id='', num (tf_AZID (side0 f))]
     @ opt (has code AZIDPath) [str '',az_id_0='', num (tf_AZID (side0 f)), str '',az_id_1='', num (tf_AZID (side1 f))]
     @ opt (has code Direction) (if IsClientToServer (tf_Direction f) then [str '',direction=c2s''] else if IsServerToClient (tf_Direction f) then [str '',direction=s2c''] else [])
     @ opt (has code HostID) [str '',host_id='', num (tf_HostID (side0 f))]
     @ opt (has code HostIDPath) [str '',host_id_0='', num (tf_HostID (side0 f)), str '',host_id_1='', num (tf_HostID (side1 f))]
     @ opt (has code IP) (if tf_IsIPv6 f \<noteq> 0 then [str '',ip='', IP_String (tf_IP6 (side0 f)), str '',ip_version=6'']
       else [str '',ip='', IP_String (IpFromUint32 (tf_IP (side0 f))), str '',ip_version=4''])
     @ opt (has code IPPath) (if tf_IsIPv6 f \<noteq> 0 then [str '',ip_0='', IP_String (tf_IP6 (side0 f)), str '',ip_1='', IP_String (tf_IP6 (side1 f)), str '',is_version=6'']
       else [str '',ip_0='', IP_String (IpFromUint32 (tf_IP (side0 f))), str '',ip_1='', IP_String (IpFromUint32 (tf_IP (side1 f))), str '',ip_version=4''])
     @ opt (has code IsKeyService) [if tf_IsKeyService f = 1 then str '',is_key_service=1'' else str '',is_key_service=0'']
     @ opt (has code L3Device) [str '',l3_device_id='', num (tf_L3DeviceID (side0 f)), str '',l3_device_type='', num (tf_L3DeviceType (side0 f))]
     @ opt (has code L3DevicePath) [str '',l3_device_id_0='', num (tf_L3DeviceID (side0 f)), str '',l3_device_id_1='', num (tf_L3DeviceID (side1 f)), str '',l3_device_type_0='', num (tf_L3DeviceType (side0 f)), str '',l3_device_type_1='', num (tf_L3DeviceType (side1 f))]
     @ opt (has code L3EpcID) [str '',l3_epc_id='', marshalUint16WithSpecialID (tf_L3EpcID (side0 f))]
     @ opt (has code L3EpcIDPath) [str '',l3_epc_id_0='', marshalUint16WithSpecialID (tf_L3EpcID (side0 f)), str '',l3_epc_id_1='', marshalUint16WithSpecialID (tf_L3EpcID (side1 f))]
     @ opt (has code L7Protocol) [str '',l7_protocol='', num (tf_L7Protocol f)]"

definition tag_pieces_mid :: "u64 \<Rightarrow> zField \<Rightarrow> bytes list" where
  "tag_pieces_mid code f =
     opt (has code PodClusterID) [str '',pod_cluster_id='', num (tf_PodClusterID (side0 f))]
     @ opt (has code PodClusterIDPath) [str '',pod_cluster_id_0='', num (tf_PodClusterID (side0 f)), str '',pod_cluster_id_1='', num (tf_PodClusterID (side1 f))]
     @ opt (has code PodGroupID) [str '',pod_group_id='', num (tf_PodGroupID (side0 f))]
     @ opt (has code PodGroupIDPath) [str '',pod_group_id_0='', num (tf_PodGroupID (side0 f)), str '',pod_group_id_1='', num (tf_PodGroupID (side1 f))]
     @ opt (has code PodID) [str '',pod_id='', num (tf_PodID (side0 f))]
     @ opt (has code PodIDPath) [str '',pod_id_0='', num (tf_PodID (side0 f)), str '',pod_id_1='', num (tf_PodID (side1 f))]
     @ opt (has code PodNodeID) [str '',pod_node_id='', num (tf_PodNodeID (side0 f))]
     @ opt (has code PodNodeIDPath) [str '',pod_node_id_0='', num (tf_PodNodeID (side0 f)), str '',pod_node_id_1='', num (tf_PodNodeID (side1 f))]
     @ opt (has code PodNSID) [str '',pod_ns_id='', num (tf_PodNSID (side0 f))]
     @ opt (has code PodNSIDPath) [str '',pod_ns_id_0='', num (tf_PodNSID (side0 f)), str '',pod_ns_id_1='', num (tf_PodNSID (side1 f))]
     @ opt (has code Protocol) [str '',protocol='', num (tf_Protocol f)]
     @ opt (has code RegionID) [str '',region_id='', num (tf_RegionID (side0 f))]
     @ opt (has code RegionIDPath) [str '',region_id_0='', num (tf_RegionID (side0 f)), str '',region_id_1='', num (tf_RegionID (side1 f))]"

definition tag_pieces_tail :: "u64 \<Rightarrow> zField \<Rightarrow> bytes list" where
  "tag_pieces_tail code f =
     opt (has code Resource) [str '',resource_gl0_id='', num (tf_ResourceGl0ID (side0 f)), str '',resource_gl0_type='', num (tf_ResourceGl0Type (side0 f)), str '',resource_gl1_id='', num (tf_ResourceGl1ID (side0 f)), str '',resource_gl1_type='', num (tf_ResourceGl1Type (side0 f)), str '',resource_gl2_id='', num (tf_ResourceGl2ID (side0 f)), str '',resource_gl2_type='', num (tf_ResourceGl2Type (side0 f))]
     @ opt (has code ResourcePath) [str '',resource_gl0_id_0='', num (tf_ResourceGl0ID (side0 f)), str '',resource_gl0_id_1='', num (tf_ResourceGl0ID (side1 f)), str '',resource_gl0_type_0='', num (tf_ResourceGl0Type (side0 f)), str '',resource_gl0_type_1='', num (tf_ResourceGl0Type (side1 f)), str '',resource_gl1_id_0='', num (tf_ResourceGl1ID (side0 f)), str '',resource_gl1_id_1='', num (tf_ResourceGl1ID (side1 f)), str '',resource_gl1_type_0='', num (tf_ResourceGl1Type (side0 f)), str '',resource_gl1_type_1='', num (tf_ResourceGl1Type (side1 f)), str '',resource_gl2_id_0='', num (tf_ResourceGl2ID (side0 f)), str '',resource_gl2_id_1='', num (tf_ResourceGl2ID (side1 f)), str '',resource_gl2_type_0='', num (tf_ResourceGl2Type (side0 f)), str '',resource_gl2_type_1='', num (tf_ResourceGl2Type (side1 f))]
     @ opt (has code ServerPort) [str '',server_port='', num (tf_ServerPort f)]
     @ opt (has code ServiceID) [str '',service_id='', num (tf_ServiceID (side0 f))]
     @ opt (has code ServiceIDPath) [str '',service_id_0='', num (tf_ServiceID (side0 f)), str '',service_id_1='', num (tf_ServiceID (side1 f))]
     @ opt (has code SubnetID) [str '',subnet_id='', num (tf_SubnetID (side0 f))]
     @ opt (has code SubnetIDPath) [str '',subnet_id_0='', num (tf_SubnetID (side0 f)), str '',subnet_id_1='', num (tf_SubnetID (side1 f))]
     @ opt (has code TagType \<and> has code TagValue) [str '',tag_type='', num (tf_TagType f)]
     @ opt (has code TagType \<and> has code TagValue \<and> tf_TagType f = TAG_TYPE_TUNNEL_IP_ID) [str '',tag_value='', num (tf_TagValue f)]"

definition tag_pieces_end :: "u64 \<Rightarrow> zField \<Rightarrow> bytes list" where
  "tag_pieces_end code f =
     opt (has code TAPSide) (tap_side_piece (tf_TAPSide f))
     @ opt (has code TAPType) [str '',tap_type='', num (tf_TAPType f)]
     @ opt (has code VTAPID) [str '',vtap_id='', num (tf_VTAPID f)]"

definition Tag_MarshalTo :: "zTag \<Rightarrow> bytes \<Rightarrow> filling option" where
  "Tag_MarshalTo t b = (let code = tag_Code t; f = tag_Field t in do {
     st \<leftarrow> puts (tag_pieces_head code f @ tag_pieces_mid code f @ tag_pieces_tail code f) (b, 0);
     st \<leftarrow> (if has code TAPPort then do { st \<leftarrow> puts [str '',tap_port=''] st; putTAPPort (tf_TAPPort f) st } else Some st);
     puts (tag_pieces_end code f) st
   })"

definition kv_string :: "(bytes \<Rightarrow> filling option) \<Rightarrow> bytes option" where
  "kv_string f = (case f (replicate MAX_STRING_LENGTH 0) of None \<Rightarrow> None | Some (b, n) \<Rightarrow> if n \<le> length b then Some (take n b) else None)"

definition Tag_ToKVString :: "zTag \<Rightarrow> bytes option" where
  "Tag_ToKVString t = kv_string (Tag_MarshalTo t)"

definition Tag_String :: "zTag \<Rightarrow> bytes option" where
  "Tag_String t = map_option (\<lambda>s. str ''fields:'' @ s
     @ (if has (tag_Code t) MAC then str '',mac='' @ HardwareAddr_String (Uint64ToMac (tf_MAC (side0 (tag_Field t)))) else [])
     @ (if has (tag_Code t) MACPath then str '',mac_0='' @ HardwareAddr_String (Uint64ToMac (tf_MAC (side0 (tag_Field t))))
         @ str '',mac_1='' @ HardwareAddr_String (Uint64ToMac (tf_MAC (side1 (tag_Field t)))) else [])
     @ str '' code:'' @ str ''x'' @ hex_padded 16 (unat (tag_Code t))) (Tag_ToKVString t)"

text \<open>The tag of an agent.\<close>

definition mini_pieces :: "u64 \<Rightarrow> MiniField \<Rightarrow> bytes list" where
  "mini_pieces code f =
     opt (mf_GlobalThreadID f \<noteq> 0) [str '',_tid='', num (mf_GlobalThreadID f)]
     @ opt (has code ACLGID) [str '',acl_gid='', num (mf_ACLGID f)]
     @ opt (has code Direction) (if IsClientToServer (mf_Direction f) then [str '',direction=c2s''] else if IsServerToClient (mf_Direction f) then [str '',direction=s2c''] else [])
     @ opt (has code IP) [str '',ip='', IP_String (Mini_IP f), if mf_IsIPv6 f \<noteq> 0 then str '',ip_version=6'' else str '',ip_version=4'']
     @ opt (has code IPPath) [str '',ip_0='', IP_String (Mini_IP f), str '',ip_1='', IP_String (Mini_IP1 f),
         if mf_IsIPv6 f \<noteq> 0 then str '',ip_version=6'' else str '',ip_version=4'']
     @ opt (has code L3EpcID) [str '',l3_epc_id='', marshalUint16WithSpecialID (mf_L3EpcID f)]
     @ opt (has code L3EpcIDPath) [str '',l3_epc_id_0='', marshalUint16WithSpecialID (mf_L3EpcID f), str '',l3_epc_id_1='', marshalUint16WithSpecialID (mf_L3EpcID1 f)]
     @ opt (has code Protocol) [str '',protocol='', num (mf_Protocol f)]
     @ opt (has code ServerPort) [str '',server_port='', num (mf_ServerPort f)]
     @ opt (has code TagType \<and> has code TagValue) [str '',tag_type='', num (mf_TagType f)]
     @ opt (has code TagType \<and> has code TagValue \<and> mf_TagType f = TAG_TYPE_TUNNEL_IP_ID) [str '',tag_value='', num (mf_TagValue f)]"

definition mini_pieces_end :: "u64 \<Rightarrow> MiniField \<Rightarrow> bytes list" where
  "mini_pieces_end code f =
     opt (has code TAPType) [str '',tap_type='', num (mf_TAPType f)]
     @ opt (has code VTAPID) [str '',vtap_id='', num (mf_VTAPID f)]"

definition Mini_MarshalTo :: "MiniTag \<Rightarrow> bytes \<Rightarrow> filling option" where
  "Mini_MarshalTo t b = (let code = mt_Code t; f = mt_Field t in do {
     st \<leftarrow> puts (mini_pieces code f) (b, 0);
     st \<leftarrow> (if has code TAPPort then do { st \<leftarrow> puts [str '',tap_port=''] st; putTAPPort (mf_TAPPort f) st } else Some st);
     puts (mini_pieces_end code f) st
   })"

definition Mini_ToKVString :: "MiniTag \<Rightarrow> bytes option" where
  "Mini_ToKVString t = kv_string (Mini_MarshalTo t)"

definition Mini_String :: "MiniTag \<Rightarrow> bytes option" where
  "Mini_String t = map_option (\<lambda>s. str ''fields:'' @ s @ str '' code:'' @ str ''x'' @ hex_padded 16 (unat (mt_Code t))) (Mini_ToKVString t)"

section \<open>Laws of printing\<close>

lemma puts_append: "puts (xs @ ys) st = puts xs st \<bind> puts ys"
  by (induction xs arbitrary: st) simp_all

lemma puts_written: "length t + length (concat ss) \<le> length b \<Longrightarrow> puts ss (written t b) = Some (written (t @ concat ss) b)"
proof (induction ss arbitrary: t)
  case (Cons s ss)
  have "put s (written t b) = written (t @ s) b" using Cons.prems by (intro put_written) simp
  moreover have "snd (written t b) \<le> length (fst (written t b))" using Cons.prems by (simp add: written_def)
  ultimately show ?case using Cons.IH [of "t @ s"] Cons.prems by simp
qed simp

lemma hexdigits_pos: "hexdigits n \<noteq> []"
  by (subst hexdigits.simps) (simp add: Let_def)

lemma hexdigits_length: "length (hexdigits n) \<le> Suc k \<longleftrightarrow> n < 16 ^ Suc k"
proof (induction k arbitrary: n)
  case 0
  show ?case by (subst hexdigits.simps) (auto simp: Let_def hexdigits_pos)
next
  case (Suc k)
  show ?case
  proof (cases "n < 16")
    case True
    then have "n < 16 ^ Suc (Suc k)" by (metis (no_types) less_le_trans one_le_numeral power_increasing power_one_right le_add1 plus_1_eq_Suc)
    then show ?thesis using True by (subst hexdigits.simps) (simp add: Let_def)
  next
    case False
    then show ?thesis using Suc [of "n div 16"] by (subst hexdigits.simps) (simp add: Let_def div_less_iff_less_mult)
  qed
qed

lemma putTAPPort_written:
  assumes "unat p < 2 ^ 32" "length t + 8 \<le> length b"
  shows "putTAPPort p (written t b) = Some (written (t @ hex_padded 8 (unat p)) b)"
proof -
  let ?s = "hexdigits (unat p)"
  have l: "length ?s \<le> 8" using hexdigits_length [of "unat p" 7] assms(1) by simp
  have z: "str ''00000000'' = replicate 8 48" by (simp add: str_def eval_nat_numeral)
  have o: "overwrite (drop (length t) b) (replicate 8 48) = replicate 8 48 @ drop (length t + 8) b"
    using assms(2) by (simp add: overwrite_def add.commute)
  have k: "overwrite (replicate (length ?s) 48 @ r) ?s = ?s @ r" for r
    by (simp add: overwrite_def)
  show ?thesis using l assms(2)
    by (auto simp: putTAPPort_def written_def z o k TAP_PORT_STR_LEN_def hex_padded_def Let_def)
qed

lemma putTAPPort_long: "2 ^ 32 \<le> unat p \<Longrightarrow> putTAPPort p st = None"
proof -
  assume "2 ^ 32 \<le> unat p"
  then have "8 < length (hexdigits (unat p))" using hexdigits_length [of "unat p" 7] by simp
  then show ?thesis by (simp add: putTAPPort_def Let_def TAP_PORT_STR_LEN_def split: prod.split)
qed

section \<open>Lengths\<close>

definition short :: "nat \<Rightarrow> bytes list \<Rightarrow> bool" where
  "short n ss \<longleftrightarrow> length (concat ss) \<le> n"

lemma short_mono: "short a ss \<Longrightarrow> a \<le> n \<Longrightarrow> short n ss"
  by (simp add: short_def)

lemma short_Nil: "short 0 []"
  by (simp add: short_def)

lemma short_Cons: "length s \<le> k \<Longrightarrow> short n ss \<Longrightarrow> short (k + n) (s # ss)"
  by (simp add: short_def)

lemma short_append: "short a xs \<Longrightarrow> short b ys \<Longrightarrow> short (a + b) (xs @ ys)"
  by (simp add: short_def)

lemma short_opt: "short n xs \<Longrightarrow> short n (opt c xs)"
  by (simp add: short_def opt_def)

lemma short_if: "short a xs \<Longrightarrow> short b ys \<Longrightarrow> short (max a b) (if c then xs else ys)"
  by (auto simp: short_def max_def)

lemma length_if: "length x \<le> a \<Longrightarrow> length y \<le> b \<Longrightarrow> length (if c then x else y) \<le> max a b"
  by (auto simp: max_def)

lemma length_str_le: "length (str s) \<le> length s"
  by simp

lemma num_length: "length (num (a :: u8)) \<le> 3" "length (num (b :: u16)) \<le> 5" "length (num (c :: u32)) \<le> 10"
proof -
  have u: "unat a < 10 ^ 3" "unat b < 10 ^ 5" "unat c < 10 ^ 10"
    using unsigned_less [of a, where 'a = nat] unsigned_less [of b, where 'a = nat] unsigned_less [of c, where 'a = nat] by simp_all
  moreover have "unat (ucast a :: u64) = unat a" "unat (ucast b :: u64) = unat b" "unat (ucast c :: u64) = unat c"
    using u by (simp_all add: unsigned_ucast_eq unsigned_take_bit_eq take_bit_nat_eq_self)
  ultimately show "length (num a) \<le> 3" "length (num b) \<le> 5" "length (num c) \<le> 10"
    unfolding num_def FormatUint_def by (auto intro!: length_decimal)
qed

lemma special_value: "v \<noteq> -1 \<Longrightarrow> v \<noteq> -2 \<Longrightarrow> marshalUint16WithSpecialID v = num v"
proof -
  have "scast v AND 0xffff = take_bit 16 (scast v :: u64)" by (simp add: take_bit_eq_mask mask_eq_exp_minus_1)
  also have "\<dots> = ucast v"
  proof -
    have "min 15 n = n" if "n < 16" for n :: nat using that by simp
    moreover have "n < 16" "min 15 n = n" if "bit v n" for n using bit_imp_le_length [OF that] by simp_all
    ultimately show ?thesis by (intro bit_word_eqI) (auto simp: bit_take_bit_iff bit_signed_iff bit_unsigned_iff)
  qed
  finally have "scast v AND 0xffff = (ucast v :: u64)" .
  then show "v \<noteq> -1 \<Longrightarrow> v \<noteq> -2 \<Longrightarrow> marshalUint16WithSpecialID v = num v"
    by (simp add: marshalUint16WithSpecialID_def num_def)
qed

lemma special_texts: "marshalUint16WithSpecialID (-1) = [45, 49]" "marshalUint16WithSpecialID (-2) = [45, 50]"
  by code_simp+

lemma special_length: "length (marshalUint16WithSpecialID v) \<le> 5"
  using special_value [of v] num_length(2) [of v] special_texts by (cases "v = -1 \<or> v = -2") auto

text \<open>An address of 16 bytes or none takes at most 39 characters.\<close>

lemma length_Join: "xs \<noteq> [] \<Longrightarrow> (\<And>x. x \<in> set xs \<Longrightarrow> length x \<le> k) \<Longrightarrow> length (Join [c] xs) < length xs * (k + 1)"
proof (induction xs)
  case (Cons x xs)
  then show ?case
  proof (cases "xs = []")
    case False
    with Cons have "length (Join [c] xs) < length xs * (k + 1)" "length x \<le> k" by simp_all
    then show ?thesis using False by (simp add: Join_Cons)
  qed simp
qed simp

lemma length_Join_le: "(\<And>x. x \<in> set xs \<Longrightarrow> length x \<le> k) \<Longrightarrow> length (Join [c] xs) \<le> length xs * (k + 1) - 1"
  using length_Join [of xs k c] by (cases "xs = []") force+

lemma group_length: "g \<in> set (map hexdigits (take s (ip_groups ip))) \<union> set (map hexdigits (drop s (ip_groups ip))) \<Longrightarrow> length g \<le> 4"
proof -
  assume "g \<in> set (map hexdigits (take s (ip_groups ip))) \<union> set (map hexdigits (drop s (ip_groups ip)))"
  then obtain i where "g = hexdigits (256 * unat (ip ! (2 * i)) + unat (ip ! (2 * i + 1)))"
    by (auto simp: ip_groups_def dest!: in_set_takeD in_set_dropD)
  moreover have "unat (ip ! (2 * i)) < 256" "unat (ip ! (2 * i + 1)) < 256"
    using unsigned_less [of "ip ! (2 * i)", where 'a = nat] unsigned_less [of "ip ! (2 * i + 1)", where 'a = nat] by simp_all
  ultimately show ?thesis using hexdigits_length [of _ 3] by auto
qed

lemma longest_run_bounds: "longest_run gs = (s, l) \<Longrightarrow> s + l \<le> length gs"
proof -
  have "case fold (\<lambda>i (s, l). if l < zero_run gs i then (i, zero_run gs i) else (s, l)) is (s, l) of (s, l) \<Rightarrow> s + l \<le> length gs"
    if "s + l \<le> length gs" "\<forall>i\<in>set is. i \<le> length gs" for "is" s l
    using that
  proof (induction "is" arbitrary: s l)
    case (Cons i "is")
    have "zero_run gs i \<le> length gs - i" by (metis zero_run_def length_drop length_takeWhile_le)
    then have "i + zero_run gs i \<le> length gs" using Cons.prems by auto
    then show ?case using Cons by auto
  qed simp
  from this [of 0 0 "[0..<length gs]"] show "longest_run gs = (s, l) \<Longrightarrow> s + l \<le> length gs" by (simp add: longest_run_def)
qed

lemma ip6_text_length: "length (ip6_text (ip_groups ip)) \<le> 39"
proof -
  let ?gs = "ip_groups ip"
  have n: "length ?gs = 8" by (simp add: ip_groups_def)
  obtain s l where r: "longest_run ?gs = (s, l)" by fastforce
  have sl: "s + l \<le> 8" using longest_run_bounds [OF r] n by simp
  have all: "length (Join [58] (map hexdigits ?gs)) \<le> 39"
    using length_Join_le [of "map hexdigits ?gs" 4 58] group_length [of _ 8 ip] by (simp add: n)
  have left: "length (Join [58] (map hexdigits (take s ?gs))) \<le> s * 5 - 1"
    using length_Join_le [of "map hexdigits (take s ?gs)" 4 58] group_length [of _ s ip] sl by (simp add: n)
  have right: "length (Join [58] (map hexdigits (drop (s + l) ?gs))) \<le> (8 - (s + l)) * 5 - 1"
    using length_Join_le [of "map hexdigits (drop (s + l) ?gs)" 4 58] group_length [of _ "s + l" ip] by (simp add: n)
  show ?thesis
  proof (cases "l \<le> 1")
    case False
    have "length (Join [58] (map hexdigits (take s ?gs))) + 2 + length (Join [58] (map hexdigits (drop (s + l) ?gs))) \<le> 39"
      using left right sl False by linarith
    then show ?thesis using False by (simp add: ip6_text_def r)
  qed (simp add: ip6_text_def r all)
qed

lemma dotted_length: "length p = 4 \<Longrightarrow> length (Join [46] (map (\<lambda>b. decimal (unat (b :: u8))) p)) \<le> 39"
proof -
  assume "length p = 4"
  moreover have "length (decimal (unat b)) \<le> 3" for b :: u8
    using unsigned_less [of b, where 'a = nat] by (intro length_decimal) simp_all
  ultimately show ?thesis using length_Join_le [of "map (\<lambda>b. decimal (unat b)) p" 3 46] by fastforce
qed

lemma IP_String_length: "ip = [] \<or> length ip = 4 \<or> length ip = 16 \<Longrightarrow> length (IP_String ip) \<le> 39"
  using ip6_text_length [of ip] dotted_length [of ip] dotted_length [of "drop 12 ip"]
  by (auto simp: IP_String_def To4_def split: option.split if_splits)

lemmas short_rules = short_append short_opt short_if short_Cons short_Nil length_if length_str_le num_length special_length

lemma ip4_length: "length (IP_String (IpFromUint32 x)) \<le> 39"
  by (rule IP_String_length) (simp add: IpFromUint32_def)

lemma tap_side_short: "short 17 (tap_side_piece s)"
  unfolding tap_side_piece_def by (rule short_mono, (rule short_rules)+) simp

lemma head_short:
  assumes "ip6_ok (tf_IP6 (side0 f))" "ip6_ok (tf_IP6 (side1 f))"
  shows "short 600 (tag_pieces_head code f)"
proof -
  have ip: "length (IP_String (tf_IP6 (side0 f))) \<le> 39" "length (IP_String (tf_IP6 (side1 f))) \<le> 39"
    using assms by (auto simp: ip6_ok_def intro!: IP_String_length)
  show ?thesis unfolding tag_pieces_head_def by (rule short_mono, (rule short_rules ip ip4_length)+) simp
qed

lemma mid_short: "short 500 (tag_pieces_mid code f)"
  unfolding tag_pieces_mid_def by (rule short_mono, (rule short_rules)+) simp

lemma tail_short: "short 700 (tag_pieces_tail code f)"
  unfolding tag_pieces_tail_def by (rule short_mono, (rule short_rules)+) simp

lemma end_short: "short 60 (tag_pieces_end code f)"
  unfolding tag_pieces_end_def by (rule short_mono, (rule short_rules tap_side_short)+) simp

text \<open>The text of a tag, and that the buffer holds it.\<close>

definition Tag_text :: "zTag \<Rightarrow> bytes" where
  "Tag_text t = (let code = tag_Code t; f = tag_Field t in
     concat (tag_pieces_head code f @ tag_pieces_mid code f @ tag_pieces_tail code f)
     @ (if has code TAPPort then str '',tap_port='' @ hex_padded 8 (unat (tf_TAPPort f)) else [])
     @ concat (tag_pieces_end code f))"

lemma kv_string_written: "f (replicate MAX_STRING_LENGTH 0) = Some (written t (replicate MAX_STRING_LENGTH 0)) \<Longrightarrow> kv_string f = Some t"
  by (auto simp: kv_string_def written_def)

text \<open>Three groups of pieces with the capture port before the last one.\<close>

lemma port_pieces:
  assumes "length (concat xs) + 18 + length (concat ys) \<le> length b" "has code TAPPort \<Longrightarrow> unat p < 2 ^ 32"
  shows "(do { st \<leftarrow> puts xs (b, 0);
      st \<leftarrow> (if has code TAPPort then do { st \<leftarrow> puts [str '',tap_port=''] st; putTAPPort p st } else Some st);
      puts ys st }) =
    Some (written (concat xs @ (if has code TAPPort then str '',tap_port='' @ hex_padded 8 (unat p) else []) @ concat ys) b)"
proof -
  have b0: "(b, 0) = written [] b" by (simp add: written_def)
  have 1: "puts xs (b, 0) = Some (written (concat xs) b)"
    unfolding b0 using puts_written [of "[]" xs b] assms(1) by simp
  show ?thesis
  proof (cases "has code TAPPort")
    case True
    have h: "length (hex_padded 8 (unat p)) = 8" if "unat p < 2 ^ 32"
      using hexdigits_length [of "unat p" 7] that by (simp add: hex_padded_def)
    let ?t = "concat xs @ str '',tap_port=''"
    have 2: "puts [str '',tap_port=''] (written (concat xs) b) = Some (written ?t b)"
      using puts_written [of "concat xs" "[str '',tap_port='']" b] assms(1) by simp
    have 3: "putTAPPort p (written ?t b) = Some (written (?t @ hex_padded 8 (unat p)) b)"
      using putTAPPort_written [of p ?t b] assms True by simp
    have 4: "puts ys (written (?t @ hex_padded 8 (unat p)) b) = Some (written ((?t @ hex_padded 8 (unat p)) @ concat ys) b)"
      using puts_written [of "?t @ hex_padded 8 (unat p)" ys b] assms True h by simp
    show ?thesis using True 1 2 3 4 by simp
  next
    case False
    then show ?thesis using 1 puts_written [of "concat xs" ys b] assms(1) by simp
  qed
qed

lemma port_panics:
  "has code TAPPort \<Longrightarrow> 2 ^ 32 \<le> unat p \<Longrightarrow> (do { st \<leftarrow> puts xs st0;
      st \<leftarrow> (if has code TAPPort then do { st \<leftarrow> puts [str '',tap_port=''] st; putTAPPort p st } else Some st);
      puts ys st }) = None"
  by (simp add: putTAPPort_long Option.bind_eq_None_conv)

lemma Tag_MarshalTo_text:
  assumes "ip6_ok (tf_IP6 (side0 (tag_Field t)))" "ip6_ok (tf_IP6 (side1 (tag_Field t)))"
    and "has (tag_Code t) TAPPort \<Longrightarrow> unat (tf_TAPPort (tag_Field t)) < 2 ^ 32" "length b = MAX_STRING_LENGTH"
  shows "Tag_MarshalTo t b = Some (written (Tag_text t) b)"
proof -
  let ?c = "tag_Code t" and ?f = "tag_Field t"
  let ?xs = "tag_pieces_head ?c ?f @ tag_pieces_mid ?c ?f @ tag_pieces_tail ?c ?f"
  have "length (concat ?xs) + 18 + length (concat (tag_pieces_end ?c ?f)) \<le> length b"
    using head_short [OF assms(1,2), of ?c] mid_short [of ?c ?f] tail_short [of ?c ?f] end_short [of ?c ?f] assms(4)
    by (simp add: short_def MAX_STRING_LENGTH_def)
  from port_pieces [OF this assms(3)] show ?thesis by (simp add: Tag_MarshalTo_def Tag_text_def Let_def)
qed

section \<open>Reading numbers\<close>

lemma parse_digits_append: "parse_digits n (xs @ ys) = parse_digits n xs \<bind> (\<lambda>m. parse_digits m ys)"
  by (induction xs arbitrary: n) simp_all

lemma parse_digit: "d < 10 \<Longrightarrow> parse_digits n [of_nat (48 + d)] = Some (10 * n + d)"
proof -
  assume d: "d < 10"
  have u: "unat (of_nat (48 + d) :: u8) = 48 + d" using d by (simp only: unat_of_nat) simp
  have "of_nat (48 + d) - 48 = (of_nat d :: u8)" by simp
  moreover have "unat (of_nat d :: u8) = d" using d by (simp add: unat_of_nat)
  moreover have "48 \<le> (of_nat (48 + d) :: u8)" "of_nat (48 + d) \<le> (57 :: u8)" using d u by (simp_all only: word_le_nat_alt) simp_all
  ultimately show ?thesis by (simp del: of_nat_add)
qed

lemmas parse_digit' = parse_digit [unfolded of_nat_add of_nat_numeral]

lemma parse_digits_decimal: "\<exists>k. \<forall>m. parse_digits m (decimal n) = Some (m * 10 ^ k + n)"
proof (induction n rule: decimal.induct)
  case (1 n)
  show ?case
  proof (cases "n < 10")
    case True
    then show ?thesis by (intro exI [of _ 1]) (simp add: decimal.simps [of n] parse_digit' mult.commute del: parse_digits.simps)
  next
    case False
    then obtain k where k: "\<forall>m. parse_digits m (decimal (n div 10)) = Some (m * 10 ^ k + n div 10)" using 1 by blast
    have "parse_digits m (decimal n) = Some (m * 10 ^ Suc k + n)" for m
      using False k parse_digit' [of "n mod 10" "m * 10 ^ k + n div 10"]
      by (simp add: decimal.simps [of n] parse_digits_append algebra_simps del: parse_digits.simps)
    then show ?thesis by blast
  qed
qed

lemma decimal_not_Nil: "decimal n \<noteq> []"
  by (subst decimal.simps) simp

lemma parse_nat_decimal: "parse_nat (decimal n) = Some n"
  using parse_digits_decimal [of n] by (auto simp: parse_nat_def decimal_not_Nil)

lemma decimal_digits: "c \<in> set (decimal n) \<Longrightarrow> 48 \<le> c \<and> c \<le> 57"
proof (induction n rule: decimal.induct)
  case (1 n)
  have "48 \<le> (of_nat (48 + d) :: u8) \<and> of_nat (48 + d) \<le> (57 :: u8)" if "d < 10" for d
  proof -
    have "unat (of_nat (48 + d) :: u8) = 48 + d" using that by (simp only: unat_of_nat) simp
    then show ?thesis using that by (simp only: word_le_nat_alt) simp
  qed
  from this [of n] this [of "n mod 10"] 1 show ?case
    by (subst (asm) (2) decimal.simps) (auto split: if_splits)
qed

lemma ParseInt_decimal: "n < 2 ^ 63 \<Longrightarrow> ParseInt (decimal n) = Some (of_nat n)"
proof -
  assume n: "n < 2 ^ 63"
  have "hd (decimal n) \<in> set (decimal n)" by (simp add: decimal_not_Nil)
  then have "48 \<le> hd (decimal n)" using decimal_digits by blast
  then have "hd (decimal n) \<noteq> 45" "hd (decimal n) \<noteq> 43" by auto
  then show ?thesis using n by (simp add: ParseInt_def parse_nat_decimal)
qed

lemma ParseInt_num: "ParseInt (num (v :: u16)) = Some (ucast v)"
proof -
  have "unat v < 2 ^ 16" using unsigned_less [of v, where 'a = nat] by simp
  moreover from this have "unat (ucast v :: u64) = unat v"
    by (simp add: unsigned_ucast_eq take_bit_nat_eq_self)
  ultimately show ?thesis by (simp add: num_def FormatUint_def ParseInt_decimal)
qed

lemma ucast_u64_back: "ucast (ucast (v :: u16) :: u64) = v" "ucast (ucast (w :: i16) :: u64) = w"
  by (rule bit_word_eqI, simp add: bit_unsigned_iff)+

lemma special_round_trip: "unmarshalUint16WithSpecialID (marshalUint16WithSpecialID v) = (v, True)"
proof (cases "v = -1 \<or> v = -2")
  case True
  have m: "ucast (- 1 :: i64) = (- 1 :: i16)" by (rule bit_word_eqI) (simp add: bit_unsigned_iff)
  have "unmarshalUint16WithSpecialID [45, 49] = (-1, True)" "unmarshalUint16WithSpecialID [45, 50] = (-2, True)"
    by (simp_all add: unmarshalUint16WithSpecialID_def ParseInt_def parse_nat_def m)
  then show ?thesis using True special_texts by auto
next
  case False
  then show ?thesis using ParseInt_num [of v] by (simp add: special_value unmarshalUint16WithSpecialID_def ucast_u64_back)
qed

lemma special_int32: "unmarshalInt32WithSpecialID (marshalInt32WithSpecialID v) = v"
  by (simp add: unmarshalInt32WithSpecialID_def marshalInt32WithSpecialID_def)

lemma marshalUint16s_Join: "marshalUint16s vs = Join [124] (map num vs)"
proof -
  have "concat (map (\<lambda>(i, v). num v @ (if i + 1 < n + length vs then str ''|'' else [])) (enumerate n vs)) = Join [124] (map num vs)" for n
  proof (induction vs arbitrary: n)
    case (Cons v vs)
    have "concat (map (\<lambda>(i, v). num v @ (if i + 1 < n + length (v # vs) then str ''|'' else [])) (enumerate (Suc n) vs)) = Join [124] (map num vs)"
      using Cons [of "Suc n"] by simp
    then show ?case by (cases vs) (simp_all add: str_def)
  qed simp
  from this [of 0] show ?thesis by (simp add: marshalUint16s_def)
qed

lemma split_on_append: "c \<notin> set x \<Longrightarrow> split_on c (x @ c # y) = x # split_on c y"
  by (induction x) auto

lemma split_on_none: "c \<notin> set x \<Longrightarrow> split_on c x = [x]"
  by (induction x) auto

lemma split_on_Join: "xs \<noteq> [] \<Longrightarrow> \<forall>x\<in>set xs. c \<notin> set x \<Longrightarrow> split_on c (Join [c] xs) = xs"
proof (induction xs)
  case (Cons x xs)
  then show ?case by (cases "xs = []") (simp_all add: Join_Cons split_on_append split_on_none)
qed simp

lemma parse_all_num: "parse_all (map num vs) acc = (acc @ vs, True)"
  by (induction vs arbitrary: acc) (simp_all add: ParseInt_num ucast_u64_back)

lemma uint16s_round_trip: "vs \<noteq> [] \<Longrightarrow> unmarshalUint16s (marshalUint16s vs) = (vs, True)"
proof -
  have "124 \<notin> set (num v)" for v :: u16 using decimal_digits [of 124] by (auto simp: num_def FormatUint_def)
  then show "vs \<noteq> [] \<Longrightarrow> unmarshalUint16s (marshalUint16s vs) = (vs, True)"
    by (simp add: unmarshalUint16s_def marshalUint16s_Join split_on_Join parse_all_num)
qed

section \<open>Properties\<close>

text \<open>C30: Printing a tag whose addresses are missing or have 16 bytes gives the concatenation of its pieces, which always fits the buffer, unless
  it has a capture port with anything in its upper half, an origin or a tunnel type: then printing panics, in any buffer.\<close>

theorem tag_text:
  assumes "ip6_ok (tf_IP6 (side0 (tag_Field t)))" "ip6_ok (tf_IP6 (side1 (tag_Field t)))"
  shows "Tag_ToKVString t = (if has (tag_Code t) TAPPort \<and> 2 ^ 32 \<le> unat (tf_TAPPort (tag_Field t)) then None else Some (Tag_text t))"
proof (cases "has (tag_Code t) TAPPort \<and> 2 ^ 32 \<le> unat (tf_TAPPort (tag_Field t))")
  case True
  then have "Tag_MarshalTo t b = None" for b unfolding Tag_MarshalTo_def Let_def by (intro port_panics) simp_all
  then show ?thesis using True by (simp add: Tag_ToKVString_def kv_string_def)
next
  case False
  then have "Tag_MarshalTo t (replicate MAX_STRING_LENGTH 0) = Some (written (Tag_text t) (replicate MAX_STRING_LENGTH 0))"
    by (intro Tag_MarshalTo_text assms) auto
  then show ?thesis using False unfolding Tag_ToKVString_def by (simp only: kv_string_written if_False)
qed

theorem tag_text_witness:
  "Tag_ToKVString \<lparr>tag_Field = Field_zero\<lparr>tf_TAPPort := FromTunnelIP 1 False\<rparr>, tag_Code = codes [TAPPort], tag_id = []\<rparr> = None \<and>
   Tag_ToKVString \<lparr>tag_Field = Field_zero\<lparr>tf_TAPPort := FromLocalMAC 0 0xab\<rparr>, tag_Code = codes [TAPPort, VTAPID], tag_id = []\<rparr>
     = Some (str '',tap_port=000000ab,vtap_id=0'')"
proof -
  let ?a = "\<lparr>tag_Field = Field_zero\<lparr>tf_TAPPort := FromTunnelIP 1 False\<rparr>, tag_Code = codes [TAPPort], tag_id = []\<rparr>"
  let ?b = "\<lparr>tag_Field = Field_zero\<lparr>tf_TAPPort := FromLocalMAC 0 0xab\<rparr>, tag_Code = codes [TAPPort, VTAPID], tag_id = []\<rparr>"
  have p: "2 ^ 32 \<le> unat (FromTunnelIP 1 False)" "unat (FromLocalMAC 0 0xab) = 0xab"
    by (simp_all add: FromTunnelIP_def FromLocalMAC_def tapport_from_defs)
  have h: "hexdigits 171 = str ''ab''" by code_simp
  have "Tag_text ?b = str '',tap_port=000000ab,vtap_id=0''"
    by (simp add: Tag_text_def tag_pieces_head_def tag_pieces_mid_def tag_pieces_tail_def tag_pieces_end_def has_codes opt_def Field_zero_def
        p(2) hex_padded_def h num_def FormatUint_def decimal.simps) (simp add: str_def eval_nat_numeral)
  with tag_text [of ?a] tag_text [of ?b] p show ?thesis by (simp add: has_codes ip6_ok_def Field_zero_def FieldSide_zero_def)
qed

text \<open>The conversions of identifiers are read back: an identifier that may be negative from its text and from its 32 bit form, a list of
  numbers from its text, except that the empty list prints as the empty text, which is an error to read.\<close>

theorem identifier_round_trip:
  "unmarshalUint16WithSpecialID (marshalUint16WithSpecialID v) = (v, True) \<and> unmarshalInt32WithSpecialID (marshalInt32WithSpecialID v) = v \<and>
   unmarshalUint16s (marshalUint16s vs) = (vs, vs \<noteq> [])"
proof -
  have "unmarshalUint16s (marshalUint16s []) = ([], False)"
    by (simp add: marshalUint16s_def unmarshalUint16s_def ParseInt_def parse_nat_def)
  then show ?thesis using special_round_trip special_int32 uint16s_round_trip [of vs] by (cases "vs = []") simp_all
qed

end
