(* ===== verification/Packet_Sequence.thy ===== *)
theory Packet_Sequence
  imports Codec_Messages "HOL-Library.State_Monad"
begin

text \<open>
  The packet sequence blocks of \<^verbatim>\<open>libs/datatype/packet_sequence.go\<close>: the headers of the
  packets of a flow, delta encoded against the last packet of the same direction.

  The decoder is threaded through the reads by the state monad of the library. The two loops
  of \<^verbatim>\<open>DecodePacketSequenceBlock\<close> run on a length field of the input that wraps around, so
  they are partial functions, and \<open>None\<close> is a run that does not end: the theorems show that
  there is none, that a result is no longer than the input pays for, and that the blocks of
  any sender of the format are read back. The wire format is stated on its own
  (\<open>packet_bytes\<close>, \<open>block_bytes\<close>), for every choice of the fields a sender leaves out.
\<close>

section \<open>Data\<close>

type_synonym 'a reader = "(SimpleDecoder, 'a) state"

abbreviation (input) return :: "'a \<Rightarrow> 'a reader" where
  "return \<equiv> State_Monad.return"

definition HAS_OPT_SACK :: u8 where "HAS_OPT_SACK = 0x01"
definition HAS_OPT_WS :: u8 where "HAS_OPT_WS = 0x02"
definition HAS_OPT_MSS :: u8 where "HAS_OPT_MSS = 0x04"
definition HAS_WINDOW_SIZE :: u8 where "HAS_WINDOW_SIZE = 0x08"
definition HAS_PAYLOAD_SIZE :: u8 where "HAS_PAYLOAD_SIZE = 0x10"
definition HAS_ACK :: u8 where "HAS_ACK = 0x20"
definition HAS_SEQ :: u8 where "HAS_SEQ = 0x40"
definition HAS_FLAG :: u8 where "HAS_FLAG = 0x80"

record FullPacketData =
  fp_Timestamp :: u64
  fp_Seq :: u32
  fp_Ack :: u32
  fp_PayloadLen :: u16
  fp_WinSize :: u16
  fp_OptMss :: u16
  fp_OptWs :: u8
  fp_Flags :: u8
  fp_Direction :: u8
  fp_OptSackPermitted :: bool
  fp_OptSack :: bytes

record UncompressedPacketSequenceBlock =
  pq_FlowId :: u64
  pq_FullPacketsData :: "FullPacketData list"
  pq_TimePrecision :: u8

definition FullPacketData_zero :: FullPacketData where
  "FullPacketData_zero = \<lparr>fp_Timestamp = 0, fp_Seq = 0, fp_Ack = 0, fp_PayloadLen = 0, fp_WinSize = 0, fp_OptMss = 0,
     fp_OptWs = 0, fp_Flags = 0, fp_Direction = 0, fp_OptSackPermitted = False, fp_OptSack = []\<rparr>"

text \<open>
  What the inner loop carries: the block \<^verbatim>\<open>u\<close>, the array \<^verbatim>\<open>lastPacketsData\<close>, which
  of its entries is set (\<^verbatim>\<open>hasLastPacket\<close>) and \<^verbatim>\<open>lastTimestamp\<close>.
\<close>

record sequence_vars =
  sv_u :: UncompressedPacketSequenceBlock
  sv_last :: "FullPacketData list"
  sv_has :: "bool list"
  sv_time :: u64

datatype sequence_error = ErrPacketSequenceBlock

section \<open>One packet\<close>

text \<open>The first packet has the precision and the whole time, the next ones the time passed.\<close>

definition read_timestamp :: "u8 \<Rightarrow> u64 \<Rightarrow> (u8 \<times> u64) reader" where
  "read_timestamp precision lastTimestamp =
     (if lastTimestamp = 0
      then do { timestamp \<leftarrow> State ReadU64; return (ucast (drop_bit 56 timestamp), timestamp AND (push_bit 56 1 - 1)) }
      else do { delta \<leftarrow> State ReadVarintU64; return (precision, lastTimestamp + delta) })"

definition read_delta :: "bool \<Rightarrow> u32 \<Rightarrow> u32 reader" where
  "read_delta has old = (if has then do { delta \<leftarrow> State ReadZigzagU32; return (old + delta) } else State ReadU32)"

primrec sack_loop :: "nat \<Rightarrow> u32 \<Rightarrow> bytes \<Rightarrow> bytes reader" where
  "sack_loop 0 lastSack optSack = return optSack"
| "sack_loop (Suc n) lastSack optSack = do {
     a \<leftarrow> State ReadVarintU32;
     b \<leftarrow> State ReadVarintU32;
     sack_loop n (lastSack + a + b) (optSack @ put_be 4 (lastSack + a) @ put_be 4 (lastSack + a + b)) }"

definition read_sack :: "(bool \<times> bytes) reader" where
  "read_sack = do {
     sackFlag \<leftarrow> State ReadU8;
     let sackNum = sackFlag AND 0x7;
     if sackNum > 0 then do {
       lastSack \<leftarrow> State ReadU32;
       a \<leftarrow> State ReadVarintU32;
       optSack \<leftarrow> sack_loop (unat (sackNum - 1)) (lastSack + a) (put_be 4 lastSack @ put_be 4 (lastSack + a));
       return (drop_bit 3 sackFlag > 0, optSack)
     } else return (drop_bit 3 sackFlag > 0, []) }"

text \<open>The fields after the time, for the flag word and the last packet of the same direction.\<close>

definition read_fields_of :: "u64 \<Rightarrow> u16 \<Rightarrow> bool \<Rightarrow> FullPacketData \<Rightarrow> FullPacketData reader" where
  "read_fields_of time fieldFlag has old = (let low = (ucast fieldFlag :: u8) in do {
     flags \<leftarrow> (if low AND HAS_FLAG > 0 then State ReadU8 else return (fp_Flags old));
     sq \<leftarrow> (if low AND HAS_SEQ > 0 then read_delta has (fp_Seq old) else return (fp_Seq old));
     ack \<leftarrow> (if low AND HAS_ACK > 0 then read_delta has (fp_Ack old) else return (fp_Ack old));
     payloadLen \<leftarrow> (if low AND HAS_PAYLOAD_SIZE > 0 then State ReadU16 else return (fp_PayloadLen old));
     winSize \<leftarrow> (if low AND HAS_WINDOW_SIZE > 0 then State ReadU16 else return (fp_WinSize old));
     mss \<leftarrow> (if low AND HAS_OPT_MSS > 0 then State ReadU16 else return 0);
     ws \<leftarrow> (if low AND HAS_OPT_WS > 0 then State ReadU8 else return 0);
     sack \<leftarrow> (if low AND HAS_OPT_SACK > 0 then read_sack else return (False, []));
     return \<lparr>fp_Timestamp = time, fp_Seq = sq, fp_Ack = ack, fp_PayloadLen = payloadLen, fp_WinSize = winSize, fp_OptMss = mss,
       fp_OptWs = ws, fp_Flags = flags, fp_Direction = ucast (drop_bit 15 fieldFlag),
       fp_OptSackPermitted = fst sack, fp_OptSack = snd sack\<rparr> })"

definition keep_packet :: "u8 \<Rightarrow> u64 \<Rightarrow> FullPacketData \<Rightarrow> sequence_vars \<Rightarrow> sequence_vars" where
  "keep_packet precision time d v = (let i = unat (fp_Direction d) in
     \<lparr>sv_u = (sv_u v)\<lparr>pq_TimePrecision := precision, pq_FullPacketsData := pq_FullPacketsData (sv_u v) @ [d]\<rparr>,
      sv_last = (sv_last v)[i := d], sv_has = (sv_has v)[i := True], sv_time = time\<rparr>)"

definition read_packet :: "sequence_vars \<Rightarrow> sequence_vars reader" where
  "read_packet v = do {
     (precision, time) \<leftarrow> read_timestamp (pq_TimePrecision (sv_u v)) (sv_time v);
     fieldFlag \<leftarrow> State ReadU16;
     let i = unat (drop_bit 15 fieldFlag);
     d \<leftarrow> read_fields_of time fieldFlag (sv_has v ! i) (sv_last v ! i);
     return (keep_packet precision time d v) }"

section \<open>The two loops\<close>

partial_function (option) packets_loop ::
  "u32 \<Rightarrow> sequence_vars \<Rightarrow> SimpleDecoder \<Rightarrow> ((sequence_error + sequence_vars) \<times> SimpleDecoder) option" where
  "packets_loop l v decoder =
     (if l > 0
      then let (v', decoder') = run_state (read_packet v) decoder;
               l' = l - of_nat (Decoder_Offset decoder' - Decoder_Offset decoder) in
        if Failed decoder' then Some (Inl ErrPacketSequenceBlock, decoder') else packets_loop l' v' decoder'
      else Some (Inr v, decoder))"

definition new_block :: "u64 \<Rightarrow> sequence_vars" where
  "new_block flowId = \<lparr>sv_u = \<lparr>pq_FlowId = flowId, pq_FullPacketsData = [], pq_TimePrecision = 0\<rparr>,
     sv_last = [FullPacketData_zero, FullPacketData_zero], sv_has = [False, False], sv_time = 0\<rparr>"

partial_function (option) blocks_loop ::
  "UncompressedPacketSequenceBlock list \<Rightarrow> SimpleDecoder \<Rightarrow>
     ((sequence_error + UncompressedPacketSequenceBlock list) \<times> SimpleDecoder) option" where
  "blocks_loop blocks decoder =
     (if IsEnd decoder then Some (Inr blocks, decoder)
      else let (l, decoder) = ReadU32 decoder; (flowId, decoder) = ReadU64 decoder in
        do { r \<leftarrow> packets_loop (l - 8) (new_block flowId) decoder;
             case r of (Inl e, decoder) \<Rightarrow> Some (Inl e, decoder)
             | (Inr v, decoder) \<Rightarrow> blocks_loop (blocks @ [sv_u v]) decoder })"

definition DecodePacketSequenceBlock :: "SimpleDecoder \<Rightarrow>
     ((sequence_error + UncompressedPacketSequenceBlock list) \<times> SimpleDecoder) option" where
  "DecodePacketSequenceBlock = blocks_loop []"

section \<open>Every read moves forward\<close>

definition moves :: "SimpleDecoder \<Rightarrow> SimpleDecoder \<Rightarrow> bool" where
  "moves d d' \<longleftrightarrow> dec_buf d' = dec_buf d \<and> dec_err d \<le> dec_err d' \<and> dec_offset d \<le> dec_offset d' \<and>
     (dec_err d' = dec_err d \<longrightarrow> \<not> overrun d \<longrightarrow> \<not> overrun d')"

lemma moves_trans: "moves a b \<Longrightarrow> moves b c \<Longrightarrow> moves a c"
  by (auto simp: moves_def)

lemma moves_read: "cursor_read rd \<Longrightarrow> state_io_rel moves (State rd)"
  by (auto simp: state_io_rel_def moves_def cursor_read_def)

lemma moves_return [simp]: "state_io_rel moves (return x)"
  by (simp add: state_io_rel_def moves_def)

lemma moves_bind:
  "state_io_rel moves m \<Longrightarrow> (\<And>x. state_io_rel moves (f x)) \<Longrightarrow> state_io_rel moves (m \<bind> f)"
  by (auto simp: state_io_rel_def split_beta intro: moves_trans)

lemma moves_if:
  "(c \<Longrightarrow> state_io_rel moves a) \<Longrightarrow> (\<not> c \<Longrightarrow> state_io_rel moves b) \<Longrightarrow> state_io_rel moves (if c then a else b)"
  by simp

lemmas moves_reads = moves_return moves_read [OF r_u8.cursor_read_axioms] moves_read [OF r_u16.cursor_read_axioms]
  moves_read [OF r_u32.cursor_read_axioms] moves_read [OF r_u64.cursor_read_axioms]
  moves_read [OF r_varint32.cursor_read_axioms] moves_read [OF r_varint64.cursor_read_axioms]
  moves_read [OF r_zigzag32.cursor_read_axioms]

lemma moves_sack_loop: "state_io_rel moves (sack_loop n l opt)"
  by (induction n arbitrary: l opt) (simp_all only: sack_loop.simps, (intro moves_bind moves_reads | assumption)+)

lemma moves_read_sack: "state_io_rel moves read_sack"
  unfolding read_sack_def Let_def by (intro moves_bind moves_if moves_reads moves_sack_loop)

lemma moves_read_fields: "state_io_rel moves (read_fields_of t f has old)"
  unfolding read_fields_of_def read_delta_def Let_def by (intro moves_bind moves_if moves_reads moves_read_sack)

lemma timestamp_read: "cursor_read (run_state (read_timestamp p t))"
proof (cases "t = 0")
  case True
  show ?thesis by (rule mapped_read [OF r_u64.cursor_read_axioms]) (simp add: read_timestamp_def True split_beta)
next
  case False
  show ?thesis by (rule mapped_read [OF r_varint64.cursor_read_axioms]) (simp add: read_timestamp_def False split_beta)
qed

lemma read_packet_moves:
  assumes "run_state (read_packet v) d = (v', d')"
  shows "moves d d'" "dec_offset d + 2 \<le> dec_offset d'" "dec_err d' = dec_err d \<Longrightarrow> \<not> overrun d'"
    "length (pq_FullPacketsData (sv_u v')) = Suc (length (pq_FullPacketsData (sv_u v)))"
proof -
  let ?t = "read_timestamp (pq_TimePrecision (sv_u v)) (sv_time v)"
  obtain p time d1 where t: "run_state ?t d = ((p, time), d1)" by (metis prod.exhaust)
  obtain f d2 where f: "ReadU16 d1 = (f, d2)" by (metis prod.exhaust)
  let ?i = "unat (drop_bit 15 f)"
  obtain q d3 where q: "run_state (read_fields_of time f (sv_has v ! ?i) (sv_last v ! ?i)) d2 = (q, d3)" by (metis prod.exhaust)
  have v: "v' = keep_packet p time q v" "d' = d3" using assms by (simp_all add: read_packet_def t f q Let_def)
  have 1: "dec_buf d1 = dec_buf d" "dec_err d \<le> dec_err d1" "dec_offset d \<le> dec_offset d1" "dec_err d1 = dec_err d \<Longrightarrow> \<not> overrun d1"
    using timestamp_read [of "pq_TimePrecision (sv_u v)" "sv_time v"] by (metis cursor_read_def snd_conv t)+
  have 2: "dec_buf d2 = dec_buf d1" "dec_err d1 \<le> dec_err d2" "dec_offset d2 = dec_offset d1 + 2" "dec_err d2 = dec_err d1 \<Longrightarrow> \<not> overrun d2"
    using f by (auto simp: ReadU16_def Let_def split: if_splits)
  have 3: "moves d2 d3" using state_io_relD [OF moves_read_fields q] .
  show "moves d d'" "dec_offset d + 2 \<le> dec_offset d'" "dec_err d' = dec_err d \<Longrightarrow> \<not> overrun d'"
    using 1 2 3 by (auto simp: moves_def v)
  show "length (pq_FullPacketsData (sv_u v')) = Suc (length (pq_FullPacketsData (sv_u v)))"
    by (simp add: v keep_packet_def Let_def)
qed

section \<open>Termination\<close>

text \<open>
  The length field does not bound the inner loop, as it wraps around when a packet is longer
  than what is left of it. What ends the loop is the decoder: a packet moves it forward by two
  bytes at least, and past the end of the buffer it has failed.
\<close>

lemma packets_loop_ends:
  "\<exists>r d'. packets_loop l v d = Some (r, d') \<and> moves d d' \<and> (r = Inl ErrPacketSequenceBlock \<longrightarrow> Failed d') \<and> (\<forall>v'. r = Inr v' \<longrightarrow> (d' = d \<or> \<not> overrun d') \<and>
     2 * length (pq_FullPacketsData (sv_u v')) + dec_offset d \<le> 2 * length (pq_FullPacketsData (sv_u v)) + dec_offset d')"
proof (induction "length (dec_buf d) - dec_offset d" arbitrary: l v d rule: less_induct)
  case less
  obtain v1 d1 where p: "run_state (read_packet v) d = (v1, d1)" by (metis prod.exhaust)
  note m = read_packet_moves [OF p]
  show ?case
  proof (cases "l > 0 \<and> \<not> Failed d1")
    case True
    then have "dec_err d1 = dec_err d" using m(1) by (simp add: moves_def Failed_def)
    then have "\<not> overrun d1" by (rule m(3))
    then have "length (dec_buf d1) - dec_offset d1 < length (dec_buf d) - dec_offset d"
      using m(1,2) by (simp add: moves_def overrun_def)
    from less [OF this] obtain r d' where
      r: "packets_loop (l - of_nat (Decoder_Offset d1 - Decoder_Offset d)) v1 d1 = Some (r, d')" "moves d1 d'" "r = Inl ErrPacketSequenceBlock \<longrightarrow> Failed d'"
      "\<forall>v'. r = Inr v' \<longrightarrow> (d' = d1 \<or> \<not> overrun d') \<and> 2 * length (pq_FullPacketsData (sv_u v')) + dec_offset d1
         \<le> 2 * length (pq_FullPacketsData (sv_u v1)) + dec_offset d'" by blast
    have "packets_loop l v d = Some (r, d')" using True r(1) by (subst packets_loop.simps) (simp add: p)
    then show ?thesis using r(2-4) m(1,2,4) \<open>\<not> overrun d1\<close> by (fastforce intro: moves_trans)
  next
    case False
    then show ?thesis using m(1) by (subst packets_loop.simps) (auto simp: p moves_def)
  qed
qed

text \<open>The bytes the blocks of a result were read from, at the least.\<close>

definition blocks_cost :: "UncompressedPacketSequenceBlock list \<Rightarrow> nat" where
  "blocks_cost bs = (\<Sum>b\<leftarrow>bs. 12 + 2 * length (pq_FullPacketsData b))"

lemma blocks_loop_ends:
  "\<exists>r d'. blocks_loop bs d = Some (r, d') \<and> dec_buf d' = dec_buf d \<and>
     (r = Inl ErrPacketSequenceBlock \<longrightarrow> Failed d') \<and> (\<forall>bs'. r = Inr bs' \<longrightarrow> IsEnd d' \<and>
     (d' = d \<or> dec_offset d' < length (dec_buf d) + 12) \<and> blocks_cost bs' + dec_offset d \<le> blocks_cost bs + dec_offset d')"
proof (induction "length (dec_buf d) - dec_offset d" arbitrary: bs d rule: less_induct)
  case less
  obtain l d0 where l: "ReadU32 d = (l, d0)" by (metis prod.exhaust)
  obtain flowId d1 where f: "ReadU64 d0 = (flowId, d1)" by (metis prod.exhaust)
  have d1: "dec_buf d1 = dec_buf d" "dec_offset d1 = dec_offset d + 12"
    using l f by (auto simp: ReadU32_def ReadU64_def Let_def split: if_splits)
  obtain r d2 where p: "packets_loop (l - 8) (new_block flowId) d1 = Some (r, d2)" "moves d1 d2" "r = Inl ErrPacketSequenceBlock \<longrightarrow> Failed d2"
    "\<forall>v'. r = Inr v' \<longrightarrow> (d2 = d1 \<or> \<not> overrun d2) \<and> 2 * length (pq_FullPacketsData (sv_u v')) + dec_offset d1 \<le> dec_offset d2"
    using packets_loop_ends [of "l - 8" "new_block flowId" d1] by (auto simp: new_block_def)
  have buf: "dec_buf d2 = dec_buf d" "dec_offset d + 12 \<le> dec_offset d2" using p(2) d1 by (auto simp: moves_def)
  show ?case
  proof (cases "IsEnd d")
    case True
    then show ?thesis by (subst blocks_loop.simps) simp
  next
    case False
    then have lt: "dec_offset d < length (dec_buf d)" by (simp add: IsEnd_def)
    show ?thesis
    proof (cases r)
      case (Inl e)
      then show ?thesis using False p(1,3) buf by (subst blocks_loop.simps) (simp add: l f)
    next
      case (Inr v)
      have "length (dec_buf d2) - dec_offset d2 < length (dec_buf d) - dec_offset d" using buf lt by simp
      from less [OF this, of "bs @ [sv_u v]"] obtain r' d' where
        r': "blocks_loop (bs @ [sv_u v]) d2 = Some (r', d')" "dec_buf d' = dec_buf d2" "r' = Inl ErrPacketSequenceBlock \<longrightarrow> Failed d'"
        "\<forall>bs'. r' = Inr bs' \<longrightarrow> IsEnd d' \<and> (d' = d2 \<or> dec_offset d' < length (dec_buf d2) + 12) \<and>
           blocks_cost bs' + dec_offset d2 \<le> blocks_cost (bs @ [sv_u v]) + dec_offset d'" by blast
      have d2: "dec_offset d2 < length (dec_buf d) + 12" using p(4) Inr d1 lt buf(1) by (auto simp: overrun_def)
      have "blocks_loop bs d = Some (r', d')" using False p(1) Inr r'(1) by (subst blocks_loop.simps) (simp add: l f)
      moreover have "blocks_cost (bs @ [sv_u v]) + dec_offset d \<le> blocks_cost bs + dec_offset d2"
        using p(4) Inr d1(2) by (auto simp: blocks_cost_def)
      ultimately show ?thesis using r'(2-4) d2 buf(1) by (fastforce simp: IsEnd_def)
    qed
  qed
qed


section \<open>The wire format\<close>

text \<open>
  A packet as a sender gives it: the flag word, which selects the fields that are sent, the
  sack flag and the edges of its blocks, and the packet itself.
\<close>

record sent_packet =
  sp_flag :: u16
  sp_sack :: u8
  sp_edges :: "u32 list"
  sp_data :: FullPacketData

definition sent :: "sent_packet \<Rightarrow> u8 \<Rightarrow> bool" where
  "sent p m \<longleftrightarrow> (ucast (sp_flag p) :: u8) AND m > 0"

primrec edge_bytes :: "u32 \<Rightarrow> u32 list \<Rightarrow> bytes" where
  "edge_bytes old [] = []"
| "edge_bytes old (e # es) = varint_bytes (ucast (e - old)) @ edge_bytes e es"

definition delta_bytes :: "bool \<Rightarrow> u32 \<Rightarrow> u32 \<Rightarrow> bytes" where
  "delta_bytes has old x = (if has then varint_bytes (ucast (zigzag (x - old))) else put_le 4 x)"

definition time_bytes :: "u8 \<Rightarrow> u64 \<Rightarrow> u64 \<Rightarrow> bytes" where
  "time_bytes precision old t = (if old = 0 then put_le 8 (push_bit 56 (ucast precision) OR t) else varint_bytes (t - old))"

definition sack_bytes :: "u8 \<Rightarrow> u32 list \<Rightarrow> bytes" where
  "sack_bytes fl es = [fl] @ (case es of [] \<Rightarrow> [] | e # es \<Rightarrow> put_le 4 e @ edge_bytes e es)"

definition field_bytes :: "bool \<Rightarrow> FullPacketData \<Rightarrow> sent_packet \<Rightarrow> bytes" where
  "field_bytes has old p = (let d = sp_data p; opt = (\<lambda>m bs. if sent p m then bs else []) in
     opt HAS_FLAG [fp_Flags d] @ opt HAS_SEQ (delta_bytes has (fp_Seq old) (fp_Seq d)) @
     opt HAS_ACK (delta_bytes has (fp_Ack old) (fp_Ack d)) @ opt HAS_PAYLOAD_SIZE (put_le 2 (fp_PayloadLen d)) @
     opt HAS_WINDOW_SIZE (put_le 2 (fp_WinSize d)) @ opt HAS_OPT_MSS (put_le 2 (fp_OptMss d)) @
     opt HAS_OPT_WS [fp_OptWs d] @ opt HAS_OPT_SACK (sack_bytes (sp_sack p) (sp_edges p)))"

text \<open>The fields a sender leaves out are those of the last packet, or absent.\<close>

definition fields_ok :: "FullPacketData \<Rightarrow> sent_packet \<Rightarrow> bool" where
  "fields_ok old p \<longleftrightarrow> (let d = sp_data p; other = (\<lambda>m b. \<not> sent p m \<longrightarrow> b) in
     other HAS_FLAG (fp_Flags d = fp_Flags old) \<and> other HAS_SEQ (fp_Seq d = fp_Seq old) \<and>
     other HAS_ACK (fp_Ack d = fp_Ack old) \<and> other HAS_PAYLOAD_SIZE (fp_PayloadLen d = fp_PayloadLen old) \<and>
     other HAS_WINDOW_SIZE (fp_WinSize d = fp_WinSize old) \<and> other HAS_OPT_MSS (fp_OptMss d = 0) \<and>
     other HAS_OPT_WS (fp_OptWs d = 0) \<and> other HAS_OPT_SACK (\<not> fp_OptSackPermitted d \<and> sp_edges p = []) \<and>
     (sent p HAS_OPT_SACK \<longrightarrow> fp_OptSackPermitted d = (drop_bit 3 (sp_sack p) > 0) \<and>
        length (sp_edges p) = 2 * unat (sp_sack p AND 0x7)) \<and>
     fp_OptSack d = concat (map (put_be 4) (sp_edges p)) \<and> fp_Direction d = ucast (drop_bit 15 (sp_flag p)))"

text \<open>
  A sender knows the packets it has sent before in the same block, oldest first: a packet is
  sent as its difference to the latest one of its direction, its time as the time since the
  latest one of both.
\<close>

definition last_of :: "FullPacketData list \<Rightarrow> u8 \<Rightarrow> FullPacketData option" where
  "last_of hs dir = find (\<lambda>d. fp_Direction d = dir) (rev hs)"

definition packet_before :: "FullPacketData list \<Rightarrow> u8 \<Rightarrow> FullPacketData" where
  "packet_before hs dir = (case last_of hs dir of Some d \<Rightarrow> d | None \<Rightarrow> FullPacketData_zero)"

definition time_before :: "FullPacketData list \<Rightarrow> u64" where
  "time_before hs = (if hs = [] then 0 else fp_Timestamp (last hs))"

definition packet_bytes :: "u8 \<Rightarrow> FullPacketData list \<Rightarrow> sent_packet \<Rightarrow> bytes" where
  "packet_bytes precision hs p = (let d = sp_data p in
     time_bytes precision (time_before hs) (fp_Timestamp d) @ put_le 2 (sp_flag p) @
     field_bytes (last_of hs (fp_Direction d) \<noteq> None) (packet_before hs (fp_Direction d)) p)"

definition packet_ok :: "FullPacketData list \<Rightarrow> sent_packet \<Rightarrow> bool" where
  "packet_ok hs p \<longleftrightarrow> fields_ok (packet_before hs (fp_Direction (sp_data p))) p \<and> fp_Timestamp (sp_data p) \<noteq> 0 \<and>
     (hs = [] \<longrightarrow> drop_bit 56 (fp_Timestamp (sp_data p)) = 0)"

primrec sequence_bytes :: "u8 \<Rightarrow> FullPacketData list \<Rightarrow> sent_packet list \<Rightarrow> bytes" where
  "sequence_bytes precision hs [] = []"
| "sequence_bytes precision hs (p # ps) = packet_bytes precision hs p @ sequence_bytes precision (hs @ [sp_data p]) ps"

primrec sequence_ok :: "FullPacketData list \<Rightarrow> sent_packet list \<Rightarrow> bool" where
  "sequence_ok hs [] \<longleftrightarrow> True"
| "sequence_ok hs (p # ps) \<longleftrightarrow> packet_ok hs p \<and> sequence_ok (hs @ [sp_data p]) ps"

type_synonym sent_block = "u64 \<times> u8 \<times> sent_packet list"

definition block_bytes :: "sent_block \<Rightarrow> bytes" where
  "block_bytes = (\<lambda>(flowId, precision, ps). let body = sequence_bytes precision [] ps in
     put_le 4 (of_nat (8 + length body) :: u32) @ put_le 8 flowId @ body)"

definition block_ok :: "sent_block \<Rightarrow> bool" where
  "block_ok = (\<lambda>(flowId, precision, ps). sequence_ok [] ps \<and>
     8 + length (sequence_bytes precision [] ps) < 2 ^ 32)"

definition block_of :: "sent_block \<Rightarrow> UncompressedPacketSequenceBlock" where
  "block_of = (\<lambda>(flowId, precision, ps). \<lparr>pq_FlowId = flowId, pq_FullPacketsData = map sp_data ps,
     pq_TimePrecision = (if ps = [] then 0 else precision)\<rparr>)"

section \<open>Reading back\<close>

text \<open>A reader in front of the bytes of a value returns it and stops behind them.\<close>

definition reads :: "'a reader \<Rightarrow> bytes \<Rightarrow> 'a \<Rightarrow> bool" where
  "reads m bs x \<longleftrightarrow> (\<forall>d rest. at d (bs @ rest) \<longrightarrow> run_state m d = (x, advance (length bs) d))"

lemma reads_codec: "field_codec wr rd wire ok \<Longrightarrow> ok x \<Longrightarrow> reads (State rd) (wire x) x"
  by (auto simp: reads_def field_codec_def)

lemma reads_return: "reads (return x) [] x"
  by (simp add: reads_def)

lemma reads_bind: "reads m bs x \<Longrightarrow> reads (f x) cs y \<Longrightarrow> reads (m \<bind> f) (bs @ cs) y"
  using at_advance [where bs = bs] by (fastforce simp: reads_def)

lemma reads_last: "reads m bs x \<Longrightarrow> reads (m \<bind> (\<lambda>x. return (f x))) bs (f x)"
  by (simp add: reads_def)

lemma reads_word:
  "reads (State ReadU8) [a] a" "reads (State ReadU16) (put_le 2 b) b" "reads (State ReadU32) (put_le 4 c) c"
  "reads (State ReadU64) (put_le 8 e) e" "reads (State ReadVarintU32) (varint_bytes (ucast c)) c"
  "reads (State ReadVarintU64) (varint_bytes e) e" "reads (State ReadZigzagU32) (varint_bytes (ucast (zigzag c))) c"
  using reads_codec [OF c_u8.field_codec_axioms TrueI] reads_codec [OF c_u16.field_codec_axioms TrueI]
    reads_codec [OF c_u32.field_codec_axioms TrueI] reads_codec [OF c_u64.field_codec_axioms TrueI]
    reads_codec [OF c_varint32.field_codec_axioms TrueI] reads_codec [OF c_varint64.field_codec_axioms TrueI]
    reads_codec [OF c_zigzag32.field_codec_axioms TrueI] by auto

lemma reads_opt:
  "(c \<Longrightarrow> reads a bs x) \<Longrightarrow> (\<not> c \<Longrightarrow> x = y) \<Longrightarrow> reads (if c then a else return y) (if c then bs else []) x"
  by (simp add: reads_return)

lemma reads_delta: "reads (read_delta has old) (delta_bytes has old x) x"
  using reads_last [OF reads_word(7) [of "x - old"], of "\<lambda>y. old + y"] reads_word(3) [of x]
  by (simp add: read_delta_def delta_bytes_def)

lemma reads_sack_loop:
  "length es = 2 * n \<Longrightarrow> reads (sack_loop n old opt) (edge_bytes old es) (opt @ concat (map (put_be 4) es))"
proof (induction n arbitrary: old opt es)
  case 0
  then show ?case by (simp add: reads_return)
next
  case (Suc n)
  then obtain a b fs where es: "es = a # b # fs" "length fs = 2 * n" by (cases es; cases "tl es") auto
  have "reads (sack_loop (Suc n) old opt) (varint_bytes (ucast (a - old)) @ varint_bytes (ucast (b - a)) @ edge_bytes b fs)
      ((opt @ put_be 4 a @ put_be 4 b) @ concat (map (put_be 4) fs))"
    unfolding sack_loop.simps
    by (rule reads_bind [OF reads_word(5)], rule reads_bind [OF reads_word(5)])
      (use Suc.IH [OF es(2), of b "opt @ put_be 4 a @ put_be 4 b"] in simp)
  then show ?case by (simp add: es)
qed

lemma reads_sack:
  assumes "length es = 2 * unat (fl AND 0x7)"
  shows "reads read_sack (sack_bytes fl es) (drop_bit 3 fl > 0, concat (map (put_be 4) es))"
proof -
  let ?n = "fl AND 0x7"
  have "reads (if ?n > 0 then do {
       lastSack \<leftarrow> State ReadU32;
       a \<leftarrow> State ReadVarintU32;
       optSack \<leftarrow> sack_loop (unat (?n - 1)) (lastSack + a) (put_be 4 lastSack @ put_be 4 (lastSack + a));
       return (drop_bit 3 fl > 0, optSack) } else return (drop_bit 3 fl > 0, []))
     (case es of [] \<Rightarrow> [] | e # es \<Rightarrow> put_le 4 e @ edge_bytes e es) (drop_bit 3 fl > 0, concat (map (put_be 4) es))" (is "reads ?m ?bs ?r")
  proof (cases "?n > 0")
    case False
    then have "?n = 0" by (simp add: word_gt_0)
    then show ?thesis using assms by (simp add: reads_return)
  next
    case True
    then have n: "unat ?n = Suc (unat (?n - 1))" by (simp add: unat_minus_one word_gt_0 unat_gt_0)
    then obtain e e' fs where es: "es = e # e' # fs" "length fs = 2 * unat (?n - 1)"
      using assms by (cases es; cases "tl es") auto
    have "reads ?m (put_le 4 e @ varint_bytes (ucast (e' - e)) @ edge_bytes e' fs)
      (drop_bit 3 fl > 0, (put_be 4 e @ put_be 4 e') @ concat (map (put_be 4) fs))"
      unfolding if_P [OF True]
      by (rule reads_bind [OF reads_word(3)], rule reads_bind [OF reads_word(5)], rule reads_last)
        (use reads_sack_loop [OF es(2), of e' "put_be 4 e @ put_be 4 e'"] in simp)
    then show ?thesis by (simp add: es)
  qed
  then show ?thesis
    unfolding read_sack_def sack_bytes_def Let_def by (rule reads_bind [where m = "State ReadU8" and x = fl, OF reads_word(1)])
qed

lemma reads_field_list:
  assumes "fields_ok old p"
  shows "reads (read_fields_of t (sp_flag p) has old) (field_bytes has old p) ((sp_data p)\<lparr>fp_Timestamp := t\<rparr>)"
proof -
  let ?d = "sp_data p"
  have r: "(sp_data p)\<lparr>fp_Timestamp := t\<rparr> = \<lparr>fp_Timestamp = t, fp_Seq = fp_Seq ?d, fp_Ack = fp_Ack ?d, fp_PayloadLen = fp_PayloadLen ?d,
       fp_WinSize = fp_WinSize ?d, fp_OptMss = fp_OptMss ?d, fp_OptWs = fp_OptWs ?d, fp_Flags = fp_Flags ?d,
       fp_Direction = ucast (drop_bit 15 (sp_flag p)), fp_OptSackPermitted = fst (fp_OptSackPermitted ?d, fp_OptSack ?d),
       fp_OptSack = snd (fp_OptSackPermitted ?d, fp_OptSack ?d)\<rparr>"
    using assms by (cases "sp_data p") (simp add: fields_ok_def Let_def)
  note ok = assms [unfolded fields_ok_def sent_def Let_def]
  show ?thesis
    unfolding read_fields_of_def field_bytes_def Let_def r sent_def
    by (rule reads_bind, rule reads_opt [OF reads_word(1)], simp add: ok,
        rule reads_bind, rule reads_opt [OF reads_delta], simp add: ok,
        rule reads_bind, rule reads_opt [OF reads_delta], simp add: ok,
        rule reads_bind, rule reads_opt [OF reads_word(2)], simp add: ok,
        rule reads_bind, rule reads_opt [OF reads_word(2)], simp add: ok,
        rule reads_bind, rule reads_opt [OF reads_word(2)], simp add: ok,
        rule reads_bind, rule reads_opt [OF reads_word(1)], simp add: ok,
        rule reads_last, rule reads_opt, use reads_sack [of "sp_edges p" "sp_sack p"] in \<open>simp_all add: ok\<close>)
qed


lemma reads_time:
  assumes "old = 0 \<Longrightarrow> drop_bit 56 t = 0" "old \<noteq> 0 \<Longrightarrow> p = precision"
  shows "reads (read_timestamp p old) (time_bytes precision old t) (precision, t)"
proof (cases "old = 0")
  case True
  let ?w = "push_bit 56 (ucast precision) OR t"
  have t: "take_bit 56 t = t" using assms(1) [OF True] by (simp add: take_bit_eq_self_iff_drop_bit_eq_0)
  have "ucast (drop_bit 56 (push_bit 56 (ucast precision) OR take_bit 56 t)) = precision"
    by (rule bit_word_eqI) (auto simp: bit_simps)
  moreover have "(push_bit 56 (ucast precision) OR take_bit 56 t) AND mask 56 = take_bit 56 t"
    by (rule bit_word_eqI) (auto simp: bit_simps)
  moreover have "push_bit 56 1 - 1 = (mask 56 :: u64)" by (simp add: mask_eq_exp_minus_1 push_bit_eq_mult)
  ultimately show ?thesis
    using reads_last [OF reads_word(4) [of ?w], of "\<lambda>x. (ucast (drop_bit 56 x) :: u8, x AND (push_bit 56 1 - 1))"]
    by (simp only: t read_timestamp_def time_bytes_def True if_True simp_thms)
next
  case False
  then show ?thesis
    using reads_last [OF reads_word(6) [of "t - old"], of "\<lambda>x. (precision, old + x)"] assms(2)
    by (simp add: read_timestamp_def time_bytes_def)
qed

text \<open>What the reader keeps of the packets before is what the sender goes by.\<close>

definition knows :: "FullPacketData list \<Rightarrow> u8 \<Rightarrow> sequence_vars \<Rightarrow> bool" where
  "knows hs precision v \<longleftrightarrow> sv_time v = time_before hs \<and> (hs \<noteq> [] \<longrightarrow> sv_time v \<noteq> 0 \<and> pq_TimePrecision (sv_u v) = precision) \<and>
     length (sv_has v) = 2 \<and> length (sv_last v) = 2 \<and>
     (\<forall>dir. unat dir < 2 \<longrightarrow> sv_has v ! unat dir = (last_of hs dir \<noteq> None) \<and> sv_last v ! unat dir = packet_before hs dir)"

lemma knows_new: "knows [] precision (new_block flowId)"
proof -
  have "unat dir < 2 \<Longrightarrow> unat dir = 0 \<or> unat dir = 1" for dir :: u8 by arith
  then show ?thesis by (fastforce simp: knows_def new_block_def time_before_def last_of_def packet_before_def)
qed

lemma direction_less:
  assumes "fields_ok old p"
  shows "unat (fp_Direction (sp_data p)) = unat (drop_bit 15 (sp_flag p))" "unat (fp_Direction (sp_data p)) < 2"
proof -
  have "unat (drop_bit 15 (sp_flag p)) < 2" using unsigned_less [of "sp_flag p", where 'a = nat] by (simp add: unat_drop_bit_div)
  then show "unat (fp_Direction (sp_data p)) = unat (drop_bit 15 (sp_flag p))" "unat (fp_Direction (sp_data p)) < 2"
    using assms by (simp_all add: fields_ok_def Let_def unsigned_ucast_eq take_bit_nat_eq_self)
qed

lemma knows_keep:
  assumes "knows hs precision v" "packet_ok hs p"
  shows "knows (hs @ [sp_data p]) precision (keep_packet precision (fp_Timestamp (sp_data p)) (sp_data p) v)"
proof -
  have "unat (fp_Direction (sp_data p)) < 2" using assms(2) by (auto simp: packet_ok_def intro: direction_less(2))
  then show ?thesis using assms
    by (auto simp: knows_def keep_packet_def Let_def time_before_def last_of_def packet_before_def packet_ok_def nth_list_update word_unat_eq_iff)
qed

lemma reads_packet:
  assumes "packet_ok hs p" "knows hs precision v"
  shows "reads (read_packet v) (packet_bytes precision hs p) (keep_packet precision (fp_Timestamp (sp_data p)) (sp_data p) v)"
proof -
  let ?d = "sp_data p" and ?old = "packet_before hs (fp_Direction (sp_data p))"
  have f: "fields_ok ?old p" using assms(1) by (simp add: packet_ok_def)
  note i = direction_less [OF f]
  have v: "sv_has v ! unat (drop_bit 15 (sp_flag p)) = (last_of hs (fp_Direction ?d) \<noteq> None)"
    "sv_last v ! unat (drop_bit 15 (sp_flag p)) = ?old" "sv_time v = time_before hs"
    using assms(2) i(2) unfolding knows_def i(1) [symmetric] by blast+
  have t: "reads (read_timestamp (pq_TimePrecision (sv_u v)) (time_before hs)) (time_bytes precision (time_before hs) (fp_Timestamp ?d))
      (precision, fp_Timestamp ?d)"
    using assms by (intro reads_time) (auto simp: packet_ok_def knows_def time_before_def split: if_splits)
  have d: "?d\<lparr>fp_Timestamp := fp_Timestamp ?d\<rparr> = ?d" by (cases ?d) simp
  show ?thesis
    unfolding read_packet_def packet_bytes_def Let_def v
    by (rule reads_bind [OF t], unfold prod.case, rule reads_bind [OF reads_word(2)], unfold v, rule reads_last)
      (use reads_field_list [OF f] d in metis)
qed

lemma read_sequence:
  assumes "sequence_ok hs ps" "at d (sequence_bytes precision hs ps @ rest)" "dec_err d = 0"
    "unat l = length (sequence_bytes precision hs ps)" "knows hs precision v"
  shows "\<exists>v'. packets_loop l v d = Some (Inr v', advance (length (sequence_bytes precision hs ps)) d) \<and>
    sv_u v' = (sv_u v)\<lparr>pq_FullPacketsData := pq_FullPacketsData (sv_u v) @ map sp_data ps,
      pq_TimePrecision := (if ps = [] then pq_TimePrecision (sv_u v) else precision)\<rparr>"
  using assms
proof (induction ps arbitrary: hs v d l)
  case Nil
  then show ?case by (subst packets_loop.simps) (simp add: unat_eq_zero)
next
  case (Cons p ps)
  let ?v = "keep_packet precision (fp_Timestamp (sp_data p)) (sp_data p) v" and ?b = "packet_bytes precision hs p"
  let ?d = "advance (length ?b) d" and ?bs = "sequence_bytes precision (hs @ [sp_data p]) ps"
  have ok: "packet_ok hs p" "sequence_ok (hs @ [sp_data p]) ps" using Cons.prems(1) by simp_all
  have at: "at d (?b @ ?bs @ rest)" using Cons.prems(2) by simp
  have p: "run_state (read_packet v) d = (?v, ?d)"
    by (rule reads_packet [OF ok(1) Cons.prems(5), unfolded reads_def, rule_format, OF at])
  have l: "unat l = length ?b + length ?bs" "l > 0"
    using Cons.prems(4) by (auto simp: packet_bytes_def Let_def word_gt_0 unat_gt_0 [symmetric])
  have "unat (l - of_nat (length ?b)) = length ?bs"
    using l(1) unsigned_less [of l, where 'a = nat] by (simp add: unat_sub_if' unat_of_nat)
  moreover have "pq_TimePrecision (sv_u ?v) = precision" "pq_FullPacketsData (sv_u ?v) = pq_FullPacketsData (sv_u v) @ [sp_data p]"
    "\<And>xs. (sv_u ?v)\<lparr>pq_FullPacketsData := xs, pq_TimePrecision := precision\<rparr> = (sv_u v)\<lparr>pq_FullPacketsData := xs, pq_TimePrecision := precision\<rparr>"
    by (simp_all add: keep_packet_def Let_def)
  ultimately obtain v' where "packets_loop (l - of_nat (length ?b)) ?v ?d = Some (Inr v', advance (length ?bs) ?d)"
    "sv_u v' = (sv_u v)\<lparr>pq_FullPacketsData := pq_FullPacketsData (sv_u v) @ map sp_data (p # ps), pq_TimePrecision := precision\<rparr>"
    using Cons.IH [OF ok(2) at_advance [OF at], of "l - of_nat (length ?b)" ?v] knows_keep [OF Cons.prems(5) ok(1)] Cons.prems(3)
    by (auto split: if_splits)
  then show ?case using l(2) Cons.prems(3) by (subst packets_loop.simps) (auto simp: p Failed_def Decoder_Offset_def)
qed

lemma read_blocks:
  assumes "list_all block_ok bs" "at d (concat (map block_bytes bs))" "dec_err d = 0"
  shows "blocks_loop acc d = Some (Inr (acc @ map block_of bs), advance (length (concat (map block_bytes bs))) d)"
  using assms
proof (induction bs arbitrary: acc d)
  case Nil
  then show ?case by (subst blocks_loop.simps) (simp add: at_def IsEnd_def)
next
  case (Cons b bs)
  obtain flowId precision ps where b: "b = (flowId, precision, ps)" by (metis prod.exhaust)
  let ?v = "new_block flowId" and ?rest = "concat (map block_bytes bs)"
  let ?body = "sequence_bytes precision [] ps"
  let ?l = "of_nat (8 + length ?body) :: u32"
  have at: "at d (put_le 4 ?l @ put_le 8 flowId @ ?body @ ?rest)" using Cons.prems(2) by (simp add: block_bytes_def b Let_def)
  have ok: "sequence_ok [] ps" "8 + length ?body < 2 ^ 32" using Cons.prems(1) by (simp_all add: block_ok_def b)
  have "?l - 8 = of_nat (length ?body)" by simp
  then have l: "unat (?l - 8) = length ?body" using ok(2) by (simp add: unat_of_nat)
  note at1 = at_advance [OF at] 
  note at2 = at_advance [OF at1]
  have h: "ReadU32 d = (?l, advance 4 d)" "ReadU64 (advance 4 d) = (flowId, advance 12 d)"
    using c_u32.rd_wire [OF TrueI at] c_u64.rd_wire [OF TrueI at1] by simp_all
  from read_sequence [OF ok(1) at2 _ l knows_new [of precision flowId]] obtain v' where
    v': "packets_loop (?l - 8) ?v (advance 12 d) = Some (Inr v', advance (12 + length ?body) d)" "sv_u v' = block_of b"
    using Cons.prems(3) by (auto simp: new_block_def block_of_def b)
  have "at (advance (12 + length ?body) d) ?rest" using at_advance [OF at2] by simp
  moreover have "\<not> IsEnd d" using arg_cong [of _ _ length, OF conjunct1 [OF at [unfolded at_def]]] by (simp add: IsEnd_def)
  ultimately have "blocks_loop acc d = Some (Inr (acc @ map block_of (b # bs)), advance (12 + length ?body + length ?rest) d)"
    using Cons.IH [of "advance (12 + length ?body) d" "acc @ [block_of b]"] Cons.prems(1,3) v' h
    by (subst blocks_loop.simps) simp
  moreover have "length (block_bytes b) = 12 + length ?body" by (simp add: b block_bytes_def Let_def)
  ultimately show ?case by (simp add: add.assoc)
qed


section \<open>Properties\<close>

text \<open>C8: Decoding packet sequence blocks ends on every input, whatever its length fields say. It reports an error only when the
  decoder has failed; otherwise it has reached the end of the buffer, and its result is bounded by the input: twelve bytes for
  every block and two for every packet, up to one header that the end of the buffer cuts.\<close>

theorem packet_sequence_terminates:
  "\<exists>r d'. DecodePacketSequenceBlock d = Some (r, d') \<and> dec_buf d' = dec_buf d \<and>
     (case r of Inl e \<Rightarrow> Failed d'
      | Inr bs \<Rightarrow> IsEnd d' \<and> 12 * length bs + 2 * (\<Sum>b\<leftarrow>bs. length (pq_FullPacketsData b)) < length (dec_buf d) - dec_offset d + 12)"
proof -
  have cost: "blocks_cost bs = 12 * length bs + 2 * (\<Sum>b\<leftarrow>bs. length (pq_FullPacketsData b))" for bs
    by (induction bs) (simp_all add: blocks_cost_def)
  obtain r d' where r: "blocks_loop [] d = Some (r, d')" "dec_buf d' = dec_buf d" "r = Inl ErrPacketSequenceBlock \<longrightarrow> Failed d'"
    "\<forall>bs. r = Inr bs \<longrightarrow> IsEnd d' \<and> (d' = d \<or> dec_offset d' < length (dec_buf d) + 12) \<and> blocks_cost bs + dec_offset d \<le> dec_offset d'"
    using blocks_loop_ends [of "[]" d] by (auto simp: blocks_cost_def)
  show ?thesis
  proof (cases r)
    case (Inl e)
    then show ?thesis using r by (cases e) (auto simp: DecodePacketSequenceBlock_def)
  next
    case (Inr bs)
    then show ?thesis using r by (auto simp: DecodePacketSequenceBlock_def cost)
  qed
qed

text \<open>C7: The blocks of every sender of the format are read back. The sender goes by the list of the packets it has sent before in
  the block: it may leave out fields in which a packet agrees with the latest one of its direction, sends sequence numbers as
  differences to that packet and in full when there is none, and times as differences to the latest packet of both
  directions. Decoding the bytes of a list of blocks returns the packets with all their fields, and leaves the decoder at
  the end without a failure.\<close>

theorem packet_sequence_round_trip:
  assumes "list_all block_ok bs"
  shows "\<exists>d'. DecodePacketSequenceBlock (Decoder_Init (concat (map block_bytes bs)) spare d) = Some (Inr (map block_of bs), d') \<and>
    \<not> Failed d' \<and> dec_offset d' = length (concat (map block_bytes bs))"
  using read_blocks [OF assms, of "Decoder_Init (concat (map block_bytes bs)) spare d" "[]"]
  by (simp add: DecodePacketSequenceBlock_def at_def Decoder_Init_def Failed_def)

definition sample_sequence :: "sent_packet list" where
  "sample_sequence =
     [\<lparr>sp_flag = 0xC0, sp_sack = 0, sp_edges = [], sp_data = FullPacketData_zero\<lparr>fp_Timestamp := 1000, fp_Flags := 2, fp_Seq := 77\<rparr>\<rparr>,
      \<lparr>sp_flag = 0x8041, sp_sack = 9, sp_edges = [5, 9],
       sp_data = FullPacketData_zero\<lparr>fp_Timestamp := 1001, fp_Seq := 3, fp_Direction := 1, fp_OptSackPermitted := True, fp_OptSack := [0,0,0,5,0,0,0,9]\<rparr>\<rparr>,
      \<lparr>sp_flag = 0x40, sp_sack = 0, sp_edges = [], sp_data = FullPacketData_zero\<lparr>fp_Timestamp := 1300, fp_Flags := 2, fp_Seq := 70\<rparr>\<rparr>]"

theorem packet_sequence_round_trip_witness:
  "\<exists>d'. DecodePacketSequenceBlock (Decoder_Init (block_bytes (42, 6, sample_sequence)) [] \<lparr>dec_buf = [], dec_spare = [], dec_offset = 0, dec_err = 0\<rparr>)
     = Some (Inr [\<lparr>pq_FlowId = 42, pq_FullPacketsData = map sp_data sample_sequence, pq_TimePrecision = 6\<rparr>], d')"
proof -
  have "sequence_ok [] sample_sequence" by code_simp
  moreover have "length (sequence_bytes 6 [] sample_sequence) = 33" by code_simp
  ultimately have "list_all block_ok [(42, 6, sample_sequence)]" by (simp add: block_ok_def)
  from packet_sequence_round_trip [OF this] show ?thesis by (auto simp: block_of_def sample_sequence_def)
qed

text \<open>C36: A header the end of the buffer cuts is not reported: the four bytes of a length of eight give a block of flow zero and no
  error, although the decoder has failed on the flow.\<close>

theorem packet_sequence_cut_header:
  "case DecodePacketSequenceBlock (Decoder_Init [8, 0, 0, 0] [] d) of
     Some (Inr bs, d') \<Rightarrow> bs = [\<lparr>pq_FlowId = 0, pq_FullPacketsData = [], pq_TimePrecision = 0\<rparr>] \<and> Failed d'
   | _ \<Rightarrow> False"
proof -
  let ?d = "Decoder_Init [8, 0, 0, 0] [] d"
  let ?e = "count_err (advance 12 ?d)"
  have h: "ReadU32 ?d = (8, advance 4 ?d)" "ReadU64 (advance 4 ?d) = (0, ?e)"
    by (simp_all add: Decoder_Init_def ReadU32_def ReadU64_def overrun_def advance_def passed_def subslice_def)
  have "packets_loop 0 (new_block 0) ?e = Some (Inr (new_block 0), ?e)" by (subst packets_loop.simps) simp
  moreover have "\<not> IsEnd ?d" "IsEnd ?e" "Failed ?e" by (simp_all add: Decoder_Init_def IsEnd_def Failed_def)
  moreover have "blocks_loop [sv_u (new_block 0)] ?e = Some (Inr [sv_u (new_block 0)], ?e)"
    using calculation by (subst blocks_loop.simps) simp
  ultimately have "blocks_loop [] ?d = Some (Inr [sv_u (new_block 0)], ?e)" using h by (subst blocks_loop.simps) simp
  then show ?thesis using \<open>Failed ?e\<close> by (simp add: DecodePacketSequenceBlock_def new_block_def)
qed

end
