(* ===== verification/Flow_Data.thy ===== *)
theory Flow_Data
  imports Policy_Data Codec_Messages Meter_Spec
begin

text \<open>
  Flows: \<^verbatim>\<open>libs/datatype/flow.go\<close> and \<^verbatim>\<open>tagged_flow.go\<close>, and their messages in
  \<^verbatim>\<open>message/flow_log.proto\<close> with \<^verbatim>\<open>datatype/pb/flow_log.go\<close>.

  A flow is sent in pieces, one for every period, which the server merges in the order they
  come; the two directions of a flow can be exchanged afterwards. A message that was sent is
  filled again by the next flow, so the theorems say what a new flow leaves of the old one. A
  pointer to a part of a message is an option, and \<^verbatim>\<open>nil\<close> is \<open>None\<close>; a
  \<^verbatim>\<open>time.Duration\<close> is a 64 bit word.
\<close>

section \<open>Messages\<close>

record pb_FlowKey =
  pk_VtapId :: u32
  pk_TapType :: u32
  pk_TapPort :: u64
  pk_MacSrc :: u64
  pk_MacDst :: u64
  pk_IpSrc :: u32
  pk_IpDst :: u32
  pk_Ip6Src :: bytes
  pk_Ip6Dst :: bytes
  pk_PortSrc :: u32
  pk_PortDst :: u32
  pk_Proto :: u32

definition pb_FlowKey_zero :: pb_FlowKey where
  "pb_FlowKey_zero = \<lparr>pk_VtapId = 0, pk_TapType = 0, pk_TapPort = 0, pk_MacSrc = 0, pk_MacDst = 0, pk_IpSrc = 0, pk_IpDst = 0,
     pk_Ip6Src = [], pk_Ip6Dst = [], pk_PortSrc = 0, pk_PortDst = 0, pk_Proto = 0\<rparr>"

record pb_FlowMetricsPeer =
  pm_ByteCount :: u64
  pm_L3ByteCount :: u64
  pm_L4ByteCount :: u64
  pm_PacketCount :: u64
  pm_TotalByteCount :: u64
  pm_TotalPacketCount :: u64
  pm_First :: u64
  pm_Last :: u64
  pm_TcpFlags :: u32
  pm_L3EpcId :: i32
  pm_IsL2End :: u32
  pm_IsL3End :: u32
  pm_IsActiveHost :: u32
  pm_IsDevice :: u32
  pm_IsVipInterface :: u32
  pm_IsVip :: u32

definition pb_FlowMetricsPeer_zero :: pb_FlowMetricsPeer where
  "pb_FlowMetricsPeer_zero = \<lparr>pm_ByteCount = 0, pm_L3ByteCount = 0, pm_L4ByteCount = 0, pm_PacketCount = 0, pm_TotalByteCount = 0,
     pm_TotalPacketCount = 0, pm_First = 0, pm_Last = 0, pm_TcpFlags = 0, pm_L3EpcId = 0, pm_IsL2End = 0, pm_IsL3End = 0,
     pm_IsActiveHost = 0, pm_IsDevice = 0, pm_IsVipInterface = 0, pm_IsVip = 0\<rparr>"

record pb_TunnelField =
  pt_TxIp0 :: u32
  pt_TxIp1 :: u32
  pt_RxIp0 :: u32
  pt_RxIp1 :: u32
  pt_TxMac0 :: u32
  pt_TxMac1 :: u32
  pt_RxMac0 :: u32
  pt_RxMac1 :: u32
  pt_TxId :: u32
  pt_RxId :: u32
  pt_TunnelType :: u32
  pt_Tier :: u32
  pt_IsIpv6 :: u32

definition pb_TunnelField_zero :: pb_TunnelField where
  "pb_TunnelField_zero = \<lparr>pt_TxIp0 = 0, pt_TxIp1 = 0, pt_RxIp0 = 0, pt_RxIp1 = 0, pt_TxMac0 = 0, pt_TxMac1 = 0, pt_RxMac0 = 0, pt_RxMac1 = 0,
     pt_TxId = 0, pt_RxId = 0, pt_TunnelType = 0, pt_Tier = 0, pt_IsIpv6 = 0\<rparr>"

record pb_TcpPerfCountsPeer =
  pc_RetransCount :: u32
  pc_ZeroWinCount :: u32

definition pb_TcpPerfCountsPeer_zero :: pb_TcpPerfCountsPeer where
  "pb_TcpPerfCountsPeer_zero = \<lparr>pc_RetransCount = 0, pc_ZeroWinCount = 0\<rparr>"

record pb_TCPPerfStats =
  ps_RttClientMax :: u32
  ps_RttServerMax :: u32
  ps_SrtMax :: u32
  ps_ArtMax :: u32
  ps_Rtt :: u32
  ps_RttClientSum :: u32
  ps_RttServerSum :: u32
  ps_SrtSum :: u32
  ps_ArtSum :: u32
  ps_RttClientCount :: u32
  ps_RttServerCount :: u32
  ps_SrtCount :: u32
  ps_ArtCount :: u32
  ps_CountsPeerTx :: "pb_TcpPerfCountsPeer option"
  ps_CountsPeerRx :: "pb_TcpPerfCountsPeer option"
  ps_TotalRetransCount :: u32

definition pb_TCPPerfStats_zero :: pb_TCPPerfStats where
  "pb_TCPPerfStats_zero = \<lparr>ps_RttClientMax = 0, ps_RttServerMax = 0, ps_SrtMax = 0, ps_ArtMax = 0, ps_Rtt = 0, ps_RttClientSum = 0,
     ps_RttServerSum = 0, ps_SrtSum = 0, ps_ArtSum = 0, ps_RttClientCount = 0, ps_RttServerCount = 0, ps_SrtCount = 0,
     ps_ArtCount = 0, ps_CountsPeerTx = None, ps_CountsPeerRx = None, ps_TotalRetransCount = 0\<rparr>"

record pb_L7PerfStats =
  p7_RequestCount :: u32
  p7_ResponseCount :: u32
  p7_ErrClientCount :: u32
  p7_ErrServerCount :: u32
  p7_ErrTimeout :: u32
  p7_RrtCount :: u32
  p7_RrtSum :: u64
  p7_RrtMax :: u32

definition pb_L7PerfStats_zero :: pb_L7PerfStats where
  "pb_L7PerfStats_zero = \<lparr>p7_RequestCount = 0, p7_ResponseCount = 0, p7_ErrClientCount = 0, p7_ErrServerCount = 0, p7_ErrTimeout = 0,
     p7_RrtCount = 0, p7_RrtSum = 0, p7_RrtMax = 0\<rparr>"

record pb_FlowPerfStats =
  pp_Tcp :: "pb_TCPPerfStats option"
  pp_L7 :: "pb_L7PerfStats option"
  pp_L4Protocol :: u32
  pp_L7Protocol :: u32

definition pb_FlowPerfStats_zero :: pb_FlowPerfStats where
  "pb_FlowPerfStats_zero = \<lparr>pp_Tcp = None, pp_L7 = None, pp_L4Protocol = 0, pp_L7Protocol = 0\<rparr>"

record pb_Flow =
  pf_FlowKey :: "pb_FlowKey option"
  pf_MetricsPeerSrc :: "pb_FlowMetricsPeer option"
  pf_MetricsPeerDst :: "pb_FlowMetricsPeer option"
  pf_Tunnel :: "pb_TunnelField option"
  pf_FlowId :: u64
  pf_StartTime :: u64
  pf_EndTime :: u64
  pf_Duration :: u64
  pf_Vlan :: u32
  pf_EthType :: u32
  pf_HasPerfStats :: u32
  pf_PerfStats :: "pb_FlowPerfStats option"
  pf_CloseType :: u32
  pf_FlowSource :: u32
  pf_IsActiveService :: u32
  pf_QueueHash :: u32
  pf_IsNewFlow :: u32
  pf_TapSide :: u32
  pf_SynSeq :: u32
  pf_SynackSeq :: u32
  pf_LastKeepaliveSeq :: u32
  pf_LastKeepaliveAck :: u32

definition pb_Flow_zero :: pb_Flow where
  "pb_Flow_zero = \<lparr>pf_FlowKey = None, pf_MetricsPeerSrc = None, pf_MetricsPeerDst = None, pf_Tunnel = None, pf_FlowId = 0,
     pf_StartTime = 0, pf_EndTime = 0, pf_Duration = 0, pf_Vlan = 0, pf_EthType = 0, pf_HasPerfStats = 0,
     pf_PerfStats = None, pf_CloseType = 0, pf_FlowSource = 0, pf_IsActiveService = 0, pf_QueueHash = 0, pf_IsNewFlow = 0,
     pf_TapSide = 0, pf_SynSeq = 0, pf_SynackSeq = 0, pf_LastKeepaliveSeq = 0, pf_LastKeepaliveAck = 0\<rparr>"

record pb_TaggedFlow =
  ptf_Flow :: "pb_Flow option"

definition pb_TaggedFlow_zero :: pb_TaggedFlow where
  "pb_TaggedFlow_zero = \<lparr>ptf_Flow = None\<rparr>"

section \<open>Flows\<close>

record TcpPerfCountsPeer =
  tc_RetransCount :: u32
  tc_ZeroWinCount :: u32

definition TcpPerfCountsPeer_zero :: TcpPerfCountsPeer where
  "TcpPerfCountsPeer_zero = \<lparr>tc_RetransCount = 0, tc_ZeroWinCount = 0\<rparr>"

record TCPPerfStats =
  tp_RTTClientMax :: u32
  tp_RTTServerMax :: u32
  tp_SRTMax :: u32
  tp_ARTMax :: u32
  tp_RTT :: u32
  tp_RTTClientSum :: u32
  tp_RTTServerSum :: u32
  tp_SRTSum :: u32
  tp_ARTSum :: u32
  tp_RTTClientCount :: u32
  tp_RTTServerCount :: u32
  tp_SRTCount :: u32
  tp_ARTCount :: u32
  tp_CountsPeer0 :: TcpPerfCountsPeer
  tp_CountsPeer1 :: TcpPerfCountsPeer
  tp_TotalRetransCount :: u32

definition TCPPerfStats_zero :: TCPPerfStats where
  "TCPPerfStats_zero = \<lparr>tp_RTTClientMax = 0, tp_RTTServerMax = 0, tp_SRTMax = 0, tp_ARTMax = 0, tp_RTT = 0, tp_RTTClientSum = 0,
     tp_RTTServerSum = 0, tp_SRTSum = 0, tp_ARTSum = 0, tp_RTTClientCount = 0, tp_RTTServerCount = 0, tp_SRTCount = 0,
     tp_ARTCount = 0, tp_CountsPeer0 = TcpPerfCountsPeer_zero, tp_CountsPeer1 = TcpPerfCountsPeer_zero,
     tp_TotalRetransCount = 0\<rparr>"

record L7PerfStats =
  lp_RequestCount :: u32
  lp_ResponseCount :: u32
  lp_ErrClientCount :: u32
  lp_ErrServerCount :: u32
  lp_ErrTimeout :: u32
  lp_RRTCount :: u32
  lp_RRTSum :: u64
  lp_RRTMax :: u32

definition L7PerfStats_zero :: L7PerfStats where
  "L7PerfStats_zero = \<lparr>lp_RequestCount = 0, lp_ResponseCount = 0, lp_ErrClientCount = 0, lp_ErrServerCount = 0, lp_ErrTimeout = 0,
     lp_RRTCount = 0, lp_RRTSum = 0, lp_RRTMax = 0\<rparr>"

record FlowPerfStats =
  fp_TCP :: TCPPerfStats
  fp_L7 :: L7PerfStats
  fp_L4Protocol :: u8
  fp_L7Protocol :: u8

definition FlowPerfStats_zero :: FlowPerfStats where
  "FlowPerfStats_zero = \<lparr>fp_TCP = TCPPerfStats_zero, fp_L7 = L7PerfStats_zero, fp_L4Protocol = 0, fp_L7Protocol = 0\<rparr>"

record FlowMetricsPeer =
  fm_NatRealIp :: bytes
  fm_ByteCount :: u64
  fm_L3ByteCount :: u64
  fm_L4ByteCount :: u64
  fm_PacketCount :: u64
  fm_TotalByteCount :: u64
  fm_TotalPacketCount :: u64
  fm_First :: i64
  fm_Last :: i64
  fm_L3EpcID :: i32
  fm_IsL2End :: bool
  fm_IsL3End :: bool
  fm_IsActiveHost :: bool
  fm_IsDevice :: bool
  fm_TCPFlags :: u8
  fm_IsVIPInterface :: bool
  fm_IsVIP :: bool
  fm_IsLocalMac :: bool
  fm_IsLocalIp :: bool

definition FlowMetricsPeer_zero :: FlowMetricsPeer where
  "FlowMetricsPeer_zero = \<lparr>fm_NatRealIp = [], fm_ByteCount = 0, fm_L3ByteCount = 0, fm_L4ByteCount = 0, fm_PacketCount = 0, fm_TotalByteCount = 0,
     fm_TotalPacketCount = 0, fm_First = 0, fm_Last = 0, fm_L3EpcID = 0, fm_IsL2End = False, fm_IsL3End = False,
     fm_IsActiveHost = False, fm_IsDevice = False, fm_TCPFlags = 0, fm_IsVIPInterface = False, fm_IsVIP = False,
     fm_IsLocalMac = False, fm_IsLocalIp = False\<rparr>"

record FlowKey =
  fk_VtapId :: u16
  fk_TapType :: u16
  fk_TapPort :: u64
  fk_MACSrc :: u64
  fk_MACDst :: u64
  fk_IPSrc :: u32
  fk_IPDst :: u32
  fk_IP6Src :: bytes
  fk_IP6Dst :: bytes
  fk_PortSrc :: u16
  fk_PortDst :: u16
  fk_Proto :: u8

definition FlowKey_zero :: FlowKey where
  "FlowKey_zero = \<lparr>fk_VtapId = 0, fk_TapType = 0, fk_TapPort = 0, fk_MACSrc = 0, fk_MACDst = 0, fk_IPSrc = 0, fk_IPDst = 0,
     fk_IP6Src = [], fk_IP6Dst = [], fk_PortSrc = 0, fk_PortDst = 0, fk_Proto = 0\<rparr>"

record TunnelField =
  tn_TxIP0 :: u32
  tn_TxIP1 :: u32
  tn_RxIP0 :: u32
  tn_RxIP1 :: u32
  tn_TxMAC0 :: u32
  tn_TxMAC1 :: u32
  tn_RxMAC0 :: u32
  tn_RxMAC1 :: u32
  tn_TxId :: u32
  tn_RxId :: u32
  tn_Type :: u8
  tn_Tier :: u8
  tn_IsIPv6 :: bool

definition TunnelField_zero :: TunnelField where
  "TunnelField_zero = \<lparr>tn_TxIP0 = 0, tn_TxIP1 = 0, tn_RxIP0 = 0, tn_RxIP1 = 0, tn_TxMAC0 = 0, tn_TxMAC1 = 0, tn_RxMAC0 = 0, tn_RxMAC1 = 0,
     tn_TxId = 0, tn_RxId = 0, tn_Type = 0, tn_Tier = 0, tn_IsIPv6 = False\<rparr>"

record Flow =
  fw_Key :: FlowKey
  fw_PeerSrc :: FlowMetricsPeer
  fw_PeerDst :: FlowMetricsPeer
  fw_Tunnel :: TunnelField
  fw_FlowID :: u64
  fw_SYNSeq :: u32
  fw_SYNACKSeq :: u32
  fw_LastKeepaliveSeq :: u32
  fw_LastKeepaliveAck :: u32
  fw_StartTime :: i64
  fw_EndTime :: i64
  fw_Duration :: i64
  fw_FlowStatTime :: i64
  fw_VLAN :: u16
  fw_EthType :: u16
  fw_PerfStats :: "FlowPerfStats option"
  fw_CloseType :: u8
  fw_FlowSource :: u8
  fw_IsActiveService :: bool
  fw_QueueHash :: u8
  fw_IsNewFlow :: bool
  fw_Reversed :: bool
  fw_TapSide :: u8

definition Flow_zero :: Flow where
  "Flow_zero = \<lparr>fw_Key = FlowKey_zero, fw_PeerSrc = FlowMetricsPeer_zero, fw_PeerDst = FlowMetricsPeer_zero,
     fw_Tunnel = TunnelField_zero, fw_FlowID = 0, fw_SYNSeq = 0, fw_SYNACKSeq = 0, fw_LastKeepaliveSeq = 0,
     fw_LastKeepaliveAck = 0, fw_StartTime = 0, fw_EndTime = 0, fw_Duration = 0, fw_FlowStatTime = 0, fw_VLAN = 0,
     fw_EthType = 0, fw_PerfStats = None, fw_CloseType = 0, fw_FlowSource = 0, fw_IsActiveService = False, fw_QueueHash = 0,
     fw_IsNewFlow = False, fw_Reversed = False, fw_TapSide = 0\<rparr>"

record TaggedFlow =
  tf_Flow :: Flow
  tf_Tag :: "PolicyData \<times> PolicyData"
  tf_refs :: ReferenceCount

definition L4_PROTOCOL_UNKOWN :: u8 where "L4_PROTOCOL_UNKOWN = 0"
definition L4_PROTOCOL_TCP :: u8 where "L4_PROTOCOL_TCP = 1"
definition L4_PROTOCOL_UDP :: u8 where "L4_PROTOCOL_UDP = 2"

definition L7_PROTOCOL_UNKNOWN :: u8 where "L7_PROTOCOL_UNKNOWN = 0"
definition L7_PROTOCOL_OTHER :: u8 where "L7_PROTOCOL_OTHER = 1"

section \<open>Filling a message\<close>

definition Bool2UInt32 :: "bool \<Rightarrow> u32" where
  "Bool2UInt32 b = (if b then 1 else 0)"

text \<open>A part that is missing is made first.\<close>

definition or_new :: "'a \<Rightarrow> 'a option \<Rightarrow> 'a" where
  "or_new z x = (case x of None \<Rightarrow> z | Some y \<Rightarrow> y)"

definition TunnelField_WriteToPB :: "TunnelField \<Rightarrow> pb_TunnelField \<Rightarrow> pb_TunnelField" where
  "TunnelField_WriteToPB f p = p\<lparr>pt_TxIp0 := tn_TxIP0 f, pt_TxIp1 := tn_TxIP1 f, pt_RxIp0 := tn_RxIP0 f, pt_RxIp1 := tn_RxIP1 f,
     pt_TxMac0 := tn_TxMAC0 f, pt_TxMac1 := tn_TxMAC1 f, pt_RxMac0 := tn_RxMAC0 f, pt_RxMac1 := tn_RxMAC1 f,
     pt_TxId := tn_TxId f, pt_RxId := tn_RxId f, pt_TunnelType := ucast (tn_Type f), pt_Tier := ucast (tn_Tier f),
     pt_IsIpv6 := (if tn_IsIPv6 f then 1 else pt_IsIpv6 p)\<rparr>"

definition FlowKey_WriteToPB :: "FlowKey \<Rightarrow> pb_FlowKey \<Rightarrow> pb_FlowKey" where
  "FlowKey_WriteToPB f p = p\<lparr>pk_VtapId := ucast (fk_VtapId f), pk_TapType := ucast (fk_TapType f), pk_TapPort := fk_TapPort f,
     pk_MacSrc := fk_MACSrc f, pk_MacDst := fk_MACDst f, pk_IpSrc := fk_IPSrc f, pk_IpDst := fk_IPDst f,
     pk_Ip6Src := fk_IP6Src f, pk_Ip6Dst := fk_IP6Dst f, pk_PortSrc := ucast (fk_PortSrc f),
     pk_PortDst := ucast (fk_PortDst f), pk_Proto := ucast (fk_Proto f)\<rparr>"

definition TcpPerfCountsPeer_WriteToPB :: "TcpPerfCountsPeer \<Rightarrow> pb_TcpPerfCountsPeer \<Rightarrow> pb_TcpPerfCountsPeer" where
  "TcpPerfCountsPeer_WriteToPB f p = p\<lparr>pc_RetransCount := tc_RetransCount f, pc_ZeroWinCount := tc_ZeroWinCount f\<rparr>"

definition TCPPerfStats_WriteToPB :: "TCPPerfStats \<Rightarrow> u8 \<Rightarrow> pb_TCPPerfStats \<Rightarrow> pb_TCPPerfStats" where
  "TCPPerfStats_WriteToPB f l4Protocol p =
     (if l4Protocol = L4_PROTOCOL_TCP then
       p\<lparr>ps_RttClientMax := tp_RTTClientMax f, ps_RttServerMax := tp_RTTServerMax f, ps_SrtMax := tp_SRTMax f,
     ps_ArtMax := tp_ARTMax f, ps_Rtt := tp_RTT f, ps_RttClientSum := tp_RTTClientSum f,
     ps_RttServerSum := tp_RTTServerSum f, ps_SrtSum := tp_SRTSum f, ps_ArtSum := tp_ARTSum f,
     ps_RttClientCount := tp_RTTClientCount f, ps_RttServerCount := tp_RTTServerCount f, ps_SrtCount := tp_SRTCount f,
     ps_ArtCount := tp_ARTCount f,
     ps_CountsPeerTx := Some (TcpPerfCountsPeer_WriteToPB (tp_CountsPeer0 f) (or_new pb_TcpPerfCountsPeer_zero (ps_CountsPeerTx p))),
     ps_CountsPeerRx := Some (TcpPerfCountsPeer_WriteToPB (tp_CountsPeer1 f) (or_new pb_TcpPerfCountsPeer_zero (ps_CountsPeerRx p))),
     ps_TotalRetransCount := tp_TotalRetransCount f\<rparr>
      else if l4Protocol = L4_PROTOCOL_UDP then
       pb_TCPPerfStats_zero\<lparr>ps_ArtMax := tp_ARTMax f, ps_ArtSum := tp_ARTSum f, ps_ArtCount := tp_ARTCount f\<rparr>
      else p)"

definition L7PerfStats_WriteToPB :: "L7PerfStats \<Rightarrow> pb_L7PerfStats \<Rightarrow> pb_L7PerfStats" where
  "L7PerfStats_WriteToPB f p = p\<lparr>p7_RequestCount := lp_RequestCount f, p7_ResponseCount := lp_ResponseCount f, p7_ErrClientCount := lp_ErrClientCount f,
     p7_ErrServerCount := lp_ErrServerCount f, p7_ErrTimeout := lp_ErrTimeout f, p7_RrtCount := lp_RRTCount f,
     p7_RrtSum := lp_RRTSum f, p7_RrtMax := lp_RRTMax f\<rparr>"

definition FlowPerfStats_WriteToPB :: "FlowPerfStats \<Rightarrow> pb_FlowPerfStats \<Rightarrow> pb_FlowPerfStats" where
  "FlowPerfStats_WriteToPB f p = p\<lparr>pp_L4Protocol := ucast (fp_L4Protocol f), pp_L7Protocol := ucast (fp_L7Protocol f),
     pp_Tcp := Some (TCPPerfStats_WriteToPB (fp_TCP f) (fp_L4Protocol f) (or_new pb_TCPPerfStats_zero (pp_Tcp p))),
     pp_L7 := Some (L7PerfStats_WriteToPB (fp_L7 f) (or_new pb_L7PerfStats_zero (pp_L7 p)))\<rparr>"

definition FlowMetricsPeer_WriteToPB :: "FlowMetricsPeer \<Rightarrow> pb_FlowMetricsPeer \<Rightarrow> pb_FlowMetricsPeer" where
  "FlowMetricsPeer_WriteToPB f p = p\<lparr>pm_ByteCount := fm_ByteCount f, pm_L3ByteCount := fm_L3ByteCount f, pm_L4ByteCount := fm_L4ByteCount f,
     pm_PacketCount := fm_PacketCount f, pm_TotalByteCount := fm_TotalByteCount f,
     pm_TotalPacketCount := fm_TotalPacketCount f, pm_First := fm_First f, pm_Last := fm_Last f,
     pm_TcpFlags := ucast (fm_TCPFlags f), pm_L3EpcId := fm_L3EpcID f, pm_IsL2End := Bool2UInt32 (fm_IsL2End f),
     pm_IsL3End := Bool2UInt32 (fm_IsL3End f), pm_IsActiveHost := Bool2UInt32 (fm_IsActiveHost f),
     pm_IsDevice := Bool2UInt32 (fm_IsDevice f), pm_IsVipInterface := Bool2UInt32 (fm_IsVIPInterface f),
     pm_IsVip := Bool2UInt32 (fm_IsVIP f)\<rparr>"

definition Flow_WriteToPB :: "Flow \<Rightarrow> pb_Flow \<Rightarrow> pb_Flow" where
  "Flow_WriteToPB f p = p\<lparr>pf_FlowKey := Some (FlowKey_WriteToPB (fw_Key f) (or_new pb_FlowKey_zero (pf_FlowKey p))),
     pf_MetricsPeerSrc := Some (FlowMetricsPeer_WriteToPB (fw_PeerSrc f) (or_new pb_FlowMetricsPeer_zero (pf_MetricsPeerSrc p))),
     pf_MetricsPeerDst := Some (FlowMetricsPeer_WriteToPB (fw_PeerDst f) (or_new pb_FlowMetricsPeer_zero (pf_MetricsPeerDst p))),
     pf_Tunnel := Some (TunnelField_WriteToPB (fw_Tunnel f) (or_new pb_TunnelField_zero (pf_Tunnel p))),
     pf_FlowId := fw_FlowID f, pf_SynSeq := fw_SYNSeq f, pf_SynackSeq := fw_SYNACKSeq f,
     pf_LastKeepaliveSeq := fw_LastKeepaliveSeq f, pf_LastKeepaliveAck := fw_LastKeepaliveAck f,
     pf_StartTime := fw_StartTime f, pf_EndTime := fw_EndTime f, pf_Duration := fw_Duration f,
     pf_EthType := ucast (fw_EthType f), pf_Vlan := ucast (fw_VLAN f),
     pf_HasPerfStats := (case fw_PerfStats f of None \<Rightarrow> 0 | Some s \<Rightarrow> 1),
     pf_PerfStats := (case fw_PerfStats f of None \<Rightarrow> None | Some s \<Rightarrow> Some (FlowPerfStats_WriteToPB s (or_new pb_FlowPerfStats_zero (pf_PerfStats p)))),
     pf_CloseType := ucast (fw_CloseType f), pf_FlowSource := ucast (fw_FlowSource f),
     pf_IsActiveService := Bool2UInt32 (fw_IsActiveService f), pf_IsNewFlow := Bool2UInt32 (fw_IsNewFlow f),
     pf_TapSide := ucast (fw_TapSide f)\<rparr>"

definition TaggedFlow_WriteToPB :: "TaggedFlow \<Rightarrow> pb_TaggedFlow \<Rightarrow> pb_TaggedFlow" where
  "TaggedFlow_WriteToPB f p = p\<lparr>ptf_Flow := Some (Flow_WriteToPB (tf_Flow f) (or_new pb_Flow_zero (ptf_Flow p)))\<rparr>"

text \<open>
  The message is used again: performance data that a flow without them has removed is put back
  after the encoding. \<open>None\<close> is the panic of the encoding.
\<close>

definition TaggedFlow_EncodePB :: "pb_TaggedFlow PBCodec \<Rightarrow> TaggedFlow \<Rightarrow> pb_TaggedFlow \<Rightarrow> SimpleEncoder
    \<Rightarrow> (SimpleEncoder \<times> pb_TaggedFlow) option" where
  "TaggedFlow_EncodePB pb f p e =
     (let perf = (case ptf_Flow p of None \<Rightarrow> None | Some q \<Rightarrow> pf_PerfStats q); p' = TaggedFlow_WriteToPB f p in do {
        e' \<leftarrow> WritePB pb p' e;
        q \<leftarrow> ptf_Flow p';
        Some (e', if pf_PerfStats q = None then p'\<lparr>ptf_Flow := Some (q\<lparr>pf_PerfStats := perf\<rparr>)\<rparr> else p') })"

section \<open>Merging the pieces of a flow\<close>

definition TcpPerfCountsPeer_SequentialMerge :: "TcpPerfCountsPeer \<Rightarrow> TcpPerfCountsPeer \<Rightarrow> TcpPerfCountsPeer" where
  "TcpPerfCountsPeer_SequentialMerge rhs f = f\<lparr>tc_RetransCount := tc_RetransCount f + tc_RetransCount rhs,
     tc_ZeroWinCount := tc_ZeroWinCount f + tc_ZeroWinCount rhs\<rparr>"

definition TCPPerfStats_SequentialMerge :: "TCPPerfStats \<Rightarrow> TCPPerfStats \<Rightarrow> TCPPerfStats" where
  "TCPPerfStats_SequentialMerge rhs f = f\<lparr>tp_RTTClientMax := raise_to (tp_RTTClientMax rhs) (tp_RTTClientMax f),
     tp_RTTServerMax := raise_to (tp_RTTServerMax rhs) (tp_RTTServerMax f),
     tp_SRTMax := raise_to (tp_SRTMax rhs) (tp_SRTMax f), tp_ARTMax := raise_to (tp_ARTMax rhs) (tp_ARTMax f),
     tp_RTT := raise_to (tp_RTT rhs) (tp_RTT f), tp_RTTClientSum := tp_RTTClientSum f + tp_RTTClientSum rhs,
     tp_RTTServerSum := tp_RTTServerSum f + tp_RTTServerSum rhs, tp_SRTSum := tp_SRTSum f + tp_SRTSum rhs,
     tp_ARTSum := tp_ARTSum f + tp_ARTSum rhs, tp_RTTClientCount := tp_RTTClientCount f + tp_RTTClientCount rhs,
     tp_RTTServerCount := tp_RTTServerCount f + tp_RTTServerCount rhs, tp_SRTCount := tp_SRTCount f + tp_SRTCount rhs,
     tp_ARTCount := tp_ARTCount f + tp_ARTCount rhs,
     tp_CountsPeer0 := TcpPerfCountsPeer_SequentialMerge (tp_CountsPeer0 rhs) (tp_CountsPeer0 f),
     tp_CountsPeer1 := TcpPerfCountsPeer_SequentialMerge (tp_CountsPeer1 rhs) (tp_CountsPeer1 f),
     tp_TotalRetransCount := tp_TotalRetransCount rhs\<rparr>"

definition L7PerfStats_SequentialMerge :: "L7PerfStats \<Rightarrow> L7PerfStats \<Rightarrow> L7PerfStats" where
  "L7PerfStats_SequentialMerge rhs f = f\<lparr>lp_RequestCount := lp_RequestCount f + lp_RequestCount rhs,
     lp_ResponseCount := lp_ResponseCount f + lp_ResponseCount rhs,
     lp_ErrClientCount := lp_ErrClientCount f + lp_ErrClientCount rhs,
     lp_ErrServerCount := lp_ErrServerCount f + lp_ErrServerCount rhs, lp_ErrTimeout := lp_ErrTimeout f + lp_ErrTimeout rhs,
     lp_RRTCount := lp_RRTCount f + lp_RRTCount rhs, lp_RRTSum := lp_RRTSum f + lp_RRTSum rhs,
     lp_RRTMax := raise_to (lp_RRTMax rhs) (lp_RRTMax f)\<rparr>"

definition FlowPerfStats_SequentialMerge :: "FlowPerfStats \<Rightarrow> FlowPerfStats \<Rightarrow> FlowPerfStats" where
  "FlowPerfStats_SequentialMerge rhs f = f\<lparr>fp_L4Protocol := (if fp_L4Protocol f = L4_PROTOCOL_UNKOWN then fp_L4Protocol rhs else fp_L4Protocol f),
     fp_L7Protocol := (if fp_L7Protocol f = L7_PROTOCOL_UNKNOWN \<or> (fp_L7Protocol f = L7_PROTOCOL_OTHER \<and> fp_L7Protocol rhs \<noteq> L7_PROTOCOL_UNKNOWN) then fp_L7Protocol rhs else fp_L7Protocol f),
     fp_TCP := TCPPerfStats_SequentialMerge (fp_TCP rhs) (fp_TCP f),
     fp_L7 := L7PerfStats_SequentialMerge (fp_L7 rhs) (fp_L7 f)\<rparr>"

definition FlowMetricsPeer_SequentialMerge :: "FlowMetricsPeer \<Rightarrow> FlowMetricsPeer \<Rightarrow> FlowMetricsPeer" where
  "FlowMetricsPeer_SequentialMerge rhs f = f\<lparr>fm_ByteCount := fm_ByteCount f + fm_ByteCount rhs, fm_L3ByteCount := fm_L3ByteCount f + fm_L3ByteCount rhs,
     fm_L4ByteCount := fm_L4ByteCount f + fm_L4ByteCount rhs, fm_PacketCount := fm_PacketCount f + fm_PacketCount rhs,
     fm_TotalByteCount := fm_TotalByteCount rhs, fm_TotalPacketCount := fm_TotalPacketCount rhs, fm_First := fm_First rhs,
     fm_Last := fm_Last rhs, fm_TCPFlags := (fm_TCPFlags f OR fm_TCPFlags rhs), fm_L3EpcID := fm_L3EpcID rhs,
     fm_IsL2End := fm_IsL2End rhs, fm_IsL3End := fm_IsL3End rhs, fm_IsActiveHost := fm_IsActiveHost rhs,
     fm_IsDevice := fm_IsDevice rhs, fm_IsVIPInterface := fm_IsVIPInterface rhs, fm_IsVIP := fm_IsVIP rhs,
     fm_IsLocalMac := fm_IsLocalMac rhs, fm_IsLocalIp := fm_IsLocalIp rhs\<rparr>"

text \<open>The key of a flow is left as it is. A new record of performance data comes zeroed from the pool.\<close>

definition merge_perf :: "FlowPerfStats option \<Rightarrow> FlowPerfStats option \<Rightarrow> FlowPerfStats option" where
  "merge_perf rhs f = (case rhs of None \<Rightarrow> f | Some r \<Rightarrow> Some (FlowPerfStats_SequentialMerge r (or_new FlowPerfStats_zero f)))"

definition Flow_SequentialMerge :: "Flow \<Rightarrow> Flow \<Rightarrow> Flow" where
  "Flow_SequentialMerge rhs f = f\<lparr>fw_PeerSrc := FlowMetricsPeer_SequentialMerge (fw_PeerSrc rhs) (fw_PeerSrc f),
     fw_PeerDst := FlowMetricsPeer_SequentialMerge (fw_PeerDst rhs) (fw_PeerDst f), fw_EndTime := fw_EndTime rhs,
     fw_Duration := fw_Duration rhs, fw_PerfStats := merge_perf (fw_PerfStats rhs) (fw_PerfStats f),
     fw_CloseType := fw_CloseType rhs, fw_IsActiveService := fw_IsActiveService rhs, fw_Reversed := fw_Reversed rhs,
     fw_VLAN := (if fw_VLAN rhs > 0 then fw_VLAN rhs else fw_VLAN f),
     fw_LastKeepaliveSeq := (if fw_LastKeepaliveSeq rhs \<noteq> 0 then fw_LastKeepaliveSeq rhs else fw_LastKeepaliveSeq f),
     fw_LastKeepaliveAck := (if fw_LastKeepaliveAck rhs \<noteq> 0 then fw_LastKeepaliveAck rhs else fw_LastKeepaliveAck f)\<rparr>"

definition TaggedFlow_SequentialMerge :: "TaggedFlow \<Rightarrow> TaggedFlow \<Rightarrow> TaggedFlow" where
  "TaggedFlow_SequentialMerge rhs f = f\<lparr>tf_Flow := Flow_SequentialMerge (tf_Flow rhs) (tf_Flow f)\<rparr>"

section \<open>Exchanging the directions\<close>

definition TCPPerfStats_Reverse :: "TCPPerfStats \<Rightarrow> TCPPerfStats" where
  "TCPPerfStats_Reverse f = f\<lparr>tp_RTTClientSum := tp_RTTServerSum f, tp_RTTServerSum := tp_RTTClientSum f,
     tp_RTTClientCount := tp_RTTServerCount f, tp_RTTServerCount := tp_RTTClientCount f,
     tp_CountsPeer0 := tp_CountsPeer1 f, tp_CountsPeer1 := tp_CountsPeer0 f\<rparr>"

definition Flow_Reverse :: "Flow \<Rightarrow> Flow" where
  "Flow_Reverse f = (let t = fw_Tunnel f; k = fw_Key f in
     f\<lparr>fw_Reversed := \<not> fw_Reversed f, fw_TapSide := 0,
       fw_Tunnel := t\<lparr>tn_TxIP0 := tn_RxIP0 t, tn_RxIP0 := tn_TxIP0 t, tn_TxIP1 := tn_RxIP1 t, tn_RxIP1 := tn_TxIP1 t,
     tn_TxMAC0 := tn_RxMAC0 t, tn_RxMAC0 := tn_TxMAC0 t, tn_TxMAC1 := tn_RxMAC1 t, tn_RxMAC1 := tn_TxMAC1 t,
     tn_TxId := tn_RxId t, tn_RxId := tn_TxId t\<rparr>,
       fw_Key := k\<lparr>fk_MACSrc := fk_MACDst k, fk_MACDst := fk_MACSrc k, fk_IPSrc := fk_IPDst k, fk_IPDst := fk_IPSrc k,
     fk_IP6Src := fk_IP6Dst k, fk_IP6Dst := fk_IP6Src k, fk_PortSrc := fk_PortDst k, fk_PortDst := fk_PortSrc k\<rparr>,
       fw_PeerSrc := fw_PeerDst f, fw_PeerDst := fw_PeerSrc f\<rparr>)"

definition Tag_Reverse :: "PolicyData \<times> PolicyData \<Rightarrow> PolicyData \<times> PolicyData" where
  "Tag_Reverse = prod.swap"

definition TaggedFlow_Reverse :: "TaggedFlow \<Rightarrow> TaggedFlow" where
  "TaggedFlow_Reverse f = f\<lparr>tf_Flow := Flow_Reverse (tf_Flow f), tf_Tag := Tag_Reverse (tf_Tag f)\<rparr>"

section \<open>Pools\<close>

text \<open>The pool returns zeroed flows. A release by the last holder clears the flow (the first component) and gives it back.\<close>

definition TaggedFlow_zero :: TaggedFlow where
  "TaggedFlow_zero = \<lparr>tf_Flow = Flow_zero, tf_Tag = (INVALID_POLICY_DATA, INVALID_POLICY_DATA), tf_refs = 0\<rparr>"

definition AcquireTaggedFlow :: TaggedFlow where
  "AcquireTaggedFlow = TaggedFlow_zero\<lparr>tf_refs := ReferenceCount_Reset 0\<rparr>"

definition ReleaseTaggedFlow :: "TaggedFlow \<Rightarrow> bool \<times> TaggedFlow" where
  "ReleaseTaggedFlow f = (let (used, r) = SubReferenceCount (tf_refs f) in
     if used then (False, f\<lparr>tf_refs := r\<rparr>) else (True, TaggedFlow_zero))"

definition CloneTaggedFlowForPacketStat :: "TaggedFlow \<Rightarrow> TaggedFlow" where
  "CloneTaggedFlowForPacketStat f = f\<lparr>tf_Flow := (tf_Flow f)\<lparr>fw_PerfStats := None\<rparr>, tf_refs := ReferenceCount_Reset 0\<rparr>"

definition CloneTaggedFlow :: "TaggedFlow \<Rightarrow> TaggedFlow" where
  "CloneTaggedFlow f = f\<lparr>tf_refs := ReferenceCount_Reset 0\<rparr>"

definition PseudoCloneTaggedFlowHelper :: "TaggedFlow list \<Rightarrow> TaggedFlow list" where
  "PseudoCloneTaggedFlowHelper = map (\<lambda>f. f\<lparr>tf_refs := AddReferenceCount (tf_refs f)\<rparr>)"

section \<open>Messages that are read into again\<close>

definition TaggedFlow_IsValid :: "pb_TaggedFlow \<Rightarrow> bool" where
  "TaggedFlow_IsValid t = (case ptf_Flow t of None \<Rightarrow> False | Some f \<Rightarrow>
     \<not> (pf_FlowKey f = None \<or> pf_MetricsPeerSrc f = None \<or> pf_MetricsPeerDst f = None \<or> pf_Tunnel f = None))"

definition NewPerfStats :: pb_FlowPerfStats where
  "NewPerfStats = pb_FlowPerfStats_zero\<lparr>pp_Tcp := Some (pb_TCPPerfStats_zero\<lparr>ps_CountsPeerTx := Some pb_TcpPerfCountsPeer_zero,
     ps_CountsPeerRx := Some pb_TcpPerfCountsPeer_zero\<rparr>), pp_L7 := Some pb_L7PerfStats_zero\<rparr>"

definition NewTaggedFlow :: pb_TaggedFlow where
  "NewTaggedFlow = \<lparr>ptf_Flow = Some (pb_Flow_zero\<lparr>pf_FlowKey := Some pb_FlowKey_zero, pf_MetricsPeerSrc := Some pb_FlowMetricsPeer_zero,
     pf_MetricsPeerDst := Some pb_FlowMetricsPeer_zero, pf_Tunnel := Some pb_TunnelField_zero, pf_PerfStats := Some NewPerfStats\<rparr>)\<rparr>"

text \<open>
  The parts are cleared and kept. \<open>None\<close> is the panic of a part that is missing: the fields of
  a part are cleared through the pointer to it.
\<close>

definition reset_perf :: "pb_FlowPerfStats \<Rightarrow> pb_FlowPerfStats option" where
  "reset_perf s = do {
     tcp \<leftarrow> pp_Tcp s;
     tx \<leftarrow> ps_CountsPeerTx tcp;
     rx \<leftarrow> ps_CountsPeerRx tcp;
     l7 \<leftarrow> pp_L7 s;
     Some NewPerfStats }"

definition ResetAll :: "pb_TaggedFlow \<Rightarrow> pb_TaggedFlow option" where
  "ResetAll t = do {
     f \<leftarrow> ptf_Flow t;
     perf \<leftarrow> (case pf_PerfStats f of None \<Rightarrow> Some None | Some s \<Rightarrow> do { s' \<leftarrow> reset_perf s; Some (Some s') });
     k \<leftarrow> pf_FlowKey f;
     src \<leftarrow> pf_MetricsPeerSrc f;
     dst \<leftarrow> pf_MetricsPeerDst f;
     tunnel \<leftarrow> pf_Tunnel f;
     Some \<lparr>ptf_Flow = Some (pb_Flow_zero\<lparr>pf_FlowKey := Some pb_FlowKey_zero, pf_MetricsPeerSrc := Some pb_FlowMetricsPeer_zero,
       pf_MetricsPeerDst := Some pb_FlowMetricsPeer_zero, pf_Tunnel := Some pb_TunnelField_zero, pf_PerfStats := perf\<rparr>)\<rparr> }"

section \<open>Laws of merging\<close>

text \<open>
  The contract of merging in the order of arrival: pieces can be merged in groups, and the
  directions can be exchanged before or after.
\<close>

locale sequential_merge =
  fixes merge :: "'m \<Rightarrow> 'm \<Rightarrow> 'm" and reverse :: "'m \<Rightarrow> 'm"
  assumes group: "merge c (merge b a) = merge (merge c b) a"
    and reverse_merge: "reverse (merge b a) = merge (reverse b) (reverse a)"
begin

lemma pieces_split: "fold merge (xs @ y # ys) m = merge (fold merge ys y) (fold merge xs m)"
proof (induction ys arbitrary: y rule: rev_induct)
  case (snoc z zs)
  then show ?case by (simp add: group)
qed simp

lemma pieces_reverse: "reverse (fold merge xs m) = fold merge (map reverse xs) (reverse m)"
  by (induction xs arbitrary: m) (simp_all add: reverse_merge)

end

lemma raise_group: "raise_to c (raise_to b a) = raise_to (raise_to c b) a"
  by (simp add: raise_to_max max.assoc)

lemmas merge_defs = TcpPerfCountsPeer_SequentialMerge_def TCPPerfStats_SequentialMerge_def L7PerfStats_SequentialMerge_def
  FlowMetricsPeer_SequentialMerge_def

lemma counts_group: "TcpPerfCountsPeer_SequentialMerge c (TcpPerfCountsPeer_SequentialMerge b a) =
    TcpPerfCountsPeer_SequentialMerge (TcpPerfCountsPeer_SequentialMerge c b) a"
  by (simp add: merge_defs add.assoc)

lemma tcp_group: "TCPPerfStats_SequentialMerge c (TCPPerfStats_SequentialMerge b a) = TCPPerfStats_SequentialMerge (TCPPerfStats_SequentialMerge c b) a"
  by (simp add: TCPPerfStats_SequentialMerge_def counts_group raise_group add.assoc)

lemma l7_group: "L7PerfStats_SequentialMerge c (L7PerfStats_SequentialMerge b a) = L7PerfStats_SequentialMerge (L7PerfStats_SequentialMerge c b) a"
  by (simp add: L7PerfStats_SequentialMerge_def raise_group add.assoc)

lemma perf_group: "FlowPerfStats_SequentialMerge c (FlowPerfStats_SequentialMerge b a) = FlowPerfStats_SequentialMerge (FlowPerfStats_SequentialMerge c b) a"
  by (simp add: FlowPerfStats_SequentialMerge_def tcp_group l7_group L4_PROTOCOL_UNKOWN_def L7_PROTOCOL_UNKNOWN_def L7_PROTOCOL_OTHER_def)

text \<open>A new record of performance data takes what is merged into it.\<close>

lemma perf_zero: "FlowPerfStats_SequentialMerge s FlowPerfStats_zero = s"
  by (simp add: FlowPerfStats_SequentialMerge_def FlowPerfStats_zero_def TCPPerfStats_SequentialMerge_def TCPPerfStats_zero_def
      L7PerfStats_SequentialMerge_def L7PerfStats_zero_def TcpPerfCountsPeer_SequentialMerge_def TcpPerfCountsPeer_zero_def
      raise_to_max L4_PROTOCOL_UNKOWN_def L7_PROTOCOL_UNKNOWN_def)

lemma merge_perf_group: "merge_perf c (merge_perf b a) = merge_perf (merge_perf c b) a"
  by (simp add: merge_perf_def or_new_def perf_group perf_zero split: option.split)

lemma peer_group: "FlowMetricsPeer_SequentialMerge c (FlowMetricsPeer_SequentialMerge b a) = FlowMetricsPeer_SequentialMerge (FlowMetricsPeer_SequentialMerge c b) a"
  by (simp add: FlowMetricsPeer_SequentialMerge_def add.assoc or.assoc)

lemma flow_group: "Flow_SequentialMerge c (Flow_SequentialMerge b a) = Flow_SequentialMerge (Flow_SequentialMerge c b) a"
  by (simp add: Flow_SequentialMerge_def peer_group merge_perf_group)

lemma flow_reverse_merge: "Flow_Reverse (Flow_SequentialMerge b a) = Flow_SequentialMerge (Flow_Reverse b) (Flow_Reverse a)"
  by (simp add: Flow_Reverse_def Flow_SequentialMerge_def Let_def)

interpretation pieces: sequential_merge TaggedFlow_SequentialMerge TaggedFlow_Reverse
  by unfold_locales (simp_all add: TaggedFlow_SequentialMerge_def TaggedFlow_Reverse_def flow_group flow_reverse_merge)

text \<open>
  What the merge of the pieces of one direction should have: the packets, bytes and flags of all of them, and the totals and
  the times of the last one.
\<close>

definition adds_up :: "FlowMetricsPeer list \<Rightarrow> FlowMetricsPeer \<Rightarrow> bool" where
  "adds_up ps r \<longleftrightarrow> fm_PacketCount r = (\<Sum>p\<leftarrow>ps. fm_PacketCount p) \<and> fm_ByteCount r = (\<Sum>p\<leftarrow>ps. fm_ByteCount p) \<and>
     fm_L3ByteCount r = (\<Sum>p\<leftarrow>ps. fm_L3ByteCount p) \<and> fm_L4ByteCount r = (\<Sum>p\<leftarrow>ps. fm_L4ByteCount p) \<and>
     (\<forall>n. bit (fm_TCPFlags r) n \<longleftrightarrow> list_ex (\<lambda>p. bit (fm_TCPFlags p) n) ps) \<and>
     fm_TotalPacketCount r = fm_TotalPacketCount (last ps) \<and> fm_TotalByteCount r = fm_TotalByteCount (last ps) \<and>
     fm_First r = fm_First (last ps) \<and> fm_Last r = fm_Last (last ps)"

lemma adds_up_merge: "adds_up ps r \<Longrightarrow> adds_up (ps @ [p]) (FlowMetricsPeer_SequentialMerge p r)"
  by (auto simp: adds_up_def FlowMetricsPeer_SequentialMerge_def bit_or_iff)

lemma peers_add_up:
  "adds_up (map (\<lambda>x. fw_PeerSrc (tf_Flow x)) (m # xs)) (fw_PeerSrc (tf_Flow (fold TaggedFlow_SequentialMerge xs m))) \<and>
   adds_up (map (\<lambda>x. fw_PeerDst (tf_Flow x)) (m # xs)) (fw_PeerDst (tf_Flow (fold TaggedFlow_SequentialMerge xs m)))"
proof (induction xs rule: rev_induct)
  case (snoc x xs)
  then show ?case using adds_up_merge by (fastforce simp: TaggedFlow_SequentialMerge_def Flow_SequentialMerge_def)
qed (simp add: adds_up_def)

lemma times_of_last:
  "fw_EndTime (tf_Flow (fold TaggedFlow_SequentialMerge xs m)) = fw_EndTime (tf_Flow (last (m # xs)))"
  "fw_Duration (tf_Flow (fold TaggedFlow_SequentialMerge xs m)) = fw_Duration (tf_Flow (last (m # xs)))"
  by (induction xs arbitrary: m) (simp_all add: TaggedFlow_SequentialMerge_def Flow_SequentialMerge_def)

section \<open>Laws of messages\<close>

text \<open>A message all of whose parts are there. It stays so while it is read into: reading only replaces parts.\<close>

definition perf_complete :: "pb_FlowPerfStats \<Rightarrow> bool" where
  "perf_complete s \<longleftrightarrow> pp_L7 s \<noteq> None \<and> (\<exists>t. pp_Tcp s = Some t \<and> ps_CountsPeerTx t \<noteq> None \<and> ps_CountsPeerRx t \<noteq> None)"

definition flow_complete :: "pb_TaggedFlow \<Rightarrow> bool" where
  "flow_complete t \<longleftrightarrow> (\<exists>f s. ptf_Flow t = Some f \<and> pf_FlowKey f \<noteq> None \<and> pf_MetricsPeerSrc f \<noteq> None \<and> pf_MetricsPeerDst f \<noteq> None \<and>
     pf_Tunnel f \<noteq> None \<and> pf_PerfStats f = Some s \<and> perf_complete s)"

lemma ResetAll_complete: "flow_complete t \<Longrightarrow> ResetAll t = Some NewTaggedFlow"
  by (auto simp: flow_complete_def perf_complete_def ResetAll_def reset_perf_def NewTaggedFlow_def)

lemma NewTaggedFlow_complete: "flow_complete NewTaggedFlow"
  by (simp add: flow_complete_def perf_complete_def NewTaggedFlow_def NewPerfStats_def)

lemma flow_complete_valid: "flow_complete t \<Longrightarrow> TaggedFlow_IsValid t"
  by (auto simp: flow_complete_def TaggedFlow_IsValid_def)

lemma parts_written:
  "TcpPerfCountsPeer_WriteToPB c p = TcpPerfCountsPeer_WriteToPB c pb_TcpPerfCountsPeer_zero"
  "L7PerfStats_WriteToPB l q = L7PerfStats_WriteToPB l pb_L7PerfStats_zero"
  "FlowMetricsPeer_WriteToPB m r = FlowMetricsPeer_WriteToPB m pb_FlowMetricsPeer_zero"
  "FlowKey_WriteToPB k s = FlowKey_WriteToPB k pb_FlowKey_zero"
  by (simp_all add: TcpPerfCountsPeer_WriteToPB_def L7PerfStats_WriteToPB_def FlowMetricsPeer_WriteToPB_def FlowKey_WriteToPB_def)

lemma tcp_written:
  "TCPPerfStats_WriteToPB t l4 p = (if l4 = L4_PROTOCOL_TCP \<or> l4 = L4_PROTOCOL_UDP then TCPPerfStats_WriteToPB t l4 pb_TCPPerfStats_zero else p)"
  by (simp add: TCPPerfStats_WriteToPB_def parts_written(1) [of _ "or_new _ _"])

section \<open>Properties\<close>

text \<open>C15: The pieces of a flow can be merged in groups, as long as they stay in order, and the directions of the flow can be exchanged
  before or after. In both directions the packets, the bytes, those of the network and the transport layer, and the TCP flags of
  the periods add up, and the totals of packets and bytes over the life of the flow, its end and its duration
  are those of the last piece.\<close>

theorem flow_pieces_merge:
  "let merged = fold TaggedFlow_SequentialMerge xs m in
   fold TaggedFlow_SequentialMerge (xs @ y # ys) m = TaggedFlow_SequentialMerge (fold TaggedFlow_SequentialMerge ys y) merged \<and>
   TaggedFlow_Reverse merged = fold TaggedFlow_SequentialMerge (map TaggedFlow_Reverse xs) (TaggedFlow_Reverse m) \<and>
   adds_up (map (\<lambda>x. fw_PeerSrc (tf_Flow x)) (m # xs)) (fw_PeerSrc (tf_Flow merged)) \<and>
   adds_up (map (\<lambda>x. fw_PeerDst (tf_Flow x)) (m # xs)) (fw_PeerDst (tf_Flow merged)) \<and>
   fw_EndTime (tf_Flow merged) = fw_EndTime (tf_Flow (last (m # xs))) \<and> fw_Duration (tf_Flow merged) = fw_Duration (tf_Flow (last (m # xs)))"
  unfolding Let_def using peers_add_up [of m xs] times_of_last [of xs m] pieces.pieces_split pieces.pieces_reverse by blast

text \<open>C21: What a message that is used again keeps of the flow before: the queue hash, which is never written, the mark of an IPv6
  tunnel, which a flow without one does not clear, and the transport times when the transport is neither TCP nor UDP.
  All the rest is as in a new message.\<close>

theorem flow_message_keeps:
  "Flow_WriteToPB f p = (let q = Flow_WriteToPB f pb_Flow_zero; old = or_new pb_FlowPerfStats_zero (pf_PerfStats p) in
     q\<lparr>pf_QueueHash := pf_QueueHash p,
       pf_Tunnel := map_option (\<lambda>t. t\<lparr>pt_IsIpv6 := (if tn_IsIPv6 (fw_Tunnel f) then 1 else pt_IsIpv6 (or_new pb_TunnelField_zero (pf_Tunnel p)))\<rparr>) (pf_Tunnel q),
       pf_PerfStats := map_option (\<lambda>s. if pp_L4Protocol s = ucast L4_PROTOCOL_TCP \<or> pp_L4Protocol s = ucast L4_PROTOCOL_UDP then s
         else s\<lparr>pp_Tcp := Some (or_new pb_TCPPerfStats_zero (pp_Tcp old))\<rparr>) (pf_PerfStats q)\<rparr>)"
proof -
  have "ucast (ucast x :: u32) = x" for x :: u8 by (rule bit_word_eqI) (auto simp: bit_simps)
  then have l4: "(ucast x :: u32) = ucast y \<longleftrightarrow> x = y" for x y :: u8 by metis
  have z: "pf_QueueHash pb_Flow_zero = 0" "pf_PerfStats pb_Flow_zero = None" "pf_Tunnel pb_Flow_zero = None" "pf_FlowKey pb_Flow_zero = None"
    "pf_MetricsPeerSrc pb_Flow_zero = None" "pf_MetricsPeerDst pb_Flow_zero = None" by (simp_all add: pb_Flow_zero_def)
  note new = or_new_def [of _ None, simplified]
  have tunnel: "TunnelField_WriteToPB t p = (TunnelField_WriteToPB t pb_TunnelField_zero)\<lparr>pt_IsIpv6 := (if tn_IsIPv6 t then 1 else pt_IsIpv6 p)\<rparr>" for t p
    by (simp add: TunnelField_WriteToPB_def)
  have perf: "FlowPerfStats_WriteToPB s p = (let q = FlowPerfStats_WriteToPB s pb_FlowPerfStats_zero in
      if pp_L4Protocol q = ucast L4_PROTOCOL_TCP \<or> pp_L4Protocol q = ucast L4_PROTOCOL_UDP then q
      else q\<lparr>pp_Tcp := Some (or_new pb_TCPPerfStats_zero (pp_Tcp p))\<rparr>)" for s p
    unfolding FlowPerfStats_WriteToPB_def Let_def
    by (simp add: l4 parts_written(2) [of _ "or_new _ _"] tcp_written [of _ _ "or_new _ _"])
  show ?thesis
    by (rule pb_Flow.equality) (simp_all add: Flow_WriteToPB_def Let_def z new parts_written(3,4) [of _ "or_new _ _"]
      tunnel [of _ "or_new _ _"] perf [of _ "or_new _ _"] split: option.split)
qed

end
