(* ===== verification/Platform_Info.thy ===== *)
theory Platform_Info
  imports Doc_Text Lru_Map
begin

text \<open>
  The platform data of \<^verbatim>\<open>libs/grpc/grpc_platformdata.go\<close>: what the server knows of an address, a
  hardware address or a private network (VPC, here called by its identifier \<^verbatim>\<open>epcID\<close>).

  An address is looked up in a table of addresses and then in a list of networks, and the result
  is kept in the cache of \<open>U64_Lru\<close>. The pointers \<^verbatim>\<open>HitCount\<close> are addresses of counters in
  the table: several records may share one. The theorems show that the cache cannot be seen in
  the answers. The cache of IPv6 addresses is generated from a template when the program is
  built; its two operations are arguments.
\<close>

section \<open>Data\<close>

definition EPC_FROM_DEEPFLOW :: "'a::len word" where "EPC_FROM_DEEPFLOW = - 1"
definition EPC_FROM_INTERNET :: "'a::len word" where "EPC_FROM_INTERNET = - 2"

record BaseInfo =
  bi_RegionID :: u32
  bi_HitCount :: u64

record Info =
  in_EpcID :: i32
  in_L2EpcID :: u32
  in_Host :: u32
  in_HostStr :: bytes
  in_HostID :: u32
  in_Mac :: u64
  in_RegionID :: u32
  in_DeviceType :: u32
  in_DeviceID :: u32
  in_SubnetID :: u32
  in_PodNodeID :: u32
  in_PodNSID :: u32
  in_PodGroupID :: u32
  in_PodID :: u32
  in_PodClusterID :: u32
  in_AZID :: u32
  in_IsVip :: bool
  in_IsWan :: bool
  in_HitCount :: "nat option"

definition Info_zero :: Info where
  "Info_zero = \<lparr>in_EpcID = 0, in_L2EpcID = 0, in_Host = 0, in_HostStr = [], in_HostID = 0, in_Mac = 0, in_RegionID = 0, in_DeviceType = 0,
     in_DeviceID = 0, in_SubnetID = 0, in_PodNodeID = 0, in_PodNSID = 0, in_PodGroupID = 0, in_PodID = 0, in_PodClusterID = 0, in_AZID = 0,
     in_IsVip = False, in_IsWan = False, in_HitCount = None\<rparr>"

text \<open>The networks of the standard library package \<^verbatim>\<open>net\<close>.\<close>

record IPNet =
  ipn_IP :: bytes
  ipn_Mask :: bytes

definition networkNumberAndMask :: "IPNet \<Rightarrow> bytes \<times> bytes" where
  "networkNumberAndMask n =
     (let ip = (case To4 (ipn_IP n) of Some x \<Rightarrow> x | None \<Rightarrow> ipn_IP n); m = ipn_Mask n in
      if To4 (ipn_IP n) = None \<and> length ip \<noteq> 16 then ([], [])
      else if length m = 4 then (if length ip \<noteq> 4 then ([], []) else (ip, m))
      else if length m = 16 then (if length ip = 4 then (ip, drop 12 m) else (ip, m))
      else ([], []))"

definition IPNet_Contains :: "IPNet \<Rightarrow> bytes \<Rightarrow> bool" where
  "IPNet_Contains n ip =
     (let (nn, m) = networkNumberAndMask n; x = (case To4 ip of Some x \<Rightarrow> x | None \<Rightarrow> ip) in
      length x = length nn \<and> list_all (\<lambda>i. nn ! i AND m ! i = x ! i AND m ! i) [0..<length x])"

record CidrInfo =
  ci_Cidr :: IPNet
  ci_EpcID :: i32
  ci_RegionID :: u32
  ci_SubnetID :: u32
  ci_AZID :: u32
  ci_IsWan :: bool
  ci_HitCount :: nat

record PodInfo =
  pi_PodId :: u32
  pi_PodName :: bytes
  pi_Ip :: bytes
  pi_EpcId :: u32
  pi_PodClusterId :: u32

record VtapInfo =
  vi_VtapId :: u32
  vi_EpcId :: u32
  vi_Ip :: bytes
  vi_PodClusterId :: u32

text \<open>What a cache holds: a record, or the counter of the misses of an address that has none.\<close>

datatype lru_item = LInfo Info | LMiss nat

type_synonym cache_block = "lru_item u64LRUNode list"

record 'c PlatformInfoTable =
  pl_regionID :: u32
  pl_otherRegionCount :: i64
  epcIDIPV4Lru :: "lru_item U64LRU"
  epcIDIPV6Lru :: 'c
  epcIDIPV4Infos :: "u64 \<rightharpoonup> Info"
  epcIDIPV6Infos :: "bytes \<rightharpoonup> Info"
  epcIDIPV4CidrInfos :: "i32 \<rightharpoonup> CidrInfo list"
  epcIDIPV6CidrInfos :: "i32 \<rightharpoonup> CidrInfo list"
  macInfos :: "u64 \<rightharpoonup> Info"
  macMissCount :: "u64 \<rightharpoonup> u64"
  epcIDBaseInfos :: "i32 \<rightharpoonup> BaseInfo"
  epcIDBaseMissCount :: "i32 \<rightharpoonup> u64"
  podNameInfos :: "bytes \<rightharpoonup> PodInfo list"
  vtapIdInfos :: "u32 \<rightharpoonup> VtapInfo"
  peerConnections :: "i32 \<rightharpoonup> i32 list"
  hitCounts :: "nat \<Rightarrow> u64"
  hitNext :: nat

section \<open>Counters\<close>

text \<open>\<^verbatim>\<open>atomic.AddUint64(p, 1)\<close>; \<open>None\<close> is the panic of a nil pointer.\<close>

definition add_hit :: "nat option \<Rightarrow> 'c PlatformInfoTable \<Rightarrow> 'c PlatformInfoTable option" where
  "add_hit p t = map_option (\<lambda>a. t\<lparr>hitCounts := (hitCounts t)(a := hitCounts t a + 1)\<rparr>) p"

definition new_count :: "'c PlatformInfoTable \<Rightarrow> nat \<times> 'c PlatformInfoTable" where
  "new_count t = (hitNext t, t\<lparr>hitCounts := (hitCounts t)(hitNext t := 1), hitNext := Suc (hitNext t)\<rparr>)"

definition QueryRegionID :: "'c PlatformInfoTable \<Rightarrow> u32" where
  "QueryRegionID t = pl_regionID t"

definition AddOtherRegion :: "'c PlatformInfoTable \<Rightarrow> 'c PlatformInfoTable" where
  "AddOtherRegion t = t\<lparr>pl_otherRegionCount := pl_otherRegionCount t + 1\<rparr>"

section \<open>Hardware addresses and networks\<close>

definition InfoMissStat :: "u64 \<Rightarrow> 'c PlatformInfoTable \<Rightarrow> 'c PlatformInfoTable" where
  "InfoMissStat mac t = t\<lparr>macMissCount := (macMissCount t)(mac \<mapsto> (case macMissCount t mac of None \<Rightarrow> 1 | Some c \<Rightarrow> c + 1))\<rparr>"

definition queryMacInfo :: "u64 \<Rightarrow> 'c PlatformInfoTable \<Rightarrow> (Info option \<times> 'c PlatformInfoTable) option" where
  "queryMacInfo mac t = (case macInfos t mac of
     None \<Rightarrow> Some (None, InfoMissStat mac t)
   | Some info \<Rightarrow> do { t \<leftarrow> add_hit (in_HitCount info) t; Some (Some info, t) })"

definition queryMacInfosPair :: "u64 \<Rightarrow> u64 \<Rightarrow> 'c PlatformInfoTable \<Rightarrow> ((Info option \<times> Info option) \<times> 'c PlatformInfoTable) option" where
  "queryMacInfosPair mac0 mac1 t = do {
     let info0 = macInfos t mac0;
     t \<leftarrow> (case info0 of None \<Rightarrow> Some t | Some i \<Rightarrow> add_hit (in_HitCount i) t);
     let info1 = macInfos t mac1;
     t \<leftarrow> (case info1 of None \<Rightarrow> Some t | Some i \<Rightarrow> add_hit (in_HitCount i) t);
     let t = (if info0 = None then InfoMissStat mac0 t else t);
     let t = (if info1 = None then InfoMissStat mac1 t else t);
     Some ((info0, info1), t) }"

definition baseInfoMissStat :: "i32 \<Rightarrow> 'c PlatformInfoTable \<Rightarrow> 'c PlatformInfoTable" where
  "baseInfoMissStat epcID t = t\<lparr>epcIDBaseMissCount :=
     (epcIDBaseMissCount t)(epcID \<mapsto> (case epcIDBaseMissCount t epcID of None \<Rightarrow> 1 | Some c \<Rightarrow> c + 1))\<rparr>"

definition hit_base :: "i32 \<Rightarrow> 'c PlatformInfoTable \<Rightarrow> BaseInfo option \<times> 'c PlatformInfoTable" where
  "hit_base epcID t = (case epcIDBaseInfos t epcID of
     None \<Rightarrow> (None, t)
   | Some b \<Rightarrow> (let b = b\<lparr>bi_HitCount := bi_HitCount b + 1\<rparr> in (Some b, t\<lparr>epcIDBaseInfos := (epcIDBaseInfos t)(epcID \<mapsto> b)\<rparr>)))"

definition queryEpcIDBaseInfo :: "i32 \<Rightarrow> 'c PlatformInfoTable \<Rightarrow> BaseInfo option \<times> 'c PlatformInfoTable" where
  "queryEpcIDBaseInfo epcID t = (let (b, t) = hit_base epcID t in if b = None then (None, baseInfoMissStat epcID t) else (b, t))"

definition queryEpcIDBaseInfosPair :: "i32 \<Rightarrow> i32 \<Rightarrow> 'c PlatformInfoTable \<Rightarrow> (BaseInfo option \<times> BaseInfo option) \<times> 'c PlatformInfoTable" where
  "queryEpcIDBaseInfosPair epcID0 epcID1 t =
     (let (b0, t) = hit_base epcID0 t; (b1, t) = hit_base epcID1 t;
          t = (if b0 = None then baseInfoMissStat epcID0 t else t);
          t = (if b1 = None then baseInfoMissStat epcID1 t else t)
      in ((b0, b1), t))"

section \<open>Addresses\<close>

definition cidr_info :: "CidrInfo \<Rightarrow> Info" where
  "cidr_info c = Info_zero\<lparr>in_SubnetID := ci_SubnetID c, in_RegionID := ci_RegionID c, in_AZID := ci_AZID c, in_HitCount := Some (ci_HitCount c)\<rparr>"

definition queryIPV4Cidr :: "i16 \<Rightarrow> u32 \<Rightarrow> 'c PlatformInfoTable \<Rightarrow> Info option" where
  "queryIPV4Cidr epcID ipv4 t = (case epcIDIPV4CidrInfos t (scast epcID) of
     None \<Rightarrow> None
   | Some cs \<Rightarrow> map_option cidr_info (find (\<lambda>c. IPNet_Contains (ci_Cidr c) (IpFromUint32 ipv4)) cs))"

definition queryIPV6Cidr :: "i16 \<Rightarrow> bytes \<Rightarrow> 'c PlatformInfoTable \<Rightarrow> Info option" where
  "queryIPV6Cidr epcID ipv6 t = (case epcIDIPV6CidrInfos t (scast epcID) of
     None \<Rightarrow> None
   | Some cs \<Rightarrow> map_option cidr_info (find (\<lambda>c. IPNet_Contains (ci_Cidr c) ipv6) cs))"

definition ipv4_key :: "i16 \<Rightarrow> u32 \<Rightarrow> u64" where
  "ipv4_key epcID ipv4 = push_bit 32 (scast epcID) OR ucast ipv4"

definition IPV4InfoAddLru :: "cache_block \<Rightarrow> Info option \<Rightarrow> u64 \<Rightarrow> 'c PlatformInfoTable \<Rightarrow> 'c PlatformInfoTable option" where
  "IPV4InfoAddLru fresh info key t = (case info of
     Some i \<Rightarrow> do {
       lru \<leftarrow> Lru_Add fresh key (Some (LInfo i)) (epcIDIPV4Lru t);
       add_hit (in_HitCount i) (t\<lparr>epcIDIPV4Lru := lru\<rparr>) }
   | None \<Rightarrow> do {
       let (a, t) = new_count t;
       lru \<leftarrow> Lru_Add fresh key (Some (LMiss a)) (epcIDIPV4Lru t);
       Some (t\<lparr>epcIDIPV4Lru := lru\<rparr>) })"

definition IPV4InfoStat :: "lru_item option \<Rightarrow> 'c PlatformInfoTable \<Rightarrow> 'c PlatformInfoTable option" where
  "IPV4InfoStat item t = (case item of
     Some (LInfo i) \<Rightarrow> add_hit (in_HitCount i) t
   | Some (LMiss a) \<Rightarrow> add_hit (Some a) t
   | None \<Rightarrow> Some t)"

definition item_info :: "lru_item option \<Rightarrow> Info option" where
  "item_info item = (case item of Some (LInfo i) \<Rightarrow> Some i | _ \<Rightarrow> None)"

text \<open>The cache, then the table of addresses: what is found, and whether it need not be kept.\<close>

definition cached_ipv4 :: "i16 \<Rightarrow> u32 \<Rightarrow> bool \<Rightarrow> 'c PlatformInfoTable \<Rightarrow> (Info option \<times> bool \<times> 'c PlatformInfoTable) option" where
  "cached_ipv4 epcID ipv4 listed t = do {
     let key = ipv4_key epcID ipv4;
     (lruValue, lru) \<leftarrow> Lru_Get key False (epcIDIPV4Lru t);
     let t = t\<lparr>epcIDIPV4Lru := lru\<rparr>;
     case lruValue of
       Some item \<Rightarrow> do { t \<leftarrow> IPV4InfoStat item t; Some (item_info item, True, t) }
     | None \<Rightarrow> (case epcIDIPV4Infos t key of
         Some i \<Rightarrow> Some (Some i, listed, t)
       | None \<Rightarrow> Some (queryIPV4Cidr epcID ipv4 t, False, t)) }"

definition queryIPV4Infos :: "cache_block \<Rightarrow> i16 \<Rightarrow> u32 \<Rightarrow> 'c PlatformInfoTable \<Rightarrow> (Info option \<times> 'c PlatformInfoTable) option" where
  "queryIPV4Infos fresh epcID ipv4 t = do {
     (info, ok, t) \<leftarrow> cached_ipv4 epcID ipv4 False t;
     t \<leftarrow> (if ok then Some t else IPV4InfoAddLru fresh info (ipv4_key epcID ipv4) t);
     Some (info, t) }"

text \<open>Both addresses are looked up before either is kept. An address of the table is not put into the cache here.\<close>

definition queryIPV4InfosPair :: "cache_block \<Rightarrow> cache_block \<Rightarrow> i16 \<Rightarrow> u32 \<Rightarrow> i16 \<Rightarrow> u32 \<Rightarrow> 'c PlatformInfoTable
    \<Rightarrow> ((Info option \<times> Info option) \<times> 'c PlatformInfoTable) option" where
  "queryIPV4InfosPair fresh0 fresh1 epcID0 ipv40 epcID1 ipv41 t = do {
     (info0, ok0, t) \<leftarrow> cached_ipv4 epcID0 ipv40 True t;
     (info1, ok1, t) \<leftarrow> cached_ipv4 epcID1 ipv41 True t;
     t \<leftarrow> (if ok0 then Some t else IPV4InfoAddLru fresh0 info0 (ipv4_key epcID0 ipv40) t);
     t \<leftarrow> (if ok1 then Some t else IPV4InfoAddLru fresh1 info1 (ipv4_key epcID1 ipv41) t);
     Some ((info0, info1), t) }"

definition base_or :: "i16 \<Rightarrow> Info option \<Rightarrow> 'c PlatformInfoTable \<Rightarrow> Info option \<times> 'c PlatformInfoTable" where
  "base_or epcID info t = (case info of
     Some i \<Rightarrow> (Some i, t)
   | None \<Rightarrow> (let (b, t) = queryEpcIDBaseInfo (scast epcID) t in (map_option (\<lambda>b. Info_zero\<lparr>in_RegionID := bi_RegionID b\<rparr>) b, t)))"

definition QueryIPV4Infos :: "cache_block \<Rightarrow> i16 \<Rightarrow> u32 \<Rightarrow> 'c PlatformInfoTable \<Rightarrow> (Info option \<times> 'c PlatformInfoTable) option" where
  "QueryIPV4Infos fresh epcID ipv4 t =
     (if epcID = EPC_FROM_INTERNET then Some (None, t)
      else do { (info, t) \<leftarrow> queryIPV4Infos fresh epcID ipv4 t; Some (base_or epcID info t) })"

definition QueryIPV4InfosPair :: "cache_block \<Rightarrow> cache_block \<Rightarrow> i16 \<Rightarrow> u32 \<Rightarrow> i16 \<Rightarrow> u32 \<Rightarrow> 'c PlatformInfoTable
    \<Rightarrow> ((Info option \<times> Info option) \<times> 'c PlatformInfoTable) option" where
  "QueryIPV4InfosPair fresh0 fresh1 epcID0 ipv40 epcID1 ipv41 t =
     (if epcID0 = EPC_FROM_INTERNET then do { (i1, t) \<leftarrow> QueryIPV4Infos fresh1 epcID1 ipv41 t; Some ((None, i1), t) }
      else if epcID1 = EPC_FROM_INTERNET then do { (i0, t) \<leftarrow> QueryIPV4Infos fresh0 epcID0 ipv40 t; Some ((i0, None), t) }
      else do {
        ((info0, info1), t) \<leftarrow> queryIPV4InfosPair fresh0 fresh1 epcID0 ipv40 epcID1 ipv41 t;
        let (info0, t) = base_or epcID0 info0 t;
        let (info1, t) = base_or epcID1 info1 t;
        Some ((info0, info1), t) })"

section \<open>IPv6 addresses\<close>

text \<open>The operations of the cache of IPv6 addresses: \<^verbatim>\<open>Get(key, false)\<close> and \<^verbatim>\<open>Add\<close>.\<close>

record 'c U160Ops =
  u160_Get :: "bytes \<Rightarrow> 'c \<Rightarrow> (lru_item option \<times> 'c) option"
  u160_Add :: "bytes \<Rightarrow> lru_item \<Rightarrow> 'c \<Rightarrow> 'c option"

definition ipv6_key :: "i16 \<Rightarrow> bytes \<Rightarrow> bytes" where
  "ipv6_key epcID ipv6 = put_le 4 (scast epcID :: u32) @ take 16 (ipv6 @ replicate 16 0)"

definition IPV6InfoAddLru :: "'c U160Ops \<Rightarrow> Info option \<Rightarrow> bytes \<Rightarrow> 'c PlatformInfoTable \<Rightarrow> 'c PlatformInfoTable option" where
  "IPV6InfoAddLru u info key t = (case info of
     Some i \<Rightarrow> do {
       lru \<leftarrow> u160_Add u key (LInfo i) (epcIDIPV6Lru t);
       add_hit (in_HitCount i) (t\<lparr>epcIDIPV6Lru := lru\<rparr>) }
   | None \<Rightarrow> do {
       let (a, t) = new_count t;
       lru \<leftarrow> u160_Add u key (LMiss a) (epcIDIPV6Lru t);
       Some (t\<lparr>epcIDIPV6Lru := lru\<rparr>) })"

definition cached_ipv6 :: "'c U160Ops \<Rightarrow> i16 \<Rightarrow> bytes \<Rightarrow> bool \<Rightarrow> 'c PlatformInfoTable \<Rightarrow> (Info option \<times> bool \<times> 'c PlatformInfoTable) option" where
  "cached_ipv6 u epcID ipv6 listed t = do {
     let key = ipv6_key epcID ipv6;
     (lruValue, lru) \<leftarrow> u160_Get u key (epcIDIPV6Lru t);
     let t = t\<lparr>epcIDIPV6Lru := lru\<rparr>;
     case lruValue of
       Some item \<Rightarrow> do { t \<leftarrow> IPV4InfoStat (Some item) t; Some (item_info (Some item), True, t) }
     | None \<Rightarrow> (case epcIDIPV6Infos t key of
         Some i \<Rightarrow> Some (Some i, listed, t)
       | None \<Rightarrow> Some (queryIPV6Cidr epcID ipv6 t, False, t)) }"

definition queryIPV6Infos :: "'c U160Ops \<Rightarrow> i16 \<Rightarrow> bytes \<Rightarrow> 'c PlatformInfoTable \<Rightarrow> (Info option \<times> 'c PlatformInfoTable) option" where
  "queryIPV6Infos u epcID ipv6 t = do {
     (info, ok, t) \<leftarrow> cached_ipv6 u epcID ipv6 False t;
     t \<leftarrow> (if ok then Some t else IPV6InfoAddLru u info (ipv6_key epcID ipv6) t);
     Some (info, t) }"

definition queryIPV6InfosPair :: "'c U160Ops \<Rightarrow> i16 \<Rightarrow> bytes \<Rightarrow> i16 \<Rightarrow> bytes \<Rightarrow> 'c PlatformInfoTable
    \<Rightarrow> ((Info option \<times> Info option) \<times> 'c PlatformInfoTable) option" where
  "queryIPV6InfosPair u epcID0 ipv60 epcID1 ipv61 t = do {
     (info0, ok0, t) \<leftarrow> cached_ipv6 u epcID0 ipv60 True t;
     (info1, ok1, t) \<leftarrow> cached_ipv6 u epcID1 ipv61 True t;
     t \<leftarrow> (if ok0 then Some t else IPV6InfoAddLru u info0 (ipv6_key epcID0 ipv60) t);
     t \<leftarrow> (if ok1 then Some t else IPV6InfoAddLru u info1 (ipv6_key epcID1 ipv61) t);
     Some ((info0, info1), t) }"

definition QueryIPV6Infos :: "'c U160Ops \<Rightarrow> i16 \<Rightarrow> bytes \<Rightarrow> 'c PlatformInfoTable \<Rightarrow> (Info option \<times> 'c PlatformInfoTable) option" where
  "QueryIPV6Infos u epcID ipv6 t =
     (if epcID = EPC_FROM_INTERNET then Some (None, t)
      else do { (info, t) \<leftarrow> queryIPV6Infos u epcID ipv6 t; Some (base_or epcID info t) })"

definition QueryIPV6InfosPair :: "'c U160Ops \<Rightarrow> i16 \<Rightarrow> bytes \<Rightarrow> i16 \<Rightarrow> bytes \<Rightarrow> 'c PlatformInfoTable
    \<Rightarrow> ((Info option \<times> Info option) \<times> 'c PlatformInfoTable) option" where
  "QueryIPV6InfosPair u epcID0 ipv60 epcID1 ipv61 t =
     (if epcID0 = EPC_FROM_INTERNET then do { (i1, t) \<leftarrow> QueryIPV6Infos u epcID1 ipv61 t; Some ((None, i1), t) }
      else if epcID1 = EPC_FROM_INTERNET then do { (i0, t) \<leftarrow> QueryIPV6Infos u epcID0 ipv60 t; Some ((i0, None), t) }
      else do {
        ((info0, info1), t) \<leftarrow> queryIPV6InfosPair u epcID0 ipv60 epcID1 ipv61 t;
        let (info0, t) = base_or epcID0 info0 t;
        let (info1, t) = base_or epcID1 info1 t;
        Some ((info0, info1), t) })"

section \<open>The network of the other side\<close>

definition QueryVtapEpc0 :: "u32 \<Rightarrow> 'c PlatformInfoTable \<Rightarrow> i32" where
  "QueryVtapEpc0 vtapId t = (case vtapIdInfos t vtapId of Some v \<Rightarrow> vi_EpcId v | None \<Rightarrow> EPC_FROM_INTERNET)"

definition queryPeerConnections :: "i32 \<Rightarrow> 'c PlatformInfoTable \<Rightarrow> i32 list" where
  "queryPeerConnections epcId t = (case peerConnections t epcId of None \<Rightarrow> [] | Some es \<Rightarrow> es)"


definition inPlatformData :: "'c U160Ops \<Rightarrow> cache_block \<Rightarrow> i32 \<Rightarrow> bool \<Rightarrow> u32 \<Rightarrow> bytes \<Rightarrow> 'c PlatformInfoTable
    \<Rightarrow> (bool \<times> 'c PlatformInfoTable) option" where
  "inPlatformData u fresh epcID isIPv4 ip4 ip6 t =
     (if isIPv4 then do { (i, t) \<leftarrow> queryIPV4Infos fresh (ucast epcID) ip4 t; Some (i \<noteq> None, t) }
      else do { (i, t) \<leftarrow> queryIPV6Infos u (ucast epcID) ip6 t; Some (i \<noteq> None, t) })"

definition findEpcInWan :: "'c U160Ops \<Rightarrow> cache_block \<Rightarrow> bool \<Rightarrow> u32 \<Rightarrow> bytes \<Rightarrow> 'c PlatformInfoTable
    \<Rightarrow> (i32 \<times> 'c PlatformInfoTable) option" where
  "findEpcInWan u fresh isIPv4 ip4 ip6 t = do {
     (info, t) \<leftarrow> (if isIPv4 then queryIPV4Infos fresh 0 ip4 t else queryIPV6Infos u 0 ip6 t);
     Some (case info of Some i \<Rightarrow> in_EpcID i | None \<Rightarrow> EPC_FROM_INTERNET, t) }"

text \<open>The loop over the connected networks: the first one that has the address. Each lookup may take a new block of nodes.\<close>

primrec peer_loop :: "'c U160Ops \<Rightarrow> (nat \<Rightarrow> cache_block) \<Rightarrow> nat \<Rightarrow> bool \<Rightarrow> u32 \<Rightarrow> bytes \<Rightarrow> i32 list \<Rightarrow> 'c PlatformInfoTable
    \<Rightarrow> (i32 option \<times> nat \<times> 'c PlatformInfoTable) option" where
  "peer_loop u fresh n isIPv4 ip4 ip6 [] t = Some (None, n, t)"
| "peer_loop u fresh n isIPv4 ip4 ip6 (e # es) t = do {
     (found, t) \<leftarrow> inPlatformData u (fresh n) e isIPv4 ip4 ip6 t;
     if found then Some (Some e, n, t) else peer_loop u fresh (Suc n) isIPv4 ip4 ip6 es t }"

definition QueryVtapEpc1 :: "'c U160Ops \<Rightarrow> (nat \<Rightarrow> cache_block) \<Rightarrow> u32 \<Rightarrow> bool \<Rightarrow> u32 \<Rightarrow> bytes \<Rightarrow> 'c PlatformInfoTable
    \<Rightarrow> (i32 \<times> 'c PlatformInfoTable) option" where
  "QueryVtapEpc1 u fresh vtapId isIPv4 ip41 ip61 t = do {
     let epc0 = QueryVtapEpc0 vtapId t;
     (found, t) \<leftarrow> inPlatformData u (fresh 0) epc0 isIPv4 ip41 ip61 t;
     if found then Some (epc0, t)
     else do {
       (r, n, t) \<leftarrow> peer_loop u fresh 1 isIPv4 ip41 ip61 (queryPeerConnections epc0 t) t;
       case r of Some e \<Rightarrow> Some (e, t) | None \<Rightarrow> findEpcInWan u (fresh n) isIPv4 ip41 ip61 t } }"

definition QueryPodInfo :: "u32 \<Rightarrow> bytes \<Rightarrow> 'c PlatformInfoTable \<Rightarrow> PodInfo option" where
  "QueryPodInfo vtapId podName t = (case vtapIdInfos t vtapId of
     None \<Rightarrow> None
   | Some v \<Rightarrow> find (\<lambda>p. pi_PodClusterId p = vi_PodClusterId v) (case podNameInfos t podName of None \<Rightarrow> [] | Some ps \<Rightarrow> ps))"

text \<open>The connections between networks, each in both directions and once.\<close>

definition add_peer :: "i32 \<Rightarrow> i32 \<Rightarrow> (i32 \<rightharpoonup> i32 list) \<Rightarrow> (i32 \<rightharpoonup> i32 list)" where
  "add_peer a b m = (case m a of
     Some peers \<Rightarrow> if b \<in> set peers then m else m(a \<mapsto> peers @ [b])
   | None \<Rightarrow> m(a \<mapsto> [b]))"

definition updatePeerConnections :: "(u32 \<times> u32) list \<Rightarrow> 'c PlatformInfoTable \<Rightarrow> 'c PlatformInfoTable" where
  "updatePeerConnections connections t =
     t\<lparr>peerConnections := fold (\<lambda>(l, r) m. add_peer r l (add_peer l r m)) connections Map.empty\<rparr>"

definition updateVtapIps :: "VtapInfo list \<Rightarrow> 'c PlatformInfoTable \<Rightarrow> 'c PlatformInfoTable" where
  "updateVtapIps vtapIps t = t\<lparr>vtapIdInfos := fold (\<lambda>v m. m(vi_VtapId v \<mapsto> v)) vtapIps Map.empty\<rparr>"

definition updatePodIps :: "PodInfo list \<Rightarrow> 'c PlatformInfoTable \<Rightarrow> 'c PlatformInfoTable" where
  "updatePodIps podIps t = t\<lparr>podNameInfos :=
     fold (\<lambda>p m. m(pi_PodName p \<mapsto> (case m (pi_PodName p) of None \<Rightarrow> [] | Some ps \<Rightarrow> ps) @ [p])) podIps Map.empty\<rparr>"

section \<open>A new table and new data\<close>

definition LruSlotSize :: int where "LruSlotSize = 16384"
definition LruCap :: int where "LruCap = 131072"

definition NewPlatformInfoTable :: "'c \<Rightarrow> 'c PlatformInfoTable" where
  "NewPlatformInfoTable u160 = \<lparr>pl_regionID = 0, pl_otherRegionCount = 0, epcIDIPV4Lru = NewU64LRUNoStats LruSlotSize LruCap, epcIDIPV6Lru = u160,
     epcIDIPV4Infos = Map.empty, epcIDIPV6Infos = Map.empty, epcIDIPV4CidrInfos = Map.empty, epcIDIPV6CidrInfos = Map.empty,
     macInfos = Map.empty, macMissCount = Map.empty, epcIDBaseInfos = Map.empty, epcIDBaseMissCount = Map.empty,
     podNameInfos = Map.empty, vtapIdInfos = Map.empty, peerConnections = Map.empty, hitCounts = (\<lambda>_. 0), hitNext = 0\<rparr>"

text \<open>
  The last part of \<^verbatim>\<open>Reload\<close>: a new version of the data takes the place of the old one, with
  new caches. The maps are those built from the message, \<open>pd_hitNext\<close> the first counter
  that none of them points to, and \<open>pd_region\<close> is \<open>None\<close> for a message without configuration.
\<close>

record platform_data =
  pd_region :: "u32 option"
  pd_IPV4Infos :: "u64 \<rightharpoonup> Info"
  pd_IPV6Infos :: "bytes \<rightharpoonup> Info"
  pd_macInfos :: "u64 \<rightharpoonup> Info"
  pd_BaseInfos :: "i32 \<rightharpoonup> BaseInfo"
  pd_IPV4CidrInfos :: "i32 \<rightharpoonup> CidrInfo list"
  pd_IPV6CidrInfos :: "i32 \<rightharpoonup> CidrInfo list"
  pd_peers :: "(u32 \<times> u32) list"
  pd_hitNext :: nat

definition install_data :: "'c \<Rightarrow> platform_data \<Rightarrow> 'c PlatformInfoTable \<Rightarrow> 'c PlatformInfoTable" where
  "install_data u160 d t =
     (let t = (case pd_region d of Some r \<Rightarrow> t\<lparr>pl_regionID := r\<rparr> | None \<Rightarrow> t);
          t = updatePeerConnections (pd_peers d) (t\<lparr>pl_otherRegionCount := 0\<rparr>)
      in t\<lparr>epcIDIPV4Infos := pd_IPV4Infos d, epcIDIPV4CidrInfos := pd_IPV4CidrInfos d,
           epcIDIPV4Lru := NewU64LRUNoStats LruSlotSize LruCap,
           epcIDIPV6Infos := pd_IPV6Infos d, epcIDIPV6CidrInfos := pd_IPV6CidrInfos d, epcIDIPV6Lru := u160,
           macInfos := pd_macInfos d, macMissCount := Map.empty,
           epcIDBaseInfos := pd_BaseInfos d, epcIDBaseMissCount := Map.empty, hitNext := max (hitNext t) (pd_hitNext d)\<rparr>)"

section \<open>The cache is transparent\<close>

definition lookup_ipv4 :: "'c PlatformInfoTable \<Rightarrow> u64 \<Rightarrow> Info option" where
  "lookup_ipv4 t key = (case epcIDIPV4Infos t key of Some i \<Rightarrow> Some i | None \<Rightarrow> queryIPV4Cidr (ucast (drop_bit 32 key)) (ucast key) t)"

lemma ipv4_key_parts: "ucast (drop_bit 32 (ipv4_key e ip)) = e" "ucast (ipv4_key e ip) = ip"
  by (rule bit_word_eqI, auto simp: ipv4_key_def bit_simps dest: bit_imp_le_length)+

text \<open>What the answers depend on: everything but the cache and the counters.\<close>

definition same_data :: "'c PlatformInfoTable \<Rightarrow> 'c PlatformInfoTable \<Rightarrow> bool" where
  "same_data t t' \<longleftrightarrow> epcIDIPV4Infos t' = epcIDIPV4Infos t \<and> epcIDIPV4CidrInfos t' = epcIDIPV4CidrInfos t \<and>
     (\<forall>e. map_option bi_RegionID (epcIDBaseInfos t' e) = map_option bi_RegionID (epcIDBaseInfos t e)) \<and>
     macInfos t' = macInfos t \<and> vtapIdInfos t' = vtapIdInfos t \<and> peerConnections t' = peerConnections t \<and>
     podNameInfos t' = podNameInfos t \<and> pl_regionID t' = pl_regionID t"

lemma same_data_refl [simp]: "same_data t t"
  by (simp add: same_data_def)

lemma same_data_trans: "same_data a b \<Longrightarrow> same_data b c \<Longrightarrow> same_data a c"
  by (simp add: same_data_def)

lemma same_data_lookup: "same_data t t' \<Longrightarrow> lookup_ipv4 t' = lookup_ipv4 t"
proof -
  assume d: "same_data t t'"
  then have "queryIPV4Cidr e ip t' = queryIPV4Cidr e ip t" for e ip by (simp add: same_data_def queryIPV4Cidr_def)
  with d show ?thesis by (auto simp: same_data_def lookup_ipv4_def split: option.split)
qed

definition cache_true :: "'c PlatformInfoTable \<Rightarrow> bool" where
  "cache_true t \<longleftrightarrow> lru_inv (epcIDIPV4Lru t) \<and> (\<forall>(k, v)\<in>set (lru_entries (epcIDIPV4Lru t)). v \<noteq> None \<and> item_info v = lookup_ipv4 t k) \<and>
     (\<forall>k i. epcIDIPV4Infos t k = Some i \<or> macInfos t k = Some i \<longrightarrow> in_HitCount i \<noteq> None)"

lemma lookup_hit: "cache_true t \<Longrightarrow> lookup_ipv4 t k = Some i \<Longrightarrow> \<exists>a. in_HitCount i = Some a"
  by (auto simp: cache_true_def lookup_ipv4_def queryIPV4Cidr_def cidr_info_def split: option.splits)

lemma cache_true_data: "cache_true t \<Longrightarrow> same_data t t' \<Longrightarrow> epcIDIPV4Lru t' = epcIDIPV4Lru t \<Longrightarrow> cache_true t'"
  using same_data_lookup [of t t'] by (simp add: cache_true_def) (simp add: same_data_def)

lemma add_hit_same:
  "add_hit (Some a) t = Some t' \<Longrightarrow> same_data t t' \<and> (cache_true t \<longrightarrow> cache_true t')"
  using cache_true_data [of t t'] by (auto simp: add_hit_def same_data_def)

lemma set_touch: "set (cache_touch k es) \<subseteq> set es"
  by (auto simp: cache_touch_def without_def dest: map_of_SomeD split: option.split)

lemma set_add: "set (cache_add n k v es) \<subseteq> insert (k, v) (set es)"
  by (auto simp: cache_add_def without_def dest: in_set_takeD)

lemma cached_ipv4_true:
  assumes "cache_true t"
  shows "\<exists>ok t'. cached_ipv4 e ip listed t = Some (lookup_ipv4 t (ipv4_key e ip), ok, t') \<and> cache_true t' \<and> same_data t t'"
proof -
  let ?k = "ipv4_key e ip" and ?c = "epcIDIPV4Lru t"
  have inv: "lru_inv ?c" using assms by (simp add: cache_true_def)
  from Lru_Get_law [OF inv, of ?k False] obtain c where
    c: "Lru_Get ?k False ?c = Some (map_of (lru_entries ?c) ?k, c)" "lru_inv c" "lru_entries c = cache_touch ?k (lru_entries ?c)" by auto
  let ?t = "t\<lparr>epcIDIPV4Lru := c\<rparr>"
  have same: "same_data t ?t" by (simp add: same_data_def)
  have t: "cache_true ?t" "same_data t ?t"
    using assms c(2,3) set_touch [of ?k "lru_entries ?c"] same by (auto simp: cache_true_def same_data_lookup [OF same])
  show ?thesis
  proof (cases "map_of (lru_entries ?c) ?k")
    case None
    then show ?thesis using c(1) t by (auto simp: cached_ipv4_def lookup_ipv4_def ipv4_key_parts queryIPV4Cidr_def split: option.split)
  next
    case (Some v)
    then have "(?k, v) \<in> set (lru_entries ?c)" by (rule map_of_SomeD)
    then have v: "v \<noteq> None" "item_info v = lookup_ipv4 t ?k" using assms by (auto simp: cache_true_def)
    have "\<exists>a. IPV4InfoStat v ?t = add_hit (Some a) ?t"
    proof (cases "the v")
      case (LInfo i)
      then obtain a where "in_HitCount i = Some a" using v lookup_hit [OF assms, of ?k i] by (auto simp: item_info_def)
      then show ?thesis using v(1) LInfo by (auto simp: IPV4InfoStat_def)
    qed (use v(1) in \<open>auto simp: IPV4InfoStat_def\<close>)
    then obtain a where "IPV4InfoStat v ?t = add_hit (Some a) ?t" by blast
    then obtain t' where "IPV4InfoStat v ?t = Some t'" "same_data ?t t'" "cache_true t'"
      using add_hit_same [of a ?t] t(1) by (auto simp: add_hit_def)
    then show ?thesis using c(1) Some v(2) t(2) by (auto simp: cached_ipv4_def intro: same_data_trans)
  qed
qed

lemma IPV4InfoAddLru_true:
  assumes "cache_true t" "int (length fresh) = BLOCK_SIZE" "info = lookup_ipv4 t key"
  shows "\<exists>t'. IPV4InfoAddLru fresh info key t = Some t' \<and> cache_true t' \<and> same_data t t'"
proof -
  have put: "\<exists>c. Lru_Add fresh key (Some x) (epcIDIPV4Lru t) = Some c \<and> cache_true (t\<lparr>epcIDIPV4Lru := c\<rparr>) \<and> same_data t (t\<lparr>epcIDIPV4Lru := c\<rparr>)"
    if "item_info (Some x) = info" for x
  proof -
    have inv: "lru_inv (epcIDIPV4Lru t)" using assms(1) by (simp add: cache_true_def)
    from Lru_Add_law [OF inv assms(2), of key "Some x"] obtain c where
      c: "Lru_Add fresh key (Some x) (epcIDIPV4Lru t) = Some c" "lru_inv c"
      "set (lru_entries c) \<subseteq> insert (key, Some x) (set (lru_entries (epcIDIPV4Lru t)))" using set_add by metis
    have same: "same_data t (t\<lparr>epcIDIPV4Lru := c\<rparr>)" by (simp add: same_data_def)
    show ?thesis using assms(1,3) c that same by (auto simp: cache_true_def same_data_lookup [OF same])
  qed
  show ?thesis
  proof (cases info)
    case (Some i)
    then obtain a where a: "in_HitCount i = Some a" using lookup_hit assms(1,3) by metis
    from put [of "LInfo i"] Some obtain c where c: "Lru_Add fresh key (Some (LInfo i)) (epcIDIPV4Lru t) = Some c"
      "cache_true (t\<lparr>epcIDIPV4Lru := c\<rparr>)" "same_data t (t\<lparr>epcIDIPV4Lru := c\<rparr>)" by (auto simp: item_info_def)
    then show ?thesis using add_hit_same [of a "t\<lparr>epcIDIPV4Lru := c\<rparr>"] a Some
      by (auto simp: IPV4InfoAddLru_def add_hit_def intro: same_data_trans)
  next
    case None
    from put [of "LMiss (hitNext t)"] None obtain c where c: "Lru_Add fresh key (Some (LMiss (hitNext t))) (epcIDIPV4Lru t) = Some c"
      "cache_true (t\<lparr>epcIDIPV4Lru := c\<rparr>)" "same_data t (t\<lparr>epcIDIPV4Lru := c\<rparr>)" by (auto simp: item_info_def)
    let ?t = "t\<lparr>hitCounts := (hitCounts t)(hitNext t := 1), hitNext := Suc (hitNext t), epcIDIPV4Lru := c\<rparr>"
    have "cache_true ?t" using cache_true_data [OF c(2), of ?t] by (simp add: same_data_def)
    then show ?thesis using None c(1) by (simp add: IPV4InfoAddLru_def new_count_def same_data_def)
  qed
qed


lemma queryIPV4Infos_true:
  assumes "cache_true t" "int (length fresh) = BLOCK_SIZE"
  shows "\<exists>t'. queryIPV4Infos fresh e ip t = Some (lookup_ipv4 t (ipv4_key e ip), t') \<and> cache_true t' \<and> same_data t t'"
proof -
  obtain ok t1 where 1: "cached_ipv4 e ip False t = Some (lookup_ipv4 t (ipv4_key e ip), ok, t1)" "cache_true t1" "same_data t t1"
    using cached_ipv4_true [OF assms(1)] by blast
  obtain t2 where 2: "IPV4InfoAddLru fresh (lookup_ipv4 t (ipv4_key e ip)) (ipv4_key e ip) t1 = Some t2" "cache_true t2" "same_data t1 t2"
    using IPV4InfoAddLru_true [OF 1(2) assms(2), of "lookup_ipv4 t (ipv4_key e ip)" "ipv4_key e ip"] same_data_lookup [OF 1(3)] by auto
  show ?thesis using 1 2 by (cases ok) (auto simp: queryIPV4Infos_def intro: same_data_trans)
qed

lemma queryIPV4InfosPair_true:
  assumes "cache_true t" "int (length fresh0) = BLOCK_SIZE" "int (length fresh1) = BLOCK_SIZE"
  shows "\<exists>t'. queryIPV4InfosPair fresh0 fresh1 e0 ip0 e1 ip1 t = Some ((lookup_ipv4 t (ipv4_key e0 ip0), lookup_ipv4 t (ipv4_key e1 ip1)), t') \<and>
    cache_true t' \<and> same_data t t'"
proof -
  let ?i0 = "lookup_ipv4 t (ipv4_key e0 ip0)" and ?i1 = "lookup_ipv4 t (ipv4_key e1 ip1)"
  obtain ok0 t1 where 1: "cached_ipv4 e0 ip0 True t = Some (?i0, ok0, t1)" "cache_true t1" "same_data t t1"
    using cached_ipv4_true [OF assms(1)] by blast
  obtain ok1 t2 where 2: "cached_ipv4 e1 ip1 True t1 = Some (?i1, ok1, t2)" "cache_true t2" "same_data t t2"
    using cached_ipv4_true [OF 1(2)] same_data_lookup [OF 1(3)] same_data_trans [OF 1(3)] by metis
  have "\<exists>t3. (if ok0 then Some t2 else IPV4InfoAddLru fresh0 ?i0 (ipv4_key e0 ip0) t2) = Some t3 \<and> cache_true t3 \<and> same_data t t3"
    using 2(2,3) IPV4InfoAddLru_true [OF 2(2) assms(2)] same_data_lookup [OF 2(3)] same_data_trans [OF 2(3)] by (cases ok0) (simp, metis)
  then obtain t3 where 3: "(if ok0 then Some t2 else IPV4InfoAddLru fresh0 ?i0 (ipv4_key e0 ip0) t2) = Some t3" "cache_true t3" "same_data t t3" by blast
  have "\<exists>t4. (if ok1 then Some t3 else IPV4InfoAddLru fresh1 ?i1 (ipv4_key e1 ip1) t3) = Some t4 \<and> cache_true t4 \<and> same_data t t4"
    using 3(2,3) IPV4InfoAddLru_true [OF 3(2) assms(3)] same_data_lookup [OF 3(3)] same_data_trans [OF 3(3)] by (cases ok1) (simp, metis)
  then show ?thesis using 1(1) 2(1) 3(1) by (auto simp: queryIPV4InfosPair_def)
qed

text \<open>The answers a client gets, as functions of the loaded data.\<close>

definition region_info :: "'c PlatformInfoTable \<Rightarrow> i16 \<Rightarrow> Info option" where
  "region_info t e = map_option (\<lambda>b. Info_zero\<lparr>in_RegionID := bi_RegionID b\<rparr>) (epcIDBaseInfos t (scast e))"

definition answer_ipv4 :: "'c PlatformInfoTable \<Rightarrow> i16 \<Rightarrow> u32 \<Rightarrow> Info option" where
  "answer_ipv4 t e ip = (if e = EPC_FROM_INTERNET then None
     else case lookup_ipv4 t (ipv4_key e ip) of Some i \<Rightarrow> Some i | None \<Rightarrow> region_info t e)"

definition answer_epc :: "'c PlatformInfoTable \<Rightarrow> u32 \<Rightarrow> u32 \<Rightarrow> i32" where
  "answer_epc t vtap ip = (let has = (\<lambda>e :: i32. lookup_ipv4 t (ipv4_key (ucast e) ip) \<noteq> None); e0 = QueryVtapEpc0 vtap t in
     if has e0 then e0
     else case find has (queryPeerConnections e0 t) of
         Some e \<Rightarrow> e
       | None \<Rightarrow> (case lookup_ipv4 t (ipv4_key 0 ip) of Some i \<Rightarrow> in_EpcID i | None \<Rightarrow> EPC_FROM_INTERNET))"

lemma region_same: "same_data t t' \<Longrightarrow> region_info t' e = region_info t e"
proof -
  assume "same_data t t'"
  then have "map_option bi_RegionID (epcIDBaseInfos t' (scast e)) = map_option bi_RegionID (epcIDBaseInfos t (scast e))" by (simp add: same_data_def)
  from arg_cong [OF this, of "map_option (\<lambda>r. Info_zero\<lparr>in_RegionID := r\<rparr>)"] show ?thesis by (simp add: region_info_def option.map_comp o_def)
qed

lemma answer_same: "same_data t t' \<Longrightarrow> answer_ipv4 t' = answer_ipv4 t" "same_data t t' \<Longrightarrow> answer_epc t' = answer_epc t"
proof -
  assume d: "same_data t t'"
  note same = same_data_lookup [OF d] region_same [OF d]
  have "QueryVtapEpc0 v t' = QueryVtapEpc0 v t" "queryPeerConnections e t' = queryPeerConnections e t" for v e
    using d by (simp_all add: QueryVtapEpc0_def queryPeerConnections_def same_data_def)
  with same show "answer_ipv4 t' = answer_ipv4 t" "answer_epc t' = answer_epc t"
    by (simp_all add: answer_ipv4_def answer_epc_def Let_def fun_eq_iff cong: option.case_cong)
qed

lemma base_or_true:
  assumes "cache_true t"
  shows "\<exists>t'. base_or e info t = (case info of Some i \<Rightarrow> Some i | None \<Rightarrow> region_info t e, t') \<and> cache_true t' \<and> same_data t t'"
proof (cases info)
  case None
  obtain b t' where b: "queryEpcIDBaseInfo (scast e) t = (b, t')" by fastforce
  have "same_data t t'" "epcIDIPV4Lru t' = epcIDIPV4Lru t" "map_option bi_RegionID b = map_option bi_RegionID (epcIDBaseInfos t (scast e))"
    using b by (auto simp: queryEpcIDBaseInfo_def hit_base_def baseInfoMissStat_def same_data_def Let_def split: option.splits)
  moreover from this(3) have "map_option (\<lambda>b. Info_zero\<lparr>in_RegionID := bi_RegionID b\<rparr>) b = region_info t e"
    by (cases b; cases "epcIDBaseInfos t (scast e)") (auto simp: region_info_def)
  ultimately show ?thesis using None b cache_true_data [OF assms] by (simp add: base_or_def)
qed (simp add: base_or_def assms)

lemma QueryIPV4Infos_true:
  assumes "cache_true t" "int (length fresh) = BLOCK_SIZE"
  shows "\<exists>t'. QueryIPV4Infos fresh e ip t = Some (answer_ipv4 t e ip, t') \<and> cache_true t' \<and> same_data t t'"
proof (cases "e = EPC_FROM_INTERNET")
  case False
  obtain t1 where 1: "queryIPV4Infos fresh e ip t = Some (lookup_ipv4 t (ipv4_key e ip), t1)" "cache_true t1" "same_data t t1"
    using queryIPV4Infos_true [OF assms] by blast
  obtain t2 where "base_or e (lookup_ipv4 t (ipv4_key e ip)) t1 = (answer_ipv4 t e ip, t2)" "cache_true t2" "same_data t1 t2"
    using base_or_true [OF 1(2), of e "lookup_ipv4 t (ipv4_key e ip)"] False by (auto simp: answer_ipv4_def region_same [OF 1(3)] cong: option.case_cong)
  with 1 False show ?thesis by (auto simp: QueryIPV4Infos_def intro: same_data_trans)
qed (simp add: QueryIPV4Infos_def answer_ipv4_def assms(1))

lemma QueryIPV4InfosPair_true:
  assumes "cache_true t" "int (length fresh0) = BLOCK_SIZE" "int (length fresh1) = BLOCK_SIZE"
  shows "\<exists>t'. QueryIPV4InfosPair fresh0 fresh1 e0 ip0 e1 ip1 t = Some ((answer_ipv4 t e0 ip0, answer_ipv4 t e1 ip1), t') \<and>
    cache_true t' \<and> same_data t t'"
proof (cases "e0 = EPC_FROM_INTERNET \<or> e1 = EPC_FROM_INTERNET")
  case True
  then show ?thesis
    using QueryIPV4Infos_true [OF assms(1,2), of e0 ip0] QueryIPV4Infos_true [OF assms(1,3), of e1 ip1]
    by (auto simp: QueryIPV4InfosPair_def answer_ipv4_def)
next
  case False
  let ?i0 = "lookup_ipv4 t (ipv4_key e0 ip0)" and ?i1 = "lookup_ipv4 t (ipv4_key e1 ip1)"
  obtain t1 where 1: "queryIPV4InfosPair fresh0 fresh1 e0 ip0 e1 ip1 t = Some ((?i0, ?i1), t1)" "cache_true t1" "same_data t t1"
    using queryIPV4InfosPair_true [OF assms] by blast
  obtain t2 where 2: "base_or e0 ?i0 t1 = (answer_ipv4 t e0 ip0, t2)" "cache_true t2" "same_data t t2"
    using base_or_true [OF 1(2), of e0 ?i0] False same_data_trans [OF 1(3)] by (auto simp: answer_ipv4_def region_same [OF 1(3)] cong: option.case_cong)
  obtain t3 where 3: "base_or e1 ?i1 t2 = (answer_ipv4 t e1 ip1, t3)" "cache_true t3" "same_data t t3"
    using base_or_true [OF 2(2), of e1 ?i1] False same_data_trans [OF 2(3)] by (auto simp: answer_ipv4_def region_same [OF 2(3)] cong: option.case_cong)
  show ?thesis using False 1 2 3 by (simp add: QueryIPV4InfosPair_def)
qed

lemma peer_loop_true:
  assumes "cache_true t" "\<forall>i. int (length (fresh i)) = BLOCK_SIZE"
  shows "\<exists>m t'. peer_loop u fresh n True ip ip6 es t = Some (find (\<lambda>e. lookup_ipv4 t (ipv4_key (ucast e) ip) \<noteq> None) es, m, t') \<and>
    cache_true t' \<and> same_data t t'"
  using assms(1)
proof (induction es arbitrary: n t)
  case (Cons e es)
  obtain t1 where 1: "queryIPV4Infos (fresh n) (ucast e) ip t = Some (lookup_ipv4 t (ipv4_key (ucast e) ip), t1)" "cache_true t1" "same_data t t1"
    using queryIPV4Infos_true [OF Cons.prems] assms(2) by blast
  show ?case using 1 Cons.IH [OF 1(2), of "Suc n"] same_data_trans [OF 1(3)] same_data_lookup [OF 1(3)] by (auto simp: inPlatformData_def)
qed simp

lemma QueryVtapEpc1_true:
  assumes "cache_true t" "\<forall>i. int (length (fresh i)) = BLOCK_SIZE"
  shows "\<exists>t'. QueryVtapEpc1 u fresh vtap True ip ip6 t = Some (answer_epc t vtap ip, t') \<and> cache_true t' \<and> same_data t t'"
proof -
  let ?e = "QueryVtapEpc0 vtap t"
  obtain t1 where 1: "queryIPV4Infos (fresh 0) (ucast ?e) ip t = Some (lookup_ipv4 t (ipv4_key (ucast ?e) ip), t1)" "cache_true t1" "same_data t t1"
    using queryIPV4Infos_true [OF assms(1)] assms(2) by blast
  have peers: "queryPeerConnections ?e t1 = queryPeerConnections ?e t" using 1(3) by (simp add: queryPeerConnections_def same_data_def)
  obtain n t2 where 2: "peer_loop u fresh 1 True ip ip6 (queryPeerConnections ?e t) t1 =
      Some (find (\<lambda>e. lookup_ipv4 t (ipv4_key (ucast e) ip) \<noteq> None) (queryPeerConnections ?e t), n, t2)" "cache_true t2" "same_data t t2"
    using peer_loop_true [OF 1(2) assms(2), of u 1 ip ip6 "queryPeerConnections ?e t"] same_data_trans [OF 1(3)] same_data_lookup [OF 1(3)] by auto
  obtain t3 where 3: "queryIPV4Infos (fresh n) 0 ip t2 = Some (lookup_ipv4 t (ipv4_key 0 ip), t3)" "cache_true t3" "same_data t t3"
    using queryIPV4Infos_true [OF 2(2), of "fresh n" 0 ip] assms(2) same_data_trans [OF 2(3)] same_data_lookup [OF 2(3)] by auto
  show ?thesis using 1 2 3 peers
    by (cases "find (\<lambda>e. lookup_ipv4 t (ipv4_key (ucast e) ip) \<noteq> None) (queryPeerConnections ?e t)";
        cases "lookup_ipv4 t (ipv4_key (ucast ?e) ip) \<noteq> None")
      (auto simp: QueryVtapEpc1_def answer_epc_def inPlatformData_def findEpcInWan_def Let_def)
qed

lemma InfoMissStat_true: "cache_true t \<Longrightarrow> cache_true (InfoMissStat mac t) \<and> same_data t (InfoMissStat mac t)"
  using cache_true_data [of t "InfoMissStat mac t"] by (simp add: InfoMissStat_def same_data_def)

lemma mac_hit_true:
  assumes "cache_true t" "macInfos t mac = Some i"
  shows "\<exists>t'. add_hit (in_HitCount i) t = Some t' \<and> cache_true t' \<and> same_data t t'"
proof -
  from assms have "in_HitCount i \<noteq> None" unfolding cache_true_def by blast
  then obtain a where "in_HitCount i = Some a" by blast
  then show ?thesis using add_hit_same [of a t] assms(1) by (auto simp: add_hit_def)
qed

lemma queryMacInfo_true:
  assumes "cache_true t"
  shows "\<exists>t'. queryMacInfo mac t = Some (macInfos t mac, t') \<and> cache_true t' \<and> same_data t t'"
  using InfoMissStat_true [OF assms, of mac] mac_hit_true [OF assms, of mac]
  by (cases "macInfos t mac") (auto simp: queryMacInfo_def)

lemma queryMacInfosPair_true:
  assumes "cache_true t"
  shows "\<exists>t'. queryMacInfosPair mac0 mac1 t = Some ((macInfos t mac0, macInfos t mac1), t') \<and> cache_true t' \<and> same_data t t'"
proof -
  have hit: "\<exists>t'. (case macInfos t mac of None \<Rightarrow> Some t | Some i \<Rightarrow> add_hit (in_HitCount i) t) = Some t' \<and> cache_true t' \<and> same_data t t'"
    if "cache_true t" for t mac using mac_hit_true [OF that, of mac] that by (cases "macInfos t mac") auto
  obtain t1 where 1: "(case macInfos t mac0 of None \<Rightarrow> Some t | Some i \<Rightarrow> add_hit (in_HitCount i) t) = Some t1" "cache_true t1" "same_data t t1"
    using hit [OF assms] by blast
  have mac: "macInfos t1 = macInfos t" using 1(3) by (simp add: same_data_def)
  obtain t2 where 2: "(case macInfos t mac1 of None \<Rightarrow> Some t1 | Some i \<Rightarrow> add_hit (in_HitCount i) t1) = Some t2" "cache_true t2" "same_data t t2"
    using hit [OF 1(2), of mac1] same_data_trans [OF 1(3)] by (auto simp: mac)
  have miss: "cache_true (if x = None then InfoMissStat m t else t) \<and> same_data t' (if x = None then InfoMissStat m t else t)"
    if "cache_true t" "same_data t' t" for x :: "Info option" and m and t t' :: "'a PlatformInfoTable"
    using InfoMissStat_true [OF that(1)] same_data_trans that by auto
  show ?thesis using 1(1) 2 miss [OF conjunct1 [OF miss [OF 2(2,3)]] conjunct2 [OF miss [OF 2(2,3)]]]
    by (simp add: queryMacInfosPair_def mac Let_def)
qed

section \<open>A table as its clients see it\<close>

text \<open>
  What the answers should be, without caches, counters and maps: a view has the data of the
  message last loaded, the lists of agents and pods last received and the region last configured.
\<close>

record platform_view =
  vw_data :: platform_data
  vw_vtaps :: "VtapInfo list"
  vw_pods :: "PodInfo list"
  vw_region :: u32

definition no_data :: platform_data where
  "no_data = \<lparr>pd_region = None, pd_IPV4Infos = Map.empty, pd_IPV6Infos = Map.empty, pd_macInfos = Map.empty, pd_BaseInfos = Map.empty,
     pd_IPV4CidrInfos = Map.empty, pd_IPV6CidrInfos = Map.empty, pd_peers = [], pd_hitNext = 0\<rparr>"

definition first_view :: platform_view where
  "first_view = \<lparr>vw_data = no_data, vw_vtaps = [], vw_pods = [], vw_region = 0\<rparr>"

text \<open>The entry of an address, else what is known of the first network of the list that contains it.\<close>

definition view_entry :: "platform_view \<Rightarrow> i16 \<Rightarrow> u32 \<Rightarrow> Info option" where
  "view_entry w e ip = (case pd_IPV4Infos (vw_data w) (word_of_int (sint e * 2 ^ 32 + uint ip)) of
     Some i \<Rightarrow> Some i
   | None \<Rightarrow> (case filter (\<lambda>c. IPNet_Contains (ci_Cidr c) (put_be 4 ip)) (case pd_IPV4CidrInfos (vw_data w) (scast e) of Some cs \<Rightarrow> cs | None \<Rightarrow> []) of
       [] \<Rightarrow> None
     | c # _ \<Rightarrow> Some \<lparr>in_EpcID = 0, in_L2EpcID = 0, in_Host = 0, in_HostStr = [], in_HostID = 0, in_Mac = 0, in_RegionID = ci_RegionID c,
         in_DeviceType = 0, in_DeviceID = 0, in_SubnetID = ci_SubnetID c, in_PodNodeID = 0, in_PodNSID = 0, in_PodGroupID = 0, in_PodID = 0,
         in_PodClusterID = 0, in_AZID = ci_AZID c, in_IsVip = False, in_IsWan = False, in_HitCount = Some (ci_HitCount c)\<rparr>))"

text \<open>An address with no entry has the region of its network; an address of the Internet has no record.\<close>

definition view_info :: "platform_view \<Rightarrow> i16 \<Rightarrow> u32 \<Rightarrow> Info option" where
  "view_info w e ip = (if e = -2 then None else case view_entry w e ip of
     Some i \<Rightarrow> Some i
   | None \<Rightarrow> map_option (\<lambda>b. \<lparr>in_EpcID = 0, in_L2EpcID = 0, in_Host = 0, in_HostStr = [], in_HostID = 0, in_Mac = 0, in_RegionID = bi_RegionID b,
       in_DeviceType = 0, in_DeviceID = 0, in_SubnetID = 0, in_PodNodeID = 0, in_PodNSID = 0, in_PodGroupID = 0, in_PodID = 0, in_PodClusterID = 0,
       in_AZID = 0, in_IsVip = False, in_IsWan = False, in_HitCount = None\<rparr>) (pd_BaseInfos (vw_data w) (scast e)))"

text \<open>The agent of an identifier is the last of the list that has it.\<close>

definition view_vtap :: "platform_view \<Rightarrow> u32 \<Rightarrow> VtapInfo option" where
  "view_vtap w vtap = find (\<lambda>v. vi_VtapId v = vtap) (rev (vw_vtaps w))"

text \<open>The networks connected with one, each once, in the order of the first connection that names it.\<close>

definition neighbours :: "i32 \<Rightarrow> i32 \<times> i32 \<Rightarrow> i32 list" where
  "neighbours e = (\<lambda>(l, r). (if l = e then [r] else []) @ (if r = e then [l] else []))"

definition view_peers :: "platform_view \<Rightarrow> i32 \<Rightarrow> i32 list" where
  "view_peers w e = rev (remdups (rev (concat (map (neighbours e) (pd_peers (vw_data w))))))"

definition view_own :: "platform_view \<Rightarrow> u32 \<Rightarrow> i32" where
  "view_own w vtap = (case view_vtap w vtap of Some v \<Rightarrow> vi_EpcId v | None \<Rightarrow> -2)"

text \<open>
  The network of the other side: the agent's own or else the first connected one that knows the
  address, else the network in the record of the address in the public network 0.
\<close>

definition view_other :: "platform_view \<Rightarrow> u32 \<Rightarrow> u32 \<Rightarrow> i32" where
  "view_other w vtap ip = (case filter (\<lambda>e. view_entry w (ucast e) ip \<noteq> None) (view_own w vtap # view_peers w (view_own w vtap)) of
     e # _ \<Rightarrow> e
   | [] \<Rightarrow> (case view_entry w 0 ip of Some i \<Rightarrow> in_EpcID i | None \<Rightarrow> -2))"

definition view_pod :: "platform_view \<Rightarrow> u32 \<Rightarrow> bytes \<Rightarrow> PodInfo option" where
  "view_pod w vtap name = (case view_vtap w vtap of None \<Rightarrow> None
   | Some v \<Rightarrow> find (\<lambda>p. pi_PodName p = name \<and> pi_PodClusterId p = vi_PodClusterId v) (vw_pods w))"

text \<open>The queries of decoders that share a table.\<close>

datatype platform_query = One i16 u32 | Two i16 u32 i16 u32 | Mac u64 | Macs u64 u64 | Own_Side u32 | Other_Side u32 u32 | Pod u32 bytes | Region

datatype platform_answer = Info1 "Info option" | Info2 "Info option" "Info option" | Epc i32 | Pod1 "PodInfo option" | Region1 u32

definition ask :: "'c U160Ops \<Rightarrow> (nat \<Rightarrow> cache_block) \<Rightarrow> platform_query \<Rightarrow> 'c PlatformInfoTable \<Rightarrow> (platform_answer \<times> 'c PlatformInfoTable) option" where
  "ask u fresh q t = (case q of
     One e ip \<Rightarrow> map_option (\<lambda>(i, t). (Info1 i, t)) (QueryIPV4Infos (fresh 0) e ip t)
   | Two e0 ip0 e1 ip1 \<Rightarrow> map_option (\<lambda>((i0, i1), t). (Info2 i0 i1, t)) (QueryIPV4InfosPair (fresh 0) (fresh 1) e0 ip0 e1 ip1 t)
   | Mac m \<Rightarrow> map_option (\<lambda>(i, t). (Info1 i, t)) (queryMacInfo m t)
   | Macs m0 m1 \<Rightarrow> map_option (\<lambda>((i0, i1), t). (Info2 i0 i1, t)) (queryMacInfosPair m0 m1 t)
   | Own_Side vtap \<Rightarrow> Some (Epc (QueryVtapEpc0 vtap t), t)
   | Other_Side vtap ip \<Rightarrow> map_option (\<lambda>(e, t). (Epc e, t)) (QueryVtapEpc1 u fresh vtap True ip [] t)
   | Pod vtap name \<Rightarrow> Some (Pod1 (QueryPodInfo vtap name t), t)
   | Region \<Rightarrow> Some (Region1 (QueryRegionID t), t))"

definition view_answer :: "platform_view \<Rightarrow> platform_query \<Rightarrow> platform_answer" where
  "view_answer w q = (case q of
     One e ip \<Rightarrow> Info1 (view_info w e ip)
   | Two e0 ip0 e1 ip1 \<Rightarrow> Info2 (view_info w e0 ip0) (view_info w e1 ip1)
   | Mac m \<Rightarrow> Info1 (pd_macInfos (vw_data w) m)
   | Macs m0 m1 \<Rightarrow> Info2 (pd_macInfos (vw_data w) m0) (pd_macInfos (vw_data w) m1)
   | Own_Side vtap \<Rightarrow> Epc (view_own w vtap)
   | Other_Side vtap ip \<Rightarrow> Epc (view_other w vtap ip)
   | Pod vtap name \<Rightarrow> Pod1 (view_pod w vtap name)
   | Region \<Rightarrow> Region1 (vw_region w))"

text \<open>
  Queries, new data and new lists of agents and pods, in any order. Each is one step here. In the source a query
  of another goroutine can run while \<^verbatim>\<open>Reload\<close> assigns the maps one after the other, without
  a lock; what it then reads is not covered.
\<close>

datatype platform_event = Ask "nat \<Rightarrow> cache_block" platform_query | Load platform_data | Vtaps "VtapInfo list" | Pods "PodInfo list"

primrec run_events :: "'c U160Ops \<Rightarrow> 'c \<Rightarrow> platform_event list \<Rightarrow> 'c PlatformInfoTable \<Rightarrow> platform_answer list option" where
  "run_events u u160 [] t = Some []"
| "run_events u u160 (e # es) t = (case e of
     Ask fresh q \<Rightarrow> do { (a, t) \<leftarrow> ask u fresh q t; as \<leftarrow> run_events u u160 es t; Some (a # as) }
   | Load d \<Rightarrow> run_events u u160 es (install_data u160 d t)
   | Vtaps vs \<Rightarrow> run_events u u160 es (updateVtapIps vs t)
   | Pods ps \<Rightarrow> run_events u u160 es (updatePodIps ps t))"

primrec view_events :: "platform_event list \<Rightarrow> platform_view \<Rightarrow> platform_answer list" where
  "view_events [] w = []"
| "view_events (e # es) w = (case e of
     Ask fresh q \<Rightarrow> view_answer w q # view_events es w
   | Load d \<Rightarrow> view_events es (w\<lparr>vw_data := d, vw_region := (case pd_region d of Some r \<Rightarrow> r | None \<Rightarrow> vw_region w)\<rparr>)
   | Vtaps vs \<Rightarrow> view_events es (w\<lparr>vw_vtaps := vs\<rparr>)
   | Pods ps \<Rightarrow> view_events es (w\<lparr>vw_pods := ps\<rparr>))"

fun event_ok :: "platform_event \<Rightarrow> bool" where
  "event_ok (Ask fresh q) \<longleftrightarrow> (\<forall>i. int (length (fresh i)) = BLOCK_SIZE)"
| "event_ok (Load d) \<longleftrightarrow> (\<forall>i\<in>ran (pd_IPV4Infos d) \<union> ran (pd_macInfos d). in_HitCount i \<noteq> None)"
| "event_ok (Vtaps vs) \<longleftrightarrow> True"
| "event_ok (Pods ps) \<longleftrightarrow> True"

subsection \<open>The tables of a view\<close>

definition shows_view :: "platform_view \<Rightarrow> 'c PlatformInfoTable \<Rightarrow> bool" where
  "shows_view w t \<longleftrightarrow> epcIDIPV4Infos t = pd_IPV4Infos (vw_data w) \<and> epcIDIPV4CidrInfos t = pd_IPV4CidrInfos (vw_data w) \<and>
     (\<forall>e. map_option bi_RegionID (epcIDBaseInfos t e) = map_option bi_RegionID (pd_BaseInfos (vw_data w) e)) \<and>
     macInfos t = pd_macInfos (vw_data w) \<and> (\<forall>v. vtapIdInfos t v = view_vtap w v) \<and> (\<forall>e. queryPeerConnections e t = view_peers w e) \<and>
     (\<forall>name. (case podNameInfos t name of None \<Rightarrow> [] | Some ps \<Rightarrow> ps) = filter (\<lambda>p. pi_PodName p = name) (vw_pods w)) \<and> pl_regionID t = vw_region w"

lemma shows_view_same: "shows_view w t \<Longrightarrow> same_data t t' \<Longrightarrow> shows_view w t'"
  by (simp add: shows_view_def same_data_def queryPeerConnections_def)

text \<open>The maps made from the lists.\<close>

lemma vtaps_map: "fold (\<lambda>v m. m(vi_VtapId v \<mapsto> v)) vs m i = (case find (\<lambda>v. vi_VtapId v = i) (rev vs) of Some v \<Rightarrow> Some v | None \<Rightarrow> m i)"
  by (induction vs rule: rev_induct) auto

lemma pods_map:
  "(case fold (\<lambda>p m. m(pi_PodName p \<mapsto> (case m (pi_PodName p) of None \<Rightarrow> [] | Some ps \<Rightarrow> ps) @ [p])) podIps Map.empty name of None \<Rightarrow> [] | Some ps \<Rightarrow> ps) =
     filter (\<lambda>p. pi_PodName p = name) podIps"
  by (induction podIps rule: rev_induct) auto

definition peers_in :: "(i32 \<rightharpoonup> i32 list) \<Rightarrow> i32 \<Rightarrow> i32 list" where
  "peers_in m e = (case m e of None \<Rightarrow> [] | Some es \<Rightarrow> es)"

definition insert_end :: "'a \<Rightarrow> 'a list \<Rightarrow> 'a list" where
  "insert_end x xs = (if x \<in> set xs then xs else xs @ [x])"

lemma first_occurrences: "rev (remdups (rev (xs @ ys))) = fold insert_end ys (rev (remdups (rev xs)))"
proof (induction ys rule: rev_induct)
  case (snoc y ys)
  have "rev (remdups (rev (xs @ ys @ [y]))) = insert_end y (rev (remdups (rev (xs @ ys))))" by (auto simp: insert_end_def)
  then show ?case by (simp add: snoc.IH del: rev_append)
qed simp

lemma add_peer_in: "peers_in (add_peer a b m) e = (if a = e then insert_end b (peers_in m e) else peers_in m e)"
  by (auto simp: add_peer_def peers_in_def insert_end_def split: option.split)

lemma peers_map:
  "peers_in (fold (\<lambda>(l, r) m. add_peer r l (add_peer l r m)) cs Map.empty) e = rev (remdups (rev (concat (map (neighbours e) cs))))"
proof (induction cs rule: rev_induct)
  case (snoc c cs)
  then show ?case by (cases c) (simp add: first_occurrences add_peer_in neighbours_def del: rev_append)
qed (simp add: peers_in_def)

lemma shows_new: "shows_view first_view (NewPlatformInfoTable u160)"
  by (simp add: shows_view_def first_view_def no_data_def NewPlatformInfoTable_def view_vtap_def view_peers_def queryPeerConnections_def)

lemma shows_load:
  "shows_view w t \<Longrightarrow>
   shows_view (w\<lparr>vw_data := d, vw_region := (case pd_region d of Some r \<Rightarrow> r | None \<Rightarrow> vw_region w)\<rparr>) (install_data u160 d t)"
  using peers_map [of "pd_peers d"]
  by (simp add: shows_view_def install_data_def updatePeerConnections_def queryPeerConnections_def view_vtap_def view_peers_def peers_in_def Let_def
      split: option.split)

lemma shows_vtaps: "shows_view w t \<Longrightarrow> shows_view (w\<lparr>vw_vtaps := vs\<rparr>) (updateVtapIps vs t)"
  by (simp add: shows_view_def updateVtapIps_def queryPeerConnections_def view_vtap_def view_peers_def vtaps_map split: option.split)

lemma shows_pods: "shows_view w t \<Longrightarrow> shows_view (w\<lparr>vw_pods := ps\<rparr>) (updatePodIps ps t)"
  using pods_map [of ps] by (simp add: shows_view_def updatePodIps_def queryPeerConnections_def view_vtap_def view_peers_def)

subsection \<open>The answers of a view\<close>

lemma ipv4_key_int: "scast e * 4294967296 + ucast ip = ipv4_key e ip"
proof -
  have "push_bit 32 (scast e :: u64) AND ucast ip = 0" by (rule bit_word_eqI) (auto simp: bit_simps dest: bit_imp_le_length)
  then have "ipv4_key e ip = push_bit 32 (scast e) + ucast ip" by (simp add: ipv4_key_def disjunctive_add_eq_or)
  then show ?thesis by (simp add: push_bit_eq_mult)
qed

lemma find_filter: "find P xs = (case filter P xs of [] \<Rightarrow> None | x # _ \<Rightarrow> Some x)"
  by (induction xs) auto

lemma view_entry_lookup: "shows_view w t \<Longrightarrow> lookup_ipv4 t (ipv4_key e ip) = view_entry w e ip"
  by (auto simp: shows_view_def lookup_ipv4_def view_entry_def ipv4_key_int ipv4_key_parts queryIPV4Cidr_def find_filter cidr_info_def Info_zero_def
      IpFromUint32_def split: option.split list.split)

lemma view_info_answer:
  assumes "shows_view w t"
  shows "answer_ipv4 t e ip = view_info w e ip"
proof -
  have "map_option bi_RegionID (epcIDBaseInfos t (scast e)) = map_option bi_RegionID (pd_BaseInfos (vw_data w) (scast e))"
    using assms by (simp add: shows_view_def)
  from arg_cong [OF this, of "map_option (\<lambda>r. Info_zero\<lparr>in_RegionID := r\<rparr>)"] show ?thesis
    by (simp add: answer_ipv4_def view_info_def EPC_FROM_INTERNET_def view_entry_lookup [OF assms] region_info_def option.map_comp comp_def Info_zero_def
        cong: option.case_cong)
qed

lemma view_own_answer: "shows_view w t \<Longrightarrow> QueryVtapEpc0 vtap t = view_own w vtap"
  by (simp add: QueryVtapEpc0_def view_own_def shows_view_def EPC_FROM_INTERNET_def split: option.split)

lemma view_other_answer:
  assumes "shows_view w t"
  shows "answer_epc t vtap ip = view_other w vtap ip"
proof -
  have "queryPeerConnections e t = view_peers w e" for e using assms by (simp add: shows_view_def)
  then show ?thesis
    by (simp add: answer_epc_def view_other_def view_own_answer [OF assms] view_entry_lookup [OF assms] find_filter EPC_FROM_INTERNET_def
        split: list.split option.split)
qed

lemma view_pod_answer: "shows_view w t \<Longrightarrow> QueryPodInfo vtap name t = view_pod w vtap name"
  by (simp add: shows_view_def QueryPodInfo_def view_pod_def find_filter conj_commute split: option.split)

lemma ask_true:
  assumes "cache_true t" "shows_view w t" "\<forall>i. int (length (fresh i)) = BLOCK_SIZE"
  shows "\<exists>t'. ask u fresh q t = Some (view_answer w q, t') \<and> cache_true t' \<and> same_data t t'"
proof -
  note view = view_info_answer [OF assms(2)] view_own_answer [OF assms(2)] view_other_answer [OF assms(2)] view_pod_answer [OF assms(2)]
  have mac: "macInfos t = pd_macInfos (vw_data w)" "pl_regionID t = vw_region w" using assms(2) by (simp_all add: shows_view_def)
  show ?thesis
  proof (cases q)
    case (One e ip)
    then show ?thesis using QueryIPV4Infos_true [OF assms(1), of "fresh 0" e ip] assms(3) by (auto simp: ask_def view_answer_def view)
  next
    case (Two e0 ip0 e1 ip1)
    then show ?thesis using QueryIPV4InfosPair_true [OF assms(1), of "fresh 0" "fresh 1" e0 ip0 e1 ip1] assms(3)
      by (auto simp: ask_def view_answer_def view)
  next
    case (Mac m)
    then show ?thesis using queryMacInfo_true [OF assms(1), of m] by (auto simp: ask_def view_answer_def mac)
  next
    case (Macs m0 m1)
    then show ?thesis using queryMacInfosPair_true [OF assms(1), of m0 m1] by (auto simp: ask_def view_answer_def mac)
  next
    case (Other_Side vtap ip)
    then show ?thesis using QueryVtapEpc1_true [OF assms(1,3), of u vtap ip "[]"] by (auto simp: ask_def view_answer_def view)
  qed (use assms(1) in \<open>simp_all add: ask_def view_answer_def view QueryRegionID_def mac\<close>)
qed

lemma New_cache_true: "cache_true (NewPlatformInfoTable u160)"
  using New_inv [of LruCap, where slots = LruSlotSize and 'v = lru_item] by (simp add: cache_true_def NewPlatformInfoTable_def LruCap_def)

lemma install_true: "event_ok (Load d) \<Longrightarrow> cache_true (install_data u160 d t)"
  using New_inv [of LruCap, where slots = LruSlotSize and 'v = lru_item]
  by (auto simp: cache_true_def install_data_def LruCap_def Let_def ran_def split: option.split)

lemma lists_true: "cache_true t \<Longrightarrow> cache_true (updateVtapIps vs t)" "cache_true t \<Longrightarrow> cache_true (updatePodIps ps t)"
proof -
  have "lookup_ipv4 (updateVtapIps vs t) = lookup_ipv4 t" "lookup_ipv4 (updatePodIps ps t) = lookup_ipv4 t"
    by (simp_all add: fun_eq_iff lookup_ipv4_def queryIPV4Cidr_def updateVtapIps_def updatePodIps_def cong: option.case_cong)
  then show "cache_true t \<Longrightarrow> cache_true (updateVtapIps vs t)" "cache_true t \<Longrightarrow> cache_true (updatePodIps ps t)"
    by (simp_all add: cache_true_def) (simp_all add: updateVtapIps_def updatePodIps_def)
qed

lemma run_events_true:
  assumes "cache_true t" "shows_view w t" "list_all event_ok es"
  shows "run_events u u160 es t = Some (view_events es w)"
  using assms
proof (induction es arbitrary: t w)
  case (Cons e es)
  show ?case
  proof (cases e)
    case (Ask fresh q)
    with ask_true [OF Cons.prems(1,2), of fresh u q] Cons.prems(3) obtain t2 where
      "ask u fresh q t = Some (view_answer w q, t2)" "cache_true t2" "same_data t t2" by auto
    then show ?thesis using Ask Cons.IH [of t2 w] Cons.prems(3) shows_view_same [OF Cons.prems(2)] by simp
  next
    case (Load d)
    then show ?thesis using Cons.prems Cons.IH [OF install_true shows_load [OF Cons.prems(2), of d]] by auto
  next
    case (Vtaps vs)
    then show ?thesis using Cons.prems Cons.IH [OF lists_true(1) shows_vtaps [OF Cons.prems(2)]] by auto
  next
    case (Pods ps)
    then show ?thesis using Cons.prems Cons.IH [OF lists_true(2) shows_pods [OF Cons.prems(2)]] by auto
  qed
qed simp

text \<open>
  C6: Answers are never stale. Whatever the order of queries, of new versions of the platform data and of new lists of agents and pods, one
  at a time, a table answers every query of an address, a pair, hardware addresses, the network of either side, a pod or the region, without
  a panic, as a view without cache, counters and maps does: for an IPv4 address the entry of the message last loaded, else
  the record of the first network of its list that contains the address, else the region of the private network; for an agent the last
  one of the list last received; for the other side the agent's own network or else the first connected one, in the order of the connections
  of the message, that has the address. Every record of the data has a counter.
\<close>

theorem platform_answers_current:
  assumes "list_all event_ok es"
  shows "run_events u u160 es (NewPlatformInfoTable u160) = Some (view_events es first_view)"
  using run_events_true [OF New_cache_true shows_new assms] .

definition sample_info :: "u32 \<Rightarrow> Info" where
  "sample_info device = Info_zero\<lparr>in_DeviceID := device, in_HitCount := Some 0\<rparr>"

definition sample_data :: "u32 \<Rightarrow> platform_data" where
  "sample_data device = \<lparr>pd_region = Some 1, pd_IPV4Infos = [ipv4_key 5 9 \<mapsto> sample_info device], pd_IPV6Infos = Map.empty, pd_macInfos = Map.empty,
     pd_BaseInfos = Map.empty, pd_IPV4CidrInfos = Map.empty, pd_IPV6CidrInfos = Map.empty, pd_peers = [(7, 5)], pd_hitNext = 1\<rparr>"

definition sample_ops :: "unit U160Ops" where
  "sample_ops = \<lparr>u160_Get = (\<lambda>_ _. Some (None, ())), u160_Add = (\<lambda>_ _ _. Some ())\<rparr>"

definition sample_events :: "platform_event list" where
  "sample_events = (let fresh = (\<lambda>_. replicate 256 blankU64LRUNodeForInit) in
     [Load (sample_data 3), Ask fresh (One 5 9), Vtaps [\<lparr>vi_VtapId = 1, vi_EpcId = 7, vi_Ip = [], vi_PodClusterId = 0\<rparr>],
      Ask fresh (Other_Side 1 9), Load (sample_data 4), Ask fresh (One 5 9)])"

theorem platform_answers_current_witness:
  "run_events sample_ops () sample_events (NewPlatformInfoTable ()) = Some [Info1 (Some (sample_info 3)), Epc 5, Info1 (Some (sample_info 4))]"
proof -
  have keys: "ipv4_key 5 9 = 0x500000009" by (simp add: ipv4_key_def)
  have "view_events sample_events first_view = [Info1 (Some (sample_info 3)), Epc 5, Info1 (Some (sample_info 4))]"
    by (simp add: sample_events_def first_view_def view_answer_def view_info_def view_entry_def view_other_def view_own_def view_vtap_def view_peers_def
        neighbours_def sample_data_def keys Let_def)
  moreover have "list_all event_ok sample_events" by (simp add: sample_events_def BLOCK_SIZE_def Let_def sample_data_def sample_info_def)
  ultimately show ?thesis using platform_answers_current [of sample_events sample_ops "()"] by simp
qed

text \<open>
  C37: The private network of a public address is lost when the address is known by a network only: the record made for a network
  has no \<^verbatim>\<open>EpcID\<close>, so the search among the WAN data returns network 0 instead of the one the network belongs to, and
  instead of the value for an address of the Internet.
\<close>

theorem wan_network_epc_lost:
  assumes "event_ok (Load d)" "int (length fresh) = BLOCK_SIZE"
    and "pd_IPV4Infos d (ucast ip) = None" "pd_IPV4CidrInfos d 0 = Some cs" "list_ex (\<lambda>c. IPNet_Contains (ci_Cidr c) (IpFromUint32 ip)) cs"
  shows "\<exists>t'. findEpcInWan u fresh True ip ip6 (install_data u160 d t) = Some (0, t')"
proof -
  let ?t = "install_data u160 d t"
  obtain c where "find (\<lambda>c. IPNet_Contains (ci_Cidr c) (IpFromUint32 ip)) cs = Some c"
    using assms(5) by (cases "find (\<lambda>c. IPNet_Contains (ci_Cidr c) (IpFromUint32 ip)) cs") (auto simp: find_None_iff list_ex_iff)
  moreover have "ipv4_key 0 ip = ucast ip" by (simp add: ipv4_key_def)
  ultimately have "lookup_ipv4 ?t (ipv4_key 0 ip) = Some (cidr_info c)"
    using assms(3,4) ipv4_key_parts [of 0 ip] by (simp add: lookup_ipv4_def install_data_def Let_def queryIPV4Cidr_def)
  moreover have "in_EpcID (cidr_info c) = 0" by (simp add: cidr_info_def Info_zero_def)
  ultimately show ?thesis using queryIPV4Infos_true [OF install_true [OF assms(1), of u160 t] assms(2), of 0 ip]
    by (auto simp: findEpcInWan_def)
qed

theorem wan_network_epc_lost_witness:
  "\<exists>t'. findEpcInWan sample_ops (replicate 256 blankU64LRUNodeForInit) True 0x08080808 []
     (install_data () ((sample_data 3)\<lparr>pd_IPV4CidrInfos := [0 \<mapsto> [\<lparr>ci_Cidr = \<lparr>ipn_IP = [8, 8, 0, 0], ipn_Mask = [255, 255, 0, 0]\<rparr>,
        ci_EpcID = 5, ci_RegionID = 1, ci_SubnetID = 2, ci_AZID = 3, ci_IsWan = True, ci_HitCount = 0\<rparr>]]\<rparr>) (NewPlatformInfoTable ())) = Some (0, t')"
  apply (rule wan_network_epc_lost [where cs = "[\<lparr>ci_Cidr = \<lparr>ipn_IP = [8, 8, 0, 0], ipn_Mask = [255, 255, 0, 0]\<rparr>,
        ci_EpcID = 5, ci_RegionID = 1, ci_SubnetID = 2, ci_AZID = 3, ci_IsWan = True, ci_HitCount = 0\<rparr>]"])
  apply (simp add: sample_data_def sample_info_def)
  apply (simp add: BLOCK_SIZE_def)
  apply (simp add: sample_data_def ipv4_key_def)
  apply simp
  apply code_simp
  done

end
