(* ===== verification/Knowledge_Graph.thy ===== *)
theory Knowledge_Graph
  imports Platform_Info Doc_Tables
begin

text \<open>
  What a log says about the resources behind its two addresses: \<^verbatim>\<open>KnowledgeGraph\<close> of
  \<^verbatim>\<open>ingester/stream/jsonify/data.go\<close> with \<^verbatim>\<open>ingester/common/common.go\<close>, filled from the platform data.

  The fields of the two sides are two records of the same type. The matcher of services, \<^verbatim>\<open>GroupLabeler\<close> of
  \<^verbatim>\<open>libs/grpc/labeler.go\<close>, is not translated, as it rests on the groups of the package \<^verbatim>\<open>policy\<close> and on maps generated by the build.
  It is an argument, a function of the query, which takes its caches to return what was put into them for the same query;
  its client, the search for the identifier of a service, is translated.
  The theorems show that the case distinction over the ways to look up a side amounts to one rule for each side, and that the values
  are those of the data last loaded.
\<close>

unbundle bit_operations_syntax

section \<open>The two sides\<close>

record KnowledgeSide =
  ks_RegionID :: u16
  ks_AZID :: u16
  ks_HostID :: u16
  ks_L3DeviceType :: u8
  ks_L3DeviceID :: u32
  ks_PodNodeID :: u32
  ks_PodNSID :: u16
  ks_PodGroupID :: u32
  ks_PodID :: u32
  ks_PodClusterID :: u16
  ks_L3EpcID :: i32
  ks_EpcID :: i32
  ks_SubnetID :: u16
  ks_ServiceID :: u32
  ks_ResourceGl0ID :: u32
  ks_ResourceGl0Type :: u8
  ks_ResourceGl1ID :: u32
  ks_ResourceGl1Type :: u8
  ks_ResourceGl2ID :: u32
  ks_ResourceGl2Type :: u8

definition KnowledgeSide_zero :: KnowledgeSide where
  "KnowledgeSide_zero = \<lparr>ks_RegionID = 0, ks_AZID = 0, ks_HostID = 0, ks_L3DeviceType = 0, ks_L3DeviceID = 0, ks_PodNodeID = 0, ks_PodNSID = 0,
     ks_PodGroupID = 0, ks_PodID = 0, ks_PodClusterID = 0, ks_L3EpcID = 0, ks_EpcID = 0, ks_SubnetID = 0, ks_ServiceID = 0,
     ks_ResourceGl0ID = 0, ks_ResourceGl0Type = 0, ks_ResourceGl1ID = 0, ks_ResourceGl1Type = 0, ks_ResourceGl2ID = 0,
     ks_ResourceGl2Type = 0\<rparr>"

record KnowledgeGraph =
  kg_0 :: KnowledgeSide
  kg_1 :: KnowledgeSide

definition KnowledgeGraph_zero :: KnowledgeGraph where
  "KnowledgeGraph_zero = \<lparr>kg_0 = KnowledgeSide_zero, kg_1 = KnowledgeSide_zero\<rparr>"

definition KnowledgeGraphColumns :: "Column list" where
  "KnowledgeGraphColumns =
     [NewColumn (str ''region_id_0'') CT_UInt16, NewColumn (str ''region_id_1'') CT_UInt16, NewColumn (str ''az_id_0'') CT_UInt16,
     NewColumn (str ''az_id_1'') CT_UInt16, NewColumn (str ''host_id_0'') CT_UInt16, NewColumn (str ''host_id_1'') CT_UInt16,
     NewColumn (str ''l3_device_type_0'') CT_UInt8, NewColumn (str ''l3_device_type_1'') CT_UInt8,
     NewColumn (str ''l3_device_id_0'') CT_UInt32, NewColumn (str ''l3_device_id_1'') CT_UInt32,
     NewColumn (str ''pod_node_id_0'') CT_UInt32, NewColumn (str ''pod_node_id_1'') CT_UInt32,
     NewColumn (str ''pod_ns_id_0'') CT_UInt16, NewColumn (str ''pod_ns_id_1'') CT_UInt16,
     NewColumn (str ''pod_group_id_0'') CT_UInt32, NewColumn (str ''pod_group_id_1'') CT_UInt32,
     NewColumn (str ''pod_id_0'') CT_UInt32, NewColumn (str ''pod_id_1'') CT_UInt32, NewColumn (str ''pod_cluster_id_0'') CT_UInt16,
     NewColumn (str ''pod_cluster_id_1'') CT_UInt16, NewColumn (str ''l3_epc_id_0'') CT_Int32,
     NewColumn (str ''l3_epc_id_1'') CT_Int32, NewColumn (str ''epc_id_0'') CT_Int32, NewColumn (str ''epc_id_1'') CT_Int32,
     NewColumn (str ''subnet_id_0'') CT_UInt16, NewColumn (str ''subnet_id_1'') CT_UInt16, NewColumn (str ''service_id_0'') CT_UInt32,
     NewColumn (str ''service_id_1'') CT_UInt32, NewColumn (str ''resource_gl0_id_0'') CT_UInt32,
     NewColumn (str ''resource_gl0_type_0'') CT_UInt8, NewColumn (str ''resource_gl1_id_0'') CT_UInt32,
     NewColumn (str ''resource_gl1_type_0'') CT_UInt8, NewColumn (str ''resource_gl2_id_0'') CT_UInt32,
     NewColumn (str ''resource_gl2_type_0'') CT_UInt8, NewColumn (str ''resource_gl0_id_1'') CT_UInt32,
     NewColumn (str ''resource_gl0_type_1'') CT_UInt8, NewColumn (str ''resource_gl1_id_1'') CT_UInt32,
     NewColumn (str ''resource_gl1_type_1'') CT_UInt8, NewColumn (str ''resource_gl2_id_1'') CT_UInt32,
     NewColumn (str ''resource_gl2_type_1'') CT_UInt8]"

definition KnowledgeGraph_WriteBlock :: "('e, 'b) column_append \<Rightarrow> KnowledgeGraph \<Rightarrow> 'b Block \<Rightarrow> 'e option \<times> 'b Block" where
  "KnowledgeGraph_WriteBlock app k = write_all
     [Block_WriteUInt16 app (ks_RegionID (kg_0 k)), Block_WriteUInt16 app (ks_RegionID (kg_1 k)),
     Block_WriteUInt16 app (ks_AZID (kg_0 k)), Block_WriteUInt16 app (ks_AZID (kg_1 k)), Block_WriteUInt16 app (ks_HostID (kg_0 k)),
     Block_WriteUInt16 app (ks_HostID (kg_1 k)), Block_WriteUInt8 app (ks_L3DeviceType (kg_0 k)),
     Block_WriteUInt8 app (ks_L3DeviceType (kg_1 k)), Block_WriteUInt32 app (ks_L3DeviceID (kg_0 k)),
     Block_WriteUInt32 app (ks_L3DeviceID (kg_1 k)), Block_WriteUInt32 app (ks_PodNodeID (kg_0 k)),
     Block_WriteUInt32 app (ks_PodNodeID (kg_1 k)), Block_WriteUInt16 app (ks_PodNSID (kg_0 k)),
     Block_WriteUInt16 app (ks_PodNSID (kg_1 k)), Block_WriteUInt32 app (ks_PodGroupID (kg_0 k)),
     Block_WriteUInt32 app (ks_PodGroupID (kg_1 k)), Block_WriteUInt32 app (ks_PodID (kg_0 k)),
     Block_WriteUInt32 app (ks_PodID (kg_1 k)), Block_WriteUInt16 app (ks_PodClusterID (kg_0 k)),
     Block_WriteUInt16 app (ks_PodClusterID (kg_1 k)), Block_WriteInt32 app (ks_L3EpcID (kg_0 k)),
     Block_WriteInt32 app (ks_L3EpcID (kg_1 k)), Block_WriteInt32 app (ks_EpcID (kg_0 k)), Block_WriteInt32 app (ks_EpcID (kg_1 k)),
     Block_WriteUInt16 app (ks_SubnetID (kg_0 k)), Block_WriteUInt16 app (ks_SubnetID (kg_1 k)),
     Block_WriteUInt32 app (ks_ServiceID (kg_0 k)), Block_WriteUInt32 app (ks_ServiceID (kg_1 k)),
     Block_WriteUInt32 app (ks_ResourceGl0ID (kg_0 k)), Block_WriteUInt8 app (ks_ResourceGl0Type (kg_0 k)),
     Block_WriteUInt32 app (ks_ResourceGl1ID (kg_0 k)), Block_WriteUInt8 app (ks_ResourceGl1Type (kg_0 k)),
     Block_WriteUInt32 app (ks_ResourceGl2ID (kg_0 k)), Block_WriteUInt8 app (ks_ResourceGl2Type (kg_0 k)),
     Block_WriteUInt32 app (ks_ResourceGl0ID (kg_1 k)), Block_WriteUInt8 app (ks_ResourceGl0Type (kg_1 k)),
     Block_WriteUInt32 app (ks_ResourceGl1ID (kg_1 k)), Block_WriteUInt8 app (ks_ResourceGl1Type (kg_1 k)),
     Block_WriteUInt32 app (ks_ResourceGl2ID (kg_1 k)), Block_WriteUInt8 app (ks_ResourceGl2Type (kg_1 k))]"

section \<open>Resources\<close>

definition IpType :: u8 where "IpType = 255"
definition InternatIpType :: u8 where "InternatIpType = 0"
definition PodType :: u8 where "PodType = 10"
definition PodNodeType :: u8 where "PodNodeType = 14"
definition PodGroupType :: u8 where "PodGroupType = 101"
definition ServiceType :: u8 where "ServiceType = 102"

definition GetResourceGl0 :: "u32 \<Rightarrow> u32 \<Rightarrow> u32 \<Rightarrow> u8 \<Rightarrow> i16 \<Rightarrow> u32 \<times> u8" where
  "GetResourceGl0 podID podNodeID l3DeviceID l3DeviceType l3EpcID =
     (if podID > 0 then (podID, PodType)
      else if podNodeID > 0 then (podNodeID, PodNodeType)
      else if l3DeviceID > 0 then (l3DeviceID, l3DeviceType)
      else if l3EpcID = EPC_FROM_INTERNET then (0, InternatIpType)
      else (0, IpType))"

definition GetResourceGl1 :: "u32 \<Rightarrow> u32 \<Rightarrow> u32 \<Rightarrow> u8 \<Rightarrow> i16 \<Rightarrow> u32 \<times> u8" where
  "GetResourceGl1 podGroupID podNodeID l3DeviceID l3DeviceType l3EpcID =
     (if podGroupID > 0 then (podGroupID, PodGroupType)
      else if podNodeID > 0 then (podNodeID, PodNodeType)
      else if l3DeviceID > 0 then (l3DeviceID, l3DeviceType)
      else if l3EpcID = EPC_FROM_INTERNET then (0, InternatIpType)
      else (0, IpType))"

definition GetResourceGl2 :: "u32 \<Rightarrow> u32 \<Rightarrow> u32 \<Rightarrow> u32 \<Rightarrow> u8 \<Rightarrow> i16 \<Rightarrow> u32 \<times> u8" where
  "GetResourceGl2 serviceID podGroupID podNodeID l3DeviceID l3DeviceType l3EpcID =
     (if serviceID > 0 then (serviceID, ServiceType) else GetResourceGl1 podGroupID podNodeID l3DeviceID l3DeviceType l3EpcID)"

section \<open>Services\<close>

text \<open>The matcher of services returns indexes into the list of services, here the list of their identifiers.\<close>

record ServiceTable =
  QueryServer :: "(i16 \<Rightarrow> u32 \<Rightarrow> u8 \<Rightarrow> u16 \<Rightarrow> nat list) option"
  QueryServerIPv6 :: "i16 \<Rightarrow> bytes \<Rightarrow> u8 \<Rightarrow> u16 \<Rightarrow> nat list"
  services :: "u32 list"

text \<open>The first service of the list that has an identifier; \<open>None\<close> is the panic of an index outside the services.\<close>

primrec first_service :: "u32 list \<Rightarrow> nat list \<Rightarrow> u32 option" where
  "first_service ss [] = Some 0"
| "first_service ss (i # is) = (if i < length ss then if ss ! i > 0 then Some (ss ! i) else first_service ss is else None)"

definition QueryIsKeyServiceAndID :: "ServiceTable \<Rightarrow> i16 \<Rightarrow> u32 \<Rightarrow> u8 \<Rightarrow> u16 \<Rightarrow> (bool \<times> u32) option" where
  "QueryIsKeyServiceAndID s l3EpcID ipv4 protocol serverPort = (case QueryServer s of
     None \<Rightarrow> Some (False, 0)
   | Some query \<Rightarrow>
       let protocol = (if serverPort = 0 then 0 else protocol); serviceIdxs = query l3EpcID ipv4 protocol serverPort
       in map_option (\<lambda>i. (if i > 0 then True else length serviceIdxs > 0, i)) (first_service (services s) serviceIdxs))"

definition QueryIPv6IsKeyServiceAndID :: "ServiceTable \<Rightarrow> i16 \<Rightarrow> bytes \<Rightarrow> u8 \<Rightarrow> u16 \<Rightarrow> (bool \<times> u32) option" where
  "QueryIPv6IsKeyServiceAndID s l3EpcID ipv6 protocol serverPort = (case QueryServer s of
     None \<Rightarrow> Some (False, 0)
   | Some query \<Rightarrow>
       let protocol = (if serverPort = 0 then 0 else protocol); serviceIdxs = QueryServerIPv6 s l3EpcID ipv6 protocol serverPort
       in map_option (\<lambda>i. (if i > 0 then True else length serviceIdxs > 0, i)) (first_service (services s) serviceIdxs))"

section \<open>Filling the sides\<close>

definition DEVICE_TYPE_POD_SERVICE :: u8 where "DEVICE_TYPE_POD_SERVICE = 11"

text \<open>The capture side \<^verbatim>\<open>Local\<close> of \<^verbatim>\<open>zerodoc\<close>.\<close>

definition SideLocal :: u8 where "SideLocal = 4"

definition parseUint32EpcID :: "u32 \<Rightarrow> i32" where
  "parseUint32EpcID v =
     (let e = ucast v :: i16 in if e = EPC_FROM_DEEPFLOW \<or> e = EPC_FROM_INTERNET then scast e else v AND 0xffff)"

definition RegetInfoFromIP :: "'c U160Ops \<Rightarrow> cache_block \<Rightarrow> bool \<Rightarrow> bytes \<Rightarrow> u32 \<Rightarrow> i16 \<Rightarrow> 'c PlatformInfoTable
    \<Rightarrow> (Info option \<times> 'c PlatformInfoTable) option" where
  "RegetInfoFromIP u fresh isIPv6 ip6 ip4 epcID t =
     (if isIPv6 then QueryIPV6Infos u epcID ip6 t else QueryIPV4Infos fresh epcID ip4 t)"

definition l3_epc_mac :: "u64 \<Rightarrow> i16 \<Rightarrow> u64" where
  "l3_epc_mac mac l3EpcID = mac OR push_bit 48 (scast l3EpcID)"

text \<open>By the hardware address, and by the address where that fails.\<close>

definition reget :: "'c U160Ops \<Rightarrow> cache_block \<Rightarrow> bool \<Rightarrow> bytes \<Rightarrow> u32 \<Rightarrow> i16 \<Rightarrow> Info option \<times> 'c PlatformInfoTable
    \<Rightarrow> (Info option \<times> 'c PlatformInfoTable) option" where
  "reget u fresh isIPv6 ip6 ip4 epcID = (\<lambda>(info, t).
     if info = None then RegetInfoFromIP u fresh isIPv6 ip6 ip4 epcID t else Some (info, t))"

text \<open>One address of a flow, as the log knows it.\<close>

record side_key =
  sk_vip :: bool
  sk_epc :: i16
  sk_ip4 :: u32
  sk_ip6 :: bytes
  sk_mac :: u64

definition fill_infos :: "'c U160Ops \<Rightarrow> (nat \<Rightarrow> cache_block) \<Rightarrow> bool \<Rightarrow> side_key \<Rightarrow> side_key \<Rightarrow> u32 \<Rightarrow> 'c PlatformInfoTable
    \<Rightarrow> ((Info option \<times> Info option) \<times> 'c PlatformInfoTable) option" where
  "fill_infos u fresh isIPv6 k0 k1 tapSide t =
     (let local = (tapSide = ucast SideLocal); lookupByMac0 = sk_vip k0 \<or> local; lookupByMac1 = sk_vip k1 \<or> local;
          l3EpcMac0 = l3_epc_mac (sk_mac k0) (sk_epc k0); l3EpcMac1 = l3_epc_mac (sk_mac k1) (sk_epc k1) in
      if lookupByMac0 \<and> lookupByMac1 then do {
        ((info0, info1), t) \<leftarrow> queryMacInfosPair l3EpcMac0 l3EpcMac1 t;
        (info0, t) \<leftarrow> reget u (fresh 0) isIPv6 (sk_ip6 k0) (sk_ip4 k0) (sk_epc k0) (info0, t);
        (info1, t) \<leftarrow> reget u (fresh 1) isIPv6 (sk_ip6 k1) (sk_ip4 k1) (sk_epc k1) (info1, t);
        Some ((info0, info1), t) }
      else if lookupByMac0 then do {
        (info0, t) \<leftarrow> queryMacInfo l3EpcMac0 t;
        (info0, t) \<leftarrow> reget u (fresh 0) isIPv6 (sk_ip6 k0) (sk_ip4 k0) (sk_epc k0) (info0, t);
        (info1, t) \<leftarrow> (if isIPv6 then QueryIPV6Infos u (sk_epc k1) (sk_ip6 k1) t else QueryIPV4Infos (fresh 1) (sk_epc k1) (sk_ip4 k1) t);
        Some ((info0, info1), t) }
      else if lookupByMac1 then do {
        (info0, t) \<leftarrow> (if isIPv6 then QueryIPV6Infos u (sk_epc k0) (sk_ip6 k0) t else QueryIPV4Infos (fresh 0) (sk_epc k0) (sk_ip4 k0) t);
        (info1, t) \<leftarrow> queryMacInfo l3EpcMac1 t;
        (info1, t) \<leftarrow> reget u (fresh 1) isIPv6 (sk_ip6 k1) (sk_ip4 k1) (sk_epc k1) (info1, t);
        Some ((info0, info1), t) }
      else if isIPv6 then QueryIPV6InfosPair u (sk_epc k0) (sk_ip6 k0) (sk_epc k1) (sk_ip6 k1) t
      else QueryIPV4InfosPair (fresh 0) (fresh 1) (sk_epc k0) (sk_ip4 k0) (sk_epc k1) (sk_ip4 k1) t)"

definition fill_l2 :: "side_key \<Rightarrow> side_key \<Rightarrow> 'c PlatformInfoTable \<Rightarrow> ((Info option \<times> Info option) \<times> 'c PlatformInfoTable) option" where
  "fill_l2 k0 k1 t =
     (let l3EpcMac0 = l3_epc_mac (sk_mac k0) (sk_epc k0); l3EpcMac1 = l3_epc_mac (sk_mac k1) (sk_epc k1) in
      if 0 <s sk_epc k0 \<and> 0 <s sk_epc k1 then queryMacInfosPair l3EpcMac0 l3EpcMac1 t
      else if 0 <s sk_epc k0 then do { (l2Info0, t) \<leftarrow> queryMacInfo l3EpcMac0 t; Some ((l2Info0, None), t) }
      else if 0 <s sk_epc k1 then do { (l2Info1, t) \<leftarrow> queryMacInfo l3EpcMac1 t; Some ((None, l2Info1), t) }
      else Some ((None, None), t))"

definition fill_side :: "Info option \<Rightarrow> Info option \<Rightarrow> i16 \<Rightarrow> KnowledgeSide \<Rightarrow> KnowledgeSide" where
  "fill_side info l2Info l3EpcID k =
     (let k = (case info of None \<Rightarrow> k | Some i \<Rightarrow> k\<lparr>ks_RegionID := ucast (in_RegionID i), ks_AZID := ucast (in_AZID i), ks_HostID := ucast (in_HostID i),
           ks_L3DeviceType := ucast (in_DeviceType i), ks_L3DeviceID := in_DeviceID i, ks_PodNodeID := in_PodNodeID i,
           ks_PodNSID := ucast (in_PodNSID i), ks_PodGroupID := in_PodGroupID i, ks_PodID := in_PodID i,
           ks_PodClusterID := ucast (in_PodClusterID i), ks_SubnetID := ucast (in_SubnetID i)\<rparr>);
          k = k\<lparr>ks_L3EpcID := scast l3EpcID\<rparr>
      in case l2Info of None \<Rightarrow> k | Some i \<Rightarrow> k\<lparr>ks_EpcID := parseUint32EpcID (in_L2EpcID i)\<rparr>)"

definition fill_service :: "ServiceTable \<Rightarrow> bool \<Rightarrow> side_key \<Rightarrow> u8 \<Rightarrow> u16 \<Rightarrow> KnowledgeSide \<Rightarrow> KnowledgeSide option" where
  "fill_service s isIPv6 key protocol port k =
     (if isIPv6 then map_option (\<lambda>(_, i). k\<lparr>ks_ServiceID := i\<rparr>) (QueryIPv6IsKeyServiceAndID s (sk_epc key) (sk_ip6 key) protocol port)
      else map_option (\<lambda>(_, i). k\<lparr>ks_ServiceID := i\<rparr>) (QueryIsKeyServiceAndID s (sk_epc key) (sk_ip4 key) protocol port))"

definition fill_service0 :: "ServiceTable \<Rightarrow> bool \<Rightarrow> side_key \<Rightarrow> u8 \<Rightarrow> KnowledgeSide \<Rightarrow> KnowledgeSide option" where
  "fill_service0 s isIPv6 key protocol k =
     (if ks_L3DeviceType k = DEVICE_TYPE_POD_SERVICE \<or> ks_PodID k \<noteq> 0 then fill_service s isIPv6 key protocol 0 k else Some k)"

definition fill_service1 :: "ServiceTable \<Rightarrow> bool \<Rightarrow> side_key \<Rightarrow> u8 \<Rightarrow> u16 \<Rightarrow> KnowledgeSide \<Rightarrow> KnowledgeSide option" where
  "fill_service1 s isIPv6 key protocol port k =
     (if ks_L3DeviceType k = DEVICE_TYPE_POD_SERVICE \<or> ks_PodID k \<noteq> 0 \<or> ks_PodNodeID k \<noteq> 0
      then fill_service s isIPv6 key protocol port k else Some k)"

definition fill_resources :: "KnowledgeSide \<Rightarrow> KnowledgeSide" where
  "fill_resources k =
     (let e = ucast (ks_L3EpcID k) :: i16;
          (i0, t0) = GetResourceGl0 (ks_PodID k) (ks_PodNodeID k) (ks_L3DeviceID k) (ks_L3DeviceType k) e;
          (i1, t1) = GetResourceGl1 (ks_PodGroupID k) (ks_PodNodeID k) (ks_L3DeviceID k) (ks_L3DeviceType k) e;
          (i2, t2) = GetResourceGl2 (ks_ServiceID k) (ks_PodGroupID k) (ks_PodNodeID k) (ks_L3DeviceID k) (ks_L3DeviceType k) e
      in k\<lparr>ks_ResourceGl0ID := i0, ks_ResourceGl0Type := t0, ks_ResourceGl1ID := i1, ks_ResourceGl1Type := t1,
           ks_ResourceGl2ID := i2, ks_ResourceGl2Type := t2\<rparr>)"

definition KnowledgeGraph_fill :: "'c U160Ops \<Rightarrow> ServiceTable \<Rightarrow> (nat \<Rightarrow> cache_block) \<Rightarrow> bool \<Rightarrow> side_key \<Rightarrow> side_key \<Rightarrow> u16 \<Rightarrow> u32 \<Rightarrow> u8
    \<Rightarrow> KnowledgeGraph \<times> 'c PlatformInfoTable \<Rightarrow> (KnowledgeGraph \<times> 'c PlatformInfoTable) option" where
  "KnowledgeGraph_fill u s fresh isIPv6 key0 key1 port tapSide protocol = (\<lambda>(k, t). do {
     ((info0, info1), t) \<leftarrow> fill_infos u fresh isIPv6 key0 key1 tapSide t;
     ((l2Info0, l2Info1), t) \<leftarrow> fill_l2 key0 key1 t;
     let k0 = fill_side info0 l2Info0 (sk_epc key0) (kg_0 k);
     let k1 = fill_side info1 l2Info1 (sk_epc key1) (kg_1 k);
     k0 \<leftarrow> fill_service0 s isIPv6 key0 protocol k0;
     k1 \<leftarrow> fill_service1 s isIPv6 key1 protocol port k1;
     Some (\<lparr>kg_0 = fill_resources k0, kg_1 = fill_resources k1\<rparr>, t) })"

section \<open>Rows\<close>

definition KnowledgeGraph_row :: "KnowledgeGraph \<Rightarrow> ck_value list" where
  "KnowledgeGraph_row k =
     [CkUInt16 (ks_RegionID (kg_0 k)), CkUInt16 (ks_RegionID (kg_1 k)), CkUInt16 (ks_AZID (kg_0 k)), CkUInt16 (ks_AZID (kg_1 k)),
     CkUInt16 (ks_HostID (kg_0 k)), CkUInt16 (ks_HostID (kg_1 k)), CkUInt8 (ks_L3DeviceType (kg_0 k)),
     CkUInt8 (ks_L3DeviceType (kg_1 k)), CkUInt32 (ks_L3DeviceID (kg_0 k)), CkUInt32 (ks_L3DeviceID (kg_1 k)),
     CkUInt32 (ks_PodNodeID (kg_0 k)), CkUInt32 (ks_PodNodeID (kg_1 k)), CkUInt16 (ks_PodNSID (kg_0 k)),
     CkUInt16 (ks_PodNSID (kg_1 k)), CkUInt32 (ks_PodGroupID (kg_0 k)), CkUInt32 (ks_PodGroupID (kg_1 k)),
     CkUInt32 (ks_PodID (kg_0 k)), CkUInt32 (ks_PodID (kg_1 k)), CkUInt16 (ks_PodClusterID (kg_0 k)),
     CkUInt16 (ks_PodClusterID (kg_1 k)), CkInt32 (ks_L3EpcID (kg_0 k)), CkInt32 (ks_L3EpcID (kg_1 k)), CkInt32 (ks_EpcID (kg_0 k)),
     CkInt32 (ks_EpcID (kg_1 k)), CkUInt16 (ks_SubnetID (kg_0 k)), CkUInt16 (ks_SubnetID (kg_1 k)), CkUInt32 (ks_ServiceID (kg_0 k)),
     CkUInt32 (ks_ServiceID (kg_1 k)), CkUInt32 (ks_ResourceGl0ID (kg_0 k)), CkUInt8 (ks_ResourceGl0Type (kg_0 k)),
     CkUInt32 (ks_ResourceGl1ID (kg_0 k)), CkUInt8 (ks_ResourceGl1Type (kg_0 k)), CkUInt32 (ks_ResourceGl2ID (kg_0 k)),
     CkUInt8 (ks_ResourceGl2Type (kg_0 k)), CkUInt32 (ks_ResourceGl0ID (kg_1 k)), CkUInt8 (ks_ResourceGl0Type (kg_1 k)),
     CkUInt32 (ks_ResourceGl1ID (kg_1 k)), CkUInt8 (ks_ResourceGl1Type (kg_1 k)), CkUInt32 (ks_ResourceGl2ID (kg_1 k)),
     CkUInt8 (ks_ResourceGl2Type (kg_1 k))]"

lemma KnowledgeGraph_writes: "writes app (KnowledgeGraph_WriteBlock app k) (KnowledgeGraph_row k)"
  unfolding writes_def KnowledgeGraph_WriteBlock_def KnowledgeGraph_row_def write_all_values [symmetric]
  by (simp only: list.map block_write_defs)

lemma KnowledgeGraph_fits: "row_fits KnowledgeGraphColumns (KnowledgeGraph_row k)"
  unfolding KnowledgeGraphColumns_def KnowledgeGraph_row_def by simp

section \<open>One rule for each side\<close>

text \<open>A side is looked up by its hardware address if it asks for it, and by its address otherwise or if that is unknown.\<close>

definition side_info :: "'c PlatformInfoTable \<Rightarrow> bool \<Rightarrow> side_key \<Rightarrow> Info option" where
  "side_info t byMac k = (case (if byMac then macInfos t (l3_epc_mac (sk_mac k) (sk_epc k)) else None) of
     Some i \<Rightarrow> Some i | None \<Rightarrow> answer_ipv4 t (sk_epc k) (sk_ip4 k))"

definition side_l2 :: "'c PlatformInfoTable \<Rightarrow> side_key \<Rightarrow> Info option" where
  "side_l2 t k = (if 0 <s sk_epc k then macInfos t (l3_epc_mac (sk_mac k) (sk_epc k)) else None)"

definition side_spec :: "'c PlatformInfoTable \<Rightarrow> u32 \<Rightarrow> side_key \<Rightarrow> KnowledgeSide \<Rightarrow> KnowledgeSide" where
  "side_spec t tapSide k = fill_side (side_info t (sk_vip k \<or> tapSide = 4) k) (side_l2 t k) (sk_epc k)"

lemma RegetInfoFromIP_true:
  assumes "cache_true t" "int (length fresh) = BLOCK_SIZE"
  shows "\<exists>t'. RegetInfoFromIP u fresh False ip6 ip4 e t = Some (answer_ipv4 t e ip4, t') \<and> cache_true t' \<and> same_data t t'"
  using QueryIPV4Infos_true [OF assms] by (simp add: RegetInfoFromIP_def)

lemma reget_true:
  assumes "cache_true t" "int (length fresh) = BLOCK_SIZE"
  shows "\<exists>t'. reget u fresh False ip6 ip4 e (info, t) = Some (case info of Some i \<Rightarrow> Some i | None \<Rightarrow> answer_ipv4 t e ip4, t') \<and>
    cache_true t' \<and> same_data t t'"
  using RegetInfoFromIP_true [OF assms] assms(1) by (cases info) (simp_all add: reget_def)

lemma same_mac: "same_data t t' \<Longrightarrow> macInfos t' = macInfos t"
  by (simp add: same_data_def)

text \<open>Queries one after the other, each with an answer that depends on the data only.\<close>

definition answers :: "('c PlatformInfoTable \<Rightarrow> ('a \<times> 'c PlatformInfoTable) option) \<Rightarrow> ('c PlatformInfoTable \<Rightarrow> 'a) \<Rightarrow> bool" where
  "answers q spec \<longleftrightarrow> (\<forall>t. cache_true t \<longrightarrow> (\<exists>t'. q t = Some (spec t, t') \<and> cache_true t' \<and> same_data t t')) \<and>
     (\<forall>t t'. same_data t t' \<longrightarrow> spec t' = spec t)"

lemma answersD:
  assumes "answers q spec" "cache_true t" "same_data t0 t"
  obtains t' where "q t = Some (spec t0, t')" "cache_true t'" "same_data t0 t'"
  using assms same_data_trans unfolding answers_def by metis

lemma answers_ipv4: "int (length fresh) = BLOCK_SIZE \<Longrightarrow> answers (QueryIPV4Infos fresh e ip) (\<lambda>t. answer_ipv4 t e ip)"
  by (simp add: answers_def QueryIPV4Infos_true answer_same(1))

lemma answers_pair: "int (length f0) = BLOCK_SIZE \<Longrightarrow> int (length f1) = BLOCK_SIZE \<Longrightarrow>
    answers (QueryIPV4InfosPair f0 f1 e0 ip0 e1 ip1) (\<lambda>t. (answer_ipv4 t e0 ip0, answer_ipv4 t e1 ip1))"
  by (simp add: answers_def QueryIPV4InfosPair_true answer_same(1))

lemma answers_mac: "answers (queryMacInfo m) (\<lambda>t. macInfos t m)" "answers (queryMacInfosPair m0 m1) (\<lambda>t. (macInfos t m0, macInfos t m1))"
  by (simp_all add: answers_def queryMacInfo_true queryMacInfosPair_true same_mac)

lemma answers_reget: "int (length fresh) = BLOCK_SIZE \<Longrightarrow>
    answers (\<lambda>t. reget u fresh False ip6 ip4 e (info, t)) (\<lambda>t. case info of Some i \<Rightarrow> Some i | None \<Rightarrow> answer_ipv4 t e ip4)"
  by (simp add: answers_def reget_true answer_same(1) cong: option.case_cong)

lemma fill_infos_true:
  assumes fresh: "\<forall>i. int (length (fresh i)) = BLOCK_SIZE" and c: "cache_true t"
  shows "\<exists>t'. fill_infos u fresh False k0 k1 tapSide t =
    Some ((side_info t (sk_vip k0 \<or> tapSide = 4) k0, side_info t (sk_vip k1 \<or> tapSide = 4) k1), t') \<and> cache_true t' \<and> same_data t t'"
proof -
  let ?m0 = "l3_epc_mac (sk_mac k0) (sk_epc k0)" and ?m1 = "l3_epc_mac (sk_mac k1) (sk_epc k1)"
  have l: "tapSide = ucast SideLocal \<longleftrightarrow> tapSide = 4" by (simp add: SideLocal_def)
  note reget0 = answersD [OF answers_reget [OF spec [OF fresh, of 0]]] and reget1 = answersD [OF answers_reget [OF spec [OF fresh, of 1]]]
  note ip0 = answersD [OF answers_ipv4 [OF spec [OF fresh, of 0]]] and ip1 = answersD [OF answers_ipv4 [OF spec [OF fresh, of 1]]]
  consider "sk_vip k0 \<or> tapSide = 4" "sk_vip k1 \<or> tapSide = 4" | "sk_vip k0" "\<not> sk_vip k1" "tapSide \<noteq> 4"
    | "\<not> sk_vip k0" "sk_vip k1" "tapSide \<noteq> 4" | "\<not> sk_vip k0" "\<not> sk_vip k1" "tapSide \<noteq> 4" by blast
  then show ?thesis
  proof cases
    case 1
    obtain t1 where 1: "queryMacInfosPair ?m0 ?m1 t = Some ((macInfos t ?m0, macInfos t ?m1), t1)" "cache_true t1" "same_data t t1"
      by (rule answersD [OF answers_mac(2) c same_data_refl])
    obtain t2 where 2: "reget u (fresh 0) False (sk_ip6 k0) (sk_ip4 k0) (sk_epc k0) (macInfos t ?m0, t1) =
      Some (case macInfos t ?m0 of Some i \<Rightarrow> Some i | None \<Rightarrow> answer_ipv4 t (sk_epc k0) (sk_ip4 k0), t2)" "cache_true t2" "same_data t t2"
      by (rule reget0 [OF 1(2,3)])
    obtain t3 where 3: "reget u (fresh 1) False (sk_ip6 k1) (sk_ip4 k1) (sk_epc k1) (macInfos t ?m1, t2) =
      Some (case macInfos t ?m1 of Some i \<Rightarrow> Some i | None \<Rightarrow> answer_ipv4 t (sk_epc k1) (sk_ip4 k1), t3)" "cache_true t3" "same_data t t3"
      by (rule reget1 [OF 2(2,3)])
    have v: "sk_vip k0 \<or> tapSide = 4" "sk_vip k1 \<or> tapSide = 4" by fact+
    show ?thesis unfolding fill_infos_def Let_def l side_info_def using 1(1) 2(1) 3 by (simp add: v)
  next
    case 2
    obtain t1 where 1: "queryMacInfo ?m0 t = Some (macInfos t ?m0, t1)" "cache_true t1" "same_data t t1"
      by (rule answersD [OF answers_mac(1) c same_data_refl])
    obtain t2 where 2: "reget u (fresh 0) False (sk_ip6 k0) (sk_ip4 k0) (sk_epc k0) (macInfos t ?m0, t1) =
      Some (case macInfos t ?m0 of Some i \<Rightarrow> Some i | None \<Rightarrow> answer_ipv4 t (sk_epc k0) (sk_ip4 k0), t2)" "cache_true t2" "same_data t t2"
      by (rule reget0 [OF 1(2,3)])
    obtain t3 where 3: "QueryIPV4Infos (fresh 1) (sk_epc k1) (sk_ip4 k1) t2 = Some (answer_ipv4 t (sk_epc k1) (sk_ip4 k1), t3)" "cache_true t3" "same_data t t3"
      by (rule ip1 [OF 2(2,3)])
    have v: "sk_vip k0" "\<not> sk_vip k1" "tapSide \<noteq> 4" by fact+
    show ?thesis unfolding fill_infos_def Let_def l side_info_def using 1(1) 2(1) 3 by (simp add: v)
  next
    case 3
    obtain t1 where 1: "QueryIPV4Infos (fresh 0) (sk_epc k0) (sk_ip4 k0) t = Some (answer_ipv4 t (sk_epc k0) (sk_ip4 k0), t1)" "cache_true t1" "same_data t t1"
      by (rule ip0 [OF c same_data_refl])
    obtain t2 where 2: "queryMacInfo ?m1 t1 = Some (macInfos t ?m1, t2)" "cache_true t2" "same_data t t2"
      by (rule answersD [OF answers_mac(1) 1(2,3)])
    obtain t3 where 3: "reget u (fresh 1) False (sk_ip6 k1) (sk_ip4 k1) (sk_epc k1) (macInfos t ?m1, t2) =
      Some (case macInfos t ?m1 of Some i \<Rightarrow> Some i | None \<Rightarrow> answer_ipv4 t (sk_epc k1) (sk_ip4 k1), t3)" "cache_true t3" "same_data t t3"
      by (rule reget1 [OF 2(2,3)])
    have v: "\<not> sk_vip k0" "sk_vip k1" "tapSide \<noteq> 4" by fact+
    show ?thesis unfolding fill_infos_def Let_def l side_info_def using 1(1) 2(1) 3 by (simp add: v)
  next
    case 4
    then show ?thesis unfolding fill_infos_def Let_def l side_info_def
      using QueryIPV4InfosPair_true [OF c spec [OF fresh, of 0] spec [OF fresh, of 1]] by simp
  qed
qed

lemma fill_l2_true:
  assumes "cache_true t"
  shows "\<exists>t'. fill_l2 k0 k1 t = Some ((side_l2 t k0, side_l2 t k1), t') \<and> cache_true t' \<and> same_data t t'"
proof -
  let ?m0 = "l3_epc_mac (sk_mac k0) (sk_epc k0)" and ?m1 = "l3_epc_mac (sk_mac k1) (sk_epc k1)"
  from queryMacInfosPair_true [OF assms, of ?m0 ?m1] queryMacInfo_true [OF assms, of ?m0] queryMacInfo_true [OF assms, of ?m1] assms
  show ?thesis by (auto simp: fill_l2_def side_l2_def Let_def)
qed

lemma side_same: "same_data t t' \<Longrightarrow> side_info t' = side_info t" "same_data t t' \<Longrightarrow> side_l2 t' = side_l2 t"
  by (simp_all add: side_info_def side_l2_def fun_eq_iff answer_same(1) same_mac cong: option.case_cong)

definition graph_spec :: "'c PlatformInfoTable \<Rightarrow> ServiceTable \<Rightarrow> side_key \<Rightarrow> side_key \<Rightarrow> u16 \<Rightarrow> u32 \<Rightarrow> u8 \<Rightarrow> KnowledgeGraph \<Rightarrow> KnowledgeGraph option" where
  "graph_spec t s key0 key1 port tapSide protocol k = do {
     k0 \<leftarrow> fill_service0 s False key0 protocol (side_spec t tapSide key0 (kg_0 k));
     k1 \<leftarrow> fill_service1 s False key1 protocol port (side_spec t tapSide key1 (kg_1 k));
     Some \<lparr>kg_0 = fill_resources k0, kg_1 = fill_resources k1\<rparr> }"

lemma KnowledgeGraph_fill_true:
  assumes "\<forall>i. int (length (fresh i)) = BLOCK_SIZE" "cache_true t"
  shows "\<exists>t'. KnowledgeGraph_fill u s fresh False key0 key1 port tapSide protocol (k, t) =
    map_option (\<lambda>k. (k, t')) (graph_spec t s key0 key1 port tapSide protocol k) \<and> cache_true t' \<and> same_data t t'"
proof -
  from fill_infos_true [OF assms] obtain t1 where 1: "fill_infos u fresh False key0 key1 tapSide t =
    Some ((side_info t (sk_vip key0 \<or> tapSide = 4) key0, side_info t (sk_vip key1 \<or> tapSide = 4) key1), t1)" "cache_true t1" "same_data t t1" by blast
  from fill_l2_true [OF 1(2)] obtain t2 where "fill_l2 key0 key1 t1 = Some ((side_l2 t key0, side_l2 t key1), t2)" "cache_true t2" "same_data t1 t2"
    using side_same(2) [OF 1(3)] by metis
  then show ?thesis using 1 same_data_trans
    by (intro exI [of _ t2]) (auto simp: KnowledgeGraph_fill_def graph_spec_def side_spec_def map_option_case split: option.split bind_split)
qed

text \<open>
  C10: The resources of the two sides of an IPv4 log are those of the data last loaded, and the sides do not influence each other: whichever of the
  four ways of the code is taken, each side is described by its hardware address within its private network when it
  belongs to a virtual interface or the traffic is local, and by its address otherwise or when the hardware address is
  unknown. Only a service index outside the list of services makes it panic. The table may be any whose cache
  agrees with its data; a new table does, and the queries keep it so.
\<close>

theorem knowledge_graph_sides:
  assumes "\<forall>i. int (length (fresh i)) = BLOCK_SIZE" "cache_true t"
  shows "case KnowledgeGraph_fill u s fresh False key0 key1 port tapSide protocol (k, t) of
      None \<Rightarrow> graph_spec t s key0 key1 port tapSide protocol k = None
    | Some (k', t') \<Rightarrow> graph_spec t s key0 key1 port tapSide protocol k = Some k' \<and> cache_true t' \<and> same_data t t'"
  using KnowledgeGraph_fill_true [OF assms, of u s key0 key1 port tapSide protocol k]
  by (cases "graph_spec t s key0 key1 port tapSide protocol k") auto

theorem knowledge_graph_sides_witness:
  "\<exists>k' t'. KnowledgeGraph_fill sample_ops \<lparr>QueryServer = None, QueryServerIPv6 = (\<lambda>_ _ _ _. []), services = []\<rparr>
      (\<lambda>_. replicate 256 blankU64LRUNodeForInit) False \<lparr>sk_vip = False, sk_epc = 5, sk_ip4 = 9, sk_ip6 = [], sk_mac = 0\<rparr>
      \<lparr>sk_vip = True, sk_epc = 5, sk_ip4 = 9, sk_ip6 = [], sk_mac = 7\<rparr> 80 1 6
      (KnowledgeGraph_zero, install_data () (sample_data 3) (NewPlatformInfoTable ())) = Some (k', t') \<and>
    ks_L3DeviceID (kg_0 k') = 3 \<and> ks_L3DeviceID (kg_1 k') = 3"
proof -
  let ?t = "install_data () (sample_data 3) (NewPlatformInfoTable ())"
  let ?k = "\<lparr>sk_vip = False, sk_epc = 5, sk_ip4 = 9, sk_ip6 = [], sk_mac = 0\<rparr>" and ?k' = "\<lparr>sk_vip = True, sk_epc = 5, sk_ip4 = 9, sk_ip6 = [], sk_mac = 7\<rparr>"
  let ?s = "\<lparr>QueryServer = None, QueryServerIPv6 = (\<lambda>_ _ _ _. []), services = []\<rparr>"
  have t: "cache_true ?t" by (rule install_true) (simp add: sample_data_def sample_info_def)
  have i: "side_info ?t (sk_vip ?k \<or> 1 = (4 :: u32)) ?k = Some (sample_info 3)" "side_info ?t (sk_vip ?k' \<or> 1 = (4 :: u32)) ?k' = Some (sample_info 3)"
    by (simp_all add: side_info_def answer_ipv4_def lookup_ipv4_def install_data_def sample_data_def Let_def EPC_FROM_INTERNET_def)
  have dev: "ks_L3DeviceID (fill_side (Some (sample_info 3)) l e k) = 3" for l e k
    by (simp add: fill_side_def sample_info_def Let_def split: option.split)
  have g: "\<exists>k'. graph_spec ?t ?s ?k ?k' 80 1 6 KnowledgeGraph_zero = Some k' \<and> ks_L3DeviceID (kg_0 k') = 3 \<and> ks_L3DeviceID (kg_1 k') = 3"
    unfolding graph_spec_def side_spec_def i
    by (simp add: fill_service0_def fill_service1_def fill_service_def QueryIsKeyServiceAndID_def fill_resources_def split_beta Let_def dev)
  show ?thesis
    using knowledge_graph_sides [OF _ t, where fresh = "\<lambda>_. replicate 256 blankU64LRUNodeForInit" and u = sample_ops and s = ?s and ?key0.0 = ?k and ?key1.0 = ?k'
      and port = 80 and tapSide = 1 and protocol = 6 and k = KnowledgeGraph_zero] g
    by (auto simp: BLOCK_SIZE_def split: option.splits)
qed

end
