(* ===== verification/Flow_Log.thy ===== *)
theory Flow_Log
  imports Knowledge_Graph Flow_Data Tap_Port Decapsulate "HOL-Library.Signed_Division"
begin

text \<open>
  The log of flows, \<^verbatim>\<open>ingester/stream/jsonify/data.go\<close> with \<^verbatim>\<open>ingester/stream/common/const.go\<close> and the table of
  \<^verbatim>\<open>ingester/stream/dbwriter/ck_writer.go\<close>: a received flow message becomes a record of layers, which becomes a row.

  The province of an address comes from a table of networks that the build generates and is an argument. A
  \<^verbatim>\<open>Fill\<close> that reads through a missing part of the message panics and is \<open>None\<close>.
\<close>

unbundle bit_operations_syntax

section \<open>Layers\<close>

record DataLinkLayer =
  dl_MAC0 :: u64
  dl_MAC1 :: u64
  dl_EthType :: u16
  dl_VLAN :: u16

definition DataLinkLayer_zero :: DataLinkLayer where
  "DataLinkLayer_zero = \<lparr>dl_MAC0 = 0, dl_MAC1 = 0, dl_EthType = 0, dl_VLAN = 0\<rparr>"

record NetworkLayer =
  nl_IP40 :: u32
  nl_IP41 :: u32
  nl_IP60 :: bytes
  nl_IP61 :: bytes
  nl_IsIPv4 :: bool
  nl_Protocol :: u8
  nl_TunnelTier :: u8
  nl_TunnelType :: u16
  nl_TunnelTxID :: u32
  nl_TunnelRxID :: u32
  nl_TunnelTxIP40 :: u32
  nl_TunnelTxIP41 :: u32
  nl_TunnelRxIP40 :: u32
  nl_TunnelRxIP41 :: u32
  nl_TunnelTxIP60 :: bytes
  nl_TunnelTxIP61 :: bytes
  nl_TunnelRxIP60 :: bytes
  nl_TunnelRxIP61 :: bytes
  nl_TunnelIsIPv4 :: bool
  nl_TunnelTxMac0 :: u32
  nl_TunnelTxMac1 :: u32
  nl_TunnelRxMac0 :: u32
  nl_TunnelRxMac1 :: u32

definition NetworkLayer_zero :: NetworkLayer where
  "NetworkLayer_zero = \<lparr>nl_IP40 = 0, nl_IP41 = 0, nl_IP60 = [], nl_IP61 = [], nl_IsIPv4 = False, nl_Protocol = 0, nl_TunnelTier = 0,
     nl_TunnelType = 0, nl_TunnelTxID = 0, nl_TunnelRxID = 0, nl_TunnelTxIP40 = 0, nl_TunnelTxIP41 = 0, nl_TunnelRxIP40 = 0,
     nl_TunnelRxIP41 = 0, nl_TunnelTxIP60 = [], nl_TunnelTxIP61 = [], nl_TunnelRxIP60 = [], nl_TunnelRxIP61 = [],
     nl_TunnelIsIPv4 = False, nl_TunnelTxMac0 = 0, nl_TunnelTxMac1 = 0, nl_TunnelRxMac0 = 0, nl_TunnelRxMac1 = 0\<rparr>"

record TransportLayer =
  tr_ClientPort :: u16
  tr_ServerPort :: u16
  tr_TCPFlagsBit0 :: u16
  tr_TCPFlagsBit1 :: u16
  tr_SynSeq :: u32
  tr_SynAckSeq :: u32
  tr_LastKeepaliveSeq :: u32
  tr_LastKeepaliveAck :: u32

definition TransportLayer_zero :: TransportLayer where
  "TransportLayer_zero = \<lparr>tr_ClientPort = 0, tr_ServerPort = 0, tr_TCPFlagsBit0 = 0, tr_TCPFlagsBit1 = 0, tr_SynSeq = 0, tr_SynAckSeq = 0,
     tr_LastKeepaliveSeq = 0, tr_LastKeepaliveAck = 0\<rparr>"

record ApplicationLayer =
  ap_L7Protocol :: u8

definition ApplicationLayer_zero :: ApplicationLayer where
  "ApplicationLayer_zero = \<lparr>ap_L7Protocol = 0\<rparr>"

record Internet =
  it_Province0 :: bytes
  it_Province1 :: bytes

definition Internet_zero :: Internet where
  "Internet_zero = \<lparr>it_Province0 = [], it_Province1 = []\<rparr>"

record FlowInfo =
  fi_CloseType :: u16
  fi_FlowSource :: u16
  fi_FlowID :: u64
  fi_TapType :: u16
  fi_TapPortType :: u8
  fi_TapPort :: u32
  fi_TapSide :: bytes
  fi_VtapID :: u16
  fi_L2End0 :: bool
  fi_L2End1 :: bool
  fi_L3End0 :: bool
  fi_L3End1 :: bool
  fi_StartTime :: i64
  fi_EndTime :: i64
  fi_Duration :: u64
  fi_IsNewFlow :: u8
  fi_Status :: u8

definition FlowInfo_zero :: FlowInfo where
  "FlowInfo_zero = \<lparr>fi_CloseType = 0, fi_FlowSource = 0, fi_FlowID = 0, fi_TapType = 0, fi_TapPortType = 0, fi_TapPort = 0,
     fi_TapSide = [], fi_VtapID = 0, fi_L2End0 = False, fi_L2End1 = False, fi_L3End0 = False, fi_L3End1 = False,
     fi_StartTime = 0, fi_EndTime = 0, fi_Duration = 0, fi_IsNewFlow = 0, fi_Status = 0\<rparr>"

record Metrics =
  me_PacketTx :: u64
  me_PacketRx :: u64
  me_ByteTx :: u64
  me_ByteRx :: u64
  me_L3ByteTx :: u64
  me_L3ByteRx :: u64
  me_L4ByteTx :: u64
  me_L4ByteRx :: u64
  me_TotalPacketTx :: u64
  me_TotalPacketRx :: u64
  me_TotalByteTx :: u64
  me_TotalByteRx :: u64
  me_L7Request :: u32
  me_L7Response :: u32
  me_RTT :: u32
  me_RTTClientSum :: u32
  me_RTTServerSum :: u32
  me_SRTSum :: u32
  me_ARTSum :: u32
  me_RRTSum :: u64
  me_RTTClientCount :: u32
  me_RTTServerCount :: u32
  me_SRTCount :: u32
  me_ARTCount :: u32
  me_RRTCount :: u32
  me_RTTClientMax :: u32
  me_RTTServerMax :: u32
  me_SRTMax :: u32
  me_ARTMax :: u32
  me_RRTMax :: u32
  me_RetransTx :: u32
  me_RetransRx :: u32
  me_ZeroWinTx :: u32
  me_ZeroWinRx :: u32
  me_L7ClientError :: u32
  me_L7ServerError :: u32
  me_L7ServerTimeout :: u32
  me_L7Error :: u32

definition Metrics_zero :: Metrics where
  "Metrics_zero = \<lparr>me_PacketTx = 0, me_PacketRx = 0, me_ByteTx = 0, me_ByteRx = 0, me_L3ByteTx = 0, me_L3ByteRx = 0, me_L4ByteTx = 0,
     me_L4ByteRx = 0, me_TotalPacketTx = 0, me_TotalPacketRx = 0, me_TotalByteTx = 0, me_TotalByteRx = 0, me_L7Request = 0,
     me_L7Response = 0, me_RTT = 0, me_RTTClientSum = 0, me_RTTServerSum = 0, me_SRTSum = 0, me_ARTSum = 0, me_RRTSum = 0,
     me_RTTClientCount = 0, me_RTTServerCount = 0, me_SRTCount = 0, me_ARTCount = 0, me_RRTCount = 0, me_RTTClientMax = 0,
     me_RTTServerMax = 0, me_SRTMax = 0, me_ARTMax = 0, me_RRTMax = 0, me_RetransTx = 0, me_RetransRx = 0, me_ZeroWinTx = 0,
     me_ZeroWinRx = 0, me_L7ClientError = 0, me_L7ServerError = 0, me_L7ServerTimeout = 0, me_L7Error = 0\<rparr>"

text \<open>Signed 64 bit division, which truncates.\<close>

definition quot64 :: "i64 \<Rightarrow> int \<Rightarrow> i64" where
  "quot64 a n = word_of_int (sint a sdiv n)"

definition US_TO_S_DEVISOR :: int where "US_TO_S_DEVISOR = 1000000"

section \<open>Columns\<close>

definition DataLinkLayerColumns :: "Column list" where
  "DataLinkLayerColumns =
     [NewColumn (str ''mac_0'') CT_UInt64, NewColumn (str ''mac_1'') CT_UInt64,
     SetIndex IndexSet (NewColumn (str ''eth_type'') CT_UInt16), SetIndex IndexSet (NewColumn (str ''vlan'') CT_UInt16)]"

definition NetworkLayerColumns :: "Column list" where
  "NetworkLayerColumns =
     [NewColumn (str ''ip4_0'') CT_IPv4, NewColumn (str ''ip4_1'') CT_IPv4, NewColumn (str ''ip6_0'') CT_IPv6,
     NewColumn (str ''ip6_1'') CT_IPv6, SetIndex IndexMinmax (NewColumn (str ''is_ipv4'') CT_UInt8),
     NewColumn (str ''protocol'') CT_UInt8, NewColumn (str ''tunnel_tier'') CT_UInt8, NewColumn (str ''tunnel_type'') CT_UInt16,
     NewColumn (str ''tunnel_tx_id'') CT_UInt32, NewColumn (str ''tunnel_rx_id'') CT_UInt32,
     NewColumn (str ''tunnel_tx_ip4_0'') CT_IPv4, NewColumn (str ''tunnel_tx_ip4_1'') CT_IPv4,
     NewColumn (str ''tunnel_rx_ip4_0'') CT_IPv4, NewColumn (str ''tunnel_rx_ip4_1'') CT_IPv4,
     NewColumn (str ''tunnel_tx_ip6_0'') CT_IPv6, NewColumn (str ''tunnel_tx_ip6_1'') CT_IPv6,
     NewColumn (str ''tunnel_rx_ip6_0'') CT_IPv6, NewColumn (str ''tunnel_rx_ip6_1'') CT_IPv6,
     SetIndex IndexMinmax (NewColumn (str ''tunnel_is_ipv4'') CT_UInt8), NewColumn (str ''tunnel_tx_mac_0'') CT_UInt32,
     NewColumn (str ''tunnel_tx_mac_1'') CT_UInt32, NewColumn (str ''tunnel_rx_mac_0'') CT_UInt32,
     NewColumn (str ''tunnel_rx_mac_1'') CT_UInt32]"

definition TransportLayerColumns :: "(string \<Rightarrow> bytes) \<Rightarrow> Column list" where
  "TransportLayerColumns cm =
     [SetIndex IndexNone (NewColumn (str ''client_port'') CT_UInt16), SetIndex IndexSet (NewColumn (str ''server_port'') CT_UInt16),
     SetIndex IndexNone (NewColumn (str ''tcp_flags_bit_0'') CT_UInt16),
     SetIndex IndexNone (NewColumn (str ''tcp_flags_bit_1'') CT_UInt16),
     SetComment (cm ''syn_seq'') (SetIndex IndexNone (NewColumn (str ''syn_seq'') CT_UInt32)),
     SetComment (cm ''syn_ack_seq'') (SetIndex IndexNone (NewColumn (str ''syn_ack_seq'') CT_UInt32)),
     SetIndex IndexNone (NewColumn (str ''last_keepalive_seq'') CT_UInt32),
     SetIndex IndexNone (NewColumn (str ''last_keepalive_ack'') CT_UInt32)]"

definition ApplicationLayerColumns :: "Column list" where
  "ApplicationLayerColumns =
     [SetIndex IndexMinmax (NewColumn (str ''l7_protocol'') CT_UInt8)]"

definition InternetColumns :: "Column list" where
  "InternetColumns =
     [NewColumn (str ''province_0'') CT_LowCardinalityString, NewColumn (str ''province_1'') CT_LowCardinalityString]"

definition FlowInfoColumns :: "(string \<Rightarrow> bytes) \<Rightarrow> Column list" where
  "FlowInfoColumns cm =
     [SetIndex IndexSet (NewColumn (str ''close_type'') CT_UInt16), NewColumn (str ''flow_source'') CT_UInt16,
     SetIndex IndexMinmax (NewColumn (str ''flow_id'') CT_UInt64), NewColumn (str ''tap_type'') CT_UInt16,
     NewColumn (str ''tap_port_type'') CT_UInt8, NewColumn (str ''tap_port'') CT_UInt32,
     NewColumn (str ''tap_side'') CT_LowCardinalityString, SetIndex IndexSet (NewColumn (str ''vtap_id'') CT_UInt16),
     SetIndex IndexNone (NewColumn (str ''l2_end_0'') CT_UInt8), SetIndex IndexNone (NewColumn (str ''l2_end_1'') CT_UInt8),
     SetIndex IndexNone (NewColumn (str ''l3_end_0'') CT_UInt8), SetIndex IndexNone (NewColumn (str ''l3_end_1'') CT_UInt8),
     SetComment (cm ''start_time'') (NewColumn (str ''start_time'') CT_DateTime64us),
     SetComment (cm ''end_time'') (NewColumn (str ''end_time'') CT_DateTime64us),
     SetComment (cm ''time'') (NewColumn (str ''time'') CT_DateTime),
     SetComment (cm ''duration'') (NewColumn (str ''duration'') CT_UInt64), NewColumn (str ''is_new_flow'') CT_UInt8,
     SetComment (cm ''status'') (NewColumn (str ''status'') CT_UInt8)]"

definition MetricsColumns :: "(string \<Rightarrow> bytes) \<Rightarrow> Column list" where
  "MetricsColumns cm =
     [NewColumn (str ''packet_tx'') CT_UInt64, NewColumn (str ''packet_rx'') CT_UInt64, NewColumn (str ''byte_tx'') CT_UInt64,
     NewColumn (str ''byte_rx'') CT_UInt64, NewColumn (str ''l3_byte_tx'') CT_UInt64, NewColumn (str ''l3_byte_rx'') CT_UInt64,
     NewColumn (str ''l4_byte_tx'') CT_UInt64, NewColumn (str ''l4_byte_rx'') CT_UInt64,
     NewColumn (str ''total_packet_tx'') CT_UInt64, NewColumn (str ''total_packet_rx'') CT_UInt64,
     NewColumn (str ''total_byte_tx'') CT_UInt64, NewColumn (str ''total_byte_rx'') CT_UInt64,
     SetIndex IndexNone (NewColumn (str ''l7_request'') CT_UInt32), SetIndex IndexNone (NewColumn (str ''l7_response'') CT_UInt32),
     SetComment (cm ''rtt'') (NewColumn (str ''rtt'') CT_Float64), NewColumn (str ''rtt_client_sum'') CT_Float64,
     NewColumn (str ''rtt_server_sum'') CT_Float64, NewColumn (str ''srt_sum'') CT_Float64, NewColumn (str ''art_sum'') CT_Float64,
     NewColumn (str ''rrt_sum'') CT_Float64, NewColumn (str ''rtt_client_count'') CT_UInt64,
     NewColumn (str ''rtt_server_count'') CT_UInt64, NewColumn (str ''srt_count'') CT_UInt64, NewColumn (str ''art_count'') CT_UInt64,
     NewColumn (str ''rrt_count'') CT_UInt64,
     SetComment (cm ''rtt_client_max'') (SetIndex IndexNone (NewColumn (str ''rtt_client_max'') CT_UInt32)),
     SetComment (cm ''rtt_server_max'') (SetIndex IndexNone (NewColumn (str ''rtt_server_max'') CT_UInt32)),
     SetComment (cm ''srt_max'') (SetIndex IndexNone (NewColumn (str ''srt_max'') CT_UInt32)),
     SetComment (cm ''art_max'') (SetIndex IndexNone (NewColumn (str ''art_max'') CT_UInt32)),
     SetComment (cm ''rrt_max'') (SetIndex IndexNone (NewColumn (str ''rrt_max'') CT_UInt32)),
     SetIndex IndexNone (NewColumn (str ''retrans_tx'') CT_UInt32), SetIndex IndexNone (NewColumn (str ''retrans_rx'') CT_UInt32),
     SetIndex IndexNone (NewColumn (str ''zero_win_tx'') CT_UInt32), SetIndex IndexNone (NewColumn (str ''zero_win_rx'') CT_UInt32),
     SetIndex IndexNone (NewColumn (str ''l7_client_error'') CT_UInt32),
     SetIndex IndexNone (NewColumn (str ''l7_server_error'') CT_UInt32),
     SetIndex IndexNone (NewColumn (str ''l7_server_timeout'') CT_UInt32), SetIndex IndexNone (NewColumn (str ''l7_error'') CT_UInt32)]"

section \<open>Writing\<close>

text \<open>Writes in stages: each first completes the record and then writes some of it.\<close>

primrec staged :: "(('n \<Rightarrow> 'n) \<times> ('n \<Rightarrow> ('b Block \<Rightarrow> 'e option \<times> 'b Block) list)) list \<Rightarrow> 'n \<Rightarrow> 'b Block \<Rightarrow> 'e option \<times> 'b Block \<times> 'n" where
  "staged [] n b = (None, b, n)"
| "staged (s # ss) n b = (case write_all (snd s (fst s n)) b of
     (Some er, b) \<Rightarrow> (Some er, b, fst s n)
   | (None, b) \<Rightarrow> staged ss (fst s n) b)"

definition DataLinkLayer_WriteBlock :: "('e, 'b) column_append \<Rightarrow> DataLinkLayer \<Rightarrow> 'b Block \<Rightarrow> 'e option \<times> 'b Block" where
  "DataLinkLayer_WriteBlock app d = write_all
     [Block_WriteUInt64 app (dl_MAC0 d), Block_WriteUInt64 app (dl_MAC1 d), Block_WriteUInt16 app (dl_EthType d),
     Block_WriteUInt16 app (dl_VLAN d)]"

text \<open>A missing address is replaced by zero in the record, just before it is written.\<close>

definition NetworkLayer_WriteBlock :: "('e, 'b) column_append \<Rightarrow> NetworkLayer \<Rightarrow> 'b Block \<Rightarrow> 'e option \<times> 'b Block \<times> NetworkLayer" where
  "NetworkLayer_WriteBlock app = staged
     [(\<lambda>n. n,
       \<lambda>n. [Block_WriteIPv4 app (nl_IP40 n), Block_WriteIPv4 app (nl_IP41 n)]),
      (\<lambda>n. n\<lparr>nl_IP60 := ip6_or_zero (nl_IP60 n)\<rparr>,
       \<lambda>n. [Block_WriteIPv6 app (nl_IP60 n)]),
      (\<lambda>n. n\<lparr>nl_IP61 := ip6_or_zero (nl_IP61 n)\<rparr>,
       \<lambda>n. [Block_WriteIPv6 app (nl_IP61 n), Block_WriteBool app (nl_IsIPv4 n), Block_WriteUInt8 app (nl_Protocol n),
       Block_WriteUInt8 app (nl_TunnelTier n), Block_WriteUInt16 app (nl_TunnelType n), Block_WriteUInt32 app (nl_TunnelTxID n),
       Block_WriteUInt32 app (nl_TunnelRxID n), Block_WriteIPv4 app (nl_TunnelTxIP40 n), Block_WriteIPv4 app (nl_TunnelTxIP41 n),
       Block_WriteIPv4 app (nl_TunnelRxIP40 n), Block_WriteIPv4 app (nl_TunnelRxIP41 n)]),
      (\<lambda>n. n\<lparr>nl_TunnelTxIP60 := ip6_or_zero (nl_TunnelTxIP60 n), nl_TunnelTxIP61 := ip6_or_zero (nl_TunnelTxIP61 n), nl_TunnelRxIP60 := ip6_or_zero (nl_TunnelRxIP60 n), nl_TunnelRxIP61 := ip6_or_zero (nl_TunnelRxIP61 n)\<rparr>,
       \<lambda>n. [Block_WriteIPv6 app (nl_TunnelTxIP60 n), Block_WriteIPv6 app (nl_TunnelTxIP61 n), Block_WriteIPv6 app (nl_TunnelRxIP60 n),
       Block_WriteIPv6 app (nl_TunnelRxIP61 n), Block_WriteBool app (nl_TunnelIsIPv4 n), Block_WriteUInt32 app (nl_TunnelTxMac0 n),
       Block_WriteUInt32 app (nl_TunnelTxMac1 n), Block_WriteUInt32 app (nl_TunnelRxMac0 n), Block_WriteUInt32 app (nl_TunnelRxMac1 n)])]"

definition TransportLayer_WriteBlock :: "('e, 'b) column_append \<Rightarrow> TransportLayer \<Rightarrow> 'b Block \<Rightarrow> 'e option \<times> 'b Block" where
  "TransportLayer_WriteBlock app x = write_all
     [Block_WriteUInt16 app (tr_ClientPort x), Block_WriteUInt16 app (tr_ServerPort x), Block_WriteUInt16 app (tr_TCPFlagsBit0 x),
     Block_WriteUInt16 app (tr_TCPFlagsBit1 x), Block_WriteUInt32 app (tr_SynSeq x), Block_WriteUInt32 app (tr_SynAckSeq x),
     Block_WriteUInt32 app (tr_LastKeepaliveSeq x), Block_WriteUInt32 app (tr_LastKeepaliveAck x)]"

definition ApplicationLayer_WriteBlock :: "('e, 'b) column_append \<Rightarrow> ApplicationLayer \<Rightarrow> 'b Block \<Rightarrow> 'e option \<times> 'b Block" where
  "ApplicationLayer_WriteBlock app a = write_all
     [Block_WriteUInt8 app (ap_L7Protocol a)]"

definition Internet_WriteBlock :: "('e, 'b) column_append \<Rightarrow> Internet \<Rightarrow> 'b Block \<Rightarrow> 'e option \<times> 'b Block" where
  "Internet_WriteBlock app i = write_all
     [Block_WriteString app (it_Province0 i), Block_WriteString app (it_Province1 i)]"

definition FlowInfo_WriteBlock :: "('e, 'b) column_append \<Rightarrow> FlowInfo \<Rightarrow> 'b Block \<Rightarrow> 'e option \<times> 'b Block" where
  "FlowInfo_WriteBlock app i = write_all
     [Block_WriteUInt16 app (fi_CloseType i), Block_WriteUInt16 app (fi_FlowSource i), Block_WriteUInt64 app (fi_FlowID i),
     Block_WriteUInt16 app (fi_TapType i), Block_WriteUInt8 app (fi_TapPortType i), Block_WriteUInt32 app (fi_TapPort i),
     Block_WriteString app (fi_TapSide i), Block_WriteUInt16 app (fi_VtapID i), Block_WriteBool app (fi_L2End0 i),
     Block_WriteBool app (fi_L2End1 i), Block_WriteBool app (fi_L3End0 i), Block_WriteBool app (fi_L3End1 i),
     Block_WriteInt64 app (fi_StartTime i), Block_WriteInt64 app (fi_EndTime i),
     Block_WriteDateTime app (ucast (quot64 (fi_EndTime i) US_TO_S_DEVISOR)), Block_WriteUInt64 app (fi_Duration i),
     Block_WriteUInt8 app (fi_IsNewFlow i), Block_WriteUInt8 app (fi_Status i)]"

definition Metrics_WriteBlock :: "('e, 'b) column_append \<Rightarrow> Metrics \<Rightarrow> 'b Block \<Rightarrow> 'e option \<times> 'b Block" where
  "Metrics_WriteBlock app m = write_all
     [Block_WriteUInt64 app (me_PacketTx m), Block_WriteUInt64 app (me_PacketRx m), Block_WriteUInt64 app (me_ByteTx m),
     Block_WriteUInt64 app (me_ByteRx m), Block_WriteUInt64 app (me_L3ByteTx m), Block_WriteUInt64 app (me_L3ByteRx m),
     Block_WriteUInt64 app (me_L4ByteTx m), Block_WriteUInt64 app (me_L4ByteRx m), Block_WriteUInt64 app (me_TotalPacketTx m),
     Block_WriteUInt64 app (me_TotalPacketRx m), Block_WriteUInt64 app (me_TotalByteTx m), Block_WriteUInt64 app (me_TotalByteRx m),
     Block_WriteUInt32 app (me_L7Request m), Block_WriteUInt32 app (me_L7Response m),
     Block_WriteFloat64 app (float64_of_u64 (ucast (me_RTT m))), Block_WriteFloat64 app (float64_of_u64 (ucast (me_RTTClientSum m))),
     Block_WriteFloat64 app (float64_of_u64 (ucast (me_RTTServerSum m))),
     Block_WriteFloat64 app (float64_of_u64 (ucast (me_SRTSum m))), Block_WriteFloat64 app (float64_of_u64 (ucast (me_ARTSum m))),
     Block_WriteFloat64 app (float64_of_u64 (me_RRTSum m)), Block_WriteUInt64 app (ucast (me_RTTClientCount m)),
     Block_WriteUInt64 app (ucast (me_RTTServerCount m)), Block_WriteUInt64 app (ucast (me_SRTCount m)),
     Block_WriteUInt64 app (ucast (me_ARTCount m)), Block_WriteUInt64 app (ucast (me_RRTCount m)),
     Block_WriteUInt32 app (me_RTTClientMax m), Block_WriteUInt32 app (me_RTTServerMax m), Block_WriteUInt32 app (me_SRTMax m),
     Block_WriteUInt32 app (me_ARTMax m), Block_WriteUInt32 app (me_RRTMax m), Block_WriteUInt32 app (me_RetransTx m),
     Block_WriteUInt32 app (me_RetransRx m), Block_WriteUInt32 app (me_ZeroWinTx m), Block_WriteUInt32 app (me_ZeroWinRx m),
     Block_WriteUInt32 app (me_L7ClientError m), Block_WriteUInt32 app (me_L7ServerError m),
     Block_WriteUInt32 app (me_L7ServerTimeout m), Block_WriteUInt32 app (me_L7Error m)]"

section \<open>From a message to the layers\<close>

definition DataLinkLayer_Fill :: "pb_Flow \<Rightarrow> DataLinkLayer \<Rightarrow> DataLinkLayer option" where
  "DataLinkLayer_Fill f d = do {
     key \<leftarrow> pf_FlowKey f;
     Some (d\<lparr>dl_MAC0 := pk_MacSrc key, dl_MAC1 := pk_MacDst key, dl_EthType := ucast (pf_EthType f), dl_VLAN := ucast (pf_Vlan f)\<rparr>) }"

definition cloneIP :: "bytes \<Rightarrow> bytes" where
  "cloneIP src = (let l = length src in if l = 0 then [] else take l src)"

definition NetworkLayer_Fill :: "pb_Flow \<Rightarrow> bool \<Rightarrow> NetworkLayer \<Rightarrow> NetworkLayer option" where
  "NetworkLayer_Fill f isIPV6 n = do {
     key \<leftarrow> pf_FlowKey f;
     let n = (if isIPV6 then n\<lparr>nl_IsIPv4 := False, nl_IP60 := cloneIP (pk_Ip6Src key), nl_IP61 := cloneIP (pk_Ip6Dst key)\<rparr>
              else n\<lparr>nl_IsIPv4 := True, nl_IP40 := pk_IpSrc key, nl_IP41 := pk_IpDst key\<rparr>);
     let n = n\<lparr>nl_Protocol := ucast (pk_Proto key)\<rparr>;
     t \<leftarrow> pf_Tunnel f;
     Some (if pt_TunnelType t \<noteq> ucast TUNNEL_TYPE_NONE then
        n\<lparr>nl_TunnelTier := ucast (pt_Tier t), nl_TunnelTxID := pt_TxId t, nl_TunnelRxID := pt_RxId t, nl_TunnelType := ucast (pt_TunnelType t),
          nl_TunnelTxIP40 := pt_TxIp0 t, nl_TunnelTxIP41 := pt_TxIp1 t, nl_TunnelRxIP40 := pt_RxIp0 t, nl_TunnelRxIP41 := pt_RxIp1 t,
          nl_TunnelIsIPv4 := True, nl_TunnelTxMac0 := pt_TxMac0 t, nl_TunnelTxMac1 := pt_TxMac1 t,
          nl_TunnelRxMac0 := pt_RxMac0 t, nl_TunnelRxMac1 := pt_RxMac1 t\<rparr>
      else n) }"

definition TransportLayer_Fill :: "pb_Flow \<Rightarrow> TransportLayer \<Rightarrow> TransportLayer option" where
  "TransportLayer_Fill f x = do {
     key \<leftarrow> pf_FlowKey f;
     src \<leftarrow> pf_MetricsPeerSrc f;
     dst \<leftarrow> pf_MetricsPeerDst f;
     Some (x\<lparr>tr_ClientPort := ucast (pk_PortSrc key), tr_ServerPort := ucast (pk_PortDst key), tr_TCPFlagsBit0 := ucast (pm_TcpFlags src),
       tr_TCPFlagsBit1 := ucast (pm_TcpFlags dst), tr_SynSeq := pf_SynSeq f, tr_SynAckSeq := pf_SynackSeq f,
       tr_LastKeepaliveSeq := pf_LastKeepaliveSeq f, tr_LastKeepaliveAck := pf_LastKeepaliveAck f\<rparr>) }"

definition ApplicationLayer_Fill :: "pb_Flow \<Rightarrow> ApplicationLayer \<Rightarrow> ApplicationLayer option" where
  "ApplicationLayer_Fill f a =
     (if pf_HasPerfStats f = 1 then do { s \<leftarrow> pf_PerfStats f; Some (a\<lparr>ap_L7Protocol := ucast (pp_L7Protocol s)\<rparr>) } else Some a)"

definition Internet_Fill :: "(u32 \<Rightarrow> bytes) \<Rightarrow> pb_Flow \<Rightarrow> Internet \<Rightarrow> Internet option" where
  "Internet_Fill province f i = do {
     key \<leftarrow> pf_FlowKey f;
     Some (i\<lparr>it_Province0 := province (pk_IpSrc key), it_Province1 := province (pk_IpDst key)\<rparr>) }"

definition KnowledgeGraph_FillL4 :: "'c U160Ops \<Rightarrow> ServiceTable \<Rightarrow> (nat \<Rightarrow> cache_block) \<Rightarrow> pb_Flow \<Rightarrow> bool \<Rightarrow> KnowledgeGraph \<times> 'c PlatformInfoTable
    \<Rightarrow> (KnowledgeGraph \<times> 'c PlatformInfoTable) option" where
  "KnowledgeGraph_FillL4 u s fresh f isIPv6 kt = do {
     src \<leftarrow> pf_MetricsPeerSrc f;
     dst \<leftarrow> pf_MetricsPeerDst f;
     key \<leftarrow> pf_FlowKey f;
     KnowledgeGraph_fill u s fresh isIPv6
       \<lparr>sk_vip = (pm_IsVipInterface src = 1), sk_epc = ucast (pm_L3EpcId src), sk_ip4 = pk_IpSrc key, sk_ip6 = pk_Ip6Src key, sk_mac = pk_MacSrc key\<rparr>
       \<lparr>sk_vip = (pm_IsVipInterface dst = 1), sk_epc = ucast (pm_L3EpcId dst), sk_ip4 = pk_IpDst key, sk_ip6 = pk_Ip6Dst key, sk_mac = pk_MacDst key\<rparr>
       (ucast (pk_PortDst key)) (pf_TapSide f) (ucast (pk_Proto key)) kt }"

definition CloseTypeTCPFin :: u8 where "CloseTypeTCPFin = 1"
definition CloseTypeTCPServerRst :: u8 where "CloseTypeTCPServerRst = 2"
definition CloseTypeTimeout :: u8 where "CloseTypeTimeout = 3"
definition CloseTypeForcedReport :: u8 where "CloseTypeForcedReport = 5"
definition CloseTypeClientSYNRepeat :: u8 where "CloseTypeClientSYNRepeat = 7"
definition CloseTypeServerHalfClose :: u8 where "CloseTypeServerHalfClose = 8"
definition CloseTypeTCPClientRst :: u8 where "CloseTypeTCPClientRst = 9"
definition CloseTypeServerSYNACKRepeat :: u8 where "CloseTypeServerSYNACKRepeat = 10"
definition CloseTypeClientHalfClose :: u8 where "CloseTypeClientHalfClose = 11"
definition CloseTypeClientSourcePortReuse :: u8 where "CloseTypeClientSourcePortReuse = 13"
definition CloseTypeServerReset :: u8 where "CloseTypeServerReset = 15"
definition CloseTypeServerQueueLack :: u8 where "CloseTypeServerQueueLack = 17"
definition CloseTypeClientEstablishReset :: u8 where "CloseTypeClientEstablishReset = 18"
definition CloseTypeServerEstablishReset :: u8 where "CloseTypeServerEstablishReset = 19"

definition IsClientError :: "u8 \<Rightarrow> bool" where
  "IsClientError t \<longleftrightarrow> t = CloseTypeClientSYNRepeat \<or> t = CloseTypeTCPClientRst \<or> t = CloseTypeClientHalfClose
     \<or> t = CloseTypeClientSourcePortReuse \<or> t = CloseTypeClientEstablishReset"

definition IsServerError :: "u8 \<Rightarrow> bool" where
  "IsServerError t \<longleftrightarrow> t = CloseTypeTCPServerRst \<or> t = CloseTypeTimeout \<or> t = CloseTypeServerHalfClose \<or> t = CloseTypeServerSYNACKRepeat
     \<or> t = CloseTypeServerReset \<or> t = CloseTypeServerQueueLack \<or> t = CloseTypeServerEstablishReset"

definition STATUS_OK :: u8 where "STATUS_OK = 0"
definition STATUS_ERROR :: u8 where "STATUS_ERROR = 1"
definition STATUS_NOT_EXIST :: u8 where "STATUS_NOT_EXIST = 2"
definition STATUS_SERVER_ERROR :: u8 where "STATUS_SERVER_ERROR = 3"
definition STATUS_CLIENT_ERROR :: u8 where "STATUS_CLIENT_ERROR = 4"

definition getStatus :: "u8 \<Rightarrow> u8" where
  "getStatus t =
     (if t = CloseTypeTCPFin \<or> t = CloseTypeForcedReport then STATUS_OK
      else if IsClientError t then STATUS_CLIENT_ERROR
      else if IsServerError t then STATUS_SERVER_ERROR
      else STATUS_NOT_EXIST)"

definition FlowInfo_Fill :: "pb_Flow \<Rightarrow> FlowInfo \<Rightarrow> FlowInfo option" where
  "FlowInfo_Fill f i = do {
     key \<leftarrow> pf_FlowKey f;
     side \<leftarrow> TAPSide_String (ucast (pf_TapSide f));
     src \<leftarrow> pf_MetricsPeerSrc f;
     dst \<leftarrow> pf_MetricsPeerDst f;
     let closeType = (ucast (pf_CloseType f) :: u16);
     let (port, portType, tunnelType) = SplitToPortTypeTunnel (pk_TapPort key);
     Some (i\<lparr>fi_CloseType := closeType, fi_FlowSource := ucast (pf_FlowSource f), fi_FlowID := pf_FlowId f, fi_TapType := ucast (pk_TapType key),
       fi_TapPort := port, fi_TapPortType := portType, fi_TapSide := side, fi_VtapID := ucast (pk_VtapId key),
       fi_L2End0 := (pm_IsL2End src = 1), fi_L2End1 := (pm_IsL2End dst = 1), fi_L3End0 := (pm_IsL3End src = 1), fi_L3End1 := (pm_IsL3End dst = 1),
       fi_StartTime := quot64 (pf_StartTime f) 1000, fi_EndTime := quot64 (pf_EndTime f) 1000, fi_Duration := pf_Duration f div 1000,
       fi_IsNewFlow := ucast (pf_IsNewFlow f), fi_Status := getStatus (ucast closeType)\<rparr>) }"

definition Metrics_Fill :: "pb_Flow \<Rightarrow> Metrics \<Rightarrow> Metrics option" where
  "Metrics_Fill f m = do {
     src \<leftarrow> pf_MetricsPeerSrc f;
     dst \<leftarrow> pf_MetricsPeerDst f;
     let m = m\<lparr>me_PacketTx := pm_PacketCount src, me_PacketRx := pm_PacketCount dst, me_ByteTx := pm_ByteCount src, me_ByteRx := pm_ByteCount dst,
        me_L3ByteTx := pm_L3ByteCount src, me_L3ByteRx := pm_L3ByteCount dst, me_L4ByteTx := pm_L4ByteCount src, me_L4ByteRx := pm_L4ByteCount dst,
        me_TotalPacketTx := pm_TotalPacketCount src, me_TotalPacketRx := pm_TotalPacketCount dst,
        me_TotalByteTx := pm_TotalByteCount src, me_TotalByteRx := pm_TotalByteCount dst\<rparr>;
     if pf_HasPerfStats f = 1 then do {
       p \<leftarrow> pf_PerfStats f;
       l7 \<leftarrow> pp_L7 p;
       tcp \<leftarrow> pp_Tcp p;
       let m = m\<lparr>me_L7Request := p7_RequestCount l7, me_L7Response := p7_ResponseCount l7, me_L7ClientError := p7_ErrClientCount l7,
          me_L7ServerError := p7_ErrServerCount l7, me_L7ServerTimeout := p7_ErrTimeout l7,
          me_L7Error := p7_ErrClientCount l7 + p7_ErrServerCount l7,
          me_RTT := ps_Rtt tcp, me_RTTClientSum := ps_RttClientSum tcp, me_RTTClientCount := ps_RttClientCount tcp,
          me_RTTServerSum := ps_RttServerSum tcp, me_RTTServerCount := ps_RttServerCount tcp,
          me_SRTSum := ps_SrtSum tcp, me_SRTCount := ps_SrtCount tcp, me_ARTSum := ps_ArtSum tcp, me_ARTCount := ps_ArtCount tcp,
          me_RRTSum := p7_RrtSum l7, me_RRTCount := p7_RrtCount l7,
          me_RTTClientMax := ps_RttClientMax tcp, me_RTTServerMax := ps_RttServerMax tcp, me_SRTMax := ps_SrtMax tcp, me_ARTMax := ps_ArtMax tcp,
          me_RRTMax := p7_RrtMax l7\<rparr>;
       let m = (case ps_CountsPeerTx tcp of None \<Rightarrow> m | Some c \<Rightarrow> m\<lparr>me_RetransTx := pc_RetransCount c, me_ZeroWinTx := pc_ZeroWinCount c\<rparr>);
       Some (case ps_CountsPeerRx tcp of None \<Rightarrow> m | Some c \<Rightarrow> m\<lparr>me_RetransRx := pc_RetransCount c, me_ZeroWinRx := pc_ZeroWinCount c\<rparr>) }
     else Some m }"

section \<open>Loggers\<close>

record FlowLogger =
  lg_refs :: ReferenceCount
  lg_id :: u64
  lg_DataLinkLayer :: DataLinkLayer
  lg_NetworkLayer :: NetworkLayer
  lg_TransportLayer :: TransportLayer
  lg_ApplicationLayer :: ApplicationLayer
  lg_Internet :: Internet
  lg_KnowledgeGraph :: KnowledgeGraph
  lg_FlowInfo :: FlowInfo
  lg_Metrics :: Metrics

definition FlowLogger_zero :: FlowLogger where
  "FlowLogger_zero = \<lparr>lg_refs = 0, lg_id = 0, lg_DataLinkLayer = DataLinkLayer_zero, lg_NetworkLayer = NetworkLayer_zero,
     lg_TransportLayer = TransportLayer_zero, lg_ApplicationLayer = ApplicationLayer_zero, lg_Internet = Internet_zero,
     lg_KnowledgeGraph = KnowledgeGraph_zero, lg_FlowInfo = FlowInfo_zero, lg_Metrics = Metrics_zero\<rparr>"

definition AcquireFlowLogger :: FlowLogger where
  "AcquireFlowLogger = FlowLogger_zero\<lparr>lg_refs := ReferenceCount_Reset 0\<rparr>"

text \<open>Whether the logger went back to the pool, and the logger.\<close>

definition ReleaseFlowLogger :: "FlowLogger \<Rightarrow> bool \<times> FlowLogger" where
  "ReleaseFlowLogger l = (let (held, r) = SubReferenceCount (lg_refs l) in
     if held then (False, l\<lparr>lg_refs := r\<rparr>) else (True, FlowLogger_zero))"

definition FlowLoggerColumns :: "(string \<Rightarrow> bytes) \<Rightarrow> Column list" where
  "FlowLoggerColumns cm = [SetCodec CodecDoubleDelta (NewColumn (str ''_id'') CT_UInt64)]
     @ DataLinkLayerColumns @ KnowledgeGraphColumns @ NetworkLayerColumns @ TransportLayerColumns cm @ ApplicationLayerColumns
     @ InternetColumns @ FlowInfoColumns cm @ MetricsColumns cm"

definition FlowLogger_WriteBlock :: "('e, 'b) column_append \<Rightarrow> FlowLogger \<Rightarrow> 'b Block \<Rightarrow> 'e option \<times> 'b Block \<times> FlowLogger" where
  "FlowLogger_WriteBlock app l b =
     (case and_then (Block_WriteUInt64 app (lg_id l)) (and_then (DataLinkLayer_WriteBlock app (lg_DataLinkLayer l))
        (KnowledgeGraph_WriteBlock app (lg_KnowledgeGraph l))) b of
        (Some er, b) \<Rightarrow> (Some er, b, l)
      | (None, b) \<Rightarrow> (case NetworkLayer_WriteBlock app (lg_NetworkLayer l) b of
          (Some er, b, n) \<Rightarrow> (Some er, b, l\<lparr>lg_NetworkLayer := n\<rparr>)
        | (None, b, n) \<Rightarrow> (case and_then (TransportLayer_WriteBlock app (lg_TransportLayer l)) (and_then (ApplicationLayer_WriteBlock app (lg_ApplicationLayer l))
            (and_then (Internet_WriteBlock app (lg_Internet l)) (and_then (FlowInfo_WriteBlock app (lg_FlowInfo l))
              (Metrics_WriteBlock app (lg_Metrics l))))) b of (er, b) \<Rightarrow> (er, b, l\<lparr>lg_NetworkLayer := n\<rparr>))))"

text \<open>The end of the flow in nanoseconds, the unit of \<^verbatim>\<open>time.Duration\<close>.\<close>

definition FlowLogger_EndTime :: "FlowLogger \<Rightarrow> i64" where
  "FlowLogger_EndTime l = fi_EndTime (lg_FlowInfo l) * 1000000000"

text \<open>An identifier and the counter after it.\<close>

definition genID :: "u32 \<Rightarrow> u32 \<Rightarrow> int \<Rightarrow> u64 \<times> u32" where
  "genID time counter shardID = (let count = counter + 1 in
     (push_bit 32 (ucast time) OR push_bit 24 (word_of_int shardID) OR (ucast count AND 0xffffff), count))"

definition EthernetTypeIPv6 :: u32 where "EthernetTypeIPv6 = 0x86dd"

definition TaggedFlowToLogger :: "'c U160Ops \<Rightarrow> ServiceTable \<Rightarrow> (u32 \<Rightarrow> bytes) \<Rightarrow> (nat \<Rightarrow> cache_block) \<Rightarrow> pb_TaggedFlow \<Rightarrow> int
    \<Rightarrow> u32 \<times> 'c PlatformInfoTable \<Rightarrow> (FlowLogger \<times> u32 \<times> 'c PlatformInfoTable) option" where
  "TaggedFlowToLogger u svc province fresh p shardID = (\<lambda>(counter, t). do {
     f \<leftarrow> ptf_Flow p;
     let isIPV6 = (pf_EthType f = EthernetTypeIPv6);
     let s = AcquireFlowLogger;
     let (i, counter) = genID (ucast (pf_EndTime f div 1000000000)) counter shardID;
     let s = s\<lparr>lg_id := i\<rparr>;
     d \<leftarrow> DataLinkLayer_Fill f (lg_DataLinkLayer s);
     n \<leftarrow> NetworkLayer_Fill f isIPV6 (lg_NetworkLayer s);
     x \<leftarrow> TransportLayer_Fill f (lg_TransportLayer s);
     a \<leftarrow> ApplicationLayer_Fill f (lg_ApplicationLayer s);
     i \<leftarrow> Internet_Fill province f (lg_Internet s);
     (k, t) \<leftarrow> KnowledgeGraph_FillL4 u svc fresh f isIPV6 (lg_KnowledgeGraph s, t);
     fi \<leftarrow> FlowInfo_Fill f (lg_FlowInfo s);
     m \<leftarrow> Metrics_Fill f (lg_Metrics s);
     Some (s\<lparr>lg_DataLinkLayer := d, lg_NetworkLayer := n, lg_TransportLayer := x, lg_ApplicationLayer := a, lg_Internet := i,
       lg_KnowledgeGraph := k, lg_FlowInfo := fi, lg_Metrics := m\<rparr>, counter, t) })"

section \<open>Tables\<close>

definition FLOW_LOG_DB :: bytes where "FLOW_LOG_DB = str ''flow_log''"
definition L4_FLOW_ID :: u8 where "L4_FLOW_ID = 0"
definition L7_FLOW_ID :: u8 where "L7_FLOW_ID = 1"
definition FLOWLOG_ID_MAX :: u8 where "FLOWLOG_ID_MAX = 2"

definition flowLogNames :: "bytes list" where
  "flowLogNames = [str ''l4_flow_log'', str ''l7_flow_log'']"

definition FlowLogID_String :: "u8 \<Rightarrow> bytes option" where
  "FlowLogID_String l = (if unat l < length flowLogNames then Some (flowLogNames ! unat l) else None)"

definition FlowLogNameToID :: "bytes \<Rightarrow> u8" where
  "FlowLogNameToID name = (case find (\<lambda>i. flowLogNames ! i = name) [0..<length flowLogNames] of
     Some i \<Rightarrow> of_nat i | None \<Rightarrow> FLOWLOG_ID_MAX)"

definition newFlowLogTable :: "u8 \<Rightarrow> Column list \<Rightarrow> EngineType \<Rightarrow> Table option" where
  "newFlowLogTable i columns engine =
     (let orderKeys = (if i = L7_FLOW_ID then [str ''l7_protocol''] else []) @ [str ''l3_epc_id_1'', str ''ip4_1'', str ''ip6_1'',
            str ''l3_epc_id_0'', str ''ip4_0'', str ''ip6_0'', str ''server_port'']
      in map_option (\<lambda>name. \<lparr>tbl_Version = [], tbl_ID = i, tbl_Database = FLOW_LOG_DB, tbl_LocalName = name @ str ''_local'', tbl_GlobalName = name,
        tbl_Columns = columns, tbl_TimeKey = str ''time'', tbl_TTL = 3, tbl_PartitionFunc = TimeFuncHour, tbl_Cluster = DF_CLUSTER,
        tbl_Engine = engine, tbl_OrderKeys = orderKeys, tbl_PrimaryKeyCount = length orderKeys\<rparr>) (FlowLogID_String i))"

section \<open>Rows\<close>

definition DataLinkLayer_row :: "DataLinkLayer \<Rightarrow> ck_value list" where
  "DataLinkLayer_row d =
     [CkUInt64 (dl_MAC0 d), CkUInt64 (dl_MAC1 d), CkUInt16 (dl_EthType d), CkUInt16 (dl_VLAN d)]"

definition NetworkLayer_row :: "NetworkLayer \<Rightarrow> ck_value list" where
  "NetworkLayer_row n =
     [CkIP (IpFromUint32 (nl_IP40 n)), CkIP (IpFromUint32 (nl_IP41 n))]
     @ [CkIP (ip6_or_zero (nl_IP60 n))]
     @ [CkIP (ip6_or_zero (nl_IP61 n)), CkUInt8 (Bool2UInt8 (nl_IsIPv4 n)), CkUInt8 (nl_Protocol n), CkUInt8 (nl_TunnelTier n),
     CkUInt16 (nl_TunnelType n), CkUInt32 (nl_TunnelTxID n), CkUInt32 (nl_TunnelRxID n), CkIP (IpFromUint32 (nl_TunnelTxIP40 n)),
     CkIP (IpFromUint32 (nl_TunnelTxIP41 n)), CkIP (IpFromUint32 (nl_TunnelRxIP40 n)), CkIP (IpFromUint32 (nl_TunnelRxIP41 n))]
     @ [CkIP (ip6_or_zero (nl_TunnelTxIP60 n)), CkIP (ip6_or_zero (nl_TunnelTxIP61 n)), CkIP (ip6_or_zero (nl_TunnelRxIP60 n)),
     CkIP (ip6_or_zero (nl_TunnelRxIP61 n)), CkUInt8 (Bool2UInt8 (nl_TunnelIsIPv4 n)), CkUInt32 (nl_TunnelTxMac0 n),
     CkUInt32 (nl_TunnelTxMac1 n), CkUInt32 (nl_TunnelRxMac0 n), CkUInt32 (nl_TunnelRxMac1 n)]"

definition TransportLayer_row :: "TransportLayer \<Rightarrow> ck_value list" where
  "TransportLayer_row x =
     [CkUInt16 (tr_ClientPort x), CkUInt16 (tr_ServerPort x), CkUInt16 (tr_TCPFlagsBit0 x), CkUInt16 (tr_TCPFlagsBit1 x),
     CkUInt32 (tr_SynSeq x), CkUInt32 (tr_SynAckSeq x), CkUInt32 (tr_LastKeepaliveSeq x), CkUInt32 (tr_LastKeepaliveAck x)]"

definition ApplicationLayer_row :: "ApplicationLayer \<Rightarrow> ck_value list" where
  "ApplicationLayer_row a =
     [CkUInt8 (ap_L7Protocol a)]"

definition Internet_row :: "Internet \<Rightarrow> ck_value list" where
  "Internet_row i =
     [CkString (it_Province0 i), CkString (it_Province1 i)]"

definition FlowInfo_row :: "FlowInfo \<Rightarrow> ck_value list" where
  "FlowInfo_row i =
     [CkUInt16 (fi_CloseType i), CkUInt16 (fi_FlowSource i), CkUInt64 (fi_FlowID i), CkUInt16 (fi_TapType i),
     CkUInt8 (fi_TapPortType i), CkUInt32 (fi_TapPort i), CkString (fi_TapSide i), CkUInt16 (fi_VtapID i),
     CkUInt8 (Bool2UInt8 (fi_L2End0 i)), CkUInt8 (Bool2UInt8 (fi_L2End1 i)), CkUInt8 (Bool2UInt8 (fi_L3End0 i)),
     CkUInt8 (Bool2UInt8 (fi_L3End1 i)), CkInt64 (fi_StartTime i), CkInt64 (fi_EndTime i),
     CkTime (uint ((ucast (quot64 (fi_EndTime i) US_TO_S_DEVISOR)) :: u32)), CkUInt64 (fi_Duration i), CkUInt8 (fi_IsNewFlow i),
     CkUInt8 (fi_Status i)]"

definition Metrics_row :: "Metrics \<Rightarrow> ck_value list" where
  "Metrics_row m =
     [CkUInt64 (me_PacketTx m), CkUInt64 (me_PacketRx m), CkUInt64 (me_ByteTx m), CkUInt64 (me_ByteRx m), CkUInt64 (me_L3ByteTx m),
     CkUInt64 (me_L3ByteRx m), CkUInt64 (me_L4ByteTx m), CkUInt64 (me_L4ByteRx m), CkUInt64 (me_TotalPacketTx m),
     CkUInt64 (me_TotalPacketRx m), CkUInt64 (me_TotalByteTx m), CkUInt64 (me_TotalByteRx m), CkUInt32 (me_L7Request m),
     CkUInt32 (me_L7Response m), CkFloat64 (float64_of_u64 (ucast (me_RTT m))),
     CkFloat64 (float64_of_u64 (ucast (me_RTTClientSum m))), CkFloat64 (float64_of_u64 (ucast (me_RTTServerSum m))),
     CkFloat64 (float64_of_u64 (ucast (me_SRTSum m))), CkFloat64 (float64_of_u64 (ucast (me_ARTSum m))),
     CkFloat64 (float64_of_u64 (me_RRTSum m)), CkUInt64 (ucast (me_RTTClientCount m)), CkUInt64 (ucast (me_RTTServerCount m)),
     CkUInt64 (ucast (me_SRTCount m)), CkUInt64 (ucast (me_ARTCount m)), CkUInt64 (ucast (me_RRTCount m)),
     CkUInt32 (me_RTTClientMax m), CkUInt32 (me_RTTServerMax m), CkUInt32 (me_SRTMax m), CkUInt32 (me_ARTMax m),
     CkUInt32 (me_RRTMax m), CkUInt32 (me_RetransTx m), CkUInt32 (me_RetransRx m), CkUInt32 (me_ZeroWinTx m),
     CkUInt32 (me_ZeroWinRx m), CkUInt32 (me_L7ClientError m), CkUInt32 (me_L7ServerError m), CkUInt32 (me_L7ServerTimeout m),
     CkUInt32 (me_L7Error m)]"

lemmas log_write_defs = block_write_defs Block_WriteBool_def Block_WriteUInt64_def Block_WriteInt64_def Block_WriteFloat64_def

lemma layer_writes:
  "writes app (DataLinkLayer_WriteBlock app d) (DataLinkLayer_row d)"
  "writes app (TransportLayer_WriteBlock app x) (TransportLayer_row x)"
  "writes app (ApplicationLayer_WriteBlock app a) (ApplicationLayer_row a)"
  "writes app (Internet_WriteBlock app i) (Internet_row i)"
  "writes app (FlowInfo_WriteBlock app fi) (FlowInfo_row fi)"
  "writes app (Metrics_WriteBlock app m) (Metrics_row m)"
  unfolding writes_def write_all_values [symmetric] DataLinkLayer_WriteBlock_def TransportLayer_WriteBlock_def ApplicationLayer_WriteBlock_def
    Internet_WriteBlock_def FlowInfo_WriteBlock_def Metrics_WriteBlock_def DataLinkLayer_row_def TransportLayer_row_def ApplicationLayer_row_def
    Internet_row_def FlowInfo_row_def Metrics_row_def
  by (simp_all only: list.map log_write_defs)

definition written :: "'e option \<times> 'b Block \<times> 'n \<Rightarrow> 'e option \<times> 'b Block" where
  "written r = (fst r, fst (snd r))"

lemma written_simps [simp]:
  "written (er, b, n) = (er, b)"
  "written (staged [] n b) = write_each w [] b"
  "written (staged ((f, ws) # ss) n b) = and_then (write_all (ws (f n))) (\<lambda>b. written (staged ss (f n) b)) b"
  by (simp_all add: written_def and_then_def split: prod.split option.split)

lemma written_stages:
  "written (case f b of (Some er, b) \<Rightarrow> (Some er, b, l) | (None, b) \<Rightarrow> (case g b of (Some er, b, n) \<Rightarrow> (Some er, b, k n)
     | (None, b, n) \<Rightarrow> (case h b of (er, b) \<Rightarrow> (er, b, k n)))) = and_then f (and_then (\<lambda>b. written (g b)) h) b"
  by (auto simp: and_then_def split: prod.split option.split)

lemma and_then_Pair [simp]: "and_then f (Pair None) = f"
  by (simp add: and_then_def fun_eq_iff split: prod.split option.split)

lemma ip6_or_zero_idem [simp]: "ip6_or_zero (ip6_or_zero ip) = ip6_or_zero ip"
  by (simp add: ip6_or_zero_def)

lemma NetworkLayer_written: "written (NetworkLayer_WriteBlock app n b) = write_each (block_append app) (NetworkLayer_row n) b"
  unfolding NetworkLayer_WriteBlock_def NetworkLayer_row_def write_each_append written_simps
  by (simp add: write_all_values [symmetric] log_write_defs del: write_each.simps)


definition FlowLogger_row :: "FlowLogger \<Rightarrow> ck_value list" where
  "FlowLogger_row l = [CkUInt64 (lg_id l)] @ DataLinkLayer_row (lg_DataLinkLayer l) @ KnowledgeGraph_row (lg_KnowledgeGraph l)
     @ NetworkLayer_row (lg_NetworkLayer l) @ TransportLayer_row (lg_TransportLayer l) @ ApplicationLayer_row (lg_ApplicationLayer l)
     @ Internet_row (lg_Internet l) @ FlowInfo_row (lg_FlowInfo l) @ Metrics_row (lg_Metrics l)"

lemma FlowLogger_written: "written (FlowLogger_WriteBlock app l b) = write_each (block_append app) (FlowLogger_row l) b"
proof -
  have id: "Block_WriteUInt64 app (lg_id l) = write_each (block_append app) [CkUInt64 (lg_id l)]"
    by (simp add: Block_WriteUInt64_def fun_eq_iff split: prod.split option.split)
  note each = layer_writes [unfolded writes_def] KnowledgeGraph_writes [unfolded writes_def]
  have split: "written (FlowLogger_WriteBlock app l b) = and_then (and_then (Block_WriteUInt64 app (lg_id l))
      (and_then (DataLinkLayer_WriteBlock app (lg_DataLinkLayer l)) (KnowledgeGraph_WriteBlock app (lg_KnowledgeGraph l))))
      (and_then (\<lambda>b. written (NetworkLayer_WriteBlock app (lg_NetworkLayer l) b))
        (and_then (TransportLayer_WriteBlock app (lg_TransportLayer l)) (and_then (ApplicationLayer_WriteBlock app (lg_ApplicationLayer l))
            (and_then (Internet_WriteBlock app (lg_Internet l)) (and_then (FlowInfo_WriteBlock app (lg_FlowInfo l))
              (Metrics_WriteBlock app (lg_Metrics l))))))) b"
    unfolding FlowLogger_WriteBlock_def by (rule written_stages)
  have assoc: "and_then (and_then f g) h = and_then f (and_then g h)" for f g h :: "'b Block \<Rightarrow> 'a option \<times> 'b Block"
    by (simp add: and_then_def fun_eq_iff split: prod.split option.split)
  show ?thesis unfolding split NetworkLayer_written each id FlowLogger_row_def write_each_append assoc ..
qed

definition flow_addresses_ok :: "FlowLogger \<Rightarrow> bool" where
  "flow_addresses_ok l \<longleftrightarrow> list_all ip6_ok [nl_IP60 (lg_NetworkLayer l), nl_IP61 (lg_NetworkLayer l), nl_TunnelTxIP60 (lg_NetworkLayer l),
     nl_TunnelTxIP61 (lg_NetworkLayer l), nl_TunnelRxIP60 (lg_NetworkLayer l), nl_TunnelRxIP61 (lg_NetworkLayer l)]"

lemma layer_fits:
  "row_fits DataLinkLayerColumns (DataLinkLayer_row d)" "row_fits (TransportLayerColumns cm) (TransportLayer_row x)"
  "row_fits ApplicationLayerColumns (ApplicationLayer_row a)" "row_fits InternetColumns (Internet_row i)"
  "row_fits (FlowInfoColumns cm) (FlowInfo_row fi)" "row_fits (MetricsColumns cm) (Metrics_row m)"
  unfolding DataLinkLayerColumns_def TransportLayerColumns_def ApplicationLayerColumns_def InternetColumns_def FlowInfoColumns_def MetricsColumns_def
    DataLinkLayer_row_def TransportLayer_row_def ApplicationLayer_row_def Internet_row_def FlowInfo_row_def Metrics_row_def
  by simp_all

lemma FlowLogger_fits:
  assumes "flow_addresses_ok l"
  shows "row_fits (FlowLoggerColumns cm) (FlowLogger_row l)"
proof -
  have "row_fits NetworkLayerColumns (NetworkLayer_row (lg_NetworkLayer l))"
    using assms unfolding NetworkLayerColumns_def NetworkLayer_row_def flow_addresses_ok_def by (simp add: ip6_or_zero_length)
  moreover have "row_fits [SetCodec CodecDoubleDelta (NewColumn (str ''_id'') CT_UInt64)] [CkUInt64 (lg_id l)]" by (simp add: SetCodec_def NewColumn_def)
  ultimately show ?thesis unfolding FlowLoggerColumns_def FlowLogger_row_def by (intro row_fits_append layer_fits KnowledgeGraph_fits)
qed

text \<open>
  C12: The row of a flow fills the table of flow logs: given a driver that accepts and logs every value, it puts one
  value of the right type into every column of the table, in order from the current index, for every flow
  whose IPv6 addresses are missing or have 16 bytes.
\<close>

theorem flow_row_fits_table:
  assumes "\<And>i v b. \<exists>b'. app i v b = (None, b') \<and> logged b' = logged b @ [(i, v)]" "flow_addresses_ok l"
  shows "\<exists>tb b' l' vs. newFlowLogTable L4_FLOW_ID (FlowLoggerColumns cm) engine = Some tb \<and> tbl_GlobalName tb = str ''l4_flow_log'' \<and>
    FlowLogger_WriteBlock app l b = (None, b', l') \<and> row_fits (tbl_Columns tb) vs \<and>
    index b' = index b + length (tbl_Columns tb) \<and> logged (Batch b') = logged (Batch b) @ zip [index b..<index b'] vs"
proof -
  obtain tb where tb: "newFlowLogTable L4_FLOW_ID (FlowLoggerColumns cm) engine = Some tb" "tbl_GlobalName tb = str ''l4_flow_log''"
    "tbl_Columns tb = FlowLoggerColumns cm" by (simp add: newFlowLogTable_def FlowLogID_String_def L4_FLOW_ID_def flowLogNames_def Let_def)
  note fits = FlowLogger_fits [OF assms(2), of cm]
  then have len: "length (FlowLogger_row l) = length (FlowLoggerColumns cm)" unfolding row_fits_def by (metis list_all2_lengthD)
  obtain b' where b': "write_each (block_append app) (FlowLogger_row l) b = (None, b')" "index b' = index b + length (FlowLogger_row l)"
    "logged (Batch b') = logged (Batch b) @ zip [index b..<index b + length (FlowLogger_row l)] (FlowLogger_row l)"
    using write_each_log [of app logged "FlowLogger_row l" b] assms(1) by blast
  obtain l' where "FlowLogger_WriteBlock app l b = (None, b', l')"
    using FlowLogger_written [of app l b] b'(1) by (cases "FlowLogger_WriteBlock app l b") auto
  with tb b' fits len show ?thesis by (intro exI [of _ tb] exI [of _ b'] exI [of _ l'] exI [of _ "FlowLogger_row l"]) simp
qed

theorem flow_row_fits_table_witness:
  "\<exists>tb b' l' vs. newFlowLogTable L4_FLOW_ID (FlowLoggerColumns (\<lambda>_. [])) MergeTree = Some tb \<and>
     FlowLogger_WriteBlock (\<lambda>i v b. (None :: unit option, b @ [(i, v)])) FlowLogger_zero \<lparr>Batch = [], index = 0\<rparr> = (None, b', l') \<and>
     row_fits (tbl_Columns tb) vs \<and> Batch b' = zip [0..<length (tbl_Columns tb)] vs"
proof -
  have "flow_addresses_ok FlowLogger_zero" by (simp add: flow_addresses_ok_def FlowLogger_zero_def NetworkLayer_zero_def ip6_ok_def)
  from flow_row_fits_table [OF _ this, of "\<lambda>i v b. (None :: unit option, b @ [(i, v)])" id "\<lambda>_. []" MergeTree "\<lparr>Batch = [], index = 0\<rparr>"]
  obtain tb b' l' vs where "newFlowLogTable L4_FLOW_ID (FlowLoggerColumns (\<lambda>_. [])) MergeTree = Some tb"
    "FlowLogger_WriteBlock (\<lambda>i v b. (None :: unit option, b @ [(i, v)])) FlowLogger_zero \<lparr>Batch = [], index = 0\<rparr> = (None, b', l')"
    "row_fits (tbl_Columns tb) vs" "index b' = length (tbl_Columns tb)" "Batch b' = zip [0..<index b'] vs" by auto
  then show ?thesis by (intro exI [of _ tb] exI [of _ b'] exI [of _ l'] exI [of _ vs]) simp
qed

end
