(* ===== verification/Flow_Log_Laws.thy ===== *)
theory Flow_Log_Laws
  imports Flow_Log
begin

text \<open>
  Properties of the log of flows that combine its parts: which messages the conversion of
  \<^verbatim>\<open>ingester/stream/jsonify/data.go\<close> panics on, what of a flow reaches the log, and the identifiers of the records.
\<close>

unbundle bit_operations_syntax

section \<open>Identifiers\<close>

lemma shard_bits:
  assumes "0 \<le> s" "s < 256"
  shows "bit (word_of_int s :: u64) n \<longleftrightarrow> bit s n" "bit s n \<Longrightarrow> n < 8"
proof -
  show *: "n < 8" if "bit s n"
  proof -
    have "s = take_bit 8 s" using assms by (simp add: take_bit_int_eq_self)
    with that show ?thesis by (metis bit_take_bit_iff)
  qed
  show "bit (word_of_int s :: u64) n \<longleftrightarrow> bit s n" using * by (auto simp: bit_simps)
qed

lemma genID_bit:
  assumes "0 \<le> s" "s < 256"
  shows "bit (fst (genID t c s)) n \<longleftrightarrow>
    (if n < 24 then bit (c + 1) n else if n < 32 then bit s (n - 24) else n < 64 \<and> bit t (n - 32))"
proof -
  have m: "(0xffffff :: u64) = mask 24" by (simp add: mask_eq_exp_minus_1)
  show ?thesis using shard_bits(2) [OF assms, of "n - 24"]
    unfolding genID_def Let_def fst_conv m by (cases "n < 24"; cases "n < 32"; cases "bit s (n - 24)") (auto simp: bit_simps)
qed

text \<open>
  C24: Two records of the flow log have the same identifier only if they end in the same second, come from the same shard and have
  counters that agree in their low 24 bits, so the records of a shard are told apart as long as it writes at most \<open>2 ^ 24\<close> of
  them in a second. This holds for shards below 256. From there on the shard changes the seconds: shard 256 has the identifiers of shard 0 with the
  lowest bit of the second set, which are those of the next second in an even second, and in an odd second those of the same one.
\<close>

theorem flow_log_ids:
  "(0 \<le> s \<and> s < 256 \<and> 0 \<le> s' \<and> s' < 256 \<longrightarrow>
     (fst (genID t c s) = fst (genID t' c' s') \<longleftrightarrow> t = t' \<and> s = s' \<and> take_bit 24 (c + 1) = take_bit 24 (c' + 1))) \<and>
   fst (genID t c 256) = fst (genID (t OR 1) c 0) \<and> t OR 1 = (if even t then t + 1 else t)"
proof
  show "0 \<le> s \<and> s < 256 \<and> 0 \<le> s' \<and> s' < 256 \<longrightarrow>
     (fst (genID t c s) = fst (genID t' c' s') \<longleftrightarrow> t = t' \<and> s = s' \<and> take_bit 24 (c + 1) = take_bit 24 (c' + 1))"
  proof (intro impI iffI)
    assume s: "0 \<le> s \<and> s < 256 \<and> 0 \<le> s' \<and> s' < 256" and eq: "fst (genID t c s) = fst (genID t' c' s')"
    have b: "bit (fst (genID t c s)) n \<longleftrightarrow> bit (fst (genID t' c' s')) n" for n using eq by simp
    have "t = t'" by (rule bit_word_eqI) (use s b [of "n + 32" for n] in \<open>auto simp: genID_bit\<close>)
    moreover have "s = s'"
    proof (rule bit_eqI)
      fix n show "bit s n \<longleftrightarrow> bit s' n" using s b [of "n + 24"] shard_bits(2) [of s n] shard_bits(2) [of s' n] by (auto simp: genID_bit split: if_splits)
    qed
    moreover have "take_bit 24 (c + 1) = take_bit 24 (c' + 1)"
    proof (rule bit_word_eqI)
      fix n show "bit (take_bit 24 (c + 1)) n \<longleftrightarrow> bit (take_bit 24 (c' + 1)) n" using s b [of n] by (auto simp: genID_bit bit_take_bit_iff)
    qed
    ultimately show "t = t' \<and> s = s' \<and> take_bit 24 (c + 1) = take_bit 24 (c' + 1)" by blast
  next
    assume "0 \<le> s \<and> s < 256 \<and> 0 \<le> s' \<and> s' < 256" and eq: "t = t' \<and> s = s' \<and> take_bit 24 (c + 1) = take_bit 24 (c' + 1)"
    then have "bit (c + 1) n \<longleftrightarrow> bit (c' + 1) n" if "n < 24" for n using that by (metis bit_take_bit_iff)
    with eq \<open>0 \<le> s \<and> _\<close> show "fst (genID t c s) = fst (genID t' c' s')" by (intro bit_word_eqI) (auto simp: genID_bit)
  qed
  have p: "push_bit 24 (word_of_int 256 :: u64) = push_bit 32 1" "push_bit 24 (word_of_int 0 :: u64) = 0" by simp_all
  have u: "(ucast (t OR 1) :: u64) = ucast t OR 1" by (rule bit_word_eqI) (auto simp: bit_simps)
  show "fst (genID t c 256) = fst (genID (t OR 1) c 0) \<and> t OR 1 = (if even t then t + 1 else t)"
    unfolding genID_def Let_def fst_conv p u push_bit_or by (simp add: or.assoc or_one_eq)
qed

theorem flow_log_ids_witness:
  "fst (genID 60 7 3) \<noteq> fst (genID 60 8 3) \<and> fst (genID 60 7 3) = fst (genID 60 0x1000007 3) \<and> fst (genID 60 7 256) = fst (genID 61 7 0) \<and>
   fst (genID 61 7 256) = fst (genID 61 7 0)"
proof -
  have "take_bit 24 (8 :: u32) \<noteq> take_bit 24 9" "take_bit 24 (8 :: u32) = take_bit 24 0x1000008" by (simp_all add: take_bit_eq_mod)
  then show ?thesis using flow_log_ids [where s = 3 and s' = 3 and t = 60 and c = 7 and t' = 60 and c' = 8]
      flow_log_ids [where s = 3 and s' = 3 and t = 60 and c = 7 and t' = 60 and c' = "0x1000007"]
      flow_log_ids [where s = 3 and s' = 3 and t = 61 and c = 7 and t' = 61 and c' = 7] by simp
qed

section \<open>Panics\<close>

text \<open>The matcher of services returns indexes of the list it was built from.\<close>

definition services_ok :: "ServiceTable \<Rightarrow> bool" where
  "services_ok s \<longleftrightarrow> (\<forall>query e ip protocol port. QueryServer s = Some query \<longrightarrow> list_all (\<lambda>i. i < length (services s)) (query e ip protocol port))"

lemma first_service_ok: "list_all (\<lambda>i. i < length ss) is \<Longrightarrow> first_service ss is \<noteq> None"
  by (induction "is") auto

lemma graph_spec_ok: "services_ok s \<Longrightarrow> graph_spec t s key0 key1 port tapSide protocol k \<noteq> None"
proof -
  assume "services_ok s"
  then have q: "QueryIsKeyServiceAndID s e ip pr po \<noteq> None" for e ip pr po
    using first_service_ok by (auto simp: services_ok_def QueryIsKeyServiceAndID_def Let_def split: option.split)
  have "fill_service0 s False key pr k \<noteq> None" "fill_service1 s False key pr po k \<noteq> None" for key pr po k
    using q by (simp_all add: fill_service0_def fill_service1_def fill_service_def)
  then obtain k0 k1 where "fill_service0 s False key0 protocol (side_spec t tapSide key0 (kg_0 k)) = Some k0"
    "fill_service1 s False key1 protocol port (side_spec t tapSide key1 (kg_1 k)) = Some k1" by fast
  then show ?thesis by (simp add: graph_spec_def)
qed

definition perf_missing :: "pb_Flow \<Rightarrow> bool" where
  "perf_missing f \<longleftrightarrow> pf_HasPerfStats f = 1 \<and> (case pf_PerfStats f of None \<Rightarrow> True | Some s \<Rightarrow> pp_L7 s = None \<or> pp_Tcp s = None)"

lemma flow_log_panics:
  assumes "\<forall>i. int (length (fresh i)) = BLOCK_SIZE" "cache_true t" "services_ok svc"
    and "TaggedFlow_IsValid p" "ptf_Flow p = Some f" "pf_EthType f \<noteq> EthernetTypeIPv6"
  shows "TaggedFlowToLogger u svc province fresh p shardID (counter, t) = None \<longleftrightarrow> 43 \<le> (ucast (pf_TapSide f) :: u8) \<or> perf_missing f"
proof -
  from assms(4,5) obtain key src dst tunnel where parts: "pf_FlowKey f = Some key" "pf_MetricsPeerSrc f = Some src" "pf_MetricsPeerDst f = Some dst"
    "pf_Tunnel f = Some tunnel" by (auto simp: TaggedFlow_IsValid_def)
  have graph: "KnowledgeGraph_FillL4 u svc fresh f False (k, t) \<noteq> None" for k
  proof -
    obtain k0 k1 port tapSide protocol where "KnowledgeGraph_FillL4 u svc fresh f False (k, t) = KnowledgeGraph_fill u svc fresh False k0 k1 port tapSide protocol (k, t)"
      by (simp add: KnowledgeGraph_FillL4_def parts)
    moreover obtain t' where "KnowledgeGraph_fill u svc fresh False k0 k1 port tapSide protocol (k, t) =
        map_option (\<lambda>k. (k, t')) (graph_spec t svc k0 k1 port tapSide protocol k)" using KnowledgeGraph_fill_true [OF assms(1,2)] by blast
    ultimately show ?thesis using graph_spec_ok [OF assms(3)] by simp
  qed
  have fills: "DataLinkLayer_Fill f d \<noteq> None" "NetworkLayer_Fill f b n \<noteq> None" "TransportLayer_Fill f x \<noteq> None" "Internet_Fill province f i \<noteq> None"
    "FlowInfo_Fill f fi = None \<longleftrightarrow> 43 \<le> (ucast (pf_TapSide f) :: u8)" "Metrics_Fill f m = None \<longleftrightarrow> perf_missing f"
    "\<not> perf_missing f \<Longrightarrow> ApplicationLayer_Fill f a \<noteq> None" for d b n x i fi m a
    by (auto simp: DataLinkLayer_Fill_def NetworkLayer_Fill_def TransportLayer_Fill_def Internet_Fill_def FlowInfo_Fill_def Metrics_Fill_def ApplicationLayer_Fill_def
        parts perf_missing_def TAPSide_String_None [symmetric] SplitToPortTypeTunnel_def Let_def split: option.splits bind_splits)
  have f: "(pf_EthType f = EthernetTypeIPv6) = False" using assms(6) by simp
  obtain d n x i where fill: "DataLinkLayer_Fill f DataLinkLayer_zero = Some d" "NetworkLayer_Fill f False NetworkLayer_zero = Some n"
    "TransportLayer_Fill f TransportLayer_zero = Some x" "Internet_Fill province f Internet_zero = Some i" using fills(1-4) by fast
  obtain k t' where k: "KnowledgeGraph_FillL4 u svc fresh f False (KnowledgeGraph_zero, t) = Some (k, t')" using graph by fast
  have "lg_DataLinkLayer AcquireFlowLogger = DataLinkLayer_zero" "lg_NetworkLayer AcquireFlowLogger = NetworkLayer_zero"
    "lg_TransportLayer AcquireFlowLogger = TransportLayer_zero" "lg_Internet AcquireFlowLogger = Internet_zero"
    "lg_KnowledgeGraph AcquireFlowLogger = KnowledgeGraph_zero" by (simp_all add: AcquireFlowLogger_def FlowLogger_zero_def)
  then show ?thesis
    using fills(5,6) fills(7) [of "lg_ApplicationLayer AcquireFlowLogger"]
    by (auto simp: TaggedFlowToLogger_def assms(5) f fill k Let_def genID_def split: bind_splits)
qed

text \<open>
  C23: The conversion of a received IPv4 flow that passed the validity test of the decoder panics in two cases only: the byte of
  its capture side is not below 43, or it announces performance data of which a part is missing. The test covers neither.
\<close>

theorem flow_log_panics_iff:
  assumes "\<forall>i. int (length (fresh i)) = BLOCK_SIZE" "cache_true t" "services_ok svc"
    and "TaggedFlow_IsValid p" "ptf_Flow p = Some f" "pf_EthType f \<noteq> EthernetTypeIPv6"
  shows "TaggedFlowToLogger u svc province fresh p shardID (counter, t) = None \<longleftrightarrow> 43 \<le> (ucast (pf_TapSide f) :: u8) \<or> perf_missing f"
  by (rule flow_log_panics [OF assms])

definition no_services :: ServiceTable where
  "no_services = \<lparr>QueryServer = None, QueryServerIPv6 = (\<lambda>_ _ _ _. []), services = []\<rparr>"

definition side_flow :: "u32 \<Rightarrow> pb_Flow" where
  "side_flow side = (the (ptf_Flow NewTaggedFlow))\<lparr>pf_TapSide := side\<rparr>"

lemma sample_true: "cache_true (install_data () (sample_data 3) (NewPlatformInfoTable ()))"
  by (rule install_true) (simp add: sample_data_def sample_info_def)

theorem flow_log_panics_iff_witness:
  "TaggedFlowToLogger sample_ops no_services (\<lambda>_. []) (\<lambda>_. replicate 256 blankU64LRUNodeForInit) \<lparr>ptf_Flow = Some (side_flow 50)\<rparr> 0
     (0, install_data () (sample_data 3) (NewPlatformInfoTable ())) = None \<and>
   TaggedFlowToLogger sample_ops no_services (\<lambda>_. []) (\<lambda>_. replicate 256 blankU64LRUNodeForInit) \<lparr>ptf_Flow = Some (side_flow 1)\<rparr> 0
     (0, install_data () (sample_data 3) (NewPlatformInfoTable ())) \<noteq> None"
proof -
  have p: "TaggedFlow_IsValid \<lparr>ptf_Flow = Some (side_flow side)\<rparr>" "pf_EthType (side_flow side) \<noteq> EthernetTypeIPv6" "\<not> perf_missing (side_flow side)"
    "pf_TapSide (side_flow side) = side" for side
    by (simp_all add: TaggedFlow_IsValid_def side_flow_def NewTaggedFlow_def EthernetTypeIPv6_def perf_missing_def pb_Flow_zero_def)
  have s: "services_ok no_services" by (simp add: services_ok_def no_services_def)
  have "\<not> 43 \<le> (1 :: u8)" by (simp add: word_le_nat_alt)
  then show ?thesis
    using flow_log_panics_iff [OF _ sample_true s p(1), of "\<lambda>_. replicate 256 blankU64LRUNodeForInit" 50 "side_flow 50" sample_ops "\<lambda>_. []" 0 0]
      flow_log_panics_iff [OF _ sample_true s p(1), of "\<lambda>_. replicate 256 blankU64LRUNodeForInit" 1 "side_flow 1" sample_ops "\<lambda>_. []" 0 0] p
    by (simp add: BLOCK_SIZE_def)
qed

section \<open>From a flow to its log\<close>

definition flow_metrics :: "Flow \<Rightarrow> FlowPerfStats \<Rightarrow> Metrics" where
  "flow_metrics f s = (let src = fw_PeerSrc f; dst = fw_PeerDst f; tcp = fp_TCP s; l7 = fp_L7 s in
     \<lparr>me_PacketTx = fm_PacketCount src, me_PacketRx = fm_PacketCount dst, me_ByteTx = fm_ByteCount src, me_ByteRx = fm_ByteCount dst,
      me_L3ByteTx = fm_L3ByteCount src, me_L3ByteRx = fm_L3ByteCount dst, me_L4ByteTx = fm_L4ByteCount src, me_L4ByteRx = fm_L4ByteCount dst,
      me_TotalPacketTx = fm_TotalPacketCount src, me_TotalPacketRx = fm_TotalPacketCount dst,
      me_TotalByteTx = fm_TotalByteCount src, me_TotalByteRx = fm_TotalByteCount dst,
      me_L7Request = lp_RequestCount l7, me_L7Response = lp_ResponseCount l7,
      me_RTT = tp_RTT tcp, me_RTTClientSum = tp_RTTClientSum tcp, me_RTTServerSum = tp_RTTServerSum tcp, me_SRTSum = tp_SRTSum tcp,
      me_ARTSum = tp_ARTSum tcp, me_RRTSum = lp_RRTSum l7,
      me_RTTClientCount = tp_RTTClientCount tcp, me_RTTServerCount = tp_RTTServerCount tcp, me_SRTCount = tp_SRTCount tcp,
      me_ARTCount = tp_ARTCount tcp, me_RRTCount = lp_RRTCount l7,
      me_RTTClientMax = tp_RTTClientMax tcp, me_RTTServerMax = tp_RTTServerMax tcp, me_SRTMax = tp_SRTMax tcp, me_ARTMax = tp_ARTMax tcp,
      me_RRTMax = lp_RRTMax l7,
      me_RetransTx = tc_RetransCount (tp_CountsPeer0 tcp), me_RetransRx = tc_RetransCount (tp_CountsPeer1 tcp),
      me_ZeroWinTx = tc_ZeroWinCount (tp_CountsPeer0 tcp), me_ZeroWinRx = tc_ZeroWinCount (tp_CountsPeer1 tcp),
      me_L7ClientError = lp_ErrClientCount l7, me_L7ServerError = lp_ErrServerCount l7, me_L7ServerTimeout = lp_ErrTimeout l7,
      me_L7Error = lp_ErrClientCount l7 + lp_ErrServerCount l7\<rparr>)"

lemma Metrics_Fill_flow:
  assumes "fw_PerfStats f = Some s" "fp_L4Protocol s = L4_PROTOCOL_TCP"
  shows "Metrics_Fill (Flow_WriteToPB f p) Metrics_zero = Some (flow_metrics f s)"
  using assms
  by (simp add: Metrics_Fill_def Flow_WriteToPB_def FlowMetricsPeer_WriteToPB_def FlowPerfStats_WriteToPB_def TCPPerfStats_WriteToPB_def
      L7PerfStats_WriteToPB_def TcpPerfCountsPeer_WriteToPB_def flow_metrics_def Metrics_zero_def Let_def)

lemma ucast_back [simp]: "ucast (ucast x :: u32) = (x :: u8)" "ucast (ucast y :: u32) = (y :: u16)"
  "ucast (ucast (ucast x :: u32) :: u16) = (x :: u8)"
  by (rule bit_word_eqI, auto simp: bit_simps)+

lemma flow_message_valid: "TaggedFlow_IsValid (TaggedFlow_WriteToPB tf p)"
  by (simp add: TaggedFlow_IsValid_def TaggedFlow_WriteToPB_def Flow_WriteToPB_def)

lemma TaggedFlowToLogger_fills:
  assumes "TaggedFlowToLogger u svc province fresh p shardID (counter, t) = Some (l, counter', t')" "ptf_Flow p = Some f"
  shows "DataLinkLayer_Fill f DataLinkLayer_zero = Some (lg_DataLinkLayer l)"
    "NetworkLayer_Fill f (pf_EthType f = EthernetTypeIPv6) NetworkLayer_zero = Some (lg_NetworkLayer l)"
    "TransportLayer_Fill f TransportLayer_zero = Some (lg_TransportLayer l)" "FlowInfo_Fill f FlowInfo_zero = Some (lg_FlowInfo l)"
    "Metrics_Fill f Metrics_zero = Some (lg_Metrics l)" "counter' = counter + 1"
  using assms by (auto simp: TaggedFlowToLogger_def genID_def Let_def AcquireFlowLogger_def FlowLogger_zero_def bind_eq_Some_conv)

text \<open>
  C9: What a flow counted is what its log says, whatever flow the message carried before: a TCP flow over IPv4
  that is written into a used message and received is logged without a panic when its capture side is below 43, with its
  counters and times, its addresses, ports and hardware addresses and its identifier; the counter of
  identifiers moves by one.
\<close>

theorem flow_reaches_log:
  assumes "\<forall>i. int (length (fresh i)) = BLOCK_SIZE" "cache_true t" "services_ok svc"
    and "fw_TapSide (tf_Flow tf) < 43" "fw_EthType (tf_Flow tf) \<noteq> 0x86dd" "fw_PerfStats (tf_Flow tf) = Some s" "fp_L4Protocol s = L4_PROTOCOL_TCP"
  shows "\<exists>l t'. TaggedFlowToLogger u svc province fresh (TaggedFlow_WriteToPB tf p) shardID (counter, t) = Some (l, counter + 1, t') \<and>
    (let f = tf_Flow tf; k = fw_Key f; n = lg_NetworkLayer l; i = lg_FlowInfo l in
     lg_Metrics l = flow_metrics f s \<and>
     lg_DataLinkLayer l = \<lparr>dl_MAC0 = fk_MACSrc k, dl_MAC1 = fk_MACDst k, dl_EthType = fw_EthType f, dl_VLAN = fw_VLAN f\<rparr> \<and>
     nl_IsIPv4 n \<and> nl_IP40 n = fk_IPSrc k \<and> nl_IP41 n = fk_IPDst k \<and> nl_Protocol n = fk_Proto k \<and>
     tr_ClientPort (lg_TransportLayer l) = fk_PortSrc k \<and> tr_ServerPort (lg_TransportLayer l) = fk_PortDst k \<and>
     fi_FlowID i = fw_FlowID f \<and> fi_StartTime i = quot64 (fw_StartTime f) 1000 \<and> fi_EndTime i = quot64 (fw_EndTime f) 1000 \<and>
     fi_VtapID i = fk_VtapId k \<and> fi_L3End0 i = fm_IsL3End (fw_PeerSrc f) \<and> fi_Status i = getStatus (fw_CloseType f))"
proof -
  define f where "f = tf_Flow tf"
  define q where "q = Flow_WriteToPB f (or_new pb_Flow_zero (ptf_Flow p))"
  have q: "ptf_Flow (TaggedFlow_WriteToPB tf p) = Some q" by (simp add: q_def f_def TaggedFlow_WriteToPB_def)
  have e: "pf_EthType q \<noteq> EthernetTypeIPv6"
  proof
    assume "pf_EthType q = EthernetTypeIPv6"
    then have "ucast (pf_EthType q) = (0x86dd :: u16)" by (simp add: EthernetTypeIPv6_def)
    then show False using assms(5) by (simp add: q_def f_def Flow_WriteToPB_def)
  qed
  have perf: "\<not> perf_missing q" using assms(6) by (simp add: perf_missing_def q_def f_def Flow_WriteToPB_def FlowPerfStats_WriteToPB_def)
  have side: "\<not> 43 \<le> (ucast (pf_TapSide q) :: u8)" using assms(4) by (simp add: q_def f_def Flow_WriteToPB_def)
  from flow_log_panics [OF assms(1-3) flow_message_valid q e, of u province shardID counter] perf side
  obtain l c t' where l: "TaggedFlowToLogger u svc province fresh (TaggedFlow_WriteToPB tf p) shardID (counter, t) = Some (l, c, t')" by auto
  note fills = TaggedFlowToLogger_fills [OF l q]
  have m: "lg_Metrics l = flow_metrics f s" using fills(5) Metrics_Fill_flow [OF assms(6,7), folded f_def] by (simp add: q_def)
  have d: "lg_DataLinkLayer l = \<lparr>dl_MAC0 = fk_MACSrc (fw_Key f), dl_MAC1 = fk_MACDst (fw_Key f), dl_EthType = fw_EthType f, dl_VLAN = fw_VLAN f\<rparr>"
    using fills(1) by (auto simp: DataLinkLayer_Fill_def q_def Flow_WriteToPB_def FlowKey_WriteToPB_def DataLinkLayer_zero_def)
  have n: "nl_IsIPv4 (lg_NetworkLayer l)" "nl_IP40 (lg_NetworkLayer l) = fk_IPSrc (fw_Key f)" "nl_IP41 (lg_NetworkLayer l) = fk_IPDst (fw_Key f)"
    "nl_Protocol (lg_NetworkLayer l) = fk_Proto (fw_Key f)"
    using fills(2) [symmetric] e by (auto simp: NetworkLayer_Fill_def q_def Flow_WriteToPB_def FlowKey_WriteToPB_def Let_def split: if_splits)
  have x: "tr_ClientPort (lg_TransportLayer l) = fk_PortSrc (fw_Key f)" "tr_ServerPort (lg_TransportLayer l) = fk_PortDst (fw_Key f)"
    using fills(3) [symmetric] by (auto simp: TransportLayer_Fill_def q_def Flow_WriteToPB_def FlowKey_WriteToPB_def)
  obtain side where sd: "TAPSide_String (fw_TapSide f) = Some side" using assms(4) TAPSide_String_None [of "fw_TapSide f"] by (auto simp: f_def)
  have i: "fi_FlowID (lg_FlowInfo l) = fw_FlowID f" "fi_StartTime (lg_FlowInfo l) = quot64 (fw_StartTime f) 1000"
    "fi_EndTime (lg_FlowInfo l) = quot64 (fw_EndTime f) 1000" "fi_VtapID (lg_FlowInfo l) = fk_VtapId (fw_Key f)"
    "fi_L3End0 (lg_FlowInfo l) = fm_IsL3End (fw_PeerSrc f)" "fi_Status (lg_FlowInfo l) = getStatus (fw_CloseType f)"
    using fills(4) [symmetric] by (auto simp: FlowInfo_Fill_def q_def Flow_WriteToPB_def FlowKey_WriteToPB_def FlowMetricsPeer_WriteToPB_def Bool2UInt32_def
        SplitToPortTypeTunnel_def Let_def sd)
  show ?thesis unfolding f_def [symmetric] Let_def using l fills(6) m d n x i by blast
qed

definition tcp_stats :: FlowPerfStats where
  "tcp_stats = FlowPerfStats_zero\<lparr>fp_L4Protocol := L4_PROTOCOL_TCP\<rparr>"

definition tcp_flow :: TaggedFlow where
  "tcp_flow = TaggedFlow_zero\<lparr>tf_Flow := Flow_zero\<lparr>fw_TapSide := 1, fw_PerfStats := Some tcp_stats\<rparr>\<rparr>"

theorem flow_reaches_log_witness:
  "\<exists>l t'. TaggedFlowToLogger sample_ops no_services (\<lambda>_. []) (\<lambda>_. replicate 256 blankU64LRUNodeForInit) (TaggedFlow_WriteToPB tcp_flow NewTaggedFlow) 0
     (7, install_data () (sample_data 3) (NewPlatformInfoTable ())) = Some (l, 8, t') \<and> lg_Metrics l = flow_metrics (tf_Flow tcp_flow) tcp_stats"
proof -
  have f: "fw_TapSide (tf_Flow tcp_flow) < 43" "fw_EthType (tf_Flow tcp_flow) \<noteq> 0x86dd" "fw_PerfStats (tf_Flow tcp_flow) = Some tcp_stats"
    "fp_L4Protocol tcp_stats = L4_PROTOCOL_TCP" by (simp_all add: tcp_flow_def tcp_stats_def Flow_zero_def word_less_nat_alt)
  have s: "services_ok no_services" by (simp add: services_ok_def no_services_def)
  show ?thesis
    using flow_reaches_log [OF _ sample_true s f, of "\<lambda>_. replicate 256 blankU64LRUNodeForInit" sample_ops "\<lambda>_. []" NewTaggedFlow 0 7]
    unfolding Let_def by (auto simp: BLOCK_SIZE_def)
qed

end
