(* ===== verification/Spec2Isabelle.thy ===== *)
theory Spec2Isabelle
  imports Codec_Messages Prefix_Varint Meter Overwrite_Queue Stats_Message Policy_Data Lru_Map U128_Lru Possible_Host Decapsulate Tap_Port Documents Doc_Text Packet_Sequence Flow_Data Platform_Info Flow_Log_Laws
begin

text \<open>
  A verification development for the server side of MetaFlow, a Go program that receives flow
  metrics and logs from agents, completes them with platform data, merges them and writes them to
  ClickHouse. Names below are relative to \<^verbatim>\<open>src/server/libs\<close>, those of the ingester to \<^verbatim>\<open>src/server\<close>.

  \<^bold>\<open>How the parts interact.\<close> Agents send messages in the binary format of \<^verbatim>\<open>codec\<close>: documents (\<^verbatim>\<open>app\<close>,
  a tag and a meter of \<^verbatim>\<open>zerodoc\<close>), flows and packet sequences (\<^verbatim>\<open>datatype\<close>) and statistics (\<^verbatim>\<open>stats\<close>). The
  server takes them from the queues of \<^verbatim>\<open>queue\<close>, asks \<^verbatim>\<open>grpc\<close> for what is known of their addresses, with
  the caches of \<^verbatim>\<open>hmap\<close> before the tables, makes log records of flows (\<^verbatim>\<open>ingester/stream\<close>) and writes rows into
  the blocks and tables of \<^verbatim>\<open>ckdb\<close>.

  \<^bold>\<open>Parts and theories.\<close>

  \<^item> \<^verbatim>\<open>codec\<close>, \<^verbatim>\<open>pool/reference_count.go\<close>: the binary format. \<open>Codec\<close> translates the
    encoder and the decoder, variable length integers and the protobuf bridge; \<open>Codec_Laws\<close> has
    the interfaces \<open>field_codec\<close> (what is written is read back), \<open>cursor_read\<close> (what a read does on
    arbitrary bytes) and their pairings, interpreted on each operation; \<open>Codec_Messages\<close> composes fields into
    messages and states the properties; \<open>Prefix_Varint\<close> is \<^verbatim>\<open>codec/prefix_varint_codec.go\<close>.
  \<^item> \<^verbatim>\<open>ckdb\<close>: \<open>Ckdb\<close> translates the typed writes of a block, the descriptions of columns and the statements
    of a table, with the laws of rows.
  \<^item> \<^verbatim>\<open>zerodoc\<close>, meters: \<open>Meter_Spec\<close> has the interfaces \<open>mergeable\<close> and \<open>directed_merge\<close>, the text output and the
    conversion to floating point; \<open>Basic_Meter\<close>, \<open>Usage_Meter\<close> and \<open>App_Meter\<close> translate the counters,
    \<open>Meter\<close> their compositions, the dispatch over the kinds of meter, and the properties.
  \<^item> \<^verbatim>\<open>zerodoc\<close>, tags: \<open>Doc_Tag\<close> has the codes, fields, columns and rows of a tag, \<open>Doc_Tables\<close> the tables of
    metrics, \<open>Mini_Tag\<close> the small tag of agents with its message, \<open>Doc_Text\<close> the text of tags and addresses.
    \<open>Tap_Port\<close> is \<^verbatim>\<open>datatype/tap_port.go\<close>.
  \<^item> \<^verbatim>\<open>app\<close>: \<open>Documents\<close> composes tags and meters into documents: encoding, decoding, table and row.
  \<^item> \<^verbatim>\<open>queue\<close>: \<open>Overwrite_Queue\<close>, a ring that overwrites its oldest items, with the interface
    \<open>overwriting_fifo\<close> and a transition system of readers and writers.
  \<^item> \<^verbatim>\<open>hmap/lru\<close>: \<open>U64_Lru\<close> translates the map with its ring of nodes, hash chains and list of use;
    \<open>Linked_Lists\<close>, \<open>Lru_Lists\<close> and \<open>Lru_Laws\<close> have the laws of lists linked by positions and of each step,
    \<open>Lru_Map\<close> the refinement of the abstract cache, with the interface \<open>lru_cache\<close>. \<open>U128_Lru\<close> is the map with
    keys of 128 bits, \<open>Possible_Host\<close> a client of the map with keys of 64 bits, \<^verbatim>\<open>possible/host.go\<close>.
  \<^item> \<^verbatim>\<open>datatype\<close>: \<open>Decapsulate\<close> removes the headers of tunnels; \<open>Policy_Data\<close> has packed actions with the
    interface \<open>bit_field\<close> and the merging of policies; \<open>Packet_Sequence\<close> decodes compressed packet headers, with
    a state monad over the decoder; \<open>Flow_Data\<close> has flows, their pieces (interface \<open>sequential_merge\<close>) and
    their messages.
  \<^item> \<^verbatim>\<open>grpc/grpc_platformdata.go\<close>: \<open>Platform_Info\<close>, queries over tables and a cache of \<open>Lru_Map\<close>, and the view
    of them without cache and maps that the answers are compared with. Installing new data is one step.
  \<^item> \<^verbatim>\<open>ingester/stream/jsonify/data.go\<close>, \<^verbatim>\<open>ingester/common/common.go\<close>: \<open>Knowledge_Graph\<close> has the resources behind the two
    addresses of a log, filled from the platform data; \<open>Flow_Log\<close> the layers of a flow record, from the message to the
    row and its table; \<open>Flow_Log_Laws\<close> what of a flow reaches its log, when the conversion panics, and the identifiers.
  \<^item> \<^verbatim>\<open>stats/message.go\<close>: \<open>Stats_Message\<close>, a client of the codec, the blocks and the tables.
  \<open>Go_Prelude\<close> has the integer types, byte orders and slices they share.

  \<^bold>\<open>Correspondence.\<close> A struct is a record and a method a function of the same name, with the type as
  a prefix where names clash. Unsigned integers of a fixed width are words, lengths and offsets
  natural numbers. A slice is a list; where the bytes behind a slice matter (prefix coded
  integers) the decoder carries them. A pointer to a part of a message is an option, a pointer that several
  records share an address in a store (the hit counters of the platform data). \<open>None\<close> is a panic, \<open>Inl\<close> an error
  value, and an error that may be nil an option. Operations take the receiver last and return it
  updated. The generated protobuf code, the ClickHouse driver, the map generated from a template for IPv6 keys, column
  comments, the matcher of services (\<^verbatim>\<open>grpc/labeler.go\<close>), the provinces of addresses and the blocks handed out by a pool are arguments, with what is used of them as premises of the theorems.

  \<^bold>\<open>What is shown.\<close> Messages, documents, statistics, policies and packet sequences are read back whatever their
  fields, up to one field of the tag of a document that the server does not read, a truncated message is noticed, and the failure counter can be tested once at the end;
  decoding a packet sequence ends on every input; a reused message keeps nothing of the flow or document before it, up to
  one stated flag; the unrolled integer decoder equals the loop. Merging is independent of order and direction, pieces of
  a flow add up; rows fit the columns of their table; texts fit their buffer. The queue is a bounded FIFO for one
  reader, and its counter wraps with two. The map is a cache that drops what was used longest ago, and the answers of the platform
  data, and the resources in a flow record, are those of the tables last loaded. The counters of a flow are those in its
  record. Policies cover what was merged into them, and removing tunnels stays in the packet.
  Properties of the kind \<^emph>\<open>error\<close> state what the code does where it departs from what it means to do.

  \<^bold>\<open>Bounds.\<close> No fuel is used: a loop is a structural recursion, has a measure (the shift of a variable length
  integer below 64, the exponent of a queue size below 32), or is a partial function whose
  result is proved to exist (the walks over the lists of a map, the loops over packets). Natural numbers stand for \<^verbatim>\<open>int\<close> and
  \<^verbatim>\<open>uint\<close> where the source cannot exceed 63 bits; the pending counter of the queue, which can wrap, is kept modulo
  \<open>2 ^ 64\<close>. Positions in a map are integers, the source's 32 bits suffice for capacities below \<open>2 ^ 31 - 512\<close>. Packets and
  received bytes have no capacity beyond their length, and pools return zeroed objects, as every release leaves them.

  \<^bold>\<open>Not modelled.\<close> The log of requests and the decoders of \<^verbatim>\<open>ingester/stream\<close>, and goroutine scheduling below the granularity of a lock, logging, statistics registration, sockets and
  files, command lines, debug prints and generated code. Of the platform data, the session with the controller and the
  parsing of received interfaces. The controller, the querier, the agent and the ingester around these libraries
  are services over a database, a network or a parser outside the repository.
\<close>

end
